(* ===== verification/Base.thy ===== *)
theory Base
  imports Complex_Main "HOL-Library.List_Lexorder" "HOL-Library.Char_ord" "HOL-Library.Sublist"
    "HOL-Library.Multiset"
begin

text \<open>
  Prelude of the development: the error monad that stands for the scripts' exceptions, the
  string operations the scripts use, and the list and map lemmas that the component theories
  share.

  A script raises an exception; its model returns \<open>Inl e\<close> with a constructor of the component's
  own error type, which carries the values the message interpolates. Strings are lists of
  characters (\<open>string\<close>) and stand for the ASCII part of Python's strings; \<open>sorted\<close> on strings is
  \<open>sort\<close> in the order of \<open>HOL-Library.List_Lexorder\<close> over \<open>HOL-Library.Char_ord\<close>, which is
  Python's code point order.
\<close>

named_theorems monad_simps \<open>inversion rules of the error monad\<close>
named_theorems str_simps \<open>evaluation rules of the string operations\<close>

section \<open>The error monad\<close>

definition ebind :: "'e + 'a \<Rightarrow> ('a \<Rightarrow> 'e + 'b) \<Rightarrow> 'e + 'b" where
  "ebind m f = (case m of Inl e \<Rightarrow> Inl e | Inr x \<Rightarrow> f x)"

text \<open>
  Evaluation by \<open>code_simp\<close> unfolds the binding to its case distinction, so that a continuation is
  evaluated only once its argument is known.
\<close>

declare ebind_def [code_unfold]

definition eguard :: "bool \<Rightarrow> 'e \<Rightarrow> 'e + unit" where
  "eguard b e = (if b then Inr () else Inl e)"

definition want_some :: "'a option \<Rightarrow> 'e \<Rightarrow> 'e + 'a" where
  "want_some x e = (case x of None \<Rightarrow> Inl e | Some y \<Rightarrow> Inr y)"

definition map_err :: "('e \<Rightarrow> 'f) \<Rightarrow> 'e + 'a \<Rightarrow> 'f + 'a" where
  "map_err g m = (case m of Inl e \<Rightarrow> Inl (g e) | Inr x \<Rightarrow> Inr x)"

fun emap :: "('a \<Rightarrow> 'e + 'b) \<Rightarrow> 'a list \<Rightarrow> 'e + 'b list" where
  "emap f [] = Inr []"
| "emap f (x # xs) = ebind (f x) (\<lambda>y. ebind (emap f xs) (\<lambda>ys. Inr (y # ys)))"

fun efold :: "('s \<Rightarrow> 'a \<Rightarrow> 'e + 's) \<Rightarrow> 's \<Rightarrow> 'a list \<Rightarrow> 'e + 's" where
  "efold f s [] = Inr s"
| "efold f s (x # xs) = ebind (f s x) (\<lambda>s'. efold f s' xs)"

definition isOK :: "'e + 'a \<Rightarrow> bool" where
  "isOK m \<longleftrightarrow> (case m of Inl _ \<Rightarrow> False | Inr _ \<Rightarrow> True)"

lemma ebind_simps [simp]: "ebind (Inl e) f = Inl e" "ebind (Inr x) f = f x"
  by (simp_all add: ebind_def)

text \<open>As a congruence rule it keeps the continuation untouched until its argument is known.\<close>

lemma ebind_step: "m = m' \<Longrightarrow> ebind m f = ebind m' f"
  by simp

lemma ebind_Inr_iff [monad_simps]:
  "ebind m f = Inr z \<longleftrightarrow> (\<exists>x. m = Inr x \<and> f x = Inr z)"
  by (cases m) auto

lemma Inr_ebind_iff [monad_simps]:
  "Inr z = ebind m f \<longleftrightarrow> (\<exists>x. m = Inr x \<and> f x = Inr z)"
  by (cases m) auto

lemma ebind_Inl_iff:
  "ebind m f = Inl e \<longleftrightarrow> m = Inl e \<or> (\<exists>x. m = Inr x \<and> f x = Inl e)"
  by (cases m) auto

lemma ebind_ex:
  "(\<exists>z. ebind m f = Inr z \<and> P z) \<longleftrightarrow> (\<exists>x. m = Inr x \<and> (\<exists>z. f x = Inr z \<and> P z))"
  by (cases m) auto

lemma ebind_assoc: "ebind (ebind m f) g = ebind m (\<lambda>x. ebind (f x) g)"
  by (cases m) simp_all

lemma eguard_Inr [simp, monad_simps]: "eguard b e = Inr u \<longleftrightarrow> b"
  by (simp add: eguard_def)

lemma eguard_Inl [simp]: "eguard b e = Inl e' \<longleftrightarrow> \<not> b \<and> e' = e"
  by (auto simp: eguard_def)

lemma eguard_bool [simp]: "eguard True e = Inr ()" "eguard False e = Inl e"
  by (simp_all add: eguard_def)

lemma want_some_simps [simp]: "want_some None e = Inl e" "want_some (Some y) e = Inr y"
  by (simp_all add: want_some_def)

lemma want_some_Inr [monad_simps]: "want_some x e = Inr y \<longleftrightarrow> x = Some y"
  by (cases x) auto

lemma map_err_simps [simp]: "map_err g (Inl e) = Inl (g e)" "map_err g (Inr x) = Inr x"
  by (simp_all add: map_err_def)

lemma map_err_Inr [simp, monad_simps]: "map_err g m = Inr x \<longleftrightarrow> m = Inr x"
  by (cases m) auto

lemma isOK_simps [simp]: "isOK (Inr x)" "\<not> isOK (Inl e)"
  by (simp_all add: isOK_def)

lemma isOK_iff: "isOK m \<longleftrightarrow> (\<exists>x. m = Inr x)"
  by (cases m) auto

lemma isOK_want_some [simp]: "isOK (want_some x e) \<longleftrightarrow> x \<noteq> None"
  by (cases x) auto

lemma isOK_ebind [simp]: "isOK (ebind m f) \<longleftrightarrow> (\<exists>x. m = Inr x \<and> isOK (f x))"
  by (cases m) auto

lemma isOK_eguard [simp]: "isOK (eguard b e) \<longleftrightarrow> b"
  by (simp add: eguard_def)

lemma not_isOK: "\<not> isOK m \<longleftrightarrow> (\<exists>e. m = Inl e)"
  by (cases m) auto

lemma emap_Inr_iff [monad_simps]:
  "emap f xs = Inr ys \<longleftrightarrow> list_all2 (\<lambda>x y. f x = Inr y) xs ys"
  by (induction xs arbitrary: ys) (auto simp: monad_simps list_all2_Cons1)

lemma emap_cong [fundef_cong]:
  "xs = ys \<Longrightarrow> (\<And>x. x \<in> set ys \<Longrightarrow> f x = g x) \<Longrightarrow> emap f xs = emap g ys"
  by (induction ys arbitrary: xs) auto

lemma isOK_emap: "isOK (emap f xs) \<longleftrightarrow> (\<forall>x\<in>set xs. isOK (f x))"
  by (induction xs) (auto simp: isOK_iff monad_simps)

lemma emap_ex [simp]: "(\<exists>ys. emap f xs = Inr ys) \<longleftrightarrow> (\<forall>x \<in> set xs. isOK (f x))"
  using isOK_emap [of f xs] by (simp add: isOK_iff)

lemma emap_pure: "(\<And>x. x \<in> set xs \<Longrightarrow> f x = Inr (g x)) \<Longrightarrow> emap f xs = Inr (map g xs)"
  by (induction xs) auto

lemma efold_append: "efold f s (xs @ ys) = ebind (efold f s xs) (\<lambda>s'. efold f s' ys)"
  by (induction xs arbitrary: s) (auto simp: ebind_assoc)

section \<open>Strings\<close>

text \<open>\<open>s.startswith(p)\<close>, \<open>s.endswith(p)\<close> and \<open>p in s\<close>.\<close>

definition startswith :: "string \<Rightarrow> string \<Rightarrow> bool" where
  "startswith s p \<longleftrightarrow> prefix p s"

definition endswith :: "string \<Rightarrow> string \<Rightarrow> bool" where
  "endswith s p \<longleftrightarrow> prefix (rev p) (rev s)"

fun contains :: "string \<Rightarrow> string \<Rightarrow> bool" where
  "contains p [] \<longleftrightarrow> p = []"
| "contains p (c # s) \<longleftrightarrow> prefix p (c # s) \<or> contains p s"

text \<open>The ASCII characters \<open>str.strip\<close> removes: tab to carriage return, 0x1c to 0x1f, blank.\<close>

definition is_space :: "char \<Rightarrow> bool" where
  "is_space c \<longleftrightarrow> (let n = of_char c :: nat in (9 \<le> n \<and> n \<le> 13) \<or> (28 \<le> n \<and> n \<le> 32))"

definition lstrip :: "string \<Rightarrow> string" where
  "lstrip s = dropWhile is_space s"

definition rstrip :: "string \<Rightarrow> string" where
  "rstrip s = rev (dropWhile is_space (rev s))"

definition strip :: "string \<Rightarrow> string" where
  "strip s = rstrip (lstrip s)"

text \<open>\<open>not s.strip()\<close>: the string is empty or white space only.\<close>

definition blank :: "string \<Rightarrow> bool" where
  "blank s \<longleftrightarrow> list_all is_space s"

text \<open>\<open>str.lower\<close> and \<open>str.upper\<close> on ASCII.\<close>

definition lower_char :: "char \<Rightarrow> char" where
  "lower_char c = (let n = of_char c :: nat in if 65 \<le> n \<and> n \<le> 90 then char_of (n + 32) else c)"

definition upper_char :: "char \<Rightarrow> char" where
  "upper_char c = (let n = of_char c :: nat in if 97 \<le> n \<and> n \<le> 122 then char_of (n - 32) else c)"

definition lower :: "string \<Rightarrow> string" where
  "lower s = map lower_char s"

definition upper :: "string \<Rightarrow> string" where
  "upper s = map upper_char s"

text \<open>\<open>s.split(c)\<close> for a one-character separator: never empty.\<close>

fun split_on :: "char \<Rightarrow> string \<Rightarrow> string list" where
  "split_on c [] = [[]]"
| "split_on c (x # xs) =
     (if x = c then [] # split_on c xs
      else (case split_on c xs of [] \<Rightarrow> [[x]] | y # ys \<Rightarrow> (x # y) # ys))"

text \<open>\<open>s.splitlines()\<close>: the line breaks are line feed to carriage return and 0x1c to 0x1e.\<close>

definition is_break :: "char \<Rightarrow> bool" where
  "is_break c \<longleftrightarrow> (let n = of_char c :: nat in (10 \<le> n \<and> n \<le> 13) \<or> (28 \<le> n \<and> n \<le> 30))"

definition carriage_return :: char where
  "carriage_return = char_of (13 :: nat)"

definition line_feed :: char where
  "line_feed = char_of (10 :: nat)"

fun lines_from :: "string \<Rightarrow> string \<Rightarrow> string list" where
  "lines_from acc [] = (if acc = [] then [] else [rev acc])"
| "lines_from acc [c] = (if is_break c then [rev acc] else [rev (c # acc)])"
| "lines_from acc (c # d # s) =
     (if c = carriage_return \<and> d = line_feed then rev acc # lines_from [] s
      else if is_break c then rev acc # lines_from [] (d # s)
      else lines_from (c # acc) (d # s))"

definition splitlines :: "string \<Rightarrow> string list" where
  "splitlines s = lines_from [] s"

text \<open>\<open>sep.join(parts)\<close>.\<close>

fun join :: "string \<Rightarrow> string list \<Rightarrow> string" where
  "join sep [] = []"
| "join sep [x] = x"
| "join sep (x # y # xs) = x @ sep @ join sep (y # xs)"

definition is_digit :: "char \<Rightarrow> bool" where
  "is_digit c \<longleftrightarrow> (let n = of_char c :: nat in 48 \<le> n \<and> n \<le> 57)"

definition is_lower_letter :: "char \<Rightarrow> bool" where
  "is_lower_letter c \<longleftrightarrow> (let n = of_char c :: nat in 97 \<le> n \<and> n \<le> 122)"

definition is_upper_letter :: "char \<Rightarrow> bool" where
  "is_upper_letter c \<longleftrightarrow> (let n = of_char c :: nat in 65 \<le> n \<and> n \<le> 90)"

definition is_lower_hex :: "char \<Rightarrow> bool" where
  "is_lower_hex c \<longleftrightarrow> (let n = of_char c :: nat in (48 \<le> n \<and> n \<le> 57) \<or> (97 \<le> n \<and> n \<le> 102))"

text \<open>\<open>re.fullmatch\<close> of \<open>[0-9a-f]{n}\<close>.\<close>

definition hex_string :: "nat \<Rightarrow> string \<Rightarrow> bool" where
  "hex_string n s \<longleftrightarrow> length s = n \<and> list_all is_lower_hex s"

section \<open>Evaluation of the character tests\<close>

text \<open>The tests by the bits of a character; \<open>code_simp\<close> evaluates these equations.\<close>

lemma line_feed_code [code]: "line_feed = CHR 0x0A"
  by (simp add: line_feed_def char_of_def bit_iff_odd)

lemma carriage_return_code [code]: "carriage_return = CHR 0x0D"
  by (simp add: carriage_return_def char_of_def bit_iff_odd)

lemma is_digit_code [code]:
  "is_digit (Char a b c d e f g h) \<longleftrightarrow> \<not> h \<and> \<not> g \<and> f \<and> e \<and> (d \<longrightarrow> \<not> c \<and> \<not> b)"
  by (cases a; cases b; cases c; cases d; cases e; cases f; cases g; cases h) (simp_all add: is_digit_def)

lemma is_space_code [code]:
  "is_space (Char a b c d e f g h) \<longleftrightarrow>
     \<not> h \<and> \<not> g \<and>
     (if f then \<not> e \<and> \<not> d \<and> \<not> c \<and> \<not> b \<and> \<not> a
      else if e then d \<and> c else d \<and> (if c then \<not> b else a \<or> b))"
  by (cases a; cases b; cases c; cases d; cases e; cases f; cases g; cases h) (simp_all add: is_space_def)

lemma is_break_code [code]:
  "is_break (Char a b c d e f g h) \<longleftrightarrow>
     \<not> h \<and> \<not> g \<and> \<not> f \<and> d \<and> (if e then c \<and> \<not> (a \<and> b) else b \<noteq> c)"
  by (cases a; cases b; cases c; cases d; cases e; cases f; cases g; cases h) (simp_all add: is_break_def)

lemma is_lower_letter_code [code]:
  "is_lower_letter (Char a b c d e f g h) \<longleftrightarrow>
     \<not> h \<and> g \<and> f \<and> (a \<or> b \<or> c \<or> d \<or> e) \<and> \<not> (e \<and> d \<and> (c \<or> (a \<and> b)))"
  by (cases a; cases b; cases c; cases d; cases e; cases f; cases g; cases h) (simp_all add: is_lower_letter_def)

lemma is_upper_letter_code [code]:
  "is_upper_letter (Char a b c d e f g h) \<longleftrightarrow>
     \<not> h \<and> g \<and> \<not> f \<and> (a \<or> b \<or> c \<or> d \<or> e) \<and> \<not> (e \<and> d \<and> (c \<or> (a \<and> b)))"
  by (cases a; cases b; cases c; cases d; cases e; cases f; cases g; cases h) (simp_all add: is_upper_letter_def)

lemma is_lower_hex_code [code]:
  "is_lower_hex (Char a b c d e f g h) \<longleftrightarrow>
     \<not> h \<and> f \<and> (if g then \<not> e \<and> \<not> d \<and> (a \<or> b \<or> c) \<and> \<not> (a \<and> b \<and> c) else e \<and> (d \<longrightarrow> \<not> c \<and> \<not> b))"
  by (cases a; cases b; cases c; cases d; cases e; cases f; cases g; cases h) (simp_all add: is_lower_hex_def)

lemma lower_char_code [code]:
  "lower_char (Char a b c d e f g h) = Char a b c d e (f \<or> is_upper_letter (Char a b c d e f g h)) g h"
  by (cases a; cases b; cases c; cases d; cases e; cases f; cases g; cases h)
    (simp_all add: lower_char_def is_upper_letter_def char_of_def bit_iff_odd)

lemma upper_char_code [code]:
  "upper_char (Char a b c d e f g h) = Char a b c d e (f \<and> \<not> is_lower_letter (Char a b c d e f g h)) g h"
  by (cases a; cases b; cases c; cases d; cases e; cases f; cases g; cases h)
    (simp_all add: upper_char_def is_lower_letter_def char_of_def bit_iff_odd)

section \<open>String lemmas\<close>

lemma startswith_simps [simp, str_simps]:
  "startswith s []" "startswith [] (c # p) = False"
  "startswith (d # s) (c # p) \<longleftrightarrow> c = d \<and> startswith s p"
  by (auto simp: startswith_def)

lemma startswith_append [simp]: "startswith (p @ s) p"
  by (simp add: startswith_def)

lemma startswith_iff: "startswith s p \<longleftrightarrow> (\<exists>t. s = p @ t)"
  by (auto simp: startswith_def prefix_def)

lemma endswith_iff: "endswith s p \<longleftrightarrow> (\<exists>t. s = t @ p)"
proof -
  have "endswith s p \<longleftrightarrow> (\<exists>t. rev s = rev p @ t)"
    by (simp add: endswith_def prefix_def)
  also have "\<dots> \<longleftrightarrow> (\<exists>t. s = t @ p)"
  proof
    assume "\<exists>t. rev s = rev p @ t"
    then obtain t where "rev s = rev p @ t" ..
    then have "rev (rev s) = rev (rev p @ t)" by (simp only:)
    then show "\<exists>t. s = t @ p" by auto
  qed auto
  finally show ?thesis .
qed

lemma contains_iff: "contains p s \<longleftrightarrow> (\<exists>u v. s = u @ p @ v)"
proof (induction s)
  case Nil
  show ?case by simp
next
  case (Cons c s)
  show ?case
  proof
    assume "contains p (c # s)"
    then consider "prefix p (c # s)" | "contains p s" by auto
    then show "\<exists>u v. c # s = u @ p @ v"
    proof cases
      case 1
      then obtain v where "c # s = [] @ p @ v" by (auto simp: prefix_def)
      then show ?thesis by blast
    next
      case 2
      then obtain u v where "s = u @ p @ v" using Cons.IH by auto
      then have "c # s = (c # u) @ p @ v" by simp
      then show ?thesis by blast
    qed
  next
    assume "\<exists>u v. c # s = u @ p @ v"
    then obtain u v where uv: "c # s = u @ p @ v" by auto
    show "contains p (c # s)"
    proof (cases u)
      case Nil
      with uv have "prefix p (c # s)" by (simp add: prefix_def)
      then show ?thesis by simp
    next
      case (Cons d u')
      with uv have "s = u' @ p @ v" by simp
      then show ?thesis using Cons.IH by auto
    qed
  qed
qed

lemma strip_eq_Nil: "strip s = [] \<longleftrightarrow> blank s"
proof -
  have "strip s = [] \<longleftrightarrow> (\<forall>c \<in> set (dropWhile is_space s). is_space c)"
    by (simp add: strip_def rstrip_def lstrip_def dropWhile_eq_Nil_conv)
  also have "\<dots> \<longleftrightarrow> (\<forall>c \<in> set s. is_space c)"
    by (induction s) auto
  finally show ?thesis by (simp add: blank_def list_all_iff)
qed

lemma strip_strip [simp]: "strip (strip s) = strip s"
proof -
  let ?d = "dropWhile is_space"
  have idem: "?d (?d s) = ?d s" for s
    by (induction s) auto
  have keep: "?d (rev (?d (rev s))) = rev (?d (rev s))" if "?d s = s" for s
  proof (cases s)
    case Nil
    then show ?thesis by simp
  next
    case (Cons c t)
    then have c: "\<not> is_space c" using that by (metis dropWhile_eq_self_iff list.sel(1) list.simps(3))
    then have "?d (rev s) = ?d (rev t) @ [c] \<or> ?d (rev s) = [c]"
      by (simp add: Cons dropWhile_append)
    with c show ?thesis by auto
  qed
  have "?d (strip s) = strip s"
    unfolding strip_def rstrip_def lstrip_def by (rule keep) (rule idem)
  then show ?thesis
    by (simp add: strip_def rstrip_def lstrip_def idem)
qed

lemma blank_Nil [simp]: "blank []"
  by (simp add: blank_def)

lemma split_on_nonempty [simp]: "split_on c s \<noteq> []"
  by (cases s) (auto split: list.splits)

lemma split_on_no_sep: "c \<notin> set s \<Longrightarrow> split_on c s = [s]"
  by (induction s) auto

lemma split_on_parts_no_sep: "p \<in> set (split_on c s) \<Longrightarrow> c \<notin> set p"
proof (induction s arbitrary: p)
  case Nil
  then show ?case by simp
next
  case (Cons x xs)
  obtain y ys where split: "split_on c xs = y # ys"
    by (cases "split_on c xs") auto
  with Cons show ?case by (auto split: if_splits)
qed

lemma join_split_on: "join [c] (split_on c s) = s"
proof (induction s)
  case Nil
  show ?case by simp
next
  case (Cons x xs)
  obtain y ys where split: "split_on c xs = y # ys"
    by (cases "split_on c xs") auto
  then show ?case
  proof (cases ys)
    case Nil
    with split Cons show ?thesis by simp
  next
    case (Cons z zs)
    with split Cons.IH show ?thesis by simp
  qed
qed

section \<open>Lists and maps\<close>

text \<open>\<open>list(dict.fromkeys(xs))\<close>: the first occurrence of every element, in order.\<close>

fun dedup :: "'a list \<Rightarrow> 'a list" where
  "dedup [] = []"
| "dedup (x # xs) = x # dedup (removeAll x xs)"

text \<open>\<open>d[k] = v\<close> on an ordered dict, and \<open>{key(x): x for x in xs}\<close>.\<close>

fun assoc_set :: "('k \<times> 'v) list \<Rightarrow> 'k \<Rightarrow> 'v \<Rightarrow> ('k \<times> 'v) list" where
  "assoc_set [] k v = [(k, v)]"
| "assoc_set ((l, w) # d) k v = (if l = k then (k, v) # d else (l, w) # assoc_set d k v)"

definition dict_by :: "('a \<Rightarrow> 'k) \<Rightarrow> 'a list \<Rightarrow> ('k \<times> 'a) list" where
  "dict_by key xs = foldl (\<lambda>d x. assoc_set d (key x) x) [] xs"

lemma assoc_set_new: "map_of d k = None \<Longrightarrow> assoc_set d k v = d @ [(k, v)]"
  by (induction d k v rule: assoc_set.induct) (auto split: if_splits)

lemma map_of_assoc_set [simp]: "map_of (assoc_set d k v) = (map_of d)(k \<mapsto> v)"
  by (induction d k v rule: assoc_set.induct) auto

lemma distinct_keys_assoc_set:
  "distinct (map fst d) \<Longrightarrow> distinct (map fst (assoc_set d k v))"
proof (induction d k v rule: assoc_set.induct)
  case (2 l w d k v)
  have "fst ` set (assoc_set d k v) = insert k (fst ` set d)"
    by (induction d k v rule: assoc_set.induct) auto
  with 2 show ?case by auto
qed simp

lemma set_dedup [simp]: "set (dedup xs) = set xs"
  by (induction xs rule: dedup.induct) auto

lemma distinct_dedup [simp]: "distinct (dedup xs)"
  by (induction xs rule: dedup.induct) auto

lemma dedup_distinct: "distinct xs \<Longrightarrow> dedup xs = xs"
  by (induction xs) auto

lemma dedup_idem [simp]: "dedup (dedup xs) = dedup xs"
  by (simp add: dedup_distinct)

lemma distinct_filter_unique:
  "distinct (map f xs) \<Longrightarrow> x \<in> set xs \<Longrightarrow> filter (\<lambda>y. f y = f x) xs = [x]"
proof (induction xs)
  case Nil
  then show ?case by simp
next
  case (Cons y ys)
  then have "x \<noteq> y \<Longrightarrow> f y \<noteq> f x" by auto
  moreover have "x = y \<Longrightarrow> filter (\<lambda>y. f y = f x) ys = []"
    using Cons.prems by (auto simp: filter_empty_conv image_iff)
  ultimately show ?case using Cons by auto
qed

lemma list_all2_set1: "list_all2 P xs ys \<Longrightarrow> x \<in> set xs \<Longrightarrow> \<exists>y \<in> set ys. P x y"
  by (induction xs ys rule: list_all2_induct) auto

lemma list_all2_set2: "list_all2 P xs ys \<Longrightarrow> y \<in> set ys \<Longrightarrow> \<exists>x \<in> set xs. P x y"
  by (induction xs ys rule: list_all2_induct) auto

lemma list_all2_map_eq: "list_all2 (\<lambda>x y. f x = g y) xs ys \<Longrightarrow> map f xs = map g ys"
  by (induction xs ys rule: list_all2_induct) auto

lemma mset_map_mem:
  assumes "mset (map f xs) = mset (map g ys)" "x \<in> set xs"
  shows "\<exists>y \<in> set ys. f x = g y"
proof -
  have "f x \<in> set (map f xs)" using assms(2) by simp
  also have "\<dots> = set (map g ys)" using assms(1) by (rule mset_eq_setD)
  finally show ?thesis by auto
qed

lemma mem_sort_key [simp]: "set (sort_key f xs) = set xs"
  by simp

end
