(* ===== verification/Json.thy ===== *)
theory Json
  imports Base
begin

text \<open>
  The values the scripts handle: what \<open>json.loads\<close> and \<open>tomllib.loads\<close> return. A dict is an
  association list in insertion order with distinct keys (\<open>wf_json\<close>); \<open>None\<close> is \<open>JNull\<close>; a
  finite float is the rational number it denotes, beside the infinities and NaN that
  \<open>json.loads\<close> accepts. \<open>py_eq\<close> is Python's \<open>==\<close>, under which \<open>True == 1 == 1.0\<close> and dicts
  are compared without regard to order; \<open>truthy\<close> is the truth value; \<open>dget\<close> is \<open>dict.get\<close>.
\<close>

datatype pyfloat = Fin rat | PInf | NInf | NaN

datatype json =
    JNull
  | JBool bool
  | JInt int
  | JFloat pyfloat
  | JStr string
  | JArr "json list"
  | JObj "(string \<times> json) list"

type_synonym obj = "(string \<times> json) list"

fun wf_json :: "json \<Rightarrow> bool" where
  "wf_json (JArr xs) \<longleftrightarrow> (\<forall>x \<in> set xs. wf_json x)"
| "wf_json (JObj o') \<longleftrightarrow> distinct (map fst o') \<and> (\<forall>p \<in> set o'. wf_json (snd p))"
| "wf_json _ \<longleftrightarrow> True"

section \<open>Equality and truth value\<close>

fun num_val :: "json \<Rightarrow> pyfloat option" where
  "num_val (JBool b) = Some (Fin (if b then 1 else 0))"
| "num_val (JInt i) = Some (Fin (of_int i))"
| "num_val (JFloat x) = Some x"
| "num_val _ = None"

fun float_eq :: "pyfloat \<Rightarrow> pyfloat \<Rightarrow> bool" where
  "float_eq (Fin a) (Fin b) \<longleftrightarrow> a = b"
| "float_eq PInf PInf \<longleftrightarrow> True"
| "float_eq NInf NInf \<longleftrightarrow> True"
| "float_eq _ _ \<longleftrightarrow> False"

fun num_eq :: "json \<Rightarrow> json \<Rightarrow> bool" where
  "num_eq v w = (case (num_val v, num_val w) of (Some x, Some y) \<Rightarrow> float_eq x y | _ \<Rightarrow> False)"

fun py_eq :: "json \<Rightarrow> json \<Rightarrow> bool"
and py_eq_list :: "json list \<Rightarrow> json list \<Rightarrow> bool"
and py_eq_fields :: "obj \<Rightarrow> obj \<Rightarrow> bool" where
  "py_eq JNull w \<longleftrightarrow> w = JNull"
| "py_eq (JStr s) w \<longleftrightarrow> w = JStr s"
| "py_eq (JArr xs) w \<longleftrightarrow> (case w of JArr ys \<Rightarrow> py_eq_list xs ys | _ \<Rightarrow> False)"
| "py_eq (JObj o1) w \<longleftrightarrow>
     (case w of JObj o2 \<Rightarrow> length o1 = length o2 \<and> py_eq_fields o1 o2 | _ \<Rightarrow> False)"
| "py_eq (JBool b) w \<longleftrightarrow> num_eq (JBool b) w"
| "py_eq (JInt i) w \<longleftrightarrow> num_eq (JInt i) w"
| "py_eq (JFloat x) w \<longleftrightarrow> num_eq (JFloat x) w"
| "py_eq_list [] ys \<longleftrightarrow> ys = []"
| "py_eq_list (x # xs) ys \<longleftrightarrow>
     (case ys of [] \<Rightarrow> False | z # zs \<Rightarrow> py_eq x z \<and> py_eq_list xs zs)"
| "py_eq_fields [] o2 \<longleftrightarrow> True"
| "py_eq_fields ((k, v) # r) o2 \<longleftrightarrow>
     (case map_of o2 k of None \<Rightarrow> False | Some w \<Rightarrow> py_eq v w) \<and> py_eq_fields r o2"

fun truthy :: "json \<Rightarrow> bool" where
  "truthy JNull \<longleftrightarrow> False"
| "truthy (JBool b) \<longleftrightarrow> b"
| "truthy (JInt i) \<longleftrightarrow> i \<noteq> 0"
| "truthy (JFloat x) \<longleftrightarrow> x \<noteq> Fin 0"
| "truthy (JStr s) \<longleftrightarrow> s \<noteq> []"
| "truthy (JArr xs) \<longleftrightarrow> xs \<noteq> []"
| "truthy (JObj o') \<longleftrightarrow> o' \<noteq> []"

section \<open>Types and fields\<close>

fun is_str :: "json \<Rightarrow> bool" where
  "is_str (JStr _) \<longleftrightarrow> True" | "is_str _ \<longleftrightarrow> False"

fun is_dict :: "json \<Rightarrow> bool" where
  "is_dict (JObj _) \<longleftrightarrow> True" | "is_dict _ \<longleftrightarrow> False"

fun is_arr :: "json \<Rightarrow> bool" where
  "is_arr (JArr _) \<longleftrightarrow> True" | "is_arr _ \<longleftrightarrow> False"

fun is_bool :: "json \<Rightarrow> bool" where
  "is_bool (JBool _) \<longleftrightarrow> True" | "is_bool _ \<longleftrightarrow> False"

text \<open>\<open>isinstance(v, int)\<close> holds for booleans too; \<open>as_int\<close> is the common guard
  \<open>isinstance(v, int) and not isinstance(v, bool)\<close>.\<close>

fun is_int :: "json \<Rightarrow> bool" where
  "is_int (JInt _) \<longleftrightarrow> True" | "is_int (JBool _) \<longleftrightarrow> True" | "is_int _ \<longleftrightarrow> False"

fun as_int :: "json \<Rightarrow> int option" where
  "as_int (JInt i) = Some i" | "as_int _ = None"

fun as_str :: "json \<Rightarrow> string option" where
  "as_str (JStr s) = Some s" | "as_str _ = None"

fun as_obj :: "json \<Rightarrow> obj option" where
  "as_obj (JObj o') = Some o'" | "as_obj _ = None"

fun as_arr :: "json \<Rightarrow> json list option" where
  "as_arr (JArr xs) = Some xs" | "as_arr _ = None"

text \<open>The guard \<open>if not isinstance(v, T): fail(e)\<close>, returning the content that follows it.\<close>

definition want_str :: "json \<Rightarrow> 'e \<Rightarrow> 'e + string" where
  "want_str v e = want_some (as_str v) e"

definition want_obj :: "json \<Rightarrow> 'e \<Rightarrow> 'e + obj" where
  "want_obj v e = want_some (as_obj v) e"

definition want_arr :: "json \<Rightarrow> 'e \<Rightarrow> 'e + json list" where
  "want_arr v e = want_some (as_arr v) e"

fun as_bool :: "json \<Rightarrow> bool option" where
  "as_bool (JBool b) = Some b" | "as_bool _ = None"

definition want_bool :: "json \<Rightarrow> 'e \<Rightarrow> 'e + bool" where
  "want_bool v e = want_some (as_bool v) e"

definition want_int :: "json \<Rightarrow> 'e \<Rightarrow> 'e + int" where
  "want_int v e = want_some (as_int v) e"

definition dget :: "obj \<Rightarrow> string \<Rightarrow> json" where
  "dget d k = (case map_of d k of None \<Rightarrow> JNull | Some v \<Rightarrow> v)"

definition has_key :: "obj \<Rightarrow> string \<Rightarrow> bool" where
  "has_key d k \<longleftrightarrow> map_of d k \<noteq> None"

definition keys :: "obj \<Rightarrow> string set" where
  "keys d = set (map fst d)"

text \<open>\<open>set(d) == {...}\<close>: exactly these keys.\<close>

definition exact_keys :: "obj \<Rightarrow> string list \<Rightarrow> bool" where
  "exact_keys d ks \<longleftrightarrow> list_all (has_key d) ks \<and> list_all (\<lambda>p. fst p \<in> set ks) d"

definition get_default :: "obj \<Rightarrow> string \<Rightarrow> json \<Rightarrow> json" where
  "get_default d k v0 = (case map_of d k of None \<Rightarrow> v0 | Some v \<Rightarrow> v)"

text \<open>\<open>v.get(k) if isinstance(v, dict) else None\<close>.\<close>

definition get_in :: "json \<Rightarrow> string \<Rightarrow> json" where
  "get_in v k = (case v of JObj d \<Rightarrow> dget d k | _ \<Rightarrow> JNull)"

text \<open>Iterating over a decoded JSON value: a dict yields its keys, a string its characters.\<close>

fun py_iter :: "json \<Rightarrow> json list option" where
  "py_iter (JArr xs) = Some xs"
| "py_iter (JObj d) = Some (map (JStr \<circ> fst) d)"
| "py_iter (JStr s) = Some (map (\<lambda>c. JStr [c]) s)"
| "py_iter _ = None"

text \<open>Values that can be members of a set or keys of a dict; lists and dicts raise \<open>TypeError\<close>.\<close>

fun hashable :: "json \<Rightarrow> bool" where
  "hashable (JArr _) \<longleftrightarrow> False"
| "hashable (JObj _) \<longleftrightarrow> False"
| "hashable _ \<longleftrightarrow> True"

definition strings_of :: "json list \<Rightarrow> string list" where
  "strings_of vs = concat (map (\<lambda>v. case as_str v of Some s \<Rightarrow> [s] | None \<Rightarrow> []) vs)"

text \<open>
  The built-in exceptions of unchecked accesses: \<open>v[k]\<close> on a dict without the key, \<open>v[k]\<close> on a
  value that is not a dict, and \<open>v.get(k)\<close> on a value that has no such method.
\<close>

datatype py_error = KeyErr string | TypeErr | AttrErr

definition getitem :: "json \<Rightarrow> string \<Rightarrow> py_error + json" where
  "getitem v k =
     (case v of JObj d \<Rightarrow> want_some (map_of d k) (KeyErr k) | _ \<Rightarrow> Inl TypeErr)"

definition getattr_get :: "json \<Rightarrow> string \<Rightarrow> json \<Rightarrow> py_error + json" where
  "getattr_get v k v0 = (case v of JObj d \<Rightarrow> Inr (get_default d k v0) | _ \<Rightarrow> Inl AttrErr)"

definition iterate :: "json \<Rightarrow> py_error + json list" where
  "iterate v = want_some (py_iter v) TypeErr"

section \<open>Lemmas\<close>

lemma getitem_JObj [simp]: "getitem (JObj d) k = want_some (map_of d k) (KeyErr k)"
  by (simp add: getitem_def)

lemma getitem_Inr [monad_simps]: "getitem v k = Inr w \<longleftrightarrow> (\<exists>d. v = JObj d \<and> map_of d k = Some w)"
  by (cases v) (auto simp: getitem_def want_some_Inr)

lemma getattr_get_JObj [simp]: "getattr_get (JObj d) k v0 = Inr (get_default d k v0)"
  by (simp add: getattr_get_def)

lemma getattr_get_Inr [monad_simps]:
  "getattr_get v k v0 = Inr w \<longleftrightarrow> (\<exists>d. v = JObj d \<and> get_default d k v0 = w)"
  by (cases v) (auto simp: getattr_get_def)

lemma iterate_JArr [simp]: "iterate (JArr xs) = Inr xs"
  by (simp add: iterate_def)

lemma has_key_iff: "has_key d k \<longleftrightarrow> k \<in> keys d"
  by (auto simp: has_key_def keys_def map_of_eq_None_iff)

lemma exact_keys_iff: "exact_keys d ks \<longleftrightarrow> keys d = set ks"
  by (auto simp: exact_keys_def has_key_iff list_all_iff keys_def)

lemma keys_simps [simp]: "keys [] = {}" "keys ((k, v) # d) = insert k (keys d)"
  by (simp_all add: keys_def)

lemma dget_Cons [simp]: "dget ((k, v) # d) k' = (if k' = k then v else dget d k')"
  by (simp add: dget_def)

lemma dget_Nil [simp]: "dget [] k = JNull"
  by (simp add: dget_def)

lemma has_key_simps [simp]: "\<not> has_key [] k" "has_key ((k, v) # d) k' \<longleftrightarrow> k' = k \<or> has_key d k'"
  by (auto simp: has_key_def)

lemma get_default_simps [simp]:
  "get_default [] k v0 = v0"
  "get_default ((k, v) # d) k' v0 = (if k' = k then v else get_default d k' v0)"
  by (simp_all add: get_default_def)

lemma get_in_simps [simp]:
  "get_in (JObj d) k = dget d k" "get_in JNull k = JNull" "get_in (JStr s) k = JNull"
  "get_in (JInt i) k = JNull" "get_in (JBool b) k = JNull" "get_in (JArr xs) k = JNull"
  "get_in (JFloat x) k = JNull"
  by (simp_all add: get_in_def)

lemma dget_no_key: "\<not> has_key d k \<Longrightarrow> dget d k = JNull"
  by (auto simp: has_key_def dget_def)

lemma is_str_iff: "is_str v \<longleftrightarrow> (\<exists>s. v = JStr s)"
  by (cases v) auto

lemma is_dict_iff: "is_dict v \<longleftrightarrow> (\<exists>d. v = JObj d)"
  by (cases v) auto

lemma is_arr_iff: "is_arr v \<longleftrightarrow> (\<exists>xs. v = JArr xs)"
  by (cases v) auto

lemma is_bool_iff: "is_bool v \<longleftrightarrow> (\<exists>b. v = JBool b)"
  by (cases v) auto

lemma as_int_Some [simp]: "as_int v = Some i \<longleftrightarrow> v = JInt i"
  by (cases v) auto

lemma as_str_Some [simp]: "as_str v = Some s \<longleftrightarrow> v = JStr s"
  by (cases v) auto

lemma as_obj_Some [simp]: "as_obj v = Some d \<longleftrightarrow> v = JObj d"
  by (cases v) auto

lemma as_arr_Some [simp]: "as_arr v = Some xs \<longleftrightarrow> v = JArr xs"
  by (cases v) auto

lemma as_bool_Some [simp]: "as_bool v = Some b \<longleftrightarrow> v = JBool b"
  by (cases v) auto

lemma want_simps [simp]:
  "want_str (JStr s) e = Inr s" "want_obj (JObj d) e = Inr d" "want_arr (JArr xs) e = Inr xs"
  "want_bool (JBool b) e = Inr b" "want_int (JInt i) e = Inr i"
  by (simp_all add: want_str_def want_obj_def want_arr_def want_bool_def want_int_def)

lemma want_Inr [monad_simps]:
  "want_str v e = Inr s \<longleftrightarrow> v = JStr s" "want_obj v e = Inr d \<longleftrightarrow> v = JObj d"
  "want_arr v e = Inr xs \<longleftrightarrow> v = JArr xs" "want_bool v e = Inr b \<longleftrightarrow> v = JBool b"
  "want_int v e = Inr i \<longleftrightarrow> v = JInt i"
  by (simp_all add: want_str_def want_obj_def want_arr_def want_bool_def want_int_def monad_simps)

text \<open>Comparison with a string or with \<open>None\<close> is identity; with an integer it is numeric.\<close>

lemma py_eq_str [simp]: "py_eq v (JStr s) \<longleftrightarrow> v = JStr s"
  by (cases v) auto

lemma py_eq_null [simp]: "py_eq v JNull \<longleftrightarrow> v = JNull"
  by (cases v) auto

lemma py_eq_int_int [simp]: "py_eq (JInt i) (JInt j) \<longleftrightarrow> i = j"
  by simp

lemma py_eq_int_iff:
  "py_eq v (JInt j) \<longleftrightarrow>
     v = JInt j \<or> v = JFloat (Fin (of_int j)) \<or> (\<exists>b. v = JBool b \<and> j = (if b then 1 else 0))"
  by (cases v) (auto elim: float_eq.elims)

lemma py_eq_bool_bool [simp]: "py_eq (JBool a) (JBool b) \<longleftrightarrow> a = b"
  by simp

lemma py_eq_list_all2: "py_eq_list xs ys \<longleftrightarrow> list_all2 py_eq xs ys"
  by (induction xs arbitrary: ys) (auto split: list.splits)

lemma py_eq_strs: "py_eq_list xs (map JStr ss) \<longleftrightarrow> xs = map JStr ss"
proof (induction xs arbitrary: ss)
  case Nil
  then show ?case by (cases ss) auto
next
  case (Cons x xs)
  then show ?case by (cases ss) auto
qed

lemma float_eq_sym: "float_eq x y = float_eq y x"
  by (cases x; cases y) auto

lemma num_eq_sym: "num_eq v w = num_eq w v"
  by (auto simp: float_eq_sym split: option.splits)

declare num_eq.simps [simp del]

end
