(* ===== verification/Filesystem.thy ===== *)
theory Filesystem
  imports Json
begin

text \<open>
  The checked-out tree the scripts read. A node is a regular file, a directory, or a symbolic
  link with the node it resolves to (\<open>None\<close> for a dangling one). A file carries its bytes and
  what the standard library's decoders return on them: \<open>json_doc\<close> and \<open>toml_doc\<close> are \<open>None\<close>
  where \<open>json.loads\<close> or \<open>tomllib.loads\<close> raises a decode error, and \<open>toml_doc\<close> is a table
  otherwise. \<open>exec_bits\<close> says that one of the three execute bits of \<open>st_mode\<close> is set, \<open>exec_ok\<close>
  that \<open>os.access(path, X_OK)\<close> holds.
\<close>

record filedata =
  raw :: string
  json_doc :: "json option"
  toml_doc :: "obj option"
  exec_bits :: bool
  exec_ok :: bool

datatype node =
    NFile filedata
  | NDir "(string \<times> node) list"
  | NLink "node option"

primrec follow :: "node \<Rightarrow> node option" and follow_opt :: "node option \<Rightarrow> node option" where
  "follow (NFile f) = Some (NFile f)"
| "follow (NDir es) = Some (NDir es)"
| "follow (NLink t) = follow_opt t"
| "follow_opt None = None"
| "follow_opt (Some n) = follow n"

text \<open>One path component below a node, and a list of components; links are followed on the way.\<close>

definition child :: "node \<Rightarrow> string \<Rightarrow> node option" where
  "child n name = (case follow n of Some (NDir es) \<Rightarrow> map_of es name | _ \<Rightarrow> None)"

fun lookup :: "node \<Rightarrow> string list \<Rightarrow> node option" where
  "lookup n [] = Some n"
| "lookup n (c # cs) = (case child n c of None \<Rightarrow> None | Some m \<Rightarrow> lookup m cs)"

text \<open>The file or directory a path leads to; \<open>None\<close> where opening it raises \<open>FileNotFoundError\<close>.\<close>

definition resolve :: "node \<Rightarrow> string list \<Rightarrow> node option" where
  "resolve n cs = (case lookup n cs of None \<Rightarrow> None | Some m \<Rightarrow> follow m)"

definition get_file :: "node \<Rightarrow> string list \<Rightarrow> filedata option" where
  "get_file n cs = (case resolve n cs of Some (NFile f) \<Rightarrow> Some f | _ \<Rightarrow> None)"

definition get_dir :: "node \<Rightarrow> string list \<Rightarrow> (string \<times> node) list option" where
  "get_dir n cs = (case resolve n cs of Some (NDir es) \<Rightarrow> Some es | _ \<Rightarrow> None)"

text \<open>\<open>Path.is_file\<close>, \<open>Path.is_dir\<close>, \<open>Path.exists\<close>, \<open>Path.is_symlink\<close>.\<close>

definition is_file :: "node \<Rightarrow> string list \<Rightarrow> bool" where
  "is_file n cs \<longleftrightarrow> get_file n cs \<noteq> None"

definition is_dir :: "node \<Rightarrow> string list \<Rightarrow> bool" where
  "is_dir n cs \<longleftrightarrow> get_dir n cs \<noteq> None"

definition path_exists :: "node \<Rightarrow> string list \<Rightarrow> bool" where
  "path_exists n cs \<longleftrightarrow> is_file n cs \<or> is_dir n cs"

definition is_symlink :: "node \<Rightarrow> string list \<Rightarrow> bool" where
  "is_symlink n cs \<longleftrightarrow> (case lookup n cs of Some (NLink _) \<Rightarrow> True | _ \<Rightarrow> False)"

section \<open>Paths as text\<close>

text \<open>
  \<open>PurePosixPath(s)\<close>: \<open>parts\<close> drops empty and \<open>.\<close> components and keeps \<open>..\<close>; an absolute path
  has \<open>/\<close> as its first part. \<open>as_posix\<close> prints the parts back, \<open>.\<close> for none.
\<close>

definition is_absolute :: "string \<Rightarrow> bool" where
  "is_absolute s \<longleftrightarrow> startswith s ''/''"

definition rel_parts :: "string \<Rightarrow> string list" where
  "rel_parts s = filter (\<lambda>p. p \<noteq> [] \<and> p \<noteq> ''.'') (split_on (CHR ''/'') s)"

definition path_parts :: "string \<Rightarrow> string list" where
  "path_parts s = (if is_absolute s then [''/''] else []) @ rel_parts s"

definition as_posix :: "string list \<Rightarrow> string" where
  "as_posix ps = (if ps = [] then ''.'' else join ''/'' ps)"

text \<open>\<open>str(path)\<close> of a path given by its parts, where an absolute one starts with \<open>/\<close>.\<close>

fun path_str :: "string list \<Rightarrow> string" where
  "path_str [] = ''.''"
| "path_str (p # ps) = (if p = ''/'' then ''/'' @ join ''/'' ps else join ''/'' (p # ps))"

section \<open>Walking and writing\<close>

text \<open>
  \<open>Path.rglob\<close> visits every entry below a directory and does not descend into symbolic links;
  \<open>rglob\<close> keeps the entries whose name matches, sorted by the parts of the path as \<open>sorted\<close> does,
  and \<open>rglob_suffix\<close> is the pattern \<open>"*" + suffix\<close>.
\<close>

function walk :: "string list \<Rightarrow> node \<Rightarrow> (string list \<times> node) list" where
  "walk p (NDir es) = concat (map (\<lambda>e. (p @ [fst e], snd e) # walk (p @ [fst e]) (snd e)) es)"
| "walk p (NFile f) = []"
| "walk p (NLink t) = []"
  by pat_completeness auto
termination
proof (relation "measure (\<lambda>(p, n). size n)")
  fix p es and e :: "string \<times> node"
  assume "e \<in> set es"
  then have "size (snd e) < size (NDir es)"
  proof (induction es)
    case Nil
    then show ?case by simp
  next
    case (Cons a es)
    then show ?case by (cases a) auto
  qed
  then show "((p @ [fst e], snd e), p, NDir es) \<in> measure (\<lambda>(p, n). size n)" by simp
qed simp

definition rglob :: "(string \<Rightarrow> bool) \<Rightarrow> (string \<times> node) list \<Rightarrow> (string list \<times> node) list" where
  "rglob P es = sort_key fst (filter (\<lambda>(p, n). P (last p)) (walk [] (NDir es)))"

definition rglob_suffix :: "string \<Rightarrow> (string \<times> node) list \<Rightarrow> (string list \<times> node) list" where
  "rglob_suffix ext es = rglob (\<lambda>name. endswith name ext) es"

definition text_file :: "string \<Rightarrow> filedata" where
  "text_file s = \<lparr>raw = s, json_doc = None, toml_doc = None, exec_bits = False, exec_ok = False\<rparr>"

text \<open>A file the scripts write with \<open>json.dumps\<close>; its text is not modelled, only what it decodes to.\<close>

definition json_file :: "json \<Rightarrow> filedata" where
  "json_file v = (text_file [])\<lparr>json_doc := Some v\<rparr>"

text \<open>
  \<open>path.parent.mkdir(parents=True, exist_ok=True); path.write_text(...)\<close>: \<open>None\<close> where one of
  them raises an \<open>OSError\<close>.
\<close>

fun put_file :: "node \<Rightarrow> string list \<Rightarrow> filedata \<Rightarrow> node option" where
  "put_file (NFile f0) cs f = (if cs = [] then Some (NFile f) else None)"
| "put_file (NLink None) cs f = None"
| "put_file (NLink (Some n)) cs f = map_option (\<lambda>m. NLink (Some m)) (put_file n cs f)"
| "put_file (NDir es) [] f = None"
| "put_file (NDir es) (c # cs) f =
     map_option (\<lambda>m. NDir (assoc_set es c m))
       (case map_of es c of
          Some n \<Rightarrow> put_file n cs f
        | None \<Rightarrow> (if cs = [] then Some (NFile f) else put_file (NDir []) cs f))"

section \<open>Lemmas\<close>

lemma walk_append: "walk p (NDir (xs @ ys)) = walk p (NDir xs) @ walk p (NDir ys)"
  by simp

lemma lookup_append:
  "lookup n (cs @ ds) = (case lookup n cs of None \<Rightarrow> None | Some m \<Rightarrow> lookup m ds)"
  by (induction n cs rule: lookup.induct) (auto split: option.splits)

lemma get_file_not_dir: "get_file n cs = Some f \<Longrightarrow> \<not> is_dir n cs"
  by (auto simp: get_file_def is_dir_def get_dir_def split: option.splits node.splits)

lemma get_file_resolve: "get_file n cs = Some f \<Longrightarrow> resolve n cs = Some (NFile f)"
  by (auto simp: get_file_def split: option.splits node.splits)

lemma rel_parts_no_slash: "p \<in> set (rel_parts s) \<Longrightarrow> CHR ''/'' \<notin> set p"
  by (auto simp: rel_parts_def dest: split_on_parts_no_sep)

lemma rel_parts_proper: "p \<in> set (rel_parts s) \<Longrightarrow> p \<noteq> [] \<and> p \<noteq> ''.''"
  by (simp add: rel_parts_def)

lemma rel_parts_plain:
  "CHR ''/'' \<notin> set s \<Longrightarrow> s \<noteq> [] \<Longrightarrow> s \<noteq> ''.'' \<Longrightarrow> rel_parts s = [s]"
  by (simp add: rel_parts_def split_on_no_sep)

lemma path_parts_plain:
  assumes "CHR ''/'' \<notin> set s" "s \<noteq> []" "s \<noteq> ''.''"
  shows "path_parts s = [s]"
proof -
  have "\<not> is_absolute s"
    using assms(1) by (auto simp: is_absolute_def startswith_iff)
  with assms show ?thesis by (simp add: path_parts_def rel_parts_plain)
qed

text \<open>What was written is read back, and every other file stays as it was.\<close>

lemma get_file_NLink [simp]: "get_file (NLink (Some n)) cs = get_file n cs"
proof (cases cs)
  case Nil
  then show ?thesis by (simp add: get_file_def resolve_def)
next
  case (Cons c cs')
  then show ?thesis by (simp add: get_file_def resolve_def child_def)
qed

lemma get_file_simps [simp]:
  "get_file (NFile f) [] = Some f" "get_file (NFile f) (c # cs) = None" "get_file (NDir es) [] = None"
  "get_file (NDir es) (c # cs) = (case map_of es c of None \<Rightarrow> None | Some n \<Rightarrow> get_file n cs)"
  by (auto simp: get_file_def resolve_def child_def split: option.splits)

lemma get_file_put_file: "put_file t cs f = Some t' \<Longrightarrow> get_file t' cs = Some f"
  by (induction t cs f arbitrary: t' rule: put_file.induct) (auto split: option.splits if_splits)

lemma get_file_put_other:
  "put_file t cs f = Some t' \<Longrightarrow> ds \<noteq> cs \<Longrightarrow> get_file t ds = Some g \<Longrightarrow> get_file t' ds = Some g"
proof (induction t cs f arbitrary: t' ds rule: put_file.induct)
  case (1 f0 cs f)
  then show ?case by (cases ds) (auto split: if_splits)
next
  case (5 es c cs f)
  then show ?case by (cases ds) (auto split: option.splits if_splits)
qed auto

end
