(* ===== verification/Registry.thy ===== *)
theory Registry
  imports Filesystem
begin

text \<open>
  Model of \<open>.github/scripts/validate-workload-registry.py\<close>, the fail-closed validator of
  \<open>workloads.json\<close>, and of the three discovery projections that print its result
  (\<open>discover-workloads.py\<close>, \<open>discover-msrv-workloads.py\<close>, \<open>discover-supply-chain-workloads.py\<close>).
  Every \<open>fail(...)\<close> of the script is a constructor of \<open>registry_error\<close>; a read that raises an
  \<open>OSError\<close> the script does not catch is \<open>RegistryOSError\<close>.
\<close>

datatype (plugins only: code) registry_error =
    RegistryOSError
  | MissingRegistry
  | InvalidRegistryJson
  | RegistryRootNotObject
  | BadRegistrySchema
  | EntryNameNotString
  | InvalidEntryName string
  | PathNotString string
  | PathNotTopLevel string string
  | EntryMissingCargo string
  | EntryInvalidCargo string
  | EntryNoPackageTable string
  | EntryBadRustVersion string
  | MsrvNotObject string
  | MsrvDeclaredNotBool string
  | DeclaredMsrvKeys string
  | DeclaredWithoutRustVersion string
  | UndeclaredMsrvKeys string
  | UndeclaredBadReason string
  | UndeclaredWithRustVersion string
  | MissingEntrypoint string
  | EntrypointNotExecutable string
  | EntryKeys string
  | DuplicateEntryName string
  | DuplicateEntryPath string
  | EntryPathMissing string string
  | RegisteredMissingCargo string string
  | WorkloadsNotArray
  | FixturesNotArray
  | ReservedNotArray
  | ReservedKeys
  | ReservedBadReason string
  | DuplicateReserved string
  | ReservedAlsoRegistered string
  | ReservedMissing string
  | UnregisteredProjects "string list"
  | StaleProjects "string list"

record msrv_policy =
  declared :: bool
  version :: "string option"
  policy_reason :: "string option"

record entry =
  e_kind :: string
  e_name :: string
  e_path :: string
  e_msrv :: msrv_policy

record registry_result =
  workloads :: "entry list"
  fixtures :: "entry list"

section \<open>The document and its fields\<close>

definition load_registry :: "node \<Rightarrow> registry_error + obj" where
  "load_registry repo =
     ebind (want_some (resolve repo [''workloads.json'']) MissingRegistry) (\<lambda>_.
     ebind (want_some (get_file repo [''workloads.json'']) RegistryOSError) (\<lambda>f.
     ebind (want_some (json_doc f) InvalidRegistryJson) (\<lambda>v.
     ebind (want_obj v RegistryRootNotObject) (\<lambda>data.
     ebind (eguard (py_eq (dget data ''schema_version'') (JInt 3)) BadRegistrySchema) (\<lambda>_.
       Inr data)))))"

definition validate_name :: "json \<Rightarrow> registry_error + string" where
  "validate_name v =
     ebind (want_str v EntryNameNotString) (\<lambda>name.
     ebind (eguard (name \<noteq> []) EntryNameNotString) (\<lambda>_.
     ebind (eguard (CHR ''/'' \<notin> set name \<and> name \<noteq> ''.'' \<and> name \<noteq> ''..'') (InvalidEntryName name)) (\<lambda>_.
       Inr name)))"

definition validate_top_level_path :: "json \<Rightarrow> string \<Rightarrow> registry_error + string" where
  "validate_top_level_path v kind =
     ebind (want_str v (PathNotString kind)) (\<lambda>s.
     ebind (eguard (s \<noteq> []) (PathNotString kind)) (\<lambda>_.
       if is_absolute s \<or> length (path_parts s) \<noteq> 1 \<or> path_parts s ! 0 \<in> {''.'', ''..''}
       then Inl (PathNotTopLevel kind s) else Inr s))"

definition read_rust_version :: "string \<Rightarrow> node \<Rightarrow> string list \<Rightarrow> registry_error + string option" where
  "read_rust_version name repo dir =
     ebind (want_some (resolve repo (dir @ [''Cargo.toml''])) (EntryMissingCargo name)) (\<lambda>_.
     ebind (want_some (get_file repo (dir @ [''Cargo.toml''])) RegistryOSError) (\<lambda>f.
     ebind (want_some (toml_doc f) (EntryInvalidCargo name)) (\<lambda>doc.
     ebind (want_obj (dget doc ''package'') (EntryNoPackageTable name)) (\<lambda>package.
       if dget package ''rust-version'' = JNull then Inr None
       else
         ebind (want_str (dget package ''rust-version'') (EntryBadRustVersion name)) (\<lambda>v.
         ebind (eguard (\<not> blank v) (EntryBadRustVersion name)) (\<lambda>_.
           Inr (Some v)))))))"

text \<open>\<open>not rust_version\<close>: no version, or the empty string.\<close>

definition no_version :: "string option \<Rightarrow> bool" where
  "no_version rv \<longleftrightarrow> rv = None \<or> rv = Some []"

definition validate_msrv :: "string \<Rightarrow> json \<Rightarrow> node \<Rightarrow> string list \<Rightarrow> registry_error + msrv_policy" where
  "validate_msrv name msrv repo dir =
     ebind (want_obj msrv (MsrvNotObject name)) (\<lambda>m.
     ebind (want_bool (dget m ''declared'') (MsrvDeclaredNotBool name)) (\<lambda>d.
     ebind (read_rust_version name repo dir) (\<lambda>rust_version.
       if d then
         ebind (eguard (exact_keys m [''declared'']) (DeclaredMsrvKeys name)) (\<lambda>_.
         ebind (eguard (\<not> no_version rust_version) (DeclaredWithoutRustVersion name)) (\<lambda>_.
           Inr \<lparr>declared = True, version = rust_version, policy_reason = None\<rparr>))
       else
         ebind (eguard (exact_keys m [''declared'', ''policy_reason'']) (UndeclaredMsrvKeys name)) (\<lambda>_.
         ebind (want_str (dget m ''policy_reason'') (UndeclaredBadReason name)) (\<lambda>reason.
         ebind (eguard (\<not> blank reason) (UndeclaredBadReason name)) (\<lambda>_.
         ebind (eguard (no_version rust_version) (UndeclaredWithRustVersion name)) (\<lambda>_.
           Inr \<lparr>declared = False, version = None, policy_reason = Some reason\<rparr>)))))))"

definition validate_contract_entrypoint :: "string \<Rightarrow> node \<Rightarrow> string list \<Rightarrow> registry_error + unit" where
  "validate_contract_entrypoint name repo dir =
     ebind (want_some (get_file repo (dir @ [''ci'', ''validate''])) (MissingEntrypoint name)) (\<lambda>f.
       eguard (exec_bits f) (EntrypointNotExecutable name))"

text \<open>\<open>seen_names\<close> and \<open>seen_paths\<close> are threaded through the entries as the mutated sets are.\<close>

type_synonym seen = "string set \<times> string set"

definition validate_entry :: "string \<Rightarrow> json \<Rightarrow> node \<Rightarrow> seen \<Rightarrow> registry_error + entry \<times> seen" where
  "validate_entry kind e repo seen =
     ebind (want_obj e (EntryKeys kind)) (\<lambda>d.
     ebind (eguard (exact_keys d [''name'', ''path'', ''msrv'']) (EntryKeys kind)) (\<lambda>_.
     ebind (validate_name (dget d ''name'')) (\<lambda>name.
     ebind (validate_top_level_path (dget d ''path'') kind) (\<lambda>path.
     ebind (eguard (name \<notin> fst seen) (DuplicateEntryName name)) (\<lambda>_.
     ebind (eguard (path \<notin> snd seen) (DuplicateEntryPath path)) (\<lambda>_.
     ebind (eguard (is_dir repo (path_parts path)) (EntryPathMissing kind path)) (\<lambda>_.
     ebind (eguard (is_file repo (path_parts path @ [''Cargo.toml''])) (RegisteredMissingCargo kind path)) (\<lambda>_.
     ebind (validate_contract_entrypoint name repo (path_parts path)) (\<lambda>_.
     ebind (validate_msrv name (dget d ''msrv'') repo (path_parts path)) (\<lambda>msrv.
       Inr (\<lparr>e_kind = kind, e_name = name, e_path = path, e_msrv = msrv\<rparr>,
            (insert name (fst seen), insert path (snd seen)))))))))))))"

fun validate_entries :: "string \<Rightarrow> node \<Rightarrow> seen \<Rightarrow> json list \<Rightarrow> registry_error + entry list \<times> seen" where
  "validate_entries kind repo seen [] = Inr ([], seen)"
| "validate_entries kind repo seen (e # es) =
     ebind (validate_entry kind e repo seen) (\<lambda>(x, seen').
     ebind (validate_entries kind repo seen' es) (\<lambda>(xs, seen'').
       Inr (x # xs, seen'')))"

definition validate_reserved ::
  "node \<Rightarrow> string set \<Rightarrow> string set \<Rightarrow> json \<Rightarrow> registry_error + string set" where
  "validate_reserved repo seen_paths reserved_paths e =
     ebind (want_obj e ReservedKeys) (\<lambda>d.
     ebind (eguard (exact_keys d [''path'', ''reason'']) ReservedKeys) (\<lambda>_.
     ebind (validate_top_level_path (dget d ''path'') ''reserved Cargo project'') (\<lambda>path.
     ebind (want_str (dget d ''reason'') (ReservedBadReason path)) (\<lambda>reason.
     ebind (eguard (\<not> blank reason) (ReservedBadReason path)) (\<lambda>_.
     ebind (eguard (path \<notin> reserved_paths) (DuplicateReserved path)) (\<lambda>_.
     ebind (eguard (path \<notin> seen_paths) (ReservedAlsoRegistered path)) (\<lambda>_.
     ebind (eguard (is_dir repo (path_parts path) \<and> is_file repo (path_parts path @ [''Cargo.toml'']))
              (ReservedMissing path)) (\<lambda>_.
       Inr (insert path reserved_paths)))))))))"

text \<open>The top-level directories with a \<open>Cargo.toml\<close> and no leading dot.\<close>

definition candidates :: "node \<Rightarrow> string list" where
  "candidates repo =
     (case get_dir repo [] of
        None \<Rightarrow> []
      | Some es \<Rightarrow>
          filter (\<lambda>c. is_dir repo [c] \<and> \<not> startswith c ''.'' \<and> is_file repo [c, ''Cargo.toml''])
            (map fst es))"

definition sorted_set :: "string set \<Rightarrow> string list" where
  "sorted_set A = sorted_list_of_set A"

definition validate_repository :: "node \<Rightarrow> registry_error + registry_result" where
  "validate_repository repo =
     ebind (load_registry repo) (\<lambda>data.
     ebind (want_arr (dget data ''workloads'') WorkloadsNotArray) (\<lambda>workloads_raw.
     ebind (eguard (workloads_raw \<noteq> []) WorkloadsNotArray) (\<lambda>_.
     ebind (want_arr (get_default data ''fixtures'' (JArr [])) FixturesNotArray) (\<lambda>fixtures_raw.
     ebind (want_arr (get_default data ''reserved_top_level_cargo_projects'' (JArr []))
              ReservedNotArray) (\<lambda>reserved.
     ebind (validate_entries ''workload'' repo ({}, {}) workloads_raw) (\<lambda>(ws, seen1).
     ebind (validate_entries ''fixture'' repo seen1 fixtures_raw) (\<lambda>(fs, seen2).
     ebind (efold (validate_reserved repo (snd seen2)) {} reserved) (\<lambda>reserved_paths.
       let cands = set (candidates repo); accounted = snd seen2 \<union> reserved_paths in
       if cands - accounted \<noteq> {} then
         Inl (UnregisteredProjects (sorted_set (cands - accounted)))
       else if accounted - cands \<noteq> {} then
         Inl (StaleProjects (sorted_set (accounted - cands)))
       else Inr \<lparr>workloads = sort_key e_path ws, fixtures = sort_key e_path fs\<rparr>))))))))"

section \<open>The specification\<close>

text \<open>
  What a registry document says, independently of the validator's order of checks:
  \<open>entry_record\<close> relates a JSON entry to the entry it denotes, \<open>entry_ok\<close> is what the tree must
  hold for it (a directory of its own with a manifest and an executable contract, and a
  declared \<open>rust-version\<close> exactly when the policy declares one), \<open>reserved_record\<close> and
  \<open>reserved_ok\<close> are the same for a reserved project.
\<close>

definition msrv_record :: "json \<Rightarrow> msrv_policy \<Rightarrow> bool" where
  "msrv_record j m \<longleftrightarrow>
     (\<exists>o'. j = JObj o' \<and> dget o' ''declared'' = JBool (declared m) \<and>
       (if declared m then exact_keys o' [''declared'']
        else exact_keys o' [''declared'', ''policy_reason''] \<and>
          (\<exists>s. policy_reason m = Some s \<and> dget o' ''policy_reason'' = JStr s)))"

definition entry_record :: "string \<Rightarrow> json \<Rightarrow> entry \<Rightarrow> bool" where
  "entry_record kind j x \<longleftrightarrow>
     (\<exists>d. j = JObj d \<and> exact_keys d [''name'', ''path'', ''msrv''] \<and>
       dget d ''name'' = JStr (e_name x) \<and> dget d ''path'' = JStr (e_path x) \<and>
       msrv_record (dget d ''msrv'') (e_msrv x) \<and> e_kind x = kind)"

definition name_ok :: "string \<Rightarrow> bool" where
  "name_ok s \<longleftrightarrow> s \<noteq> [] \<and> CHR ''/'' \<notin> set s \<and> s \<noteq> ''.'' \<and> s \<noteq> ''..''"

definition path_ok :: "string \<Rightarrow> bool" where
  "path_ok s \<longleftrightarrow> s \<noteq> [] \<and> \<not> is_absolute s \<and> length (path_parts s) = 1
     \<and> path_parts s ! 0 \<notin> {''.'', ''..''}"

definition manifest_package :: "node \<Rightarrow> string \<Rightarrow> json" where
  "manifest_package repo path =
     (case get_file repo (path_parts path @ [''Cargo.toml'']) of
        None \<Rightarrow> JNull
      | Some f \<Rightarrow> (case toml_doc f of None \<Rightarrow> JNull | Some doc \<Rightarrow> dget doc ''package''))"

definition msrv_matches :: "json \<Rightarrow> msrv_policy \<Rightarrow> bool" where
  "msrv_matches rv m \<longleftrightarrow>
     (if declared m then
        (\<exists>v. version m = Some v \<and> rv = JStr v \<and> \<not> blank v) \<and> policy_reason m = None
      else rv = JNull \<and> version m = None \<and> (\<exists>s. policy_reason m = Some s \<and> \<not> blank s))"

definition entry_ok :: "node \<Rightarrow> entry \<Rightarrow> bool" where
  "entry_ok repo e \<longleftrightarrow>
     name_ok (e_name e) \<and> path_ok (e_path e) \<and>
     is_dir repo (path_parts (e_path e)) \<and>
     (\<exists>f. get_file repo (path_parts (e_path e) @ [''ci'', ''validate'']) = Some f \<and> exec_bits f) \<and>
     (\<exists>p. manifest_package repo (e_path e) = JObj p \<and>
        msrv_matches (dget p ''rust-version'') (e_msrv e))"

definition reserved_record :: "json \<Rightarrow> string \<Rightarrow> bool" where
  "reserved_record j p \<longleftrightarrow>
     (\<exists>d s. j = JObj d \<and> exact_keys d [''path'', ''reason''] \<and> dget d ''path'' = JStr p \<and>
       dget d ''reason'' = JStr s \<and> \<not> blank s)"

definition reserved_ok :: "node \<Rightarrow> string \<Rightarrow> bool" where
  "reserved_ok repo p \<longleftrightarrow>
     path_ok p \<and> is_dir repo (path_parts p) \<and> is_file repo (path_parts p @ [''Cargo.toml''])"

definition all_entries :: "registry_result \<Rightarrow> entry list" where
  "all_entries r = workloads r @ fixtures r"

definition registry_spec :: "node \<Rightarrow> registry_result \<Rightarrow> bool" where
  "registry_spec repo r \<longleftrightarrow>
     (\<exists>d ws_raw fs_raw res ws fs rps.
        load_registry repo = Inr d \<and>
        dget d ''workloads'' = JArr ws_raw \<and> ws_raw \<noteq> [] \<and>
        get_default d ''fixtures'' (JArr []) = JArr fs_raw \<and>
        get_default d ''reserved_top_level_cargo_projects'' (JArr []) = JArr res \<and>
        list_all2 (entry_record ''workload'') ws_raw ws \<and>
        list_all2 (entry_record ''fixture'') fs_raw fs \<and>
        list_all2 reserved_record res rps \<and>
        list_all (entry_ok repo) (ws @ fs) \<and> list_all (reserved_ok repo) rps \<and>
        distinct (map e_name (ws @ fs)) \<and> distinct (map e_path (ws @ fs) @ rps) \<and>
        set (candidates repo) = set (map e_path (ws @ fs) @ rps) \<and>
        r = \<lparr>workloads = sort_key e_path ws, fixtures = sort_key e_path fs\<rparr>)"

section \<open>The validator meets the specification\<close>

lemma validate_name_Inr [monad_simps]: "validate_name v = Inr s \<longleftrightarrow> v = JStr s \<and> name_ok s"
  by (auto simp: validate_name_def name_ok_def monad_simps)

lemma validate_top_level_path_Inr [monad_simps]:
  "validate_top_level_path v kind = Inr s \<longleftrightarrow> v = JStr s \<and> path_ok s"
  by (auto simp: validate_top_level_path_def path_ok_def monad_simps)

lemma read_rust_version_Inr [monad_simps]:
  "read_rust_version name repo (path_parts path) = Inr rv \<longleftrightarrow>
     (\<exists>p. manifest_package repo path = JObj p \<and>
       dget p ''rust-version'' = (case rv of None \<Rightarrow> JNull | Some v \<Rightarrow> JStr v) \<and>
       (\<forall>v. rv = Some v \<longrightarrow> \<not> blank v))"
proof (cases "get_file repo (path_parts path @ [''Cargo.toml''])")
  case None
  then show ?thesis by (auto simp: read_rust_version_def manifest_package_def monad_simps)
next
  case (Some f)
  then obtain n where n: "resolve repo (path_parts path @ [''Cargo.toml'']) = Some n"
    using get_file_resolve [OF Some] by auto
  show ?thesis
  proof (cases "toml_doc f")
    case None
    with Some n show ?thesis by (simp add: read_rust_version_def manifest_package_def)
  next
    case (Some doc)
    show ?thesis
    proof (cases "as_obj (dget doc ''package'')")
      case None
      with \<open>get_file _ _ = Some f\<close> Some n show ?thesis
        by (auto simp: read_rust_version_def manifest_package_def monad_simps)
    next
      case (Some p)
      then have p: "dget doc ''package'' = JObj p" by simp
      have "read_rust_version name repo (path_parts path) =
          (if dget p ''rust-version'' = JNull then Inr None
           else ebind (want_str (dget p ''rust-version'') (EntryBadRustVersion name))
             (\<lambda>v. ebind (eguard (\<not> blank v) (EntryBadRustVersion name)) (\<lambda>_. Inr (Some v))))"
        using \<open>get_file _ _ = Some f\<close> \<open>toml_doc f = Some doc\<close> n p
        by (simp add: read_rust_version_def)
      moreover have "manifest_package repo path = JObj p"
        using \<open>get_file _ _ = Some f\<close> \<open>toml_doc f = Some doc\<close> p
        by (simp add: manifest_package_def)
      ultimately show ?thesis
        by (cases rv) (auto simp: monad_simps)
    qed
  qed
qed

lemma validate_msrv_Inr [monad_simps]:
  "validate_msrv name j repo (path_parts path) = Inr m \<longleftrightarrow>
     msrv_record j m \<and>
     (\<exists>p. manifest_package repo path = JObj p \<and> msrv_matches (dget p ''rust-version'') m)"
  (is "?L \<longleftrightarrow> ?R")
proof
  assume ?L
  then show ?R
    by (auto simp: validate_msrv_def msrv_record_def msrv_matches_def no_version_def monad_simps
        split: if_splits option.splits)
next
  assume R: ?R
  then obtain o' p where j: "j = JObj o'" and d: "dget o' ''declared'' = JBool (declared m)"
    and p: "manifest_package repo path = JObj p" and mm: "msrv_matches (dget p ''rust-version'') m"
    by (auto simp: msrv_record_def)
  show ?L
  proof (cases "declared m")
    case True
    with mm obtain v where v: "version m = Some v" "dget p ''rust-version'' = JStr v"
      "\<not> blank v" "policy_reason m = None" by (auto simp: msrv_matches_def)
    with p have "read_rust_version name repo (path_parts path) = Inr (Some v)"
      by (simp add: read_rust_version_Inr)
    moreover have "v \<noteq> []" using v by auto
    ultimately show ?thesis using R j d True v
      by (cases m) (auto simp: validate_msrv_def msrv_record_def no_version_def)
  next
    case False
    with mm have n: "dget p ''rust-version'' = JNull" "version m = None"
      by (auto simp: msrv_matches_def)
    with p have "read_rust_version name repo (path_parts path) = Inr None"
      by (simp add: read_rust_version_Inr)
    with R j d False n mm show ?thesis
      by (cases m) (auto simp: validate_msrv_def msrv_record_def msrv_matches_def no_version_def)
  qed
qed

lemma manifest_package_file:
  "manifest_package repo path = JObj p \<Longrightarrow> is_file repo (path_parts path @ [''Cargo.toml''])"
  by (auto simp: manifest_package_def is_file_def split: option.splits)

lemma validate_entry_Inr:
  "validate_entry kind j repo seen = Inr (x, seen') \<longleftrightarrow>
     entry_record kind j x \<and> entry_ok repo x \<and> e_name x \<notin> fst seen \<and> e_path x \<notin> snd seen
     \<and> seen' = (insert (e_name x) (fst seen), insert (e_path x) (snd seen))"
  by (cases x) (auto simp: validate_entry_def entry_record_def entry_ok_def monad_simps
      validate_contract_entrypoint_def dest: manifest_package_file)

lemma validate_entries_Inr:
  "validate_entries kind repo seen js = Inr (xs, seen') \<longleftrightarrow>
     list_all2 (entry_record kind) js xs \<and> list_all (entry_ok repo) xs
     \<and> distinct (map e_name xs) \<and> distinct (map e_path xs)
     \<and> e_name ` set xs \<inter> fst seen = {} \<and> e_path ` set xs \<inter> snd seen = {}
     \<and> seen' = (fst seen \<union> e_name ` set xs, snd seen \<union> e_path ` set xs)"
proof (induction js arbitrary: seen xs seen')
  case Nil
  then show ?case by auto
next
  case (Cons j js)
  show ?case
    by (cases xs) (auto simp: monad_simps Cons.IH validate_entry_Inr)
qed

lemma validate_reserved_Inr:
  "validate_reserved repo sp rp j = Inr rp' \<longleftrightarrow>
     (\<exists>p. reserved_record j p \<and> reserved_ok repo p \<and> p \<notin> rp \<and> p \<notin> sp \<and> rp' = insert p rp)"
  by (auto simp: validate_reserved_def reserved_record_def reserved_ok_def monad_simps)

lemma efold_reserved:
  "efold (validate_reserved repo sp) rp js = Inr rp' \<longleftrightarrow>
     (\<exists>ps. list_all2 reserved_record js ps \<and> list_all (reserved_ok repo) ps \<and> distinct ps
       \<and> set ps \<inter> rp = {} \<and> set ps \<inter> sp = {} \<and> rp' = rp \<union> set ps)"
proof (induction js arbitrary: rp)
  case Nil
  then show ?case by auto
next
  case (Cons j js)
  show ?case (is "?L \<longleftrightarrow> ?R")
  proof
    assume ?L
    then obtain p ps where "reserved_record j p" "reserved_ok repo p" "p \<notin> rp" "p \<notin> sp"
      "list_all2 reserved_record js ps" "list_all (reserved_ok repo) ps" "distinct ps"
      "set ps \<inter> insert p rp = {}" "set ps \<inter> sp = {}" "rp' = insert p rp \<union> set ps"
      by (auto simp: monad_simps validate_reserved_Inr Cons.IH)
    then show ?R by (intro exI [of _ "p # ps"]) auto
  next
    assume ?R
    then obtain p ps where "list_all2 reserved_record (j # js) (p # ps)"
      "list_all (reserved_ok repo) (p # ps)" "distinct (p # ps)"
      "set (p # ps) \<inter> rp = {}" "set (p # ps) \<inter> sp = {}" "rp' = rp \<union> set (p # ps)"
      by (auto simp: list_all2_Cons1)
    note Q = this
    have "validate_reserved repo sp rp j = Inr (insert p rp)"
      using Q unfolding validate_reserved_Inr by (intro exI [of _ p]) auto
    moreover have "efold (validate_reserved repo sp) (insert p rp) js = Inr rp'"
      using Q unfolding Cons.IH by (intro exI [of _ ps]) auto
    ultimately show ?L by simp
  qed
qed

lemma validate_repository_spec: "validate_repository repo = Inr r \<longleftrightarrow> registry_spec repo r"
proof
  assume "validate_repository repo = Inr r"
  then obtain d ws_raw fs_raw res ws fs seen1 seen2 rps where
    run: "load_registry repo = Inr d" "dget d ''workloads'' = JArr ws_raw" "ws_raw \<noteq> []"
      "get_default d ''fixtures'' (JArr []) = JArr fs_raw"
      "get_default d ''reserved_top_level_cargo_projects'' (JArr []) = JArr res"
    and ws: "validate_entries ''workload'' repo ({}, {}) ws_raw = Inr (ws, seen1)"
    and fs: "validate_entries ''fixture'' repo seen1 fs_raw = Inr (fs, seen2)"
    and res: "efold (validate_reserved repo (snd seen2)) {} res = Inr rps"
    and inv: "snd seen2 \<subseteq> set (candidates repo)" "rps \<subseteq> set (candidates repo)"
      "set (candidates repo) \<subseteq> snd seen2 \<union> rps"
    and r: "r = \<lparr>workloads = sort_key e_path ws, fixtures = sort_key e_path fs\<rparr>"
    unfolding validate_repository_def
    by (fastforce simp: monad_simps Let_def split: if_splits)
  from res obtain ps where ps: "list_all2 reserved_record res ps" "list_all (reserved_ok repo) ps"
    "distinct ps" "set ps \<inter> snd seen2 = {}" "rps = set ps"
    by (auto simp: efold_reserved)
  have w: "list_all2 (entry_record ''workload'') ws_raw ws" "list_all (entry_ok repo) ws"
    "distinct (map e_name ws)" "distinct (map e_path ws)"
    "seen1 = (e_name ` set ws, e_path ` set ws)"
    using ws by (simp_all add: validate_entries_Inr)
  have f: "list_all2 (entry_record ''fixture'') fs_raw fs" "list_all (entry_ok repo) fs"
    "distinct (map e_name fs)" "distinct (map e_path fs)"
    "e_name ` set fs \<inter> e_name ` set ws = {}" "e_path ` set fs \<inter> e_path ` set ws = {}"
    "seen2 = (e_name ` set ws \<union> e_name ` set fs, e_path ` set ws \<union> e_path ` set fs)"
    using fs w(5) by (simp_all add: validate_entries_Inr)
  have ok: "list_all (entry_ok repo) (ws @ fs)" using w f by simp
  have dn: "distinct (map e_name (ws @ fs))" using w f by (simp add: Int_commute)
  have dp: "distinct (map e_path (ws @ fs) @ ps)"
    using w(4) f(4,6,7) ps(3,4) by (simp add: Int_commute image_Un Int_Un_distrib)
  have c: "set (candidates repo) = set (map e_path (ws @ fs) @ ps)"
    using inv f(7) ps(5) by (intro equalityI) (simp_all add: image_Un Un_assoc)
  show "registry_spec repo r"
    unfolding registry_spec_def
    by (rule exI [of _ d], rule exI [of _ ws_raw], rule exI [of _ fs_raw], rule exI [of _ res],
        rule exI [of _ ws], rule exI [of _ fs], rule exI [of _ ps])
      (intro conjI run w(1) f(1) ps(1,2) ok dn dp c r)
next
  assume "registry_spec repo r"
  then obtain d ws_raw fs_raw res ws fs ps where
    run: "load_registry repo = Inr d" "dget d ''workloads'' = JArr ws_raw" "ws_raw \<noteq> []"
      "get_default d ''fixtures'' (JArr []) = JArr fs_raw"
      "get_default d ''reserved_top_level_cargo_projects'' (JArr []) = JArr res"
    and recs: "list_all2 (entry_record ''workload'') ws_raw ws"
      "list_all2 (entry_record ''fixture'') fs_raw fs" "list_all2 reserved_record res ps"
    and ok: "list_all (entry_ok repo) (ws @ fs)" "list_all (reserved_ok repo) ps"
    and dist: "distinct (map e_name (ws @ fs))" "distinct (map e_path (ws @ fs) @ ps)"
    and inv: "set (candidates repo) = set (map e_path (ws @ fs) @ ps)"
    and r: "r = \<lparr>workloads = sort_key e_path ws, fixtures = sort_key e_path fs\<rparr>"
    unfolding registry_spec_def by blast
  let ?s1 = "(e_name ` set ws, e_path ` set ws)"
  let ?s2 = "(e_name ` set ws \<union> e_name ` set fs, e_path ` set ws \<union> e_path ` set fs)"
  have ws: "validate_entries ''workload'' repo ({}, {}) ws_raw = Inr (ws, ?s1)"
    using recs ok dist by (simp add: validate_entries_Inr)
  have fs: "validate_entries ''fixture'' repo ?s1 fs_raw = Inr (fs, ?s2)"
    using recs ok dist by (auto simp: validate_entries_Inr)
  have res: "efold (validate_reserved repo (snd ?s2)) {} res = Inr (set ps)"
    using recs ok dist unfolding efold_reserved by (intro exI [of _ ps]) auto
  have inv': "set (candidates repo) - (snd ?s2 \<union> set ps) = {}"
    "snd ?s2 \<union> set ps - set (candidates repo) = {}"
    using inv by (simp_all add: image_Un Un_assoc)
  show "validate_repository repo = Inr r"
    unfolding validate_repository_def
    using run ws fs res inv' r by (simp add: Let_def del: Diff_eq_empty_iff)
qed

section \<open>Consequences for an accepted registry\<close>

lemma sort_key_all_entries [simp]:
  "set (all_entries \<lparr>workloads = sort_key f ws, fixtures = sort_key g fs\<rparr>) = set ws \<union> set fs"
  by (simp add: all_entries_def)

lemma distinct_map_sort_key:
  "distinct (map f (sort_key k xs @ sort_key k ys)) \<longleftrightarrow> distinct (map f (xs @ ys))"
proof -
  have "mset (map f (sort_key k xs @ sort_key k ys)) = mset (map f (xs @ ys))"
    by simp
  then show ?thesis by (rule mset_eq_imp_distinct_iff)
qed

lemma list_all2_entry_kind: "list_all2 (entry_record k) js xs \<Longrightarrow> x \<in> set xs \<Longrightarrow> e_kind x = k"
  by (auto simp: entry_record_def dest: list_all2_set2)

lemma accepted_registry:
  assumes "validate_repository repo = Inr r"
  obtains rps where
    "workloads r \<noteq> []" "sorted (map e_path (workloads r))" "sorted (map e_path (fixtures r))"
    "\<And>e. e \<in> set (workloads r) \<Longrightarrow> e_kind e = ''workload''"
    "\<And>e. e \<in> set (fixtures r) \<Longrightarrow> e_kind e = ''fixture''"
    "\<And>e. e \<in> set (all_entries r) \<Longrightarrow> entry_ok repo e"
    "distinct (map e_name (all_entries r))" "distinct (map e_path (all_entries r) @ rps)"
    "set (candidates repo) = set (map e_path (all_entries r) @ rps)"
    "\<And>p. p \<in> set rps \<Longrightarrow> reserved_ok repo p"
proof -
  from assms obtain ws_raw fs_raw ws fs rps where
    *: "ws_raw \<noteq> []" "list_all2 (entry_record ''workload'') ws_raw ws"
       "list_all2 (entry_record ''fixture'') fs_raw fs"
       "list_all (entry_ok repo) (ws @ fs)" "list_all (reserved_ok repo) rps"
       "distinct (map e_name (ws @ fs))" "distinct (map e_path (ws @ fs) @ rps)"
       "set (candidates repo) = set (map e_path (ws @ fs) @ rps)"
       "r = \<lparr>workloads = sort_key e_path ws, fixtures = sort_key e_path fs\<rparr>"
    unfolding validate_repository_spec registry_spec_def by blast
  show ?thesis
  proof (rule that [of rps])
    have "ws \<noteq> []" using *(1,2) by auto
    moreover have "set (workloads r) = set ws" using *(9) by simp
    ultimately show "workloads r \<noteq> []" by auto
    show "distinct (map e_name (all_entries r))"
      using *(6) unfolding *(9) all_entries_def by (simp only: registry_result.select_convs distinct_map_sort_key)
    have "distinct (map e_path (all_entries r))"
      using *(7) unfolding *(9) all_entries_def
      by (simp only: registry_result.select_convs distinct_map_sort_key distinct_append)
    then show "distinct (map e_path (all_entries r) @ rps)"
      using *(7) unfolding *(9) by (simp add: all_entries_def)
  qed (use * in \<open>auto simp: all_entries_def list_all_iff dest: list_all2_entry_kind\<close>)
qed

section \<open>Discovery\<close>

text \<open>The matrices the three discovery scripts print; the registry's entries become JSON objects.\<close>

fun opt_str :: "string option \<Rightarrow> json" where
  "opt_str None = JNull"
| "opt_str (Some s) = JStr s"

definition entry_json :: "entry \<Rightarrow> json" where
  "entry_json e = JObj
     [(''kind'', JStr (e_kind e)), (''name'', JStr (e_name e)), (''path'', JStr (e_path e)),
      (''msrv'', JObj [(''declared'', JBool (declared (e_msrv e))),
                      (''version'', opt_str (version (e_msrv e))),
                      (''policy_reason'', opt_str (policy_reason (e_msrv e)))])]"

lemma entry_json_fields [simp]:
  "get_in (entry_json e) ''name'' = JStr (e_name e)"
  "get_in (get_in (entry_json e) ''msrv'') ''declared'' = JBool (declared (e_msrv e))"
  "get_in (get_in (entry_json e) ''msrv'') ''version'' = opt_str (version (e_msrv e))"
  "get_in (get_in (entry_json e) ''msrv'') ''policy_reason'' = opt_str (policy_reason (e_msrv e))"
  by (simp_all add: entry_json_def)

definition matrix_json :: "entry list \<Rightarrow> json" where
  "matrix_json es = JObj [(''include'', JArr (map entry_json es))]"

datatype discover_error = DiscoverRegistry registry_error | ZeroEntries

definition discover :: "node \<Rightarrow> registry_error + entry list" where
  "discover repo = ebind (validate_repository repo) (\<lambda>r. Inr (workloads r @ fixtures r))"

definition discover_main :: "node \<Rightarrow> discover_error + json" where
  "discover_main repo =
     ebind (map_err DiscoverRegistry (discover repo)) (\<lambda>es.
     ebind (eguard (es \<noteq> []) ZeroEntries) (\<lambda>_. Inr (matrix_json es)))"

definition msrv_discover :: "node \<Rightarrow> registry_error + entry list" where
  "msrv_discover repo =
     ebind (validate_repository repo) (\<lambda>r.
       let include = workloads r @ fixtures r
       in Inr (filter (\<lambda>e. declared (e_msrv e)) include))"

definition msrv_discover_main :: "node \<Rightarrow> discover_error + json" where
  "msrv_discover_main repo =
     ebind (map_err DiscoverRegistry (msrv_discover repo)) (\<lambda>es. Inr (matrix_json es))"

definition supply_discover :: "node \<Rightarrow> registry_error + entry list" where
  "supply_discover repo = ebind (validate_repository repo) (\<lambda>r. Inr (workloads r))"

definition supply_discover_main :: "node \<Rightarrow> discover_error + json" where
  "supply_discover_main repo =
     ebind (map_err DiscoverRegistry (supply_discover repo)) (\<lambda>es.
     ebind (eguard (es \<noteq> []) ZeroEntries) (\<lambda>_. Inr (matrix_json es)))"

section \<open>The registry as an interface\<close>

text \<open>
  What the scripts that load \<open>validate-workload-registry.py\<close> rely on: the lists it returns are
  non-empty (workloads), free of duplicate names and paths across both, sorted by path, and
  tagged with their kind; an MSRV policy is either a version or a reason.
\<close>

definition msrv_policy_ok :: "msrv_policy \<Rightarrow> bool" where
  "msrv_policy_ok m \<longleftrightarrow>
     (if declared m then (\<exists>v. version m = Some v \<and> \<not> blank v) \<and> policy_reason m = None
      else version m = None \<and> (\<exists>s. policy_reason m = Some s \<and> \<not> blank s))"

locale registry_contract =
  fixes validate :: "node \<Rightarrow> 'e + registry_result"
  assumes names_distinct: "validate repo = Inr r \<Longrightarrow> distinct (map e_name (all_entries r))"
    and paths_distinct: "validate repo = Inr r \<Longrightarrow> distinct (map e_path (all_entries r))"
    and some_workload: "validate repo = Inr r \<Longrightarrow> workloads r \<noteq> []"
    and workload_kind: "validate repo = Inr r \<Longrightarrow> e \<in> set (workloads r) \<Longrightarrow> e_kind e = ''workload''"
    and fixture_kind: "validate repo = Inr r \<Longrightarrow> e \<in> set (fixtures r) \<Longrightarrow> e_kind e = ''fixture''"
    and names_proper: "validate repo = Inr r \<Longrightarrow> e \<in> set (all_entries r) \<Longrightarrow> name_ok (e_name e)"
    and msrv_policies: "validate repo = Inr r \<Longrightarrow> e \<in> set (all_entries r) \<Longrightarrow> msrv_policy_ok (e_msrv e)"
begin

lemma workload_names_distinct:
  "validate repo = Inr r \<Longrightarrow> distinct (map e_name (workloads r))"
  using names_distinct by (fastforce simp: all_entries_def)

lemma workload_unique:
  assumes "validate repo = Inr r" "e \<in> set (all_entries r)" "e' \<in> set (all_entries r)"
    "e_name e = e_name e'"
  shows "e = e'"
  using names_distinct [OF assms(1)] assms(2-4) by (auto simp: distinct_map inj_on_def)

lemma not_both_kinds:
  assumes "validate repo = Inr r" "w \<in> set (workloads r)" "f \<in> set (fixtures r)"
  shows "e_name w \<noteq> e_name f"
proof
  assume "e_name w = e_name f"
  with assms have "w = f" by (intro workload_unique) (auto simp: all_entries_def)
  with assms show False using workload_kind fixture_kind by fastforce
qed

end

lemma msrv_matches_policy_ok: "msrv_matches rv m \<Longrightarrow> msrv_policy_ok m"
  by (auto simp: msrv_matches_def msrv_policy_ok_def split: if_splits)

interpretation registry: registry_contract validate_repository
proof
  fix repo r e
  assume v: "validate_repository repo = Inr r"
  obtain rps where *: "workloads r \<noteq> []"
    "\<And>e. e \<in> set (workloads r) \<Longrightarrow> e_kind e = ''workload''"
    "\<And>e. e \<in> set (fixtures r) \<Longrightarrow> e_kind e = ''fixture''"
    "\<And>e. e \<in> set (all_entries r) \<Longrightarrow> entry_ok repo e"
    "distinct (map e_name (all_entries r))" "distinct (map e_path (all_entries r) @ rps)"
    using accepted_registry [OF v] by metis
  show "distinct (map e_name (all_entries r))" "distinct (map e_path (all_entries r))"
    "workloads r \<noteq> []" using * by simp_all
  show "e \<in> set (workloads r) \<Longrightarrow> e_kind e = ''workload''"
    "e \<in> set (fixtures r) \<Longrightarrow> e_kind e = ''fixture''" using * by simp_all
  show "e \<in> set (all_entries r) \<Longrightarrow> name_ok (e_name e)"
    "e \<in> set (all_entries r) \<Longrightarrow> msrv_policy_ok (e_msrv e)"
    using *(4) by (auto simp: entry_ok_def dest: msrv_matches_policy_ok)
qed

section \<open>A small repository\<close>

text \<open>
  One workload with a declared MSRV, one fixture without, one reserved project and one plain
  directory: the concrete tree on which the properties below are applied.
\<close>

definition script_file :: filedata where
  "script_file = (text_file ''#!/bin/sh'')\<lparr>exec_bits := True, exec_ok := True\<rparr>"

definition manifest_file :: "string option \<Rightarrow> filedata" where
  "manifest_file rv = (text_file [])\<lparr>toml_doc := Some
     [(''package'', JObj ((''name'', JStr ''p'') # (case rv of None \<Rightarrow> [] | Some v \<Rightarrow> [(''rust-version'', JStr v)])))]\<rparr>"

definition project_dir :: "string option \<Rightarrow> node" where
  "project_dir rv = NDir [(''Cargo.toml'', NFile (manifest_file rv)), (''Cargo.lock'', NFile (text_file [])),
     (''ci'', NDir [(''validate'', NFile script_file)])]"

definition sample_registry :: obj where
  "sample_registry =
     [(''schema_version'', JInt 3),
      (''workloads'', JArr [JObj [(''name'', JStr ''alpha''), (''path'', JStr ''a''),
                                 (''msrv'', JObj [(''declared'', JBool True)])]]),
      (''fixtures'', JArr [JObj [(''name'', JStr ''beta''), (''path'', JStr ''b''),
                                (''msrv'', JObj [(''declared'', JBool False),
                                                (''policy_reason'', JStr ''none'')])]]),
      (''reserved_top_level_cargo_projects'',
         JArr [JObj [(''path'', JStr ''r''), (''reason'', JStr ''tooling'')]])]"

definition sample_tree :: "(string \<times> node) list \<Rightarrow> node" where
  "sample_tree extra = NDir ([(''workloads.json'', NFile ((text_file [])\<lparr>json_doc := Some (JObj sample_registry)\<rparr>)),
     (''deny.toml'', NFile (text_file [])),
     (''a'', project_dir (Some ''1.8'')), (''b'', project_dir None), (''docs'', NDir []),
     (''r'', project_dir None)] @ extra)"

definition sample_result :: registry_result where
  "sample_result = \<lparr>workloads = [\<lparr>e_kind = ''workload'', e_name = ''alpha'', e_path = ''a'',
       e_msrv = \<lparr>declared = True, version = Some ''1.8'', policy_reason = None\<rparr>\<rparr>],
     fixtures = [\<lparr>e_kind = ''fixture'', e_name = ''beta'', e_path = ''b'',
       e_msrv = \<lparr>declared = False, version = None, policy_reason = Some ''none''\<rparr>\<rparr>]\<rparr>"

lemma sample_accepted: "validate_repository (sample_tree []) = Inr sample_result"
  by code_simp

section \<open>Properties\<close>

text \<open>
  C2. The registry validator accepts exactly the repositories that meet the declarative
  specification, and returns exactly the entries it describes: every entry's directory,
  manifest, executable contract and MSRV policy are right, names and paths are distinct across
  workloads and fixtures, and the registered and reserved paths are together exactly the
  top-level Cargo projects of the tree.
\<close>

theorem validate_repository_iff_spec:
  "validate_repository repo = Inr r \<longleftrightarrow> registry_spec repo r"
  by (rule validate_repository_spec)

text \<open>
  C7. The inventory of an accepted registry is exact: the top-level Cargo projects split,
  without overlap, into the registered entries, each of which meets its obligations, and
  reserved paths that no entry uses.
\<close>

theorem registry_inventory_exact:
  assumes "validate_repository repo = Inr r"
  shows "\<exists>rps. set (candidates repo) = e_path ` set (all_entries r) \<union> set rps
    \<and> e_path ` set (all_entries r) \<inter> set rps = {} \<and> distinct rps
    \<and> distinct (map e_path (all_entries r)) \<and> list_all (entry_ok repo) (all_entries r)
    \<and> list_all (reserved_ok repo) rps"
proof -
  obtain rps where "\<And>e. e \<in> set (all_entries r) \<Longrightarrow> entry_ok repo e"
    "distinct (map e_path (all_entries r) @ rps)"
    "set (candidates repo) = set (map e_path (all_entries r) @ rps)"
    "\<And>p. p \<in> set rps \<Longrightarrow> reserved_ok repo p"
    using accepted_registry [OF assms] by metis
  then show ?thesis by (intro exI [of _ rps]) (auto simp: list_all_iff)
qed

theorem registry_inventory_exact_witness:
  "\<exists>rps. set (candidates (sample_tree [])) = e_path ` set (all_entries sample_result) \<union> set rps
    \<and> e_path ` set (all_entries sample_result) \<inter> set rps = {} \<and> distinct rps
    \<and> distinct (map e_path (all_entries sample_result))
    \<and> list_all (entry_ok (sample_tree [])) (all_entries sample_result)
    \<and> list_all (reserved_ok (sample_tree [])) rps"
  by (rule registry_inventory_exact [OF sample_accepted])

text \<open>
  No project escapes registration: a repository with a top-level Cargo project whose
  directory name is the path of no workload, no fixture and no reserved project is rejected.
\<close>

theorem unregistered_project_rejected:
  assumes "load_registry repo = Inr d" and "c \<in> set (candidates repo)"
    and "\<forall>k \<in> {''workloads'', ''fixtures'', ''reserved_top_level_cargo_projects''}.
      \<forall>xs. dget d k = JArr xs \<longrightarrow> (\<forall>x \<in> set xs. get_in x ''path'' \<noteq> JStr c)"
  shows "\<exists>e. validate_repository repo = Inl e"
proof (rule ccontr)
  assume "\<nexists>e. validate_repository repo = Inl e"
  then obtain r where "validate_repository repo = Inr r"
    by (metis not_isOK isOK_iff)
  then obtain ws_raw fs_raw res ws fs rps where
    *: "dget d ''workloads'' = JArr ws_raw"
       "get_default d ''fixtures'' (JArr []) = JArr fs_raw"
       "get_default d ''reserved_top_level_cargo_projects'' (JArr []) = JArr res"
    and recs: "list_all2 (entry_record ''workload'') ws_raw ws"
       "list_all2 (entry_record ''fixture'') fs_raw fs" "list_all2 reserved_record res rps"
       "set (candidates repo) = set (map e_path (ws @ fs) @ rps)"
    using assms(1) unfolding validate_repository_spec registry_spec_def by auto
  from recs(4) assms(2) consider x where "x \<in> set ws" "e_path x = c"
    | x where "x \<in> set fs" "e_path x = c" | "c \<in> set rps"
    by auto
  then show False
  proof cases
    case 1
    with recs(1) obtain j where "j \<in> set ws_raw" "get_in j ''path'' = JStr c"
      by (fastforce simp: entry_record_def dest: list_all2_set2)
    with *(1) assms(3) show False by auto
  next
    case 2
    with recs(2) obtain j where "j \<in> set fs_raw" "get_in j ''path'' = JStr c"
      by (fastforce simp: entry_record_def dest: list_all2_set2)
    with *(2) assms(3) show False by (auto simp: get_default_def dget_def split: option.splits)
  next
    case 3
    with recs(3) obtain j where "j \<in> set res" "get_in j ''path'' = JStr c"
      by (fastforce simp: reserved_record_def dest: list_all2_set2)
    with *(3) assms(3) show False by (auto simp: get_default_def dget_def split: option.splits)
  qed
qed

theorem unregistered_project_rejected_witness:
  "\<exists>e. validate_repository (sample_tree [(''x'', project_dir None)]) = Inl e"
proof (rule unregistered_project_rejected)
  show "load_registry (sample_tree [(''x'', project_dir None)]) = Inr sample_registry"
    by code_simp
  show "''x'' \<in> set (candidates (sample_tree [(''x'', project_dir None)]))"
    by code_simp
  show "\<forall>k \<in> {''workloads'', ''fixtures'', ''reserved_top_level_cargo_projects''}.
      \<forall>xs. dget sample_registry k = JArr xs \<longrightarrow> (\<forall>x \<in> set xs. get_in x ''path'' \<noteq> JStr ''x'')"
    by (simp add: sample_registry_def)
qed

text \<open>
  The three discovery projections of one repository agree: they succeed together, the MSRV
  matrix is the full matrix restricted to declared policies, the supply-chain matrix is its
  workloads and leaves out every fixture, and the full matrix lists every entry once.
\<close>

theorem discovery_projections:
  "case discover repo of
     Inl e \<Rightarrow> msrv_discover repo = Inl e \<and> supply_discover repo = Inl e
   | Inr es \<Rightarrow> distinct (map e_name es) \<and> es \<noteq> []
       \<and> msrv_discover repo = Inr (filter (\<lambda>e. declared (e_msrv e)) es)
       \<and> supply_discover repo = Inr (filter (\<lambda>e. e_kind e = ''workload'') es)
       \<and> discover_main repo = Inr (matrix_json es)"
proof (cases "validate_repository repo")
  case (Inl e)
  then show ?thesis by (simp add: discover_def msrv_discover_def supply_discover_def)
next
  case (Inr r)
  have "filter (\<lambda>e. e_kind e = ''workload'') (workloads r) = workloads r"
    using registry.workload_kind [OF Inr] by simp
  moreover have "filter (\<lambda>e. e_kind e = ''workload'') (fixtures r) = []"
    using registry.fixture_kind [OF Inr] by (auto simp: filter_empty_conv)
  moreover have "distinct (map e_name (workloads r @ fixtures r))"
    using registry.names_distinct [OF Inr] by (simp add: all_entries_def)
  ultimately show ?thesis using Inr registry.some_workload [OF Inr]
    by (simp add: discover_def msrv_discover_def supply_discover_def discover_main_def)
qed

end
