(* ===== verification/Shards.thy ===== *)
theory Shards
  imports Registry
begin

text \<open>
  Models of \<open>.github/scripts/write-shard-result.py\<close> (one normalized result per shard),
  \<open>aggregate_verdict.py\<close> (the aggregate verdict over a directory of results) and
  \<open>synthesize-msrv-not-applicable.py\<close> (explicit results for entries without an MSRV policy).
  A result's fields are JSON values, because the scripts do not check their types: a value that
  cannot be hashed or ordered where the code needs it raises \<open>TypeError\<close>, a constructor of
  \<open>shard_crash\<close>.
\<close>

section \<open>Writing one result\<close>

datatype (plugins only: code) writer_error =
    BothModes
  | NeitherMode
  | NotApplicableWrongStage
  | NotApplicableNoReason

definition build_result ::
  "json \<Rightarrow> string \<Rightarrow> int option \<Rightarrow> bool \<Rightarrow> json \<Rightarrow> writer_error + obj" where
  "build_result workload stage exit_code not_applicable reason =
     ebind (eguard (\<not> (not_applicable \<and> exit_code \<noteq> None)) BothModes) (\<lambda>_.
     ebind (eguard (\<not> (\<not> not_applicable \<and> exit_code = None)) NeitherMode) (\<lambda>_.
       if not_applicable then
         ebind (eguard (stage = ''msrv'') NotApplicableWrongStage) (\<lambda>_.
         ebind (want_str reason NotApplicableNoReason) (\<lambda>s.
         ebind (eguard (\<not> blank s) NotApplicableNoReason) (\<lambda>_.
           Inr [(''workload'', workload), (''stage'', JStr stage), (''status'', JStr ''success''),
                (''outcome'', JStr ''not-applicable''), (''reason'', JStr s)])))
       else
         Inr [(''workload'', workload), (''stage'', JStr stage),
              (''status'', JStr (if exit_code = Some 0 then ''success'' else ''failure'')),
              (''outcome'', JStr ''validated''),
              (''exit_code'', (case exit_code of None \<Rightarrow> JNull | Some c \<Rightarrow> JInt c))]))"

text \<open>
  The command line: \<open>argparse\<close> accepts one of three stages and exactly one of \<open>--exit-code\<close> and
  \<open>--not-applicable\<close>.
\<close>

definition stages :: "string list" where
  "stages = [''ci'', ''msrv'', ''supply-chain'']"

datatype write_error = UsageError | WriterError writer_error | WriteOSError

definition write_main ::
  "node \<Rightarrow> string list \<Rightarrow> string \<Rightarrow> string \<Rightarrow> int option \<Rightarrow> bool \<Rightarrow> string option \<Rightarrow> write_error + node" where
  "write_main dir out workload stage exit_code not_applicable reason =
     ebind (eguard (stage \<in> set stages \<and> (exit_code \<noteq> None) \<noteq> not_applicable) UsageError) (\<lambda>_.
     ebind (map_err WriterError
              (build_result (JStr workload) stage exit_code not_applicable (opt_str reason))) (\<lambda>result.
       want_some (put_file dir out (json_file (JObj result))) WriteOSError))"

section \<open>Reading the results of a stage\<close>

record expected_shard =
  x_name :: string
  x_outcome :: string

record shard_result =
  sr_workload :: json
  sr_stage :: json
  sr_status :: json
  sr_outcome :: json
  sr_source :: string

datatype (plugins only: code) parse_error =
    Unreadable string
  | RootNotObject string
  | MissingKeys string "string list"
  | InvalidStatusOutcome string json json

datatype (plugins only: code) shard_crash = UnhashableValue | UnorderableKeys | MsrvNotMapping

definition valid_statuses :: "json list" where
  "valid_statuses = [JStr ''success'', JStr ''failure'']"

definition valid_outcomes :: "json list" where
  "valid_outcomes = [JStr ''validated'', JStr ''not-applicable'']"

text \<open>\<open>v in S\<close> for a set of strings \<open>S\<close>.\<close>

definition in_set :: "json \<Rightarrow> json list \<Rightarrow> shard_crash + bool" where
  "in_set v vs = ebind (eguard (hashable v) UnhashableValue) (\<lambda>_. Inr (v \<in> set vs))"

definition required_keys :: "string list" where
  "required_keys = [''outcome'', ''stage'', ''status'', ''workload'']"

definition parse_result_file :: "string \<Rightarrow> node \<Rightarrow> parse_error + obj" where
  "parse_result_file name n =
     ebind (want_some (get_file n []) (Unreadable name)) (\<lambda>f.
     ebind (want_some (json_doc f) (Unreadable name)) (\<lambda>v.
       want_obj v (RootNotObject name)))"

datatype (plugins only: code) file_outcome =
    BadFile parse_error
  | OtherStage
  | GoodFile shard_result

definition load_result :: "string \<Rightarrow> string \<Rightarrow> node \<Rightarrow> shard_crash + file_outcome" where
  "load_result stage name n =
     (case parse_result_file name n of
        Inl e \<Rightarrow> Inr (BadFile e)
      | Inr data \<Rightarrow>
          let missing = filter (\<lambda>k. \<not> has_key data k) required_keys;
              status = dget data ''status''; outcome = dget data ''outcome'' in
          if missing \<noteq> [] then Inr (BadFile (MissingKeys name missing))
          else if dget data ''stage'' \<noteq> JStr stage then Inr OtherStage
          else
            ebind (in_set status valid_statuses) (\<lambda>s_ok.
            ebind (if s_ok then in_set outcome valid_outcomes else Inr False) (\<lambda>ok.
              if \<not> ok then Inr (BadFile (InvalidStatusOutcome name status outcome))
              else Inr (GoodFile
                \<lparr>sr_workload = dget data ''workload'', sr_stage = dget data ''stage'',
                 sr_status = status, sr_outcome = outcome, sr_source = name\<rparr>))))"

fun good_results :: "file_outcome list \<Rightarrow> shard_result list" where
  "good_results [] = []"
| "good_results (GoodFile r # fs) = r # good_results fs"
| "good_results (_ # fs) = good_results fs"

fun bad_files :: "file_outcome list \<Rightarrow> parse_error list" where
  "bad_files [] = []"
| "bad_files (BadFile e # fs) = e # bad_files fs"
| "bad_files (_ # fs) = bad_files fs"

text \<open>\<open>results_dir\<close> is \<open>None\<close> when the directory does not exist.\<close>

definition load_results ::
  "node option \<Rightarrow> string \<Rightarrow> shard_crash + shard_result list \<times> parse_error list" where
  "load_results results_dir stage =
     (case (case results_dir of None \<Rightarrow> None | Some d \<Rightarrow> get_dir d []) of
        None \<Rightarrow> Inr ([], [])
      | Some es \<Rightarrow>
          ebind (emap (\<lambda>(p, n). load_result stage (last p) n) (rglob_suffix ''.json'' es)) (\<lambda>outcomes.
            Inr (good_results outcomes, bad_files outcomes)))"

section \<open>The verdict\<close>

datatype (plugins only: code) missing_kind = JobCancelled | JobSkipped | JobConclusion json | NoShardResult

datatype (plugins only: code) verdict_reason =
    DiscoveryFailed
  | ZeroWorkloads
  | DuplicateExpected string
  | MalformedResult parse_error
  | DuplicateResults json "string list"
  | ExtraResult json "string list"
  | MissingResult string missing_kind
  | ShardFailed string json
  | PolicyMismatch string json json string
  | UpstreamFailed

record verdict =
  v_ok :: bool
  v_reasons :: "verdict_reason list"

definition vfail :: "verdict_reason \<Rightarrow> verdict \<Rightarrow> verdict" where
  "vfail r v = v\<lparr>v_ok := False, v_reasons := v_reasons v @ [r]\<rparr>"

text \<open>The \<open>dict\<close> of expected shards: a repeated name is reported and the later entry wins.\<close>

fun expected_index ::
  "(string \<rightharpoonup> expected_shard) \<Rightarrow> expected_shard list \<Rightarrow> (string \<rightharpoonup> expected_shard) \<times> verdict_reason list" where
  "expected_index m [] = (m, [])"
| "expected_index m (x # xs) =
     (let (m', rs) = expected_index (m(x_name x \<mapsto> x)) xs
      in (m', (if m (x_name x) = None then [] else [DuplicateExpected (x_name x)]) @ rs))"

text \<open>\<open>by_workload.setdefault(result.workload, []).append(result)\<close>\<close>

fun add_result :: "(json \<times> shard_result list) list \<Rightarrow> shard_result \<Rightarrow> (json \<times> shard_result list) list" where
  "add_result [] r = [(sr_workload r, [r])]"
| "add_result ((k, rs) # gs) r =
     (if py_eq k (sr_workload r) then (k, rs @ [r]) # gs else (k, rs) # add_result gs r)"

definition group_results :: "shard_result list \<Rightarrow> shard_crash + (json \<times> shard_result list) list" where
  "group_results results =
     ebind (eguard (list_all (\<lambda>r. hashable (sr_workload r)) results) UnhashableValue) (\<lambda>_.
       Inr (foldl add_result [] results))"

text \<open>
  \<open>sorted(by_workload.items())\<close>: strings are sorted; two or more keys of which some cannot be
  compared raise \<open>TypeError\<close>. Numeric keys only occur in rejected result sets; the model keeps
  them in the order of insertion, which is the order of the reasons and nothing else.
\<close>

fun str_key :: "json \<times> 'a \<Rightarrow> string" where
  "str_key (JStr s, _) = s"
| "str_key _ = []"

definition sorted_items :: "(json \<times> 'a) list \<Rightarrow> shard_crash + (json \<times> 'a) list" where
  "sorted_items gs =
     (if list_all (\<lambda>g. is_str (fst g)) gs then Inr (sort_key str_key gs)
      else if length gs \<le> 1 \<or> list_all (\<lambda>g. num_val (fst g) \<noteq> None) gs then Inr gs
      else Inl UnorderableKeys)"

definition group_reasons :: "string list \<Rightarrow> json \<times> shard_result list \<Rightarrow> verdict_reason list" where
  "group_reasons expected_names g =
     (if length (snd g) > 1 then [DuplicateResults (fst g) (map sr_source (snd g))] else []) @
     (if fst g \<notin> JStr ` set expected_names then [ExtraResult (fst g) (map sr_source (snd g))] else [])"

definition missing_status :: "obj \<Rightarrow> string \<Rightarrow> missing_kind" where
  "missing_status job_statuses w =
     (let status = dget job_statuses w in
      if status = JStr ''cancelled'' then JobCancelled
      else if status = JStr ''skipped'' then JobSkipped
      else if status \<noteq> JNull then JobConclusion status
      else NoShardResult)"

definition shard_reasons ::
  "obj \<Rightarrow> (json \<times> shard_result list) list \<Rightarrow> (string \<rightharpoonup> expected_shard) \<Rightarrow> string \<Rightarrow> verdict_reason list" where
  "shard_reasons job_statuses groups by_name w =
     (case (case map_of groups (JStr w) of None \<Rightarrow> [] | Some es \<Rightarrow> es) of
        [] \<Rightarrow> [MissingResult w (missing_status job_statuses w)]
      | r # _ \<Rightarrow>
          if sr_status r \<noteq> JStr ''success'' then [ShardFailed w (sr_stage r)]
          else (case by_name w of
                  None \<Rightarrow> []
                | Some x \<Rightarrow> if sr_outcome r \<noteq> JStr (x_outcome x)
                    then [PolicyMismatch w (sr_stage r) (sr_outcome r) (x_outcome x)] else []))"

definition compute_verdict ::
  "expected_shard list \<Rightarrow> shard_result list \<Rightarrow> bool \<Rightarrow> bool \<Rightarrow> parse_error list \<Rightarrow> obj \<Rightarrow> shard_crash + verdict" where
  "compute_verdict expected results discovery_ok upstream_job_ok parse_errors job_statuses =
     (let v0 = \<lparr>v_ok = True, v_reasons = []\<rparr>;
          v1 = (if \<not> discovery_ok then vfail DiscoveryFailed v0 else v0);
          v2 = (if expected = [] then vfail ZeroWorkloads v1 else v1);
          (by_name, duplicates) = expected_index Map.empty expected;
          v3 = fold vfail duplicates v2;
          names = sort (dedup (map x_name expected));
          v4 = fold vfail (map MalformedResult parse_errors) v3 in
      ebind (group_results results) (\<lambda>by_workload.
      ebind (sorted_items by_workload) (\<lambda>items.
        let v5 = fold vfail (concat (map (group_reasons names) items)) v4;
            v6 = fold vfail (concat (map (shard_reasons job_statuses by_workload by_name) names)) v5
        in Inr (if \<not> upstream_job_ok then vfail UpstreamFailed v6 else v6))))"

section \<open>The expected shards\<close>

text \<open>\<open>(msrv or {}).get("declared")\<close>: a truthy value that is not a dict has no \<open>get\<close>.\<close>

definition expected_outcome_for :: "string \<Rightarrow> json \<Rightarrow> shard_crash + string" where
  "expected_outcome_for stage msrv =
     (if stage \<in> {''ci'', ''supply-chain''} then Inr ''validated''
      else
        ebind (want_obj (if truthy msrv then msrv else JObj []) MsrvNotMapping) (\<lambda>m.
          Inr (if truthy (dget m ''declared'') then ''validated'' else ''not-applicable'')))"

datatype (plugins only: code) aggregate_error =
    DiscoveryNotJson
  | NoIncludeArray
  | MalformedEntry
  | AggregateCrash shard_crash

definition load_expected :: "json option \<Rightarrow> string \<Rightarrow> aggregate_error + expected_shard list" where
  "load_expected discover_json stage =
     ebind (want_some discover_json DiscoveryNotJson) (\<lambda>matrix.
     ebind (want_arr (get_in matrix ''include'') NoIncludeArray) (\<lambda>include.
       emap (\<lambda>entry.
         ebind (want_obj entry MalformedEntry) (\<lambda>d.
         ebind (want_str (dget d ''name'') MalformedEntry) (\<lambda>name.
         ebind (map_err AggregateCrash (expected_outcome_for stage (dget d ''msrv''))) (\<lambda>outcome.
           Inr \<lparr>x_name = name, x_outcome = outcome\<rparr>)))) include))"

text \<open>
  The exit status of the aggregate job's step. \<open>None\<close> for \<open>job_statuses_json\<close> is a text that does
  not parse; the observed workloads are printed sorted and joined before the verdict, which
  raises unless they are all strings.
\<close>

definition aggregate_main ::
  "string \<Rightarrow> json option \<Rightarrow> node option \<Rightarrow> bool \<Rightarrow> bool \<Rightarrow> json option \<Rightarrow> aggregate_error + verdict" where
  "aggregate_main stage discover_json results_dir discovery_ok upstream_job_ok job_statuses_json =
     ebind (load_expected discover_json stage) (\<lambda>expected.
     ebind (map_err AggregateCrash (load_results results_dir stage)) (\<lambda>(results, parse_errors).
     ebind (map_err AggregateCrash
              (compute_verdict expected results discovery_ok upstream_job_ok parse_errors
                 (case job_statuses_json of Some (JObj d) \<Rightarrow> d | _ \<Rightarrow> []))) (\<lambda>verdict.
     ebind (eguard (list_all (\<lambda>r. is_str (sr_workload r)) results) (AggregateCrash UnorderableKeys)) (\<lambda>_.
       Inr verdict))))"

definition aggregate_exit :: "aggregate_error + verdict \<Rightarrow> nat" where
  "aggregate_exit out = (case out of Inl _ \<Rightarrow> 1 | Inr v \<Rightarrow> if v_ok v then 0 else 1)"

section \<open>Synthesis of not-applicable results\<close>

datatype (plugins only: code) synthesis_error =
    SynNotJson
  | SynNoInclude
  | SynEntryNotObject
  | SynInvalidName json
  | SynDuplicateName string
  | SynMalformedMsrv string
  | SynNoVersion string
  | SynUnexpectedReason string
  | SynUnexpectedVersion string
  | SynNoReason string
  | SynMalformedResults "parse_error list"
  | SynCollision string
  | SynDeclared json
  | SynWriter writer_error
  | SynCrash shard_crash
  | SynOSError

definition parse_entry :: "string list \<Rightarrow> json \<Rightarrow> synthesis_error + string" where
  "parse_entry seen raw_entry =
     ebind (want_obj raw_entry SynEntryNotObject) (\<lambda>d.
     ebind (want_str (dget d ''name'') (SynInvalidName (dget d ''name''))) (\<lambda>name.
     ebind (eguard (name \<noteq> [] \<and> CHR ''/'' \<notin> set name \<and> name \<noteq> ''.'' \<and> name \<noteq> ''..'')
              (SynInvalidName (JStr name))) (\<lambda>_.
     ebind (eguard (name \<notin> set seen) (SynDuplicateName name)) (\<lambda>_.
     ebind (want_obj (dget d ''msrv'') (SynMalformedMsrv name)) (\<lambda>msrv.
     ebind (want_bool (dget msrv ''declared'') (SynMalformedMsrv name)) (\<lambda>decl.
     ebind (if decl then
              ebind (want_str (dget msrv ''version'') (SynNoVersion name)) (\<lambda>v.
              ebind (eguard (\<not> blank v) (SynNoVersion name)) (\<lambda>_.
                eguard (dget msrv ''policy_reason'' \<in> {JNull, JStr []}) (SynUnexpectedReason name)))
            else
              ebind (eguard (dget msrv ''version'' = JNull) (SynUnexpectedVersion name)) (\<lambda>_.
              ebind (want_str (dget msrv ''policy_reason'') (SynNoReason name)) (\<lambda>r.
                eguard (\<not> blank r) (SynNoReason name)))) (\<lambda>_.
       Inr name)))))))"

fun parse_entry_list :: "string list \<Rightarrow> json list \<Rightarrow> synthesis_error + unit" where
  "parse_entry_list seen [] = Inr ()"
| "parse_entry_list seen (e # es) =
     ebind (parse_entry seen e) (\<lambda>name. parse_entry_list (name # seen) es)"

definition parse_entries :: "json option \<Rightarrow> synthesis_error + json list" where
  "parse_entries discover_json =
     ebind (want_some discover_json SynNotJson) (\<lambda>matrix.
     ebind (want_arr (get_in matrix ''include'') SynNoInclude) (\<lambda>include.
     ebind (eguard (include \<noteq> []) SynNoInclude) (\<lambda>_.
     ebind (parse_entry_list [] include) (\<lambda>_. Inr include))))"

definition build_not_applicable_result :: "json \<Rightarrow> synthesis_error + obj" where
  "build_not_applicable_result entry =
     (let msrv = get_in entry ''msrv'' in
      ebind (eguard (get_in msrv ''declared'' \<noteq> JBool True) (SynDeclared (get_in entry ''name''))) (\<lambda>_.
        map_err SynWriter
          (build_result (get_in entry ''name'') ''msrv'' None True (get_in msrv ''policy_reason''))))"

text \<open>
  The loop of \<open>synthesize\<close>: the directory is threaded through, so the files written before a
  failure stay.
\<close>

definition synthetic_path :: "string \<Rightarrow> string list" where
  "synthetic_path name = [''synthetic-msrv-'' @ name, ''result.json'']"

fun synthesize_loop ::
  "json list \<Rightarrow> json list \<Rightarrow> node \<Rightarrow> node \<times> (synthesis_error + string list list)" where
  "synthesize_loop existing [] dir = (dir, Inr [])"
| "synthesize_loop existing (entry # entries) dir =
     (if get_in (get_in entry ''msrv'') ''declared'' = JBool True then synthesize_loop existing entries dir
      else
        case as_str (get_in entry ''name'') of
          None \<Rightarrow> (dir, Inl (SynInvalidName (get_in entry ''name'')))
        | Some name \<Rightarrow>
            if JStr name \<in> set existing then (dir, Inl (SynCollision name))
            else
              (case build_not_applicable_result entry of
                 Inl e \<Rightarrow> (dir, Inl e)
               | Inr result \<Rightarrow>
                   (case put_file dir (synthetic_path name) (json_file (JObj result)) of
                      None \<Rightarrow> (dir, Inl SynOSError)
                    | Some dir' \<Rightarrow>
                        (case synthesize_loop (JStr name # existing) entries dir' of
                           (dir'', Inl e) \<Rightarrow> (dir'', Inl e)
                         | (dir'', Inr written) \<Rightarrow> (dir'', Inr (synthetic_path name # written))))))"

definition synthesize ::
  "json option \<Rightarrow> node option \<Rightarrow> node option \<times> (synthesis_error + string list list)" where
  "synthesize discover_json results_dir =
     (case
        ebind (parse_entries discover_json) (\<lambda>entries.
        ebind (map_err SynCrash (load_results results_dir ''msrv'')) (\<lambda>(existing, parse_errors).
        ebind (eguard (parse_errors = []) (SynMalformedResults parse_errors)) (\<lambda>_.
        ebind (eguard (list_all (\<lambda>r. hashable (sr_workload r)) existing) (SynCrash UnhashableValue)) (\<lambda>_.
          Inr (entries, map sr_workload existing))))) of
        Inl e \<Rightarrow> (results_dir, Inl e)
      | Inr (entries, existing_names) \<Rightarrow>
          (if list_all (\<lambda>e. get_in (get_in e ''msrv'') ''declared'' = JBool True) entries
           then (results_dir, Inr [])
           else
             (let (dir, out) = synthesize_loop existing_names entries
                    (case results_dir of None \<Rightarrow> NDir [] | Some d \<Rightarrow> d)
              in (Some dir, out))))"

section \<open>The verdict, characterised\<close>

lemma fold_vfail: "fold vfail rs v = \<lparr>v_ok = (v_ok v \<and> rs = []), v_reasons = v_reasons v @ rs\<rparr>"
  by (induction rs arbitrary: v) (auto simp: vfail_def)

lemma expected_index_dups:
  "snd (expected_index m xs) = [] \<longleftrightarrow> distinct (map x_name xs) \<and> (\<forall>x \<in> set xs. m (x_name x) = None)"
proof (induction xs arbitrary: m)
  case Nil
  then show ?case by simp
next
  case (Cons a xs)
  have "snd (expected_index m (a # xs)) = [] \<longleftrightarrow>
      m (x_name a) = None \<and> distinct (map x_name xs) \<and>
      (\<forall>x \<in> set xs. (m(x_name a \<mapsto> a)) (x_name x) = None)"
    by (simp add: Let_def split_beta Cons.IH)
  also have "(\<forall>x \<in> set xs. (m(x_name a \<mapsto> a)) (x_name x) = None) \<longleftrightarrow>
      x_name a \<notin> x_name ` set xs \<and> (\<forall>x \<in> set xs. m (x_name x) = None)"
    by (force simp: image_iff)
  finally show ?case by auto
qed

lemma expected_index_other: "w \<notin> x_name ` set xs \<Longrightarrow> fst (expected_index m xs) w = m w"
  by (induction xs arbitrary: m) (auto simp: Let_def split_beta)

lemma expected_index_lookup:
  "distinct (map x_name xs) \<Longrightarrow> x \<in> set xs \<Longrightarrow> fst (expected_index m xs) (x_name x) = Some x"
proof (induction xs arbitrary: m)
  case Nil
  then show ?case by simp
next
  case (Cons y ys)
  show ?case
  proof (cases "x = y")
    case True
    then have "fst (expected_index (m(x_name y \<mapsto> y)) ys) (x_name x) = (m(x_name y \<mapsto> y)) (x_name x)"
      using Cons.prems(1) by (intro expected_index_other) auto
    then show ?thesis using True by (simp add: Let_def split_beta)
  next
    case False
    with Cons show ?thesis by (auto simp: Let_def split_beta)
  qed
qed

text \<open>What grouping keeps: under a string key stand exactly the results of that name, in order.\<close>

definition results_for :: "string \<Rightarrow> shard_result list \<Rightarrow> shard_result list" where
  "results_for w rs = filter (\<lambda>r. sr_workload r = JStr w) rs"

lemma py_eq_str_left [simp]: "py_eq (JStr s) v \<longleftrightarrow> v = JStr s"
  by simp

lemma map_of_add_result:
  "map_of (add_result gs r) (JStr w) =
     (if sr_workload r = JStr w then Some ((case map_of gs (JStr w) of None \<Rightarrow> [] | Some l \<Rightarrow> l) @ [r])
      else map_of gs (JStr w))"
  by (induction gs r rule: add_result.induct) auto

lemma keys_add_result: "fst ` set (add_result gs r) \<subseteq> insert (sr_workload r) (fst ` set gs)"
  by (induction gs r rule: add_result.induct) auto

lemma keys_add_result_mono: "fst ` set gs \<subseteq> fst ` set (add_result gs r)"
  by (induction gs r rule: add_result.induct) auto

lemma key_of_added:
  "\<exists>k \<in> fst ` set (add_result gs r). k = sr_workload r \<or> py_eq k (sr_workload r)"
  by (induction gs r rule: add_result.induct) auto

lemma string_keys_add_result:
  "distinct (filter is_str (map fst gs)) \<Longrightarrow> distinct (filter is_str (map fst (add_result gs r)))"
proof (induction gs r rule: add_result.induct)
  case (2 k rs gs r)
  show ?case
  proof (cases "py_eq k (sr_workload r)")
    case True
    with 2 show ?thesis by simp
  next
    case False
    have "k \<notin> fst ` set (add_result gs r)" if "is_str k"
    proof
      assume "k \<in> fst ` set (add_result gs r)"
      then have "k = sr_workload r \<or> k \<in> fst ` set gs"
        using keys_add_result [of gs r] by (metis insertE subsetD)
      with 2(2) False that show False by (auto simp: is_str_iff image_iff)
    qed
    with False 2 show ?thesis by (cases "is_str k") (simp_all del: image_iff)
  qed
qed simp

lemma groups_map_of:
  "map_of (foldl add_result [] rs) (JStr w) =
     (if results_for w rs = [] then None else Some (results_for w rs))"
  by (induction rs rule: rev_induct) (auto simp: map_of_add_result results_for_def)

lemma groups_keys: "fst ` set (foldl add_result [] rs) \<subseteq> sr_workload ` set rs"
proof (induction rs rule: rev_induct)
  case (snoc r rs)
  with keys_add_result [of "foldl add_result [] rs" r] show ?case by auto
qed simp

lemma groups_cover:
  "r \<in> set rs \<Longrightarrow> \<exists>k \<in> fst ` set (foldl add_result [] rs). k = sr_workload r \<or> py_eq k (sr_workload r)"
proof (induction rs rule: rev_induct)
  case (snoc x rs)
  show ?case
  proof (cases "r = x")
    case True
    then show ?thesis using key_of_added by simp
  next
    case False
    with snoc obtain k where k: "k \<in> fst ` set (foldl add_result [] rs)"
      "k = sr_workload r \<or> py_eq k (sr_workload r)" by auto
    from k(1) have "k \<in> fst ` set (foldl add_result [] (rs @ [x]))"
      using keys_add_result_mono [of "foldl add_result [] rs" x] by (simp only: foldl_append foldl.simps subset_iff)
    then show ?thesis using k(2) by (rule rev_bexI)
  qed
qed simp

lemma groups_string_keys: "distinct (filter is_str (map fst (foldl add_result [] rs)))"
  by (induction rs rule: rev_induct) (simp_all add: string_keys_add_result)

lemma map_of_string_key:
  "distinct (filter is_str (map fst gs)) \<Longrightarrow> (JStr w, l) \<in> set gs \<Longrightarrow> map_of gs (JStr w) = Some l"
proof (induction gs)
  case (Cons g gs)
  then show ?case by (cases g) (force split: if_splits)
qed simp

lemma group_members:
  "(JStr w, l) \<in> set (foldl add_result [] rs) \<Longrightarrow> l = results_for w rs"
  by (drule map_of_string_key [OF groups_string_keys]) (simp add: groups_map_of split: if_splits)

text \<open>The groups raise no complaint iff every result is the only one of an expected name.\<close>

lemma group_reasons_none:
  "(\<forall>g \<in> set (foldl add_result [] rs). group_reasons names g = []) \<longleftrightarrow>
     (\<forall>r \<in> set rs. sr_workload r \<in> JStr ` set names) \<and> (\<forall>w. length (results_for w rs) \<le> 1)"
  (is "?L \<longleftrightarrow> ?R")
proof
  assume L: ?L
  show ?R
  proof (intro conjI ballI allI)
    fix r assume "r \<in> set rs"
    then obtain k l where "(k, l) \<in> set (foldl add_result [] rs)"
      "k = sr_workload r \<or> py_eq k (sr_workload r)" using groups_cover by fastforce
    with L show "sr_workload r \<in> JStr ` set names"
      by (fastforce simp: group_reasons_def split: if_splits)
  next
    fix w
    show "length (results_for w rs) \<le> 1"
    proof (cases "results_for w rs = []")
      case False
      then have "map_of (foldl add_result [] rs) (JStr w) = Some (results_for w rs)"
        by (simp add: groups_map_of)
      then have "(JStr w, results_for w rs) \<in> set (foldl add_result [] rs)" by (rule map_of_SomeD)
      with L have "group_reasons names (JStr w, results_for w rs) = []" by blast
      then show ?thesis by (simp add: group_reasons_def split: if_splits)
    qed simp
  qed
next
  assume R: ?R
  show ?L
  proof
    fix g assume g: "g \<in> set (foldl add_result [] rs)"
    then have "fst g \<in> sr_workload ` set rs" using groups_keys by fastforce
    with R obtain w where w: "fst g = JStr w" "w \<in> set names" by auto
    with g have "snd g = results_for w rs" using group_members by (metis prod.collapse)
    moreover have "\<not> 1 < length (results_for w rs)" using R by (metis not_le)
    ultimately show "group_reasons names g = []" using w by (simp add: group_reasons_def)
  qed
qed

lemma sorted_items_set: "sorted_items gs = Inr items \<Longrightarrow> set items = set gs"
  by (auto simp: sorted_items_def split: if_splits)

lemma shard_reasons_none:
  assumes "m w = Some x"
  shows "shard_reasons js (foldl add_result [] rs) m w = [] \<longleftrightarrow>
     (case results_for w rs of [] \<Rightarrow> False
      | r # _ \<Rightarrow> sr_status r = JStr ''success'' \<and> sr_outcome r = JStr (x_outcome x))"
  using assms by (auto simp: shard_reasons_def groups_map_of split: list.splits)

text \<open>The condition on a result set that the aggregate is meant to enforce.\<close>

definition complete_results :: "expected_shard list \<Rightarrow> shard_result list \<Rightarrow> bool" where
  "complete_results expected results \<longleftrightarrow>
     expected \<noteq> [] \<and> distinct (map x_name expected) \<and>
     mset (map sr_workload results) = mset (map (JStr \<circ> x_name) expected) \<and>
     list_all (\<lambda>r. sr_status r = JStr ''success'') results \<and>
     list_all (\<lambda>r. list_all (\<lambda>x. sr_workload r = JStr (x_name x)
        \<longrightarrow> sr_outcome r = JStr (x_outcome x)) expected) results"

lemma length_results_for:
  "length (results_for w rs) = count (mset (map sr_workload rs)) (JStr w)"
  by (induction rs) (auto simp: results_for_def)

lemma count_names:
  assumes "distinct (map x_name xs)"
  shows "count (mset (map (JStr \<circ> x_name) xs)) v = (if v \<in> JStr ` x_name ` set xs then 1 else 0)"
proof -
  have "distinct (map (JStr \<circ> x_name) xs)"
    using assms by (simp add: distinct_map comp_inj_on inj_on_def)
  then show ?thesis by (simp add: distinct_count_atmost_1 image_image comp_def)
qed

lemma complete_iff_single:
  assumes d: "distinct (map x_name xs)"
  shows "mset (map sr_workload rs) = mset (map (JStr \<circ> x_name) xs) \<longleftrightarrow>
     (\<forall>r \<in> set rs. sr_workload r \<in> JStr ` x_name ` set xs) \<and>
     (\<forall>w \<in> x_name ` set xs. length (results_for w rs) = 1)"
  (is "?L \<longleftrightarrow> ?R")
proof
  assume L: ?L
  have "sr_workload ` set rs = JStr ` x_name ` set xs"
    using arg_cong [OF L, of set_mset] by (simp add: image_image)
  moreover have "length (results_for w rs) = 1" if "w \<in> x_name ` set xs" for w
    using that by (simp only: length_results_for L count_names [OF d]) auto
  ultimately show ?R by auto
next
  assume R: ?R
  show ?L
  proof (rule multiset_eqI)
    fix v
    show "count (mset (map sr_workload rs)) v = count (mset (map (JStr \<circ> x_name) xs)) v"
    proof (cases "v \<in> JStr ` x_name ` set xs")
      case True
      then obtain w where "v = JStr w" "w \<in> x_name ` set xs" by auto
      with R have "count (mset (map sr_workload rs)) v = 1"
        by (simp only: length_results_for [symmetric])
      with True show ?thesis by (simp only: count_names [OF d] if_True)
    next
      case False
      with R have "v \<notin> set (map sr_workload rs)" by auto
      then have "count (mset (map sr_workload rs)) v = 0"
        by (metis count_mset_0_iff)
      with False show ?thesis by (simp only: count_names [OF d]) auto
    qed
  qed
qed

lemma fold_vfail_ok: "v_ok (fold vfail rs v) \<longleftrightarrow> v_ok v \<and> rs = []"
  by (simp add: fold_vfail)

lemma vfail_ok [simp]: "\<not> v_ok (vfail r v)"
  by (simp add: vfail_def)

lemma vfail_ok_if: "v_ok (if b then vfail r v else v) \<longleftrightarrow> \<not> b \<and> v_ok v"
  by simp

lemma compute_verdict_ok:
  "(\<exists>v. compute_verdict expected results discovery_ok upstream_ok parse_errors job_statuses = Inr v \<and> v_ok v)
   \<longleftrightarrow> discovery_ok \<and> upstream_ok \<and> parse_errors = [] \<and> complete_results expected results"
  (is "?L \<longleftrightarrow> ?R")
proof -
  let ?m = "fst (expected_index Map.empty expected)"
  let ?ds = "snd (expected_index Map.empty expected)"
  let ?names = "sort (dedup (map x_name expected))"
  let ?gs = "foldl add_result [] results"
  have dups: "?ds = [] \<longleftrightarrow> distinct (map x_name expected)" by (simp add: expected_index_dups)
  have run: "?L \<longleftrightarrow> (\<exists>items. list_all (\<lambda>r. hashable (sr_workload r)) results \<and> sorted_items ?gs = Inr items \<and>
      discovery_ok \<and> expected \<noteq> [] \<and> ?ds = [] \<and> parse_errors = [] \<and> upstream_ok \<and>
      (\<forall>g \<in> set items. group_reasons ?names g = []) \<and>
      (\<forall>w \<in> set ?names. shard_reasons job_statuses ?gs ?m w = []))"
    unfolding compute_verdict_def Let_def split_beta group_results_def
    by (simp add: ebind_ex fold_vfail_ok vfail_ok_if split del: if_split) blast
  have items: "(\<forall>g \<in> set items. group_reasons ?names g = []) \<longleftrightarrow>
      (\<forall>r \<in> set results. sr_workload r \<in> JStr ` x_name ` set expected)
      \<and> (\<forall>w. length (results_for w results) \<le> 1)" if "sorted_items ?gs = Inr items" for items
    using group_reasons_none [of results ?names] sorted_items_set [OF that] by simp
  show ?thesis
  proof
    assume ?L
    then obtain its where
      a: "sorted_items ?gs = Inr its" "discovery_ok" "expected \<noteq> []" "?ds = []" "parse_errors = []"
         "upstream_ok" "\<forall>g \<in> set its. group_reasons ?names g = []"
         "\<forall>w \<in> set ?names. shard_reasons job_statuses ?gs ?m w = []"
      unfolding run by blast
    have d: "distinct (map x_name expected)" using a(4) dups by simp
    have r: "\<forall>r \<in> set results. sr_workload r \<in> JStr ` x_name ` set expected"
      "\<forall>w. length (results_for w results) \<le> 1"
      using a(7) items [OF a(1)] by blast+
    have sh: "\<exists>r. results_for (x_name x) results = [r] \<and> sr_status r = JStr ''success''
        \<and> sr_outcome r = JStr (x_outcome x)" if "x \<in> set expected" for x
    proof -
      have "?m (x_name x) = Some x" using d that by (rule expected_index_lookup)
      moreover have "shard_reasons job_statuses ?gs ?m (x_name x) = []" using a(8) that by simp
      ultimately have "case results_for (x_name x) results of [] \<Rightarrow> False
        | r # _ \<Rightarrow> sr_status r = JStr ''success'' \<and> sr_outcome r = JStr (x_outcome x)"
        by (simp only: shard_reasons_none)
      moreover have "length (results_for (x_name x) results) \<le> 1" using r(2) by blast
      ultimately show ?thesis by (auto split: list.splits)
    qed
    have "\<forall>w \<in> x_name ` set expected. length (results_for w results) = 1"
    proof
      fix w assume "w \<in> x_name ` set expected"
      then obtain x where "x \<in> set expected" "w = x_name x" by auto
      with sh [of x] show "length (results_for w results) = 1" by auto
    qed
    then have "mset (map sr_workload results) = mset (map (JStr \<circ> x_name) expected)"
      unfolding complete_iff_single [OF d] using r(1) by (intro conjI)
    moreover have "sr_status r = JStr ''success'' \<and>
        (\<forall>x \<in> set expected. sr_workload r = JStr (x_name x) \<longrightarrow> sr_outcome r = JStr (x_outcome x))"
      if "r \<in> set results" for r
    proof -
      have mem: "r \<in> set (results_for w results)" if "sr_workload r = JStr w" for w
        using that \<open>r \<in> set results\<close> by (simp add: results_for_def)
      obtain x where "x \<in> set expected" "sr_workload r = JStr (x_name x)"
        using r(1) \<open>r \<in> set results\<close> by auto
      with sh [of x] mem [of "x_name x"] have "sr_status r = JStr ''success''" by auto
      moreover have "sr_outcome r = JStr (x_outcome y)"
        if "y \<in> set expected" "sr_workload r = JStr (x_name y)" for y
        using sh [OF that(1)] mem [OF that(2)] by auto
      ultimately show ?thesis by blast
    qed
    ultimately show ?R using a d by (simp add: complete_results_def list_all_iff)
  next
    assume R: ?R
    then have d: "distinct (map x_name expected)" and ne: "expected \<noteq> []"
      and m: "mset (map sr_workload results) = mset (map (JStr \<circ> x_name) expected)"
      and st: "\<forall>r \<in> set results. sr_status r = JStr ''success''"
      and oc: "\<forall>r \<in> set results. \<forall>x \<in> set expected.
        sr_workload r = JStr (x_name x) \<longrightarrow> sr_outcome r = JStr (x_outcome x)"
      by (simp_all add: complete_results_def list_all_iff)
    have r: "\<forall>r \<in> set results. sr_workload r \<in> JStr ` x_name ` set expected"
      "\<forall>w \<in> x_name ` set expected. length (results_for w results) = 1"
      using m unfolding complete_iff_single [OF d] by blast+
    have le: "length (results_for w results) \<le> 1" for w
      unfolding length_results_for m count_names [OF d] by simp
    have h: "list_all (\<lambda>r. hashable (sr_workload r)) results" using r(1) by (auto simp: list_all_iff)
    have "list_all (\<lambda>g. is_str (fst g)) ?gs"
      using groups_keys [of results] r(1) by (fastforce simp: list_all_iff)
    then have si: "sorted_items ?gs = Inr (sort_key str_key ?gs)" by (simp add: sorted_items_def)
    have "\<forall>w \<in> set ?names. shard_reasons job_statuses ?gs ?m w = []"
    proof
      fix w assume "w \<in> set ?names"
      then obtain x where x: "x \<in> set expected" "w = x_name x" by auto
      have "?m w = Some x" unfolding x(2) using d x(1) by (rule expected_index_lookup)
      moreover obtain q where q: "results_for w results = [q]"
        using r(2) x by (fastforce simp: length_Suc_conv)
      have "q \<in> set (results_for w results)" using q by simp
      then have "q \<in> set results" "sr_workload q = JStr w" by (simp_all add: results_for_def)
      then have "sr_status q = JStr ''success'' \<and> sr_outcome q = JStr (x_outcome x)"
        using st oc x by auto
      with q have "case results_for w results of [] \<Rightarrow> False
        | r # _ \<Rightarrow> sr_status r = JStr ''success'' \<and> sr_outcome r = JStr (x_outcome x)" by simp
      ultimately show "shard_reasons job_statuses ?gs ?m w = []"
        by (simp only: shard_reasons_none)
    qed
    then show ?L
      unfolding run using R ne dups d h si items [OF si] r(1) le by blast
  qed
qed

section \<open>Adding a result to the directory\<close>

lemma emap_map_iff: "emap f xs = Inr ys \<longleftrightarrow> (\<forall>x \<in> set xs. isOK (f x)) \<and> ys = map (\<lambda>x. projr (f x)) xs"
  by (induction xs arbitrary: ys) (auto simp: monad_simps isOK_iff)

lemma emap_mset:
  assumes "emap f xs = Inr ys" "mset xs' = mset xs + mset zs" "emap f zs = Inr ws"
  shows "\<exists>ys'. emap f xs' = Inr ys' \<and> mset ys' = mset ys + mset ws"
proof -
  have "set xs' = set xs \<union> set zs" using assms(2) by (metis set_mset_mset set_mset_union)
  with assms(1,3) have "emap f xs' = Inr (map (\<lambda>x. projr (f x)) xs')"
    by (auto simp: emap_map_iff)
  moreover have "mset (map (\<lambda>x. projr (f x)) xs') = mset ys + mset ws"
    using assms by (simp add: emap_map_iff)
  ultimately show ?thesis by blast
qed

fun is_good :: "file_outcome \<Rightarrow> bool" where
  "is_good (GoodFile _) \<longleftrightarrow> True" | "is_good _ \<longleftrightarrow> False"

fun is_bad :: "file_outcome \<Rightarrow> bool" where
  "is_bad (BadFile _) \<longleftrightarrow> True" | "is_bad _ \<longleftrightarrow> False"

lemma mset_good_results:
  "mset (good_results fs) = image_mset (\<lambda>x. case x of GoodFile r \<Rightarrow> r) (filter_mset is_good (mset fs))"
  by (induction fs rule: good_results.induct) auto

lemma bad_files_filter: "bad_files fs = map (\<lambda>x. case x of BadFile e \<Rightarrow> e) (filter is_bad fs)"
  by (induction fs rule: bad_files.induct) auto

lemma bad_files_mset: "mset fs = mset gs \<Longrightarrow> bad_files fs = [] \<longleftrightarrow> bad_files gs = []"
  unfolding bad_files_filter by (metis filter_empty_conv map_is_Nil_conv set_mset_mset)

definition result_dir :: "string \<Rightarrow> json \<Rightarrow> string \<times> node" where
  "result_dir c v = (c, NDir [(''result.json'', NFile (json_file v))])"

lemma endswith_self [simp]: "endswith (p @ s) s"
  by (auto simp: endswith_iff)

lemma load_results_add:
  assumes "load_results (Some (NDir es)) stage = Inr (rs, [])"
    and "\<not> endswith c ''.json''"
    and "load_result stage ''result.json'' (NFile (json_file v)) = Inr (GoodFile r)"
  shows "\<exists>rs'. load_results (Some (NDir (es @ [result_dir c v]))) stage = Inr (rs', [])
    \<and> mset rs' = add_mset r (mset rs)"
proof -
  let ?f = "\<lambda>(p, n). load_result stage (last p) n"
  let ?new = "[([c, ''result.json''], NFile (json_file v))]"
  obtain outs where outs: "emap ?f (rglob_suffix ''.json'' es) = Inr outs"
    "rs = good_results outs" "bad_files outs = []"
    using assms(1) by (auto simp: load_results_def get_dir_def resolve_def monad_simps)
  have "endswith ''result.json'' ''.json''" by code_simp
  then have "mset (rglob_suffix ''.json'' (es @ [result_dir c v]))
      = mset (rglob_suffix ''.json'' es) + mset ?new"
    using assms(2) by (simp add: rglob_suffix_def rglob_def result_dir_def)
  moreover have "emap ?f ?new = Inr [GoodFile r]" using assms(3) by simp
  ultimately obtain outs' where outs': "emap ?f (rglob_suffix ''.json'' (es @ [result_dir c v])) = Inr outs'"
    "mset outs' = mset outs + mset [GoodFile r]"
    using emap_mset [OF outs(1)] by blast
  have "bad_files outs' = []"
    using bad_files_mset [of outs' "outs @ [GoodFile r]"] outs(3) outs'(2)
    by (simp add: bad_files_filter)
  moreover have "mset (good_results outs') = add_mset r (mset rs)"
    unfolding mset_good_results outs'(2) outs(2) by simp
  ultimately show ?thesis
    using outs'(1) by (simp add: load_results_def get_dir_def resolve_def)
qed

section \<open>Synthesis over a validated registry\<close>

definition na_result :: "entry \<Rightarrow> json" where
  "na_result e = JObj [(''workload'', JStr (e_name e)), (''stage'', JStr ''msrv''),
     (''status'', JStr ''success''), (''outcome'', JStr ''not-applicable''),
     (''reason'', opt_str (policy_reason (e_msrv e)))]"

definition na_shard :: "entry \<Rightarrow> shard_result" where
  "na_shard e = \<lparr>sr_workload = JStr (e_name e), sr_stage = JStr ''msrv'',
     sr_status = JStr ''success'', sr_outcome = JStr ''not-applicable'', sr_source = ''result.json''\<rparr>"

lemma load_json_file:
  "parse_result_file name (NFile (json_file (JObj d))) = Inr d"
  by (simp add: parse_result_file_def get_file_def resolve_def json_file_def text_file_def)

lemma load_na_result:
  "load_result ''msrv'' ''result.json'' (NFile (json_file (na_result e))) = Inr (GoodFile (na_shard e))"
  by (simp add: load_result_def load_json_file na_result_def required_keys_def in_set_def
      valid_statuses_def valid_outcomes_def na_shard_def)

abbreviation undeclared :: "entry \<Rightarrow> bool" where
  "undeclared e \<equiv> \<not> declared (e_msrv e)"

definition syn_dir :: "entry \<Rightarrow> string" where
  "syn_dir e = ''synthetic-msrv-'' @ e_name e"

definition syn_node :: "entry \<Rightarrow> string \<times> node" where
  "syn_node e = result_dir (syn_dir e) (na_result e)"

lemma syn_dir_inj: "syn_dir e = syn_dir e' \<longleftrightarrow> e_name e = e_name e'"
  by (simp add: syn_dir_def)

lemma build_na_entry:
  "msrv_policy_ok (e_msrv e) \<Longrightarrow> undeclared e \<Longrightarrow>
     \<exists>d. build_not_applicable_result (entry_json e) = Inr d \<and> JObj d = na_result e"
  by (auto simp: msrv_policy_ok_def build_not_applicable_result_def build_result_def na_result_def)

lemma synthesize_loop_entries:
  assumes "distinct (map e_name xs)" "\<forall>e \<in> set xs. msrv_policy_ok (e_msrv e)"
    and "\<forall>e \<in> set xs. undeclared e \<longrightarrow> JStr (e_name e) \<notin> set existing \<and> map_of es (syn_dir e) = None"
  shows "synthesize_loop existing (map entry_json xs) (NDir es) =
    (NDir (es @ map syn_node (filter undeclared xs)),
     Inr (map (synthetic_path \<circ> e_name) (filter undeclared xs)))"
  using assms
proof (induction xs arbitrary: existing es)
  case Nil
  then show ?case by simp
next
  case (Cons e xs)
  show ?case
  proof (cases "declared (e_msrv e)")
    case True
    have "synthesize_loop existing (map entry_json (e # xs)) (NDir es)
        = synthesize_loop existing (map entry_json xs) (NDir es)"
      using True by simp
    with Cons True show ?thesis by simp
  next
    case False
    obtain d where d: "build_not_applicable_result (entry_json e) = Inr d" "JObj d = na_result e"
      using build_na_entry Cons.prems(2) False by auto
    have "put_file (NDir es) (synthetic_path (e_name e)) (json_file (JObj d)) = Some (NDir (es @ [syn_node e]))"
      using Cons.prems(3) False d
      by (simp add: synthetic_path_def syn_dir_def syn_node_def result_dir_def assoc_set_new)
    moreover have "synthesize_loop (JStr (e_name e) # existing) (map entry_json xs) (NDir (es @ [syn_node e]))
      = (NDir ((es @ [syn_node e]) @ map syn_node (filter undeclared xs)),
         Inr (map (synthetic_path \<circ> e_name) (filter undeclared xs)))"
      using Cons.prems
      by (intro Cons.IH) (auto simp: syn_node_def result_dir_def syn_dir_inj map_add_def image_iff)
    ultimately show ?thesis using Cons.prems(3) False d(1) by simp
  qed
qed

lemma load_results_synthetic:
  assumes "load_results (Some (NDir es)) ''msrv'' = Inr (rs, [])"
    and "\<forall>e \<in> set xs. \<not> endswith (syn_dir e) ''.json''"
  shows "\<exists>rs'. load_results (Some (NDir (es @ map syn_node xs))) ''msrv'' = Inr (rs', [])
    \<and> mset rs' = mset rs + mset (map na_shard xs)"
  using assms
proof (induction xs arbitrary: es rs)
  case Nil
  then show ?case by simp
next
  case (Cons e xs)
  obtain rs1 where "load_results (Some (NDir (es @ [syn_node e]))) ''msrv'' = Inr (rs1, [])"
    "mset rs1 = add_mset (na_shard e) (mset rs)"
    using load_results_add [OF Cons.prems(1) _ load_na_result [of e]] Cons.prems(2)
    by (auto simp: syn_node_def)
  with Cons.IH [of "es @ [syn_node e]" rs1] Cons.prems(2) show ?case by auto
qed

section \<open>From the discovery matrix to the verdict\<close>

definition expected_of :: "entry \<Rightarrow> expected_shard" where
  "expected_of e = \<lparr>x_name = e_name e,
     x_outcome = (if declared (e_msrv e) then ''validated'' else ''not-applicable'')\<rparr>"

lemma load_expected_matrix:
  "load_expected (Some (matrix_json es)) ''msrv'' = Inr (map expected_of es)"
proof -
  have "emap (\<lambda>entry.
         ebind (want_obj entry MalformedEntry) (\<lambda>d.
         ebind (want_str (dget d ''name'') MalformedEntry) (\<lambda>name.
         ebind (map_err AggregateCrash (expected_outcome_for ''msrv'' (dget d ''msrv''))) (\<lambda>outcome.
           Inr \<lparr>x_name = name, x_outcome = outcome\<rparr>)))) (map entry_json es) = Inr (map expected_of es)"
    by (induction es)
      (simp_all add: entry_json_def expected_outcome_for_def expected_of_def)
  then show ?thesis by (simp add: load_expected_def matrix_json_def)
qed

lemma parse_entry_json:
  assumes "name_ok (e_name e)" "msrv_policy_ok (e_msrv e)" "e_name e \<notin> set seen"
  shows "parse_entry seen (entry_json e) = Inr (e_name e)"
  using assms by (auto simp: parse_entry_def entry_json_def name_ok_def msrv_policy_ok_def)

lemma parse_entry_list_json:
  assumes "\<forall>e \<in> set es. name_ok (e_name e) \<and> msrv_policy_ok (e_msrv e)"
    and "distinct (map e_name es)" "set (map e_name es) \<inter> set seen = {}"
  shows "parse_entry_list seen (map entry_json es) = Inr ()"
  using assms by (induction es arbitrary: seen) (auto simp: parse_entry_json)

lemma parse_entries_matrix:
  assumes "\<forall>e \<in> set es. name_ok (e_name e) \<and> msrv_policy_ok (e_msrv e)"
    and "distinct (map e_name es)" "es \<noteq> []"
  shows "parse_entries (Some (matrix_json es)) = Inr (map entry_json es)"
  using assms parse_entry_list_json [of es "[]"] by (simp add: parse_entries_def matrix_json_def)

lemma synthesize_matrix:
  assumes "\<forall>e \<in> set es. name_ok (e_name e) \<and> msrv_policy_ok (e_msrv e)"
    and "distinct (map e_name es)" "es \<noteq> []"
    and "load_results (Some (NDir fs)) ''msrv'' = Inr (rs, [])"
    and "\<forall>r \<in> set rs. \<exists>e \<in> set es. declared (e_msrv e) \<and> sr_workload r = JStr (e_name e)"
    and "\<forall>e \<in> set es. undeclared e \<longrightarrow> map_of fs (syn_dir e) = None"
  shows "synthesize (Some (matrix_json es)) (Some (NDir fs)) =
    (Some (NDir (fs @ map syn_node (filter undeclared es))),
     Inr (map (synthetic_path \<circ> e_name) (filter undeclared es)))"
proof -
  have names: "JStr (e_name e) \<notin> set (map sr_workload rs)" if "e \<in> set es" "undeclared e" for e
  proof
    assume "JStr (e_name e) \<in> set (map sr_workload rs)"
    with assms(5) obtain e' where "e' \<in> set es" "declared (e_msrv e')" "e_name e' = e_name e" by auto
    with assms(2) that show False by (metis distinct_map inj_onD)
  qed
  have h: "list_all (\<lambda>r. hashable (sr_workload r)) rs" using assms(5) by (fastforce simp: list_all_iff)
  have pe: "parse_entries (Some (matrix_json es)) = Inr (map entry_json es)"
    using assms(1-3) by (rule parse_entries_matrix)
  have loop: "synthesize_loop (map sr_workload rs) (map entry_json es) (NDir fs) =
    (NDir (fs @ map syn_node (filter undeclared es)),
     Inr (map (synthetic_path \<circ> e_name) (filter undeclared es)))"
    using assms(1,2,6) names by (intro synthesize_loop_entries) auto
  show ?thesis
  proof (cases "filter undeclared es")
    case Nil
    then have "list_all (\<lambda>e. declared (e_msrv e)) es" by (auto simp: list_all_iff filter_empty_conv)
    with Nil pe h assms(4) show ?thesis by (simp add: synthesize_def list.pred_map comp_def)
  next
    case (Cons e xs)
    then have "e \<in> set es" "undeclared e" by (auto simp: filter_eq_Cons_iff)
    then have "\<not> list_all (\<lambda>e. declared (e_msrv e)) es" by (auto simp: list_all_iff)
    with pe h assms(4) loop show ?thesis by (simp add: synthesize_def list.pred_map comp_def)
  qed
qed

lemma aggregate_exit_0:
  "aggregate_exit (aggregate_main stage (Some m) dir discovery_ok upstream_ok js) = 0 \<longleftrightarrow>
     (\<exists>xs rs. load_expected (Some m) stage = Inr xs \<and> load_results dir stage = Inr (rs, []) \<and>
        discovery_ok \<and> upstream_ok \<and> complete_results xs rs)"
  (is "?L \<longleftrightarrow> ?R")
proof
  assume ?L
  then obtain xs rs errs v where
    "load_expected (Some m) stage = Inr xs" "load_results dir stage = Inr (rs, errs)"
    "compute_verdict xs rs discovery_ok upstream_ok errs (case js of Some (JObj d) \<Rightarrow> d | _ \<Rightarrow> []) = Inr v"
    "v_ok v"
    by (auto simp: aggregate_exit_def aggregate_main_def monad_simps split: sum.splits if_splits)
  then show ?R using compute_verdict_ok by metis
next
  assume ?R
  then obtain xs rs where
    xs: "load_expected (Some m) stage = Inr xs" "load_results dir stage = Inr (rs, [])"
    and ok: "discovery_ok" "upstream_ok" "complete_results xs rs" by blast
  then obtain v where v: "compute_verdict xs rs discovery_ok upstream_ok []
      (case js of Some (JObj d) \<Rightarrow> d | _ \<Rightarrow> []) = Inr v" "v_ok v"
    using compute_verdict_ok by metis
  have "mset (map sr_workload rs) = mset (map (JStr \<circ> x_name) xs)"
    using ok(3) by (simp add: complete_results_def)
  then have "is_str (sr_workload r)" if "r \<in> set rs" for r
    using mset_map_mem that by fastforce
  then have "list_all (\<lambda>r. is_str (sr_workload r)) rs" by (simp add: list_all_iff)
  with xs v ok show ?L by (simp add: aggregate_exit_def aggregate_main_def)
qed

lemma mset_split: "mset (filter P xs) + mset (filter (\<lambda>x. \<not> P x) xs) = mset xs"
  by (simp flip: multiset_partition)

lemma complete_results_synthetic:
  assumes d: "distinct (map e_name es)" "es \<noteq> []"
    and names: "mset (map sr_workload rs) = mset (map (JStr \<circ> e_name) (filter (\<lambda>e. declared (e_msrv e)) es))"
    and oc: "\<forall>r \<in> set rs. sr_outcome r = JStr ''validated''"
    and rs': "mset rs' = mset rs + mset (map na_shard (filter undeclared es))"
  shows "complete_results (map expected_of es) rs' \<longleftrightarrow> (\<forall>r \<in> set rs. sr_status r = JStr ''success'')"
proof -
  have set_rs': "set rs' = set rs \<union> na_shard ` set (filter undeclared es)"
    using arg_cong [OF rs', of set_mset] by simp
  have "mset (map sr_workload rs') = mset (map sr_workload rs) + mset (map (JStr \<circ> e_name) (filter undeclared es))"
    using arg_cong [OF rs', of "image_mset sr_workload"]
    by (simp add: na_shard_def multiset.map_comp comp_def)
  also have "\<dots> = mset (map (JStr \<circ> e_name) (filter (\<lambda>e. declared (e_msrv e)) es))
      + mset (map (JStr \<circ> e_name) (filter undeclared es))"
    by (simp only: names)
  also have "\<dots> = image_mset (JStr \<circ> e_name) (mset (filter (\<lambda>e. declared (e_msrv e)) es) + mset (filter undeclared es))"
    by (simp only: mset_map image_mset_union)
  also have "\<dots> = image_mset (JStr \<circ> e_name) (mset es)"
    by (simp only: mset_split)
  also have "\<dots> = mset (map (JStr \<circ> x_name) (map expected_of es))"
    by (simp add: expected_of_def comp_def)
  finally have m: "mset (map sr_workload rs') = mset (map (JStr \<circ> x_name) (map expected_of es))" .
  have "sr_outcome r = JStr (x_outcome (expected_of e))"
    if "r \<in> set rs'" "e \<in> set es" "sr_workload r = JStr (e_name e)" for r e
  proof -
    from that(1) set_rs' consider "r \<in> set rs" | e' where "e' \<in> set es" "undeclared e'" "r = na_shard e'"
      by auto
    then show ?thesis
    proof cases
      case 1
      obtain e' where "e' \<in> set es" "declared (e_msrv e')" "e_name e' = e_name e"
        using mset_map_mem [OF names 1] \<open>sr_workload r = JStr (e_name e)\<close> by auto
      then have "declared (e_msrv e)" using d(1) that(2) by (metis distinct_map inj_onD)
      with oc 1 show ?thesis by (simp add: expected_of_def)
    next
      case 2
      then have "e' = e" using d(1) that by (auto simp: na_shard_def distinct_map inj_on_def)
      with 2 show ?thesis by (simp add: na_shard_def expected_of_def)
    qed
  qed
  moreover have "(\<forall>r \<in> set rs'. sr_status r = JStr ''success'') \<longleftrightarrow> (\<forall>r \<in> set rs. sr_status r = JStr ''success'')"
    unfolding set_rs' by (auto simp: na_shard_def)
  moreover have "distinct (map x_name (map expected_of es))" using d(1) by (simp add: expected_of_def comp_def)
  ultimately show ?thesis using m d(2)
    by (auto simp: complete_results_def list_all_iff expected_of_def)
qed

section \<open>Properties\<close>

text \<open>
  C1. The verdict is fail-closed and exact: it is ok if and only if discovery and the fan-out
  job succeeded, no result file was malformed, at least one shard was expected, no expected
  name is repeated, the results name exactly the expected workloads once each, every result
  reports success, and every outcome is the one the workload's own policy requires. The
  optional job statuses have no say in it.
\<close>

theorem compute_verdict_exact:
  "(\<exists>v. compute_verdict expected results discovery_ok upstream_ok parse_errors job_statuses = Inr v \<and> v_ok v)
   \<longleftrightarrow> discovery_ok \<and> upstream_ok \<and> parse_errors = [] \<and>
     expected \<noteq> [] \<and> distinct (map x_name expected) \<and>
     mset (map sr_workload results) = mset (map (JStr \<circ> x_name) expected) \<and>
     list_all (\<lambda>r. sr_status r = JStr ''success'') results \<and>
     list_all (\<lambda>r. list_all (\<lambda>x. sr_workload r = JStr (x_name x)
        \<longrightarrow> sr_outcome r = JStr (x_outcome x)) expected) results"
  unfolding compute_verdict_ok complete_results_def by (rule refl)

theorem compute_verdict_exact_witness:
  "\<exists>v. compute_verdict [\<lparr>x_name = ''a'', x_outcome = ''validated''\<rparr>]
     [\<lparr>sr_workload = JStr ''a'', sr_stage = JStr ''ci'', sr_status = JStr ''success'',
       sr_outcome = JStr ''validated'', sr_source = ''result.json''\<rparr>] True True [] [] = Inr v \<and> v_ok v"
  unfolding compute_verdict_exact by simp

text \<open>
  C3. From registry to verdict: for any repository whose registry validates, if the MSRV job
  ran exactly the declared entries and stored one validated result for each, then synthesis
  writes exactly one not-applicable result per undeclared entry, and the aggregate step exits
  with 0 if and only if every shard that ran reported success.
\<close>

theorem msrv_pipeline_verdict:
  assumes "discover repo = Inr es"
    and "load_results (Some (NDir fs)) ''msrv'' = Inr (rs, [])"
    and "mset (map sr_workload rs) = mset (map (JStr \<circ> e_name) (filter (\<lambda>e. declared (e_msrv e)) es))"
    and "\<forall>r \<in> set rs. sr_outcome r = JStr ''validated''"
    and "\<forall>e \<in> set es. undeclared e \<longrightarrow>
      map_of fs (syn_dir e) = None \<and> \<not> endswith (syn_dir e) ''.json''"
  shows "\<exists>dir. synthesize (Some (matrix_json es)) (Some (NDir fs)) =
      (dir, Inr (map (synthetic_path \<circ> e_name) (filter undeclared es))) \<and>
    (aggregate_exit (aggregate_main ''msrv'' (Some (matrix_json es)) dir True True js) = 0
      \<longleftrightarrow> (\<forall>r \<in> set rs. sr_status r = JStr ''success''))"
proof -
  obtain reg where reg: "validate_repository repo = Inr reg" "es = all_entries reg"
    using assms(1) by (auto simp: discover_def monad_simps all_entries_def)
  have ok: "\<forall>e \<in> set es. name_ok (e_name e) \<and> msrv_policy_ok (e_msrv e)"
    "distinct (map e_name es)" "es \<noteq> []"
    using registry.names_proper registry.msrv_policies registry.names_distinct registry.some_workload
      reg by (auto simp: all_entries_def)
  have decl: "\<forall>r \<in> set rs. \<exists>e \<in> set es. declared (e_msrv e) \<and> sr_workload r = JStr (e_name e)"
    using mset_map_mem [OF assms(3)] by fastforce
  let ?dir = "Some (NDir (fs @ map syn_node (filter undeclared es)))"
  have syn: "synthesize (Some (matrix_json es)) (Some (NDir fs)) =
      (?dir, Inr (map (synthetic_path \<circ> e_name) (filter undeclared es)))"
    using ok assms(2,5) decl by (intro synthesize_matrix) auto
  obtain rs' where rs': "load_results ?dir ''msrv'' = Inr (rs', [])"
    "mset rs' = mset rs + mset (map na_shard (filter undeclared es))"
    using load_results_synthetic [OF assms(2), of "filter undeclared es"] assms(5)
    by (auto simp del: mset_filter mset_map)
  have "complete_results (map expected_of es) rs' \<longleftrightarrow> (\<forall>r \<in> set rs. sr_status r = JStr ''success'')"
    using ok(2,3) assms(3,4) rs'(2) by (rule complete_results_synthetic)
  with syn rs'(1) show ?thesis
    by (intro exI [of _ ?dir]) (simp add: aggregate_exit_0 load_expected_matrix)
qed

definition sample_shard :: "string \<Rightarrow> int \<Rightarrow> string \<times> node" where
  "sample_shard name code = (''shard-'' @ name,
     NDir [(''result.json'', NFile (json_file (JObj
       [(''workload'', JStr name), (''stage'', JStr ''msrv''),
        (''status'', JStr (if code = 0 then ''success'' else ''failure'')),
        (''outcome'', JStr ''validated''), (''exit_code'', JInt code)])))])"

theorem msrv_pipeline_verdict_witness:
  "\<exists>dir. synthesize (Some (matrix_json (all_entries sample_result))) (Some (NDir [sample_shard ''alpha'' 0])) =
      (dir, Inr [synthetic_path ''beta'']) \<and>
    aggregate_exit (aggregate_main ''msrv'' (Some (matrix_json (all_entries sample_result))) dir True True None) = 0"
proof -
  let ?r = "\<lparr>sr_workload = JStr ''alpha'', sr_stage = JStr ''msrv'', sr_status = JStr ''success'',
    sr_outcome = JStr ''validated'', sr_source = ''result.json''\<rparr>"
  have d: "discover (sample_tree []) = Inr (all_entries sample_result)"
    by (simp add: discover_def sample_accepted all_entries_def)
  have l: "load_results (Some (NDir [sample_shard ''alpha'' 0])) ''msrv'' = Inr ([?r], [])"
    by code_simp
  have u: "filter undeclared (all_entries sample_result) = fixtures sample_result"
    by (simp add: all_entries_def sample_result_def)
  show ?thesis
    using msrv_pipeline_verdict [OF d l, of None] u
    by (simp add: all_entries_def sample_result_def sample_shard_def syn_dir_def endswith_def)
qed

text \<open>
  C11. Only the observed exit code decides a shard's status: a result written for a stage reads
  back, in that stage, as one validated result for exactly that workload whose status is
  success if and only if the exit code was 0, and in any other stage as nothing.
\<close>

theorem written_result_reads_back:
  assumes "write_main (NDir []) [w, ''result.json''] workload stage (Some code) False reason = Inr dir"
    and "\<not> endswith w ''.json''"
  shows "load_results (Some dir) stage' = Inr (if stage' = stage
     then [\<lparr>sr_workload = JStr workload, sr_stage = JStr stage,
            sr_status = JStr (if code = 0 then ''success'' else ''failure''),
            sr_outcome = JStr ''validated'', sr_source = ''result.json''\<rparr>]
     else [], [])"
proof -
  let ?v = "JObj [(''workload'', JStr workload), (''stage'', JStr stage),
    (''status'', JStr (if code = 0 then ''success'' else ''failure'')),
    (''outcome'', JStr ''validated''), (''exit_code'', JInt code)]"
  have dir: "dir = NDir [result_dir w ?v]"
    using assms(1) by (auto simp: write_main_def build_result_def monad_simps result_dir_def)
  have "endswith ''result.json'' ''.json''" by code_simp
  then have "rglob_suffix ''.json'' [result_dir w ?v] = [([w, ''result.json''], NFile (json_file ?v))]"
    using assms(2) by (simp add: rglob_suffix_def rglob_def result_dir_def)
  moreover have "load_result stage' ''result.json'' (NFile (json_file ?v)) = Inr
    (if stage' = stage then GoodFile \<lparr>sr_workload = JStr workload, sr_stage = JStr stage,
       sr_status = JStr (if code = 0 then ''success'' else ''failure''),
       sr_outcome = JStr ''validated'', sr_source = ''result.json''\<rparr> else OtherStage)"
    by (simp add: load_result_def load_json_file required_keys_def in_set_def valid_statuses_def
        valid_outcomes_def)
  ultimately show ?thesis
    by (simp add: dir load_results_def get_dir_def resolve_def)
qed

theorem written_result_reads_back_witness:
  "load_results (Some (NDir [result_dir ''a'' (JObj [(''workload'', JStr ''alpha''), (''stage'', JStr ''ci''),
    (''status'', JStr ''failure''), (''outcome'', JStr ''validated''), (''exit_code'', JInt 3)])])) ''ci''
   = Inr ([\<lparr>sr_workload = JStr ''alpha'', sr_stage = JStr ''ci'', sr_status = JStr ''failure'',
       sr_outcome = JStr ''validated'', sr_source = ''result.json''\<rparr>], [])"
  using written_result_reads_back [of "''a''" "''alpha''" "''ci''" 3 None "NDir [result_dir ''a''
    (JObj [(''workload'', JStr ''alpha''), (''stage'', JStr ''ci''), (''status'', JStr ''failure''),
      (''outcome'', JStr ''validated''), (''exit_code'', JInt 3)])]" "''ci''"]
  by (simp add: write_main_def stages_def build_result_def result_dir_def endswith_def)


end
