(* ===== verification/Supply.thy ===== *)
theory Supply
  imports Registry
begin

text \<open>
  Models of \<open>.github/scripts/validate-supply-chain.py\<close> (the policy scan of one registered
  workload), \<open>run-supply-chain-authority.py\<close> (the scan of all of them against the canonical
  registry) and \<open>run-scheduled-supply-chain-audit.py\<close> (the scheduled audit and its
  classification). The programs they start are outside the repository: a \<open>runner\<close> maps a call to
  its exit code, \<open>None\<close> where it cannot be started, and the calls made are returned in order.
\<close>

section \<open>One workload\<close>

datatype (plugins only: code) supply_error =
    SupplyRegistry registry_error
  | FixtureNotWorkload string
  | NotRegistered string
  | MissingManifest string
  | MissingLockfile string
  | HookSymlink
  | HookMissing "string list list"
  | HookNotFile
  | HookNotExecutable
  | MissingDenyConfig
  | SupplyStartFailure

datatype call = CargoDeny "string list" | AdditionalHook "string list"

type_synonym runner = "call \<Rightarrow> int option"

definition resolve_workload :: "node \<Rightarrow> string \<Rightarrow> supply_error + entry" where
  "resolve_workload repo name =
     ebind (map_err SupplyRegistry (validate_repository repo)) (\<lambda>r.
       case find (\<lambda>e. e_name e = name) (workloads r) of
         Some e \<Rightarrow> Inr e
       | None \<Rightarrow>
           if name \<in> set (map e_name (fixtures r)) then Inl (FixtureNotWorkload name)
           else Inl (NotRegistered name))"

definition verify_locked_graph :: "node \<Rightarrow> entry \<Rightarrow> supply_error + string list" where
  "verify_locked_graph repo e =
     (let dir = path_parts (e_path e) in
      ebind (eguard (is_file repo (dir @ [''Cargo.toml''])) (MissingManifest (e_name e))) (\<lambda>_.
      ebind (eguard (is_file repo (dir @ [''Cargo.lock''])) (MissingLockfile (e_name e))) (\<lambda>_.
        Inr (dir @ [''Cargo.toml'']))))"

definition policy_classes :: "string list" where
  "policy_classes = [''advisories'', ''licenses'', ''bans'', ''sources'']"

definition build_cargo_deny_command :: "string \<Rightarrow> string \<Rightarrow> string \<Rightarrow> string list" where
  "build_cargo_deny_command cargo_deny_bin deny_config manifest =
     [cargo_deny_bin, ''--config'', deny_config, ''--manifest-path'', manifest, ''--locked'',
      ''--all-features'', ''check''] @ policy_classes"

definition discover_nested_maven_manifests :: "node \<Rightarrow> string list \<Rightarrow> string list list" where
  "discover_nested_maven_manifests repo dir =
     (case get_dir repo dir of None \<Rightarrow> [] | Some es \<Rightarrow> map fst (rglob (\<lambda>n. n = ''pom.xml'') es))"

definition resolve_additional_hook :: "node \<Rightarrow> string list \<Rightarrow> supply_error + string list option" where
  "resolve_additional_hook repo dir =
     (let hook = dir @ [''ci'', ''validate-supply-chain''];
          poms = discover_nested_maven_manifests repo dir in
      ebind (eguard (\<not> is_symlink repo hook) HookSymlink) (\<lambda>_.
      ebind (eguard (\<not> (poms \<noteq> [] \<and> \<not> is_file repo hook)) (HookMissing poms)) (\<lambda>_.
      ebind (eguard (\<not> (path_exists repo hook \<and> \<not> is_file repo hook)) HookNotFile) (\<lambda>_.
        case get_file repo hook of
          None \<Rightarrow> Inr None
        | Some f \<Rightarrow> ebind (eguard (exec_ok f) HookNotExecutable) (\<lambda>_. Inr (Some hook))))))"

definition run_additional_hook :: "runner \<Rightarrow> string list option \<Rightarrow> supply_error + int \<times> call list" where
  "run_additional_hook run hook =
     (case hook of
        None \<Rightarrow> Inr (0, [])
      | Some h \<Rightarrow>
          ebind (want_some (run (AdditionalHook h)) SupplyStartFailure) (\<lambda>code.
            Inr (code, [AdditionalHook h])))"

text \<open>\<open>base\<close> is the text of the root path; the policy file is \<open>deny.toml\<close> below it.\<close>

definition run_supply_chain_scan ::
  "node \<Rightarrow> string list \<Rightarrow> string \<Rightarrow> runner \<Rightarrow> string \<Rightarrow> supply_error + int \<times> call list" where
  "run_supply_chain_scan repo base cargo_deny_bin run name =
     ebind (resolve_workload repo name) (\<lambda>e.
     ebind (verify_locked_graph repo e) (\<lambda>manifest.
     ebind (resolve_additional_hook repo (path_parts (e_path e))) (\<lambda>hook.
     ebind (eguard (is_file repo [''deny.toml'']) MissingDenyConfig) (\<lambda>_.
       let command = CargoDeny (build_cargo_deny_command cargo_deny_bin
             (path_str (base @ [''deny.toml''])) (path_str (base @ manifest))) in
       ebind (want_some (run command) SupplyStartFailure) (\<lambda>code.
         if code \<noteq> 0 then Inr (code, [command])
         else
           ebind (run_additional_hook run hook) (\<lambda>(code', calls).
             Inr (code', command # calls)))))))"

section \<open>The authority\<close>

datatype (plugins only: code) authority_error =
    DiscoveryJson
  | NoDiscoveryInclude
  | MalformedDiscoveryEntry
  | DuplicateDiscoveryNames
  | CanonicalRegistry registry_error
  | ZeroRealWorkloads
  | DiscoveryMismatch "string list" "string list"

definition parse_discovery_json :: "json option \<Rightarrow> authority_error + string list" where
  "parse_discovery_json payload =
     ebind (want_some payload DiscoveryJson) (\<lambda>matrix.
     ebind (want_arr (get_in matrix ''include'') NoDiscoveryInclude) (\<lambda>include.
     ebind (eguard (include \<noteq> []) NoDiscoveryInclude) (\<lambda>_.
     ebind (emap (\<lambda>entry.
              ebind (want_str (get_in entry ''name'') MalformedDiscoveryEntry) (\<lambda>name.
              ebind (eguard (name \<noteq> []) MalformedDiscoveryEntry) (\<lambda>_. Inr name))) include) (\<lambda>names.
     ebind (eguard (distinct names) DuplicateDiscoveryNames) (\<lambda>_. Inr names)))))"

definition canonical_real_workloads :: "node \<Rightarrow> authority_error + string list" where
  "canonical_real_workloads repo =
     ebind (map_err CanonicalRegistry (validate_repository repo)) (\<lambda>r.
       let names = map e_name (workloads r) in
       ebind (eguard (names \<noteq> []) ZeroRealWorkloads) (\<lambda>_. Inr names))"

definition verify_discovery_names :: "string list \<Rightarrow> string list \<Rightarrow> authority_error + string list" where
  "verify_discovery_names discovered canonical =
     ebind (eguard (discovered = canonical) (DiscoveryMismatch discovered canonical)) (\<lambda>_.
       Inr canonical)"

definition verify_discovery_contract :: "node \<Rightarrow> json option \<Rightarrow> authority_error + string list" where
  "verify_discovery_contract repo payload =
     ebind (parse_discovery_json payload) (\<lambda>discovered.
     ebind (canonical_real_workloads repo) (\<lambda>canonical.
       verify_discovery_names discovered canonical))"

text \<open>
  \<open>run_all\<close> catches \<open>SupplyChainError\<close> only: a program that cannot be started ends the whole run.
\<close>

datatype (plugins only: code) scan_failure = ScanRejected string supply_error | ScanExit string int

fun run_all ::
  "string list \<Rightarrow> (string \<Rightarrow> supply_error + int \<times> call list) \<Rightarrow> supply_error + scan_failure list" where
  "run_all [] scan = Inr []"
| "run_all (name # names) scan =
     (case scan name of
        Inl e \<Rightarrow>
          if e = SupplyStartFailure then Inl e
          else ebind (run_all names scan) (\<lambda>fs. Inr (ScanRejected name e # fs))
      | Inr (code, _) \<Rightarrow>
          ebind (run_all names scan) (\<lambda>fs.
            Inr ((if code \<noteq> 0 then [ScanExit name code] else []) @ fs)))"

definition authority_exit :: "node \<Rightarrow> string list \<Rightarrow> string \<Rightarrow> runner \<Rightarrow> json option \<Rightarrow> nat" where
  "authority_exit repo base cargo_deny_bin run payload =
     (case verify_discovery_contract repo payload of
        Inl _ \<Rightarrow> 1
      | Inr names \<Rightarrow>
          (case run_all names (run_supply_chain_scan repo base cargo_deny_bin run) of
             Inl _ \<Rightarrow> 1
           | Inr failures \<Rightarrow> if failures \<noteq> [] then 1 else 0))"

section \<open>The scheduled audit\<close>

definition is_word :: "char \<Rightarrow> bool" where
  "is_word c \<longleftrightarrow> is_digit c \<or> is_lower_letter c \<or> is_upper_letter c \<or> c = CHR ''_''"

text \<open>The escape sequences \<open>ESC [ [0-?]* [ -/]* [@-~]\<close>; the three classes are disjoint.\<close>

definition esc :: char where
  "esc = char_of (27 :: nat)"

definition char_in :: "nat \<Rightarrow> nat \<Rightarrow> char \<Rightarrow> bool" where
  "char_in lo hi c \<longleftrightarrow> (let n = of_char c :: nat in lo \<le> n \<and> n \<le> hi)"

definition ansi_rest :: "string \<Rightarrow> string option" where
  "ansi_rest s =
     (case dropWhile (char_in 32 47) (dropWhile (char_in 48 63) s) of
        [] \<Rightarrow> None
      | c # r \<Rightarrow> if char_in 64 126 c then Some r else None)"

lemma ansi_rest_shorter: "ansi_rest s = Some r \<Longrightarrow> length r < length s"
proof -
  assume "ansi_rest s = Some r"
  then obtain c where "dropWhile (char_in 32 47) (dropWhile (char_in 48 63) s) = c # r"
    by (auto simp: ansi_rest_def split: list.splits if_splits)
  then have "Suc (length r) = length (dropWhile (char_in 32 47) (dropWhile (char_in 48 63) s))" by simp
  also have "\<dots> \<le> length s" by (meson le_trans length_dropWhile_le)
  finally show ?thesis by simp
qed

function strip_ansi :: "string \<Rightarrow> string" where
  "strip_ansi [] = []"
| "strip_ansi (c # s) =
     (if c = esc \<and> s \<noteq> [] \<and> hd s = CHR ''['' then
        (case ansi_rest (tl s) of None \<Rightarrow> c # strip_ansi s | Some r \<Rightarrow> strip_ansi r)
      else c # strip_ansi s)"
  by pat_completeness auto
termination
  by (relation "measure length") (auto dest!: ansi_rest_shorter)

text \<open>\<open>\b(...)\s+FAILED\b\<close> at one position; the classes that have a confirmed failure.\<close>

definition audit_classes :: "string list" where
  "audit_classes = policy_classes @ [''additional-ecosystem'']"

definition failed_after :: "string \<Rightarrow> bool" where
  "failed_after s \<longleftrightarrow>
     (let r = dropWhile is_space s in
      s \<noteq> [] \<and> is_space (hd s) \<and> startswith r ''FAILED'' \<and>
      (case drop 6 r of [] \<Rightarrow> True | c # _ \<Rightarrow> \<not> is_word c))"

fun failures_from :: "bool \<Rightarrow> string \<Rightarrow> string list" where
  "failures_from after_word [] = []"
| "failures_from after_word (c # s) =
     (if after_word then []
      else filter (\<lambda>k. startswith (c # s) k \<and> failed_after (drop (length k) (c # s))) audit_classes)
     @ failures_from (is_word c) s"

definition failed_checks :: "string \<Rightarrow> string list" where
  "failed_checks output = sort (dedup (failures_from False output))"

record policy_finding =
  pf_workload :: string
  pf_checks :: "string list"
  pf_output :: string

datatype (plugins only: code) infra_failure =
    MalformedWorkload json
  | UnconfirmedFailure string int string

datatype (plugins only: code) audit_details =
    DiscoveryCommandFailed string
  | DiscoveryMalformed
  | DiscoveryEmpty
  | InfraDetails "infra_failure list" "policy_finding list"
  | PolicyDetails "policy_finding list"
  | AllPassed
  | SyntheticDetails string

record audit =
  a_classification :: string
  audited :: "string list"
  a_details :: audit_details

definition audit_result :: "string \<Rightarrow> audit_details \<Rightarrow> string list \<Rightarrow> audit" where
  "audit_result c d ws = \<lparr>a_classification = c, audited = ws, a_details = d\<rparr>"

text \<open>One entry of the loop: its name if it was scanned, a finding, an infrastructure failure.\<close>

definition audit_entry ::
  "(string \<Rightarrow> int \<times> string) \<Rightarrow> json \<Rightarrow> string list \<times> policy_finding list \<times> infra_failure list" where
  "audit_entry validate entry =
     (case as_str (get_in entry ''name'') of
        None \<Rightarrow> ([], [], [MalformedWorkload entry])
      | Some name \<Rightarrow>
          if name = [] then ([], [], [MalformedWorkload entry])
          else
            (let (code, stdout) = validate name;
                 output = strip_ansi (strip stdout); checks = failed_checks output in
             ([name],
              if code \<noteq> 0 \<and> checks \<noteq> []
              then [\<lparr>pf_workload = name, pf_checks = checks, pf_output = output\<rparr>] else [],
              if code \<noteq> 0 \<and> checks = [] then [UnconfirmedFailure name code output] else [])))"

text \<open>\<open>None\<close>: the decoded entries cannot be iterated over, and the audit dies with a \<open>TypeError\<close>.\<close>

definition run_live_audit ::
  "int \<times> string \<times> json option \<Rightarrow> (string \<Rightarrow> int \<times> string) \<Rightarrow> audit option" where
  "run_live_audit discovered validate =
     (let (code, stdout, doc) = discovered in
      if code \<noteq> 0 then Some (audit_result ''infrastructure-failure'' (DiscoveryCommandFailed stdout) [])
      else
        (case (case doc of Some (JObj d) \<Rightarrow> map_of d ''include'' | _ \<Rightarrow> None) of
           None \<Rightarrow> Some (audit_result ''infrastructure-failure'' DiscoveryMalformed [])
         | Some entries \<Rightarrow>
             if \<not> truthy entries then Some (audit_result ''infrastructure-failure'' DiscoveryEmpty [])
             else
               (case py_iter entries of
                  None \<Rightarrow> None
                | Some es \<Rightarrow>
                    (let rows = map (audit_entry validate) es;
                         scanned = concat (map fst rows);
                         findings = concat (map (fst \<circ> snd) rows);
                         infra = concat (map (snd \<circ> snd) rows) in
                     Some (if infra \<noteq> [] then
                             audit_result ''infrastructure-failure'' (InfraDetails infra findings) scanned
                           else if findings \<noteq> [] then
                             audit_result ''policy-finding'' (PolicyDetails findings) scanned
                           else audit_result ''clean'' AllPassed scanned)))))"

definition synthetic_result :: "string \<Rightarrow> audit option" where
  "synthetic_result mode =
     (if mode \<in> {''policy-finding'', ''infrastructure-failure'', ''clean''}
      then Some (audit_result mode (SyntheticDetails mode) [''synthetic-workload'']) else None)"

definition exit_code_for :: "string \<Rightarrow> nat option" where
  "exit_code_for c = map_of [(''clean'', 0), (''policy-finding'', 1), (''infrastructure-failure'', 2)] c"

section \<open>What the registry's contract gives its clients\<close>

context registry_contract
begin

lemma find_workload:
  assumes "validate repo = Inr r"
  shows "find (\<lambda>e. e_name e = name) (workloads r) = Some e \<longleftrightarrow> e \<in> set (workloads r) \<and> e_name e = name"
proof
  assume "find (\<lambda>e. e_name e = name) (workloads r) = Some e"
  then show "e \<in> set (workloads r) \<and> e_name e = name" by (auto simp: find_Some_iff)
next
  assume e: "e \<in> set (workloads r) \<and> e_name e = name"
  then obtain e' where e': "find (\<lambda>e. e_name e = name) (workloads r) = Some e'"
    by (cases "find (\<lambda>e. e_name e = name) (workloads r)") (auto simp: find_None_iff)
  then have "e' \<in> set (workloads r)" "e_name e' = name" by (auto simp: find_Some_iff)
  with e have "e' = e" by (intro workload_unique [OF assms]) (auto simp: all_entries_def)
  with e' show "find (\<lambda>e. e_name e = name) (workloads r) = Some e" by simp
qed

lemma fixture_not_found:
  assumes "validate repo = Inr r" "f \<in> set (fixtures r)"
  shows "find (\<lambda>e. e_name e = e_name f) (workloads r) = None"
  using not_both_kinds [OF assms(1) _ assms(2)] by (auto simp: find_None_iff)

lemma workload_names_nonempty:
  assumes "validate repo = Inr r"
  shows "map e_name (workloads r) \<noteq> []" "\<forall>n \<in> set (map e_name (workloads r)). n \<noteq> []"
  using some_workload [OF assms] names_proper [OF assms] by (auto simp: all_entries_def name_ok_def)

end

lemma resolve_workload_Inr:
  "resolve_workload repo name = Inr e \<longleftrightarrow>
     (\<exists>r. validate_repository repo = Inr r \<and> e \<in> set (workloads r) \<and> e_name e = name)"
proof (cases "validate_repository repo")
  case (Inr r)
  have "resolve_workload repo name = Inr e \<longleftrightarrow> find (\<lambda>e. e_name e = name) (workloads r) = Some e"
    using Inr by (auto simp: resolve_workload_def split: option.splits)
  then show ?thesis using Inr by (simp add: registry.find_workload)
qed (simp add: resolve_workload_def)

section \<open>Scanning\<close>

definition hook_path :: "string list \<Rightarrow> string list" where
  "hook_path dir = dir @ [''ci'', ''validate-supply-chain'']"

text \<open>What the additional hook must be for the scan to accept, given the program that runs it.\<close>

definition hook_passes :: "node \<Rightarrow> runner \<Rightarrow> string list \<Rightarrow> bool" where
  "hook_passes repo run dir \<longleftrightarrow>
     \<not> is_symlink repo (hook_path dir) \<and>
     (case get_file repo (hook_path dir) of
        None \<Rightarrow> discover_nested_maven_manifests repo dir = [] \<and> \<not> path_exists repo (hook_path dir)
      | Some f \<Rightarrow> exec_ok f \<and> run (AdditionalHook (hook_path dir)) = Some 0)"

lemma hook_scan:
  "(\<exists>hook calls. resolve_additional_hook repo dir = Inr hook \<and> run_additional_hook run hook = Inr (0, calls))
   \<longleftrightarrow> hook_passes repo run dir"
  by (auto simp: resolve_additional_hook_def run_additional_hook_def hook_passes_def hook_path_def
      Let_def is_file_def path_exists_def monad_simps split: option.splits)

definition deny_call :: "string list \<Rightarrow> string \<Rightarrow> string list \<Rightarrow> call" where
  "deny_call base bin dir = CargoDeny (build_cargo_deny_command bin
     (path_str (base @ [''deny.toml''])) (path_str (base @ (dir @ [''Cargo.toml'']))))"

lemma entry_ok_manifest: "entry_ok repo e \<Longrightarrow> is_file repo (path_parts (e_path e) @ [''Cargo.toml''])"
  by (auto simp: entry_ok_def dest: manifest_package_file)

lemma validated_manifest:
  "validate_repository repo = Inr r \<Longrightarrow> e \<in> set (workloads r) \<Longrightarrow>
     is_file repo (path_parts (e_path e) @ [''Cargo.toml''])"
  using accepted_registry entry_ok_manifest by (metis Un_iff all_entries_def set_append)

lemma scan_zero:
  "(\<exists>calls. run_supply_chain_scan repo base bin run name = Inr (0, calls)) \<longleftrightarrow>
     (\<exists>r e. validate_repository repo = Inr r \<and> e \<in> set (workloads r) \<and> e_name e = name \<and>
        is_file repo (path_parts (e_path e) @ [''Cargo.lock'']) \<and> is_file repo [''deny.toml''] \<and>
        run (deny_call base bin (path_parts (e_path e))) = Some 0 \<and>
        hook_passes repo run (path_parts (e_path e)))"
  (is "?L \<longleftrightarrow> ?R")
proof
  assume ?L
  then obtain e hook m code calls calls' where
    e: "resolve_workload repo name = Inr e" "verify_locked_graph repo e = Inr m"
      "resolve_additional_hook repo (path_parts (e_path e)) = Inr hook" "is_file repo [''deny.toml'']"
    and code: "run (CargoDeny (build_cargo_deny_command bin (path_str (base @ [''deny.toml'']))
        (path_str (base @ m)))) = Some code"
      "code = 0" "run_additional_hook run hook = Inr (0, calls)"
    by (auto simp: run_supply_chain_scan_def monad_simps Let_def split_beta split: if_splits)
  have "m = path_parts (e_path e) @ [''Cargo.toml'']" "is_file repo (path_parts (e_path e) @ [''Cargo.lock''])"
    using e(2) by (auto simp: verify_locked_graph_def Let_def monad_simps)
  moreover have "hook_passes repo run (path_parts (e_path e))" using e(3) code(3) hook_scan by blast
  ultimately show ?R using e code by (auto simp: resolve_workload_Inr deny_call_def)
next
  assume ?R
  then obtain r e where e: "validate_repository repo = Inr r" "e \<in> set (workloads r)" "e_name e = name"
    "is_file repo (path_parts (e_path e) @ [''Cargo.lock''])" "is_file repo [''deny.toml'']"
    "run (deny_call base bin (path_parts (e_path e))) = Some 0"
    "hook_passes repo run (path_parts (e_path e))" by blast
  then obtain hook calls where h: "resolve_additional_hook repo (path_parts (e_path e)) = Inr hook"
    "run_additional_hook run hook = Inr (0, calls)" using hook_scan by blast
  have "resolve_workload repo name = Inr e" using e by (auto simp: resolve_workload_Inr)
  then show ?L using e h validated_manifest [OF e(1,2)]
    by (simp add: run_supply_chain_scan_def verify_locked_graph_def Let_def deny_call_def)
qed

lemma run_all_clean:
  "run_all names scan = Inr [] \<longleftrightarrow> (\<forall>n \<in> set names. \<exists>calls. scan n = Inr (0, calls))"
  by (induction names) (auto simp: monad_simps split: sum.splits if_splits)

lemma authority_exit_iff:
  "authority_exit repo base bin run payload = 0 \<longleftrightarrow>
     (\<exists>names. verify_discovery_contract repo payload = Inr names \<and>
        (\<forall>n \<in> set names. \<exists>calls. run_supply_chain_scan repo base bin run n = Inr (0, calls)))"
  unfolding run_all_clean [symmetric]
  by (auto simp: authority_exit_def split: sum.splits if_splits)

lemma parse_matrix:
  assumes "es \<noteq> []" "distinct (map e_name es)" "\<forall>n \<in> set (map e_name es). n \<noteq> []"
  shows "parse_discovery_json (Some (matrix_json es)) = Inr (map e_name es)"
proof -
  have "emap (\<lambda>entry. ebind (want_str (get_in entry ''name'') MalformedDiscoveryEntry) (\<lambda>name.
      ebind (eguard (name \<noteq> []) MalformedDiscoveryEntry) (\<lambda>_. Inr name))) (map entry_json es)
      = Inr (map e_name es)"
    using assms(3) by (induction es) auto
  with assms(1,2) show ?thesis by (simp add: parse_discovery_json_def matrix_json_def)
qed

section \<open>The audit's rows\<close>

lemma audit_entry_json:
  assumes "e_name e \<noteq> []"
  shows "fst (audit_entry validate (entry_json e)) = [e_name e]"
    and "fst (snd (audit_entry validate (entry_json e))) = [] \<longleftrightarrow>
      fst (validate (e_name e)) = 0 \<or> failed_checks (strip_ansi (strip (snd (validate (e_name e))))) = []"
    and "snd (snd (audit_entry validate (entry_json e))) = [] \<longleftrightarrow>
      fst (validate (e_name e)) = 0 \<or> failed_checks (strip_ansi (strip (snd (validate (e_name e))))) \<noteq> []"
  using assms by (auto simp: audit_entry_def Let_def split_beta)

section \<open>Properties\<close>

text \<open>
  C4. A supply-chain scan passes exactly when the name is a registered real workload with a
  lock file, the canonical policy file exists, cargo-deny run on that workload's manifest exits
  with 0, and the workload's own hook is in order and exits with 0; a workload that ships Maven
  manifests cannot pass without such a hook.
\<close>

theorem supply_chain_scan_passes_iff:
  "(\<exists>calls. run_supply_chain_scan repo base bin run name = Inr (0, calls)) \<longleftrightarrow>
     (\<exists>r e. validate_repository repo = Inr r \<and> e \<in> set (workloads r) \<and> e_name e = name \<and>
        is_file repo (path_parts (e_path e) @ [''Cargo.lock'']) \<and> is_file repo [''deny.toml''] \<and>
        run (deny_call base bin (path_parts (e_path e))) = Some 0 \<and>
        hook_passes repo run (path_parts (e_path e)))"
  by (rule scan_zero)

text \<open>
  Fixtures are never scanned: whatever programs are available, a scan of a registered
  fixture fails before any of them is started.
\<close>

theorem fixture_never_scanned:
  assumes "validate_repository repo = Inr r" and "f \<in> set (fixtures r)"
  shows "run_supply_chain_scan repo base bin run (e_name f) = Inl (FixtureNotWorkload (e_name f))"
  using assms registry.fixture_not_found [OF assms]
  by (simp add: run_supply_chain_scan_def resolve_workload_def)

theorem fixture_never_scanned_witness:
  "run_supply_chain_scan (sample_tree []) [''/'', ''repo''] ''cargo-deny'' (\<lambda>_. Some 0) ''beta''
     = Inl (FixtureNotWorkload ''beta'')"
  using fixture_never_scanned [OF sample_accepted, of "hd (fixtures sample_result)"]
  by (simp add: sample_result_def)

text \<open>
  C8. The authority run on the supply-chain matrix of the same tree never stops on its
  cross-check, and passes if and only if every real workload's scan passes; on any payload
  whose names are not exactly the canonical list, in order, it fails.
\<close>

theorem authority_passes_iff:
  assumes "supply_discover repo = Inr es"
  shows "(authority_exit repo base bin run (Some (matrix_json es)) = 0 \<longleftrightarrow>
      (\<forall>e \<in> set es. \<exists>calls. run_supply_chain_scan repo base bin run (e_name e) = Inr (0, calls))) \<and>
    (\<forall>payload. parse_discovery_json payload \<noteq> Inr (map e_name es) \<longrightarrow>
      authority_exit repo base bin run payload = 1)"
proof -
  obtain r where r: "validate_repository repo = Inr r" "es = workloads r"
    using assms by (auto simp: supply_discover_def monad_simps)
  have names: "map e_name es \<noteq> []" "\<forall>n \<in> set (map e_name es). n \<noteq> []" "distinct (map e_name es)"
    using registry.workload_names_nonempty [OF r(1)] registry.workload_names_distinct [OF r(1)] r(2)
    by auto
  have can: "canonical_real_workloads repo = Inr (map e_name es)"
    using r names(1) by (simp add: canonical_real_workloads_def)
  have "verify_discovery_contract repo (Some (matrix_json es)) = Inr (map e_name es)"
    using names can by (simp add: verify_discovery_contract_def parse_matrix verify_discovery_names_def)
  then have "authority_exit repo base bin run (Some (matrix_json es)) = 0 \<longleftrightarrow>
      (\<forall>e \<in> set es. \<exists>calls. run_supply_chain_scan repo base bin run (e_name e) = Inr (0, calls))"
    by (simp add: authority_exit_iff)
  moreover have "authority_exit repo base bin run payload = 1"
    if "parse_discovery_json payload \<noteq> Inr (map e_name es)" for payload
  proof -
    have "\<exists>e. verify_discovery_contract repo payload = Inl e"
      using that can
      by (cases "parse_discovery_json payload")
        (auto simp: verify_discovery_contract_def verify_discovery_names_def eguard_def)
    then show ?thesis by (auto simp: authority_exit_def)
  qed
  ultimately show ?thesis by blast
qed

theorem authority_passes_iff_witness:
  "authority_exit (sample_tree []) [''/'', ''repo''] ''cargo-deny'' (\<lambda>_. Some 0)
     (Some (matrix_json (workloads sample_result))) = 0 \<and>
   authority_exit (sample_tree []) [''/'', ''repo''] ''cargo-deny'' (\<lambda>_. Some 0)
     (Some (matrix_json (all_entries sample_result))) = 1"
proof -
  have d: "supply_discover (sample_tree []) = Inr (workloads sample_result)"
    by (simp add: supply_discover_def sample_accepted)
  have s: "\<forall>e \<in> set (workloads sample_result). \<exists>calls.
      run_supply_chain_scan (sample_tree []) [''/'', ''repo''] ''cargo-deny'' (\<lambda>_. Some 0) (e_name e) = Inr (0, calls)"
  proof
    fix e assume "e \<in> set (workloads sample_result)"
    then have e: "e_name e = ''alpha''" by (simp add: sample_result_def)
    have "isOK (run_supply_chain_scan (sample_tree []) [''/'', ''repo''] ''cargo-deny'' (\<lambda>_. Some 0) ''alpha'')
      \<and> fst (projr (run_supply_chain_scan (sample_tree []) [''/'', ''repo''] ''cargo-deny'' (\<lambda>_. Some 0) ''alpha'')) = 0"
      by code_simp
    then show "\<exists>calls. run_supply_chain_scan (sample_tree []) [''/'', ''repo''] ''cargo-deny'' (\<lambda>_. Some 0)
        (e_name e) = Inr (0, calls)"
      unfolding e isOK_iff by auto
  qed
  have p: "parse_discovery_json (Some (matrix_json (all_entries sample_result)))
      \<noteq> Inr (map e_name (workloads sample_result))"
    by code_simp
  show ?thesis using authority_passes_iff [OF d] s p by blast
qed

text \<open>
  The scheduled audit never hides a failure: run on a discovery matrix it scans every entry,
  reports clean exactly when every scan exited with 0, reports a policy finding exactly when
  some scan failed and every failed scan shows a confirmed policy verdict, and reports an
  infrastructure failure in all other cases.
\<close>

theorem scheduled_audit_classification:
  assumes "es \<noteq> []" and "\<forall>e \<in> set es. e_name e \<noteq> []"
  shows "\<exists>a. run_live_audit (0, out, Some (matrix_json es)) validate = Some a \<and>
    audited a = map e_name es \<and>
    (let failed = filter (\<lambda>e. fst (validate (e_name e)) \<noteq> 0) es;
         unconfirmed = filter (\<lambda>e. failed_checks (strip_ansi (strip (snd (validate (e_name e))))) = []) failed
     in a_classification a = (if unconfirmed \<noteq> [] then ''infrastructure-failure''
          else if failed \<noteq> [] then ''policy-finding'' else ''clean''))"
proof -
  let ?rows = "map (audit_entry validate) (map entry_json es)"
  let ?failed = "filter (\<lambda>e. fst (validate (e_name e)) \<noteq> 0) es"
  let ?unconfirmed = "filter (\<lambda>e. failed_checks (strip_ansi (strip (snd (validate (e_name e))))) = []) ?failed"
  let ?findings = "concat (map (fst \<circ> snd) ?rows)" and ?infra = "concat (map (snd \<circ> snd) ?rows)"
  have scanned: "concat (map fst ?rows) = map e_name es"
    using assms(2) by (induction es) (simp_all add: audit_entry_json)
  let ?checks = "\<lambda>e. failed_checks (strip_ansi (strip (snd (validate (e_name e)))))"
  have "?infra = [] \<longleftrightarrow> (\<forall>e \<in> set es. snd (snd (audit_entry validate (entry_json e))) = [])" by simp
  also have "\<dots> \<longleftrightarrow> (\<forall>e \<in> set es. fst (validate (e_name e)) = 0 \<or> ?checks e \<noteq> [])"
    using assms(2) audit_entry_json(3) by (intro ball_cong refl) blast
  also have "\<dots> \<longleftrightarrow> ?unconfirmed = []" by (auto simp: filter_empty_conv)
  finally have infra: "?infra = [] \<longleftrightarrow> ?unconfirmed = []" .
  have "?findings = [] \<longleftrightarrow> (\<forall>e \<in> set es. fst (snd (audit_entry validate (entry_json e))) = [])" by simp
  also have "\<dots> \<longleftrightarrow> (\<forall>e \<in> set es. fst (validate (e_name e)) = 0 \<or> ?checks e = [])"
    using assms(2) audit_entry_json(2) by (intro ball_cong refl) blast
  finally have findings: "?findings = [] \<longleftrightarrow> ?failed = []" if "?unconfirmed = []"
    using that by (auto simp: filter_empty_conv)
  have "run_live_audit (0, out, Some (matrix_json es)) validate = Some
      (if ?infra \<noteq> [] then audit_result ''infrastructure-failure'' (InfraDetails ?infra ?findings) (map e_name es)
       else if ?findings \<noteq> [] then audit_result ''policy-finding'' (PolicyDetails ?findings) (map e_name es)
       else audit_result ''clean'' AllPassed (map e_name es))"
    unfolding run_live_audit_def matrix_json_def using assms(1) scanned by (simp add: Let_def)
  with infra findings show ?thesis
    by (auto simp: Let_def audit_result_def)
qed

theorem scheduled_audit_classification_witness:
  "\<exists>a. run_live_audit (0, [], Some (matrix_json (workloads sample_result)))
      (\<lambda>_. (1, ''advisories FAILED'')) = Some a \<and> a_classification a = ''policy-finding''"
proof -
  let ?v = "\<lambda>_ :: string. (1 :: int, ''advisories FAILED'')"
  have ne: "workloads sample_result \<noteq> []" "\<forall>e \<in> set (workloads sample_result). e_name e \<noteq> []"
    by (simp_all add: sample_result_def)
  have "failed_checks (strip_ansi (strip ''advisories FAILED'')) = [''advisories'']" by code_simp
  then show ?thesis
    using scheduled_audit_classification [OF ne, of "[]" ?v] ne(1)
    by (simp add: Let_def) blast
qed

end
