(* ===== verification/Labels.thy ===== *)
theory Labels
  imports Filesystem
begin

text \<open>
  Models of \<open>.github/scripts/validate-label-taxonomy.py\<close> (the canonical label taxonomy and the
  files that refer to it) and \<open>reconcile-labels.py\<close> (the labels an issue or pull request should
  carry). The GitHub client is outside: the paths of a pull request are an argument, and an
  update of an item's labels is returned as a value.
\<close>

section \<open>The taxonomy\<close>

datatype (plugins only: code) taxonomy_error =
    TaxonomyOSError
  | TaxonomyJson
  | TaxonomyCrash
  | TaxonomySchema
  | PrefixesNotStrings
  | PrefixesDuplicate
  | SingularNotSubset
  | SingularDuplicate
  | StructuralNotStrings
  | StructuralDuplicate
  | LabelsNotList
  | LabelNotObject
  | LabelNameEmpty
  | LabelDuplicate string
  | LabelColor string
  | LabelDescription string
  | PrefixWithoutLabels string
  | StructuralUndefined string
  | StructuralNotType string
  | UnknownReferences "(string \<times> string) list" bool

record label =
  l_name :: string
  l_color :: string
  l_description :: string

record taxonomy =
  prefixes :: "string list"
  singular :: "string list"
  structural_types :: "string list"
  labels :: "label list"

definition is_hex :: "char \<Rightarrow> bool" where
  "is_hex c \<longleftrightarrow> is_lower_hex (lower_char c)"

definition hex_color :: "string \<Rightarrow> bool" where
  "hex_color s \<longleftrightarrow> length s = 6 \<and> list_all is_hex s"

definition nonempty_str :: "'e \<Rightarrow> json \<Rightarrow> 'e + string" where
  "nonempty_str err v = ebind (want_str v err) (\<lambda>s. ebind (eguard (s \<noteq> []) err) (\<lambda>_. Inr s))"

definition check_label :: "string list \<Rightarrow> json \<Rightarrow> taxonomy_error + label" where
  "check_label seen entry =
     ebind (want_obj entry LabelNotObject) (\<lambda>d.
     ebind (want_str (dget d ''name'') LabelNameEmpty) (\<lambda>name.
     ebind (eguard (\<not> blank name) LabelNameEmpty) (\<lambda>_.
     ebind (eguard (name \<notin> set seen) (LabelDuplicate name)) (\<lambda>_.
     ebind (want_str (dget d ''color'') (LabelColor name)) (\<lambda>color.
     ebind (eguard (hex_color color) (LabelColor name)) (\<lambda>_.
     ebind (want_str (dget d ''description'') (LabelDescription name)) (\<lambda>description.
     ebind (eguard (\<not> blank description) (LabelDescription name)) (\<lambda>_.
       Inr \<lparr>l_name = name, l_color = color, l_description = description\<rparr>))))))))"

fun check_labels :: "string list \<Rightarrow> json list \<Rightarrow> taxonomy_error + label list" where
  "check_labels seen [] = Inr []"
| "check_labels seen (e # es) =
     ebind (check_label seen e) (\<lambda>l.
     ebind (check_labels (l_name l # seen) es) (\<lambda>ls. Inr (l # ls)))"

definition load_taxonomy :: "node \<Rightarrow> taxonomy_error + taxonomy" where
  "load_taxonomy repo =
     ebind (want_some (get_file repo [''.github'', ''labels.json'']) TaxonomyOSError) (\<lambda>f.
     ebind (want_some (json_doc f) TaxonomyJson) (\<lambda>doc.
     ebind (want_obj doc TaxonomyCrash) (\<lambda>data.
     ebind (eguard (py_eq (dget data ''schema_version'') (JInt 1)) TaxonomySchema) (\<lambda>_.
     ebind (want_arr (dget data ''managed_prefixes'') PrefixesNotStrings) (\<lambda>ps.
     ebind (eguard (ps \<noteq> []) PrefixesNotStrings) (\<lambda>_.
     ebind (emap (nonempty_str PrefixesNotStrings) ps) (\<lambda>pre.
     ebind (eguard (distinct pre) PrefixesDuplicate) (\<lambda>_.
     ebind (want_arr (dget data ''singular_groups'') SingularNotSubset) (\<lambda>sgs.
     ebind (emap (\<lambda>v. want_str v SingularNotSubset) sgs) (\<lambda>sing.
     ebind (eguard (set sing \<subseteq> set pre) SingularNotSubset) (\<lambda>_.
     ebind (eguard (distinct sing) SingularDuplicate) (\<lambda>_.
     ebind (want_arr (dget data ''structural_types'') StructuralNotStrings) (\<lambda>sts.
     ebind (eguard (sts \<noteq> []) StructuralNotStrings) (\<lambda>_.
     ebind (emap (nonempty_str StructuralNotStrings) sts) (\<lambda>struct.
     ebind (eguard (distinct struct) StructuralDuplicate) (\<lambda>_.
     ebind (want_arr (dget data ''labels'') LabelsNotList) (\<lambda>entries.
     ebind (eguard (entries \<noteq> []) LabelsNotList) (\<lambda>_.
     ebind (check_labels [] entries) (\<lambda>ls.
     ebind (emap (\<lambda>p. eguard (list_ex (\<lambda>l. startswith (l_name l) p) ls) (PrefixWithoutLabels p)) pre) (\<lambda>_.
     ebind (emap (\<lambda>n. ebind (eguard (n \<in> l_name ` set ls) (StructuralUndefined n)) (\<lambda>_.
                      eguard (startswith n ''type:'') (StructuralNotType n))) struct) (\<lambda>_.
       Inr \<lparr>prefixes = pre, singular = sing, structural_types = struct, labels = ls\<rparr>)))))))))))))))))))))"

section \<open>References to the taxonomy\<close>

definition is_quote :: "char \<Rightarrow> bool" where
  "is_quote c \<longleftrightarrow> of_char c \<in> {34 :: nat, 39}"

text \<open>\<open>re.findall\<close> of a non-empty run without quotes between two quotes.\<close>

function quoted :: "string \<Rightarrow> string list" where
  "quoted [] = []"
| "quoted (c # s) =
     (let body = takeWhile (Not \<circ> is_quote) s; rest = dropWhile (Not \<circ> is_quote) s in
      if is_quote c \<and> body \<noteq> [] \<and> rest \<noteq> [] then body # quoted (tl rest) else quoted s)"
  by pat_completeness auto
termination
proof (relation "measure length", goal_cases)
  case (2 c s x xa)
  then have "length (tl xa) < length (dropWhile (Not \<circ> is_quote) s)" by (cases xa) auto
  also have "\<dots> \<le> length s" by (rule length_dropWhile_le)
  finally show ?case by simp
qed auto

text \<open>The content of the brackets of a line \<open>labels: [...]\<close>.\<close>

definition label_line :: "string \<Rightarrow> string option" where
  "label_line line =
     (let l = lstrip line in
      if \<not> startswith l ''labels:'' then None
      else
        (case lstrip (drop 7 l) of
           c # r \<Rightarrow> if c = CHR ''['' \<and> rstrip r \<noteq> [] \<and> last (rstrip r) = CHR '']''
             then Some (butlast (rstrip r)) else None
         | [] \<Rightarrow> None))"

definition extract_issue_form_labels :: "string \<Rightarrow> string list" where
  "extract_issue_form_labels text =
     concat (map (\<lambda>line. case label_line line of None \<Rightarrow> [] | Some body \<Rightarrow> quoted body)
       (splitlines text))"

definition issue_templates :: "node \<Rightarrow> (string \<times> filedata option) list" where
  "issue_templates repo =
     (case get_dir repo [''.github'', ''ISSUE_TEMPLATE''] of
        None \<Rightarrow> []
      | Some es \<Rightarrow>
          map (\<lambda>n. (n, get_file (NDir es) [n]))
            (filter (\<lambda>n. n \<noteq> ''config.yml'')
              (sort (filter (\<lambda>n. endswith n ''.yml'') (map fst es)))))"

definition dependabot_reference :: "string \<Rightarrow> bool" where
  "dependabot_reference text \<longleftrightarrow>
     list_ex (\<lambda>line. strip line = ''- dependencies'') (split_on line_feed text)"

definition validate_references :: "node \<Rightarrow> taxonomy \<Rightarrow> taxonomy_error + unit" where
  "validate_references repo t =
     (let known = l_name ` set (labels t) in
      ebind (emap (\<lambda>(n, f). ebind (want_some f TaxonomyOSError) (\<lambda>d. Inr (n, raw d)))
               (issue_templates repo)) (\<lambda>templates.
      ebind (want_some (get_file repo [''.github'', ''dependabot.yml'']) TaxonomyOSError) (\<lambda>dep.
        let unknown = concat (map (\<lambda>(n, text).
              map (Pair n) (filter (\<lambda>l. l \<notin> known) (extract_issue_form_labels text))) templates);
            dep_unknown = (dependabot_reference (raw dep) \<and> ''dependencies'' \<notin> known)
        in eguard (unknown = [] \<and> \<not> dep_unknown) (UnknownReferences unknown dep_unknown))))"

definition taxonomy_main :: "node \<Rightarrow> taxonomy_error + taxonomy" where
  "taxonomy_main repo =
     ebind (load_taxonomy repo) (\<lambda>t. ebind (validate_references repo t) (\<lambda>_. Inr t))"

section \<open>The reconciler's policy\<close>

text \<open>
  A rule's pattern: one of some words, or one word with an optional parenthesis after it, then
  white space and a colon, at the start of the title.
\<close>

datatype (plugins only: code) title_rule = Words "string list" | Scoped string

definition colon_next :: "string \<Rightarrow> bool" where
  "colon_next s \<longleftrightarrow> (case lstrip s of [] \<Rightarrow> False | c # _ \<Rightarrow> c = CHR '':'')"

definition skip_paren :: "string \<Rightarrow> string" where
  "skip_paren s =
     (case s of
        [] \<Rightarrow> []
      | c # r \<Rightarrow>
          if c = CHR ''('' then
            (case dropWhile (\<lambda>d. d \<noteq> CHR '')'') r of [] \<Rightarrow> s | _ # q \<Rightarrow> q)
          else s)"

fun rule_matches :: "title_rule \<Rightarrow> string \<Rightarrow> bool" where
  "rule_matches (Words ws) v \<longleftrightarrow>
     list_ex (\<lambda>w. startswith v w \<and> colon_next (drop (length w) v)) ws"
| "rule_matches (Scoped w) v \<longleftrightarrow>
     startswith v w \<and> colon_next (skip_paren (drop (length w) v))"

definition type_rules :: "(title_rule \<times> string) list" where
  "type_rules =
     [(Words [''epic''], ''type:epic''), (Scoped ''track'', ''type:track''),
      (Words [''workload'', ''campaign''], ''type:campaign''),
      (Words [''bug'', ''fix''], ''type:bug''), (Words [''security''], ''type:security''),
      (Words [''docs'', ''doc'', ''documentation''], ''type:docs''),
      (Words [''research''], ''type:research''), (Scoped ''hardening'', ''type:task''),
      (Words [''task'', ''chore'', ''governance'', ''ci'', ''evidence'', ''deps'', ''dep''], ''type:task''),
      (Words [''chore(deps)''], ''type:task'')]"

definition area_prefix_rules :: "(title_rule \<times> string) list" where
  "area_prefix_rules =
     [(Words [''ci''], ''area:ci''), (Scoped ''hardening'', ''area:governance''),
      (Words [''governance'', ''chore''], ''area:governance''),
      (Words [''evidence''], ''area:evidence''), (Words [''security''], ''area:security''),
      (Words [''docs'', ''doc'', ''documentation''], ''area:docs'')]"

record label_policy =
  known :: "string list"
  structural :: "string list"
  type_prefix :: string
  workload_paths :: "(string \<times> string) list"

datatype (plugins only: code) reconcile_error =
    ReconcileOSError
  | ReconcileJson
  | ReconcilePy py_error
  | NoUniqueTypeGroup
  | MissingAutomationLabels "string list"
  | MultipleStructural "string list"
  | MultipleTypes "string list"
  | NoClient
  | ClientFailure

definition py :: "py_error + 'a \<Rightarrow> reconcile_error + 'a" where
  "py m = map_err ReconcilePy m"

text \<open>A JSON value used as a string: its methods fail on other types.\<close>

definition str_of :: "json \<Rightarrow> reconcile_error + string" where
  "str_of v = want_str v (ReconcilePy AttrErr)"

definition name_of :: "json \<Rightarrow> reconcile_error + string" where
  "name_of entry = ebind (py (getitem entry ''name'')) str_of"

text \<open>The elements of a set comprehension over the entries' names; only strings can be labels.\<close>

definition known_name :: "json \<Rightarrow> reconcile_error + json" where
  "known_name entry =
     ebind (py (getitem entry ''name'')) (\<lambda>v.
     ebind (eguard (hashable v) (ReconcilePy TypeErr)) (\<lambda>_. Inr v))"

definition load_json :: "node \<Rightarrow> string list \<Rightarrow> reconcile_error + json" where
  "load_json repo path =
     ebind (want_some (get_file repo path) ReconcileOSError) (\<lambda>f.
       want_some (json_doc f) ReconcileJson)"

text \<open>
  A structural type or a group that is not a string fails either way, here always as
  \<open>AttributeError\<close>; the names and paths of registered workloads are strings (\<open>Registry\<close>).
\<close>

definition referenced_labels :: "string list" where
  "referenced_labels = map snd type_rules @ map snd area_prefix_rules @
     [''area:benchmark'', ''area:interop'', ''area:postgres'', ''area:workload'', ''area:evidence'',
      ''area:ci'', ''area:governance'', ''area:docs'', ''area:security'']"

definition rstrip_slash :: "string \<Rightarrow> string" where
  "rstrip_slash s = rev (dropWhile (\<lambda>c. c = CHR ''/'') (rev s))"

definition workload_path :: "json \<Rightarrow> reconcile_error + string \<times> string" where
  "workload_path entry =
     ebind (name_of entry) (\<lambda>name.
     ebind (ebind (py (getitem entry ''path'')) str_of) (\<lambda>path.
       Inr (name, rstrip_slash path @ ''/'')))"

definition load_policy :: "node \<Rightarrow> reconcile_error + label_policy" where
  "load_policy repo =
     ebind (load_json repo [''.github'', ''labels.json'']) (\<lambda>tax.
     ebind (load_json repo [''workloads.json'']) (\<lambda>wl.
     ebind (ebind (py (getitem tax ''labels'')) (\<lambda>v. py (iterate v))) (\<lambda>entries.
     ebind (emap known_name entries) (\<lambda>name_values.
     ebind (ebind (py (getitem tax ''structural_types'')) (\<lambda>v. py (iterate v))) (\<lambda>sts.
     ebind (emap str_of sts) (\<lambda>struct.
     ebind (ebind (py (getattr_get tax ''singular_groups'' (JArr []))) (\<lambda>v. py (iterate v))) (\<lambda>sgs.
     ebind (emap str_of sgs) (\<lambda>groups.
       let names = strings_of name_values;
           matching = filter (\<lambda>p. struct \<noteq> [] \<and> list_all (\<lambda>n. startswith n p) struct) groups;
           missing = sort (dedup (filter (\<lambda>l. l \<notin> set names) referenced_labels)) in
       ebind (eguard (length matching = 1) NoUniqueTypeGroup) (\<lambda>_.
       ebind (eguard (missing = []) (MissingAutomationLabels missing)) (\<lambda>_.
       ebind (ebind (py (getattr_get wl ''workloads'' (JArr []))) (\<lambda>v. py (iterate v))) (\<lambda>ws.
       ebind (emap workload_path ws) (\<lambda>wps.
       ebind (ebind (py (getattr_get wl ''fixtures'' (JArr []))) (\<lambda>v. py (iterate v))) (\<lambda>fs.
       ebind (emap workload_path fs) (\<lambda>fps.
         Inr \<lparr>known = names, structural = struct, type_prefix = hd matching,
              workload_paths = wps @ fps\<rparr>))))))))))))))"

section \<open>Inference and reconciliation\<close>

definition strong_type_from_title :: "string \<Rightarrow> string option" where
  "strong_type_from_title title =
     (let value = lower (strip title)
      in map_option snd (find (\<lambda>r. rule_matches (fst r) value) type_rules))"

definition infer_title_areas :: "string \<Rightarrow> string list" where
  "infer_title_areas title =
     (let value = lower (strip title) in
      map snd (filter (\<lambda>r. rule_matches (fst r) value) area_prefix_rules)
      @ (if contains ''benchmark'' value then [''area:benchmark''] else [])
      @ (if list_ex (\<lambda>t. contains t value)
              [''interop'', ''scheduler'', ''orchestrator'', ''event-driven'', ''control-plane'']
         then [''area:interop''] else [])
      @ (if contains ''postgres'' value \<or> contains ''postgresql'' value then [''area:postgres''] else []))"

definition path_areas :: "label_policy \<Rightarrow> string \<Rightarrow> string list" where
  "path_areas policy raw_path =
     (let path = dropWhile (\<lambda>c. c = CHR ''/'') raw_path in
      (if startswith path ''.github/workflows/'' then [''area:ci'', ''area:governance'']
       else if startswith path ''.github/scripts/'' then [''area:ci''] else [])
      @ (if path = ''.github/labels.json'' \<or> startswith path ''.github/ISSUE_TEMPLATE/''
         then [''area:governance''] else [])
      @ (if path \<in> {''CONTRIBUTING.md'', ''CODE_OF_CONDUCT.md''}
         then [''area:docs'', ''area:governance''] else [])
      @ (if path = ''SECURITY.md'' then [''area:docs'', ''area:security''] else [])
      @ (if contains ''/validation/'' (''/'' @ path) \<or> endswith path ''/validation''
         then [''area:evidence''] else [])
      @ concat (map (\<lambda>(name, pre).
          if path = butlast pre \<or> startswith path pre then
            ''area:workload'' #
            (if contains ''postgres'' (lower name) \<or> contains ''postgres'' (lower pre)
             then [''area:postgres''] else [])
          else []) (workload_paths policy)))"

definition infer_path_areas :: "label_policy \<Rightarrow> string list \<Rightarrow> string list" where
  "infer_path_areas policy paths = concat (map (path_areas policy) paths)"

definition type_labels :: "label_policy \<Rightarrow> string list \<Rightarrow> string list" where
  "type_labels policy current = filter (\<lambda>l. startswith l (type_prefix policy)) current"

definition structural_labels :: "label_policy \<Rightarrow> string list \<Rightarrow> string list" where
  "structural_labels policy current =
     filter (\<lambda>l. l \<in> set (structural policy)) (type_labels policy current)"

definition select_type ::
  "label_policy \<Rightarrow> string option \<Rightarrow> string list \<Rightarrow> reconcile_error + string option" where
  "select_type policy inferred_type current =
     (let tl = type_labels policy current; sl = structural_labels policy current in
      if length sl > 1 then Inl (MultipleStructural sl)
      else if sl \<noteq> [] then Inr (Some (hd sl))
      else if inferred_type \<notin> {None, Some []} then Inr inferred_type
      else if length tl \<le> 1 then Inr (if tl \<noteq> [] then Some (hd tl) else None)
      else Inl (MultipleTypes tl))"

fun selected_list :: "string option \<Rightarrow> string list" where
  "selected_list None = []"
| "selected_list (Some t) = (if t = [] then [] else [t])"

definition reconcile_labels ::
  "string list \<Rightarrow> string option \<Rightarrow> string list \<Rightarrow> label_policy \<Rightarrow> reconcile_error + string list" where
  "reconcile_labels current_labels inferred_type inferred_areas policy =
     (let current = dedup current_labels in
      ebind (select_type policy inferred_type current) (\<lambda>selected.
        let non_type = filter (\<lambda>l. \<not> startswith l (type_prefix policy)) current;
            desired = selected_list selected @ non_type;
            additions = filter (\<lambda>a. a \<in> set (known policy) \<and> a \<notin> set desired)
              (sort (dedup inferred_areas))
        in Inr (dedup (desired @ additions))))"

definition labels_from_item :: "obj \<Rightarrow> reconcile_error + string list" where
  "labels_from_item item =
     ebind (py (iterate (get_default item ''labels'' (JArr [])))) (emap name_of)"

text \<open>\<open>pr_paths\<close> is the client's readback of a pull request's files, by its number.\<close>

type_synonym client = "json \<Rightarrow> reconcile_error + string list"

definition classify_item :: "obj \<Rightarrow> label_policy \<Rightarrow> client option \<Rightarrow> reconcile_error + string list" where
  "classify_item item policy client =
     ebind (str_of (get_default item ''title'' (JStr []))) (\<lambda>title.
     ebind (if has_key item ''pull_request'' then
              ebind (want_some client NoClient) (\<lambda>pr_paths.
              ebind (py (getitem (JObj item) ''number'')) (\<lambda>n.
              ebind (pr_paths n) (\<lambda>paths. Inr (infer_path_areas policy paths))))
            else Inr []) (\<lambda>path_areas.
     ebind (labels_from_item item) (\<lambda>current.
       reconcile_labels current (strong_type_from_title title)
         (infer_title_areas title @ path_areas) policy)))"

text \<open>
  \<open>apply_item\<close>: \<open>None\<close> when the labels are already reconciled, else the item's number and the
  labels to write. A dry run reports the change and writes nothing.
\<close>

definition apply_item ::
  "client \<Rightarrow> obj \<Rightarrow> label_policy \<Rightarrow> reconcile_error + (json \<times> string list) option" where
  "apply_item client item policy =
     ebind (classify_item item policy (Some client)) (\<lambda>desired.
     ebind (labels_from_item item) (\<lambda>current.
     ebind (py (getitem (JObj item) ''number'')) (\<lambda>number.
       Inr (if length desired = length current \<and> set desired = set current then None
            else Some (number, desired)))))"

text \<open>The backfill loop: the writes made, in order, and the error that ended it, if any.\<close>

fun backfill ::
  "client \<Rightarrow> label_policy \<Rightarrow> bool \<Rightarrow> obj list \<Rightarrow> (json \<times> string list) list \<times> (reconcile_error + nat)" where
  "backfill client policy dry_run [] = ([], Inr 0)"
| "backfill client policy dry_run (item # items) =
     (case apply_item client item policy of
        Inl e \<Rightarrow> ([], Inl e)
      | Inr None \<Rightarrow> backfill client policy dry_run items
      | Inr (Some w) \<Rightarrow>
          (let (ws, out) = backfill client policy dry_run items
           in ((if dry_run then ws else w # ws), ebind out (\<lambda>n. Inr (Suc n)))))"

text \<open>
  Outside a backfill: the item of the event is fetched again before it is reconciled. \<open>fetch\<close> is
  the client's readback of an issue by its number.
\<close>

definition reconcile_event ::
  "client \<Rightarrow> (json \<Rightarrow> reconcile_error + json) \<Rightarrow> label_policy \<Rightarrow> bool \<Rightarrow> json
     \<Rightarrow> reconcile_error + (json \<times> string list) option" where
  "reconcile_event client fetch policy dry_run event =
     ebind (py (getattr_get event ''issue'' JNull)) (\<lambda>issue.
     ebind (py (getattr_get event ''pull_request'' JNull)) (\<lambda>pr.
       let item = (if truthy issue then issue else pr) in
       if \<not> truthy item then Inr None
       else
         ebind (py (getitem item ''number'')) (\<lambda>number.
         ebind (fetch number) (\<lambda>fresh.
         ebind (want_obj fresh (ReconcilePy AttrErr)) (\<lambda>fresh_item.
         ebind (apply_item client fresh_item policy) (\<lambda>change.
           Inr (if dry_run then None else change)))))))"

section \<open>Lemmas on the taxonomy\<close>

definition label_ok :: "label \<Rightarrow> bool" where
  "label_ok l \<longleftrightarrow> \<not> blank (l_name l) \<and> hex_color (l_color l) \<and> \<not> blank (l_description l)"

lemma check_label_ok: "check_label seen e = Inr l \<Longrightarrow> label_ok l \<and> l_name l \<notin> set seen"
  by (auto simp: check_label_def label_ok_def monad_simps)

lemma check_labels_ok:
  "check_labels seen es = Inr ls \<Longrightarrow>
     list_all label_ok ls \<and> distinct (map l_name ls) \<and> l_name ` set ls \<inter> set seen = {}
     \<and> length ls = length es"
proof (induction es arbitrary: seen ls)
  case (Cons e es)
  then obtain l ls' where "check_label seen e = Inr l" "check_labels (l_name l # seen) es = Inr ls'"
    "ls = l # ls'" by (auto simp: monad_simps)
  with Cons.IH [of "l_name l # seen" ls'] check_label_ok show ?case by fastforce
qed simp

lemma emap_eguard: "(\<exists>ys. emap (\<lambda>x. eguard (P x) (f x)) xs = Inr ys) \<longleftrightarrow> (\<forall>x \<in> set xs. P x)"
proof -
  have "(\<exists>ys. emap (\<lambda>x. eguard (P x) (f x)) xs = Inr ys) \<longleftrightarrow> isOK (emap (\<lambda>x. eguard (P x) (f x)) xs)"
    by (simp add: isOK_iff)
  then show ?thesis by (simp add: isOK_emap)
qed

lemma emap_isOK: "emap f xs = Inr ys \<Longrightarrow> x \<in> set xs \<Longrightarrow> isOK (f x)"
  using isOK_emap isOK_simps(1) by metis

section \<open>Lemmas on reconciliation\<close>

lemma type_rules_prefix: "r \<in> set type_rules \<Longrightarrow> startswith (snd r) ''type:''"
  by (auto simp: type_rules_def)

lemma strong_type_prefix:
  assumes "strong_type_from_title title = Some t"
  shows "startswith t ''type:''"
proof -
  obtain r where "find (\<lambda>r. rule_matches (fst r) (lower (strip title))) type_rules = Some r" "t = snd r"
    using assms by (auto simp: strong_type_from_title_def Let_def)
  then have "r \<in> set type_rules" by (auto simp: find_Some_iff)
  then show ?thesis using \<open>t = snd r\<close> type_rules_prefix by simp
qed

lemma area_rules_prefix: "r \<in> set area_prefix_rules \<Longrightarrow> startswith (snd r) ''area:''"
  by (auto simp: area_prefix_rules_def)

lemma title_areas_prefix: "a \<in> set (infer_title_areas title) \<Longrightarrow> startswith a ''area:''"
  using area_rules_prefix
  by (auto simp: infer_title_areas_def Let_def split: if_splits)

lemma path_areas_prefix: "a \<in> set (path_areas policy path) \<Longrightarrow> startswith a ''area:''"
  by (auto simp: path_areas_def Let_def split: if_splits)

lemma area_not_type: "startswith a ''area:'' \<Longrightarrow> \<not> startswith a ''type:''"
  by (auto simp: startswith_iff)

lemma type_labels_set [simp]:
  "set (type_labels policy xs) = {l \<in> set xs. startswith l (type_prefix policy)}"
  by (simp add: type_labels_def)

lemma structural_labels_set [simp]:
  "set (structural_labels policy xs) =
     {l \<in> set xs. startswith l (type_prefix policy) \<and> l \<in> set (structural policy)}"
  by (auto simp: structural_labels_def)

lemma dedup_append_new:
  "distinct xs \<Longrightarrow> distinct ys \<Longrightarrow> set xs \<inter> set ys = {} \<Longrightarrow> dedup (xs @ ys) = xs @ ys"
  by (simp add: dedup_distinct)

text \<open>The selected type is a label of the item or the inferred one, and the only type kept.\<close>

lemma select_type_prefix:
  assumes "select_type policy inferred current = Inr (Some t)"
    and "\<forall>i. inferred = Some i \<longrightarrow> startswith i (type_prefix policy)"
  shows "startswith t (type_prefix policy)"
proof -
  have "t \<in> set (type_labels policy current) \<or> inferred = Some t"
    using assms(1) structural_labels_set [of policy current]
    by (auto simp: select_type_def Let_def simp del: structural_labels_set split: if_splits
        dest: hd_in_set)
  with assms(2) show ?thesis by auto
qed

lemma reconcile_result:
  assumes "reconcile_labels current inferred areas policy = Inr d"
    and "\<forall>i. inferred = Some i \<longrightarrow> startswith i (type_prefix policy)"
    and "\<forall>a \<in> set areas. \<not> startswith a (type_prefix policy)"
  shows "\<exists>sel. select_type policy inferred (dedup current) = Inr sel \<and>
    d = selected_list sel @ filter (\<lambda>l. \<not> startswith l (type_prefix policy)) (dedup current) @
      filter (\<lambda>a. a \<in> set (known policy) \<and> a \<notin> set current) (sort (dedup areas)) \<and>
    distinct d \<and> type_labels policy d = selected_list sel"
proof -
  let ?p = "\<lambda>l. startswith l (type_prefix policy)"
  let ?nt = "filter (\<lambda>l. \<not> ?p l) (dedup current)"
  obtain sel where sel: "select_type policy inferred (dedup current) = Inr sel"
    and d: "d = dedup ((selected_list sel @ ?nt) @
      filter (\<lambda>a. a \<in> set (known policy) \<and> a \<notin> set (selected_list sel @ ?nt)) (sort (dedup areas)))"
    using assms(1) by (auto simp: reconcile_labels_def Let_def monad_simps)
  have sp: "\<And>t. t \<in> set (selected_list sel) \<Longrightarrow> ?p t"
    using select_type_prefix [OF _ assms(2)] sel by (cases sel) (auto split: if_splits)
  have ds: "distinct (selected_list sel)" by (cases sel) auto
  have adds: "filter (\<lambda>a. a \<in> set (known policy) \<and> a \<notin> set (selected_list sel @ ?nt)) (sort (dedup areas))
      = filter (\<lambda>a. a \<in> set (known policy) \<and> a \<notin> set current) (sort (dedup areas))"
    using assms(3) sp by (intro filter_cong refl) auto
  let ?adds = "filter (\<lambda>a. a \<in> set (known policy) \<and> a \<notin> set current) (sort (dedup areas))"
  have dist: "distinct (selected_list sel @ ?nt @ ?adds)"
    using ds sp assms(3) by auto
  then have d': "d = selected_list sel @ ?nt @ ?adds" using d adds by (simp add: dedup_distinct)
  have "type_labels policy d = selected_list sel"
  proof -
    have "filter ?p (selected_list sel) = selected_list sel" using sp by simp
    moreover have "filter ?p ?nt = []" by (simp add: filter_empty_conv)
    moreover have "filter ?p ?adds = []" using assms(3) by (auto simp: filter_empty_conv)
    ultimately show ?thesis unfolding d' type_labels_def by simp
  qed
  with sel d' dist show ?thesis by (intro exI [of _ sel]) simp
qed

lemma mset_short_list: "mset xs = mset ys \<Longrightarrow> length ys \<le> 1 \<Longrightarrow> xs = ys"
  by (cases ys) (auto simp: mset_single_iff_right split: list.splits)

lemma selected_list_short: "length (selected_list sel) \<le> 1"
  by (cases sel) auto

text \<open>Selecting again from the selected label and others that are no types gives the same.\<close>

lemma select_type_again:
  assumes "select_type policy inferred current = Inr sel"
    and "type_labels policy l = selected_list sel" and "type_prefix policy \<noteq> []"
    and "\<forall>i. inferred = Some i \<longrightarrow> startswith i (type_prefix policy)"
  shows "select_type policy inferred l = Inr sel"
proof (cases sel)
  case None
  with assms(1) have "inferred \<in> {None, Some []}"
    by (auto simp: select_type_def Let_def split: if_splits)
  with None assms(2) show ?thesis by (simp add: select_type_def structural_labels_def)
next
  case (Some t)
  have "startswith t (type_prefix policy)"
    using select_type_prefix [OF assms(1) [unfolded Some] assms(4)] .
  then have "t \<noteq> []" using assms(3) by (auto simp: startswith_def)
  then have tl: "type_labels policy l = [t]" using Some assms(2) by simp
  show ?thesis
  proof (cases "t \<in> set (structural policy)")
    case True
    with tl Some show ?thesis by (simp add: select_type_def structural_labels_def)
  next
    case False
    have "structural_labels policy current \<noteq> [] \<Longrightarrow> t \<in> set (structural policy)"
      using assms(1) Some hd_in_set [of "structural_labels policy current"]
      by (auto simp: select_type_def Let_def simp del: hd_in_set split: if_splits)
    with False assms(1) Some have "inferred = Some t \<or> inferred \<in> {None, Some []}"
      by (auto simp: select_type_def Let_def split: if_splits)
    with tl False Some \<open>t \<noteq> []\<close> show ?thesis
      by (auto simp: select_type_def structural_labels_def)
  qed
qed

lemma reconcile_stable:
  assumes "reconcile_labels current inferred areas policy = Inr d" and "mset l = mset d"
    and "\<forall>i. inferred = Some i \<longrightarrow> startswith i (type_prefix policy)"
    and "\<forall>a \<in> set areas. \<not> startswith a (type_prefix policy)"
    and "type_prefix policy \<noteq> []"
  shows "\<exists>d'. reconcile_labels l inferred areas policy = Inr d' \<and> mset d' = mset l"
proof -
  let ?p = "\<lambda>l. startswith l (type_prefix policy)"
  obtain sel where sel: "select_type policy inferred (dedup current) = Inr sel"
    and d: "d = selected_list sel @ filter (\<lambda>l. \<not> ?p l) (dedup current) @
      filter (\<lambda>a. a \<in> set (known policy) \<and> a \<notin> set current) (sort (dedup areas))"
    and dist: "distinct d" and tl: "type_labels policy d = selected_list sel"
    using reconcile_result [OF assms(1,3,4)] by blast
  have "distinct l" using dist assms(2) by (metis mset_eq_imp_distinct_iff)
  then have dl: "dedup l = l" by (rule dedup_distinct)
  have set_l: "set l = set d" using assms(2) by (rule mset_eq_setD)
  have "mset (type_labels policy l) = mset (type_labels policy d)"
    unfolding type_labels_def mset_filter assms(2) by simp
  then have tl': "type_labels policy l = selected_list sel"
    using tl mset_short_list selected_list_short by metis
  have sel': "select_type policy inferred l = Inr sel"
    using sel tl' assms(5,3) by (rule select_type_again)
  have "reconcile_labels l inferred areas policy = Inr (dedup ((selected_list sel @ filter (\<lambda>l. \<not> ?p l) l) @
      filter (\<lambda>a. a \<in> set (known policy) \<and> a \<notin> set (selected_list sel @ filter (\<lambda>l. \<not> ?p l) l)) (sort (dedup areas))))"
    using sel' by (simp add: reconcile_labels_def dl Let_def)
  moreover have "filter (\<lambda>a. a \<in> set (known policy) \<and> a \<notin> set (selected_list sel @ filter (\<lambda>l. \<not> ?p l) l))
      (sort (dedup areas)) = []"
  proof -
    have "a \<in> set l" if "a \<in> set areas" "a \<in> set (known policy)" for a
      unfolding set_l d using that assms(4) by auto
    with assms(4) show ?thesis by (simp add: filter_empty_conv)
  qed
  moreover have m: "mset (selected_list sel @ filter (\<lambda>l. \<not> ?p l) l) = mset l"
    unfolding tl'[symmetric] type_labels_def by simp
  moreover have "distinct (selected_list sel @ filter (\<lambda>l. \<not> ?p l) l)"
    using m \<open>distinct l\<close> by (metis mset_eq_imp_distinct_iff)
  ultimately show ?thesis by (simp add: dedup_distinct)
qed

section \<open>Properties\<close>

text \<open>The item as GitHub returns it after its labels were replaced by \<open>ls\<close>.\<close>

definition with_labels :: "obj \<Rightarrow> string list \<Rightarrow> obj" where
  "with_labels item ls = (''labels'', JArr (map (\<lambda>l. JObj [(''name'', JStr l)]) ls)) # item"

lemma labels_from_with_labels [simp]: "labels_from_item (with_labels item ls) = Inr ls"
proof -
  have "emap name_of (map (\<lambda>l. JObj [(''name'', JStr l)]) ls) = Inr ls"
    by (induction ls) (simp_all add: name_of_def py_def str_of_def)
  then show ?thesis by (simp add: labels_from_item_def with_labels_def py_def)
qed

lemma with_labels_other [simp]:
  "k \<noteq> ''labels'' \<Longrightarrow> get_default (with_labels item ls) k v = get_default item k v"
  "k \<noteq> ''labels'' \<Longrightarrow> has_key (with_labels item ls) k = has_key item k"
  "k \<noteq> ''labels'' \<Longrightarrow> map_of (with_labels item ls) k = map_of item k"
  by (simp_all add: with_labels_def)

text \<open>
  C10. Reconciliation keeps what people decided and never invents a label: the result has no
  duplicates and at most one type label, keeps every other label of the item, adds only
  inferred areas of the canonical taxonomy, and a structural type label that is present is the
  type label of the result.
\<close>

theorem reconcile_labels_effect:
  assumes "reconcile_labels current inferred areas policy = Inr d"
    and "\<forall>i. inferred = Some i \<longrightarrow> startswith i (type_prefix policy)"
    and "\<forall>a \<in> set areas. \<not> startswith a (type_prefix policy)"
  shows "distinct d \<and> length (type_labels policy d) \<le> 1
    \<and> {l \<in> set d. \<not> startswith l (type_prefix policy)}
       = {l \<in> set current. \<not> startswith l (type_prefix policy)} \<union> (set areas \<inter> set (known policy))
    \<and> (\<forall>s. structural_labels policy (dedup current) = [s] \<longrightarrow> s = [] \<or> type_labels policy d = [s])"
proof -
  let ?p = "\<lambda>l. startswith l (type_prefix policy)"
  obtain sel where sel: "select_type policy inferred (dedup current) = Inr sel"
    and d: "d = selected_list sel @ filter (\<lambda>l. \<not> ?p l) (dedup current) @
      filter (\<lambda>a. a \<in> set (known policy) \<and> a \<notin> set current) (sort (dedup areas))"
    and dist: "distinct d" and tl: "type_labels policy d = selected_list sel"
    using reconcile_result [OF assms] by blast
  have "\<forall>t \<in> set (selected_list sel). ?p t"
    using tl type_labels_set [of policy d] by auto
  then have "{l \<in> set d. \<not> ?p l} = {l \<in> set current. \<not> ?p l} \<union> (set areas \<inter> set (known policy))"
    using assms(3) unfolding d by auto
  moreover have "s = [] \<or> type_labels policy d = [s]"
    if "structural_labels policy (dedup current) = [s]" for s
    using sel that by (auto simp: tl select_type_def split: if_splits)
  ultimately show ?thesis using dist tl selected_list_short by metis
qed

definition sample_policy :: label_policy where
  "sample_policy = \<lparr>known = [''type:epic'', ''type:bug'', ''area:ci'', ''area:postgres''],
     structural = [''type:epic''], type_prefix = ''type:'',
     workload_paths = [(''pg'', ''postgres-postgres/'')]\<rparr>"

theorem reconcile_labels_effect_witness:
  "let d = [''type:epic'', ''help'', ''area:ci''] in
   reconcile_labels [''help'', ''type:bug'', ''type:epic''] (Some ''type:bug'') [''area:ci''] sample_policy = Inr d
   \<and> length (type_labels sample_policy d) \<le> 1"
proof -
  have run: "reconcile_labels [''help'', ''type:bug'', ''type:epic''] (Some ''type:bug'') [''area:ci''] sample_policy
    = Inr [''type:epic'', ''help'', ''area:ci'']" by code_simp
  show ?thesis unfolding Let_def
    using run reconcile_labels_effect [OF run] by (simp add: sample_policy_def)
qed

lemma apply_item_stable:
  assumes "apply_item client item policy = Inr (Some (n, d))"
    and "type_prefix policy = ''type:''" and "mset ls = mset d"
  shows "apply_item client (with_labels item ls) policy = Inr None"
proof -
  obtain title areas current where title: "str_of (get_default item ''title'' (JStr [])) = Inr title"
    and areas: "(if has_key item ''pull_request'' then
              ebind (want_some (Some client) NoClient) (\<lambda>pr_paths.
              ebind (py (getitem (JObj item) ''number'')) (\<lambda>n.
              ebind (pr_paths n) (\<lambda>paths. Inr (infer_path_areas policy paths))))
            else Inr []) = Inr areas"
    and rec: "reconcile_labels current (strong_type_from_title title)
         (infer_title_areas title @ areas) policy = Inr d"
    and num: "py (getitem (JObj item) ''number'') = Inr n"
    using assms(1) by (auto simp: apply_item_def classify_item_def monad_simps split: if_splits)
  have pa: "\<not> startswith a (type_prefix policy)" if "a \<in> set (infer_title_areas title @ areas)" for a
  proof -
    have "a \<in> set areas \<Longrightarrow> \<exists>p. a \<in> set (path_areas policy p)"
      using areas by (auto simp: infer_path_areas_def monad_simps split: if_splits)
    with that have "startswith a ''area:''"
      using title_areas_prefix path_areas_prefix by auto
    then show ?thesis by (simp add: assms(2) area_not_type)
  qed
  have pt: "\<forall>i. strong_type_from_title title = Some i \<longrightarrow> startswith i (type_prefix policy)"
    using strong_type_prefix by (simp add: assms(2))
  obtain d' where d': "reconcile_labels ls (strong_type_from_title title)
      (infer_title_areas title @ areas) policy = Inr d'" "mset d' = mset ls"
    using reconcile_stable [OF rec assms(3) pt] pa assms(2) by auto
  have "classify_item (with_labels item ls) policy (Some client) = Inr d'"
    using title areas d'(1)
    by (cases "has_key item ''pull_request''") (auto simp: classify_item_def monad_simps)
  moreover have "length d' = length ls" "set d' = set ls"
    using d'(2) mset_eq_length mset_eq_setD by blast+
  ultimately show ?thesis using num by (simp add: apply_item_def)
qed

text \<open>
  C9. Reconciliation converges in one step: once the labels that \<open>apply_item\<close> asked for are on
  the item, in whatever order the service returns them, the item is left alone.
\<close>

theorem apply_item_converges:
  assumes "apply_item client item policy = Inr (Some (n, d))"
    and "type_prefix policy = ''type:''" and "mset ls = mset d"
  shows "apply_item client (with_labels item ls) policy = Inr None"
  using assms by (rule apply_item_stable)

theorem apply_item_converges_witness:
  "apply_item (\<lambda>_. Inr [''postgres-postgres/src/a.rs''])
     (with_labels [(''number'', JInt 7), (''title'', JStr ''Fix: it''), (''pull_request'', JNull)]
       [''area:postgres'', ''type:bug'']) sample_policy = Inr None"
proof (rule apply_item_converges)
  show "apply_item (\<lambda>_. Inr [''postgres-postgres/src/a.rs''])
     [(''number'', JInt 7), (''title'', JStr ''Fix: it''), (''pull_request'', JNull)] sample_policy
     = Inr (Some (JInt 7, [''type:bug'', ''area:postgres'']))"
    by code_simp
qed (simp_all add: sample_policy_def)

text \<open>
  An accepted taxonomy is well formed: label names are distinct, every label has a name, a
  six-digit colour and a description, every managed prefix has a label, singular groups are
  managed prefixes, and every structural type is a defined label of the \<open>type:\<close> group.
\<close>

theorem load_taxonomy_sound:
  assumes "load_taxonomy repo = Inr t"
  shows "labels t \<noteq> [] \<and> list_all label_ok (labels t) \<and> distinct (map l_name (labels t))
    \<and> distinct (prefixes t) \<and> set (singular t) \<subseteq> set (prefixes t) \<and> structural_types t \<noteq> []
    \<and> list_all (\<lambda>p. list_ex (\<lambda>l. startswith (l_name l) p) (labels t)) (prefixes t)
    \<and> list_all (\<lambda>n. n \<in> l_name ` set (labels t) \<and> startswith n ''type:'') (structural_types t)"
proof -
  obtain pre sing sts struct entries ls us vs where
    d: "distinct pre" "set sing \<subseteq> set pre" "sts \<noteq> []" "entries \<noteq> []"
    and st: "emap (nonempty_str StructuralNotStrings) sts = Inr struct"
    and ls: "check_labels [] entries = Inr ls"
    and us: "emap (\<lambda>p. eguard (list_ex (\<lambda>l. startswith (l_name l) p) ls) (PrefixWithoutLabels p)) pre = Inr us"
    and vs: "emap (\<lambda>n. ebind (eguard (n \<in> l_name ` set ls) (StructuralUndefined n)) (\<lambda>_.
                      eguard (startswith n ''type:'') (StructuralNotType n))) struct = Inr vs"
    and t: "t = \<lparr>prefixes = pre, singular = sing, structural_types = struct, labels = ls\<rparr>"
    using assms unfolding load_taxonomy_def ebind_Inr_iff eguard_Inr by blast
  have "struct \<noteq> []" using d(3) st by (auto simp: emap_Inr_iff)
  moreover have "ls \<noteq> []" using check_labels_ok [OF ls] d(4) by auto
  moreover have "list_ex (\<lambda>l. startswith (l_name l) p) ls" if "p \<in> set pre" for p
    using emap_isOK [OF us that] by simp
  moreover have "n \<in> l_name ` set ls \<and> startswith n ''type:''" if "n \<in> set struct" for n
    using emap_isOK [OF vs that] by simp
  ultimately show ?thesis using check_labels_ok [OF ls] d by (simp add: t list_all_iff)
qed

definition sample_taxonomy :: node where
  "sample_taxonomy = NDir [(''.github'', NDir [(''labels.json'', NFile (json_file (JObj
     [(''schema_version'', JInt 1), (''managed_prefixes'', JArr [JStr ''type:'']),
      (''singular_groups'', JArr [JStr ''type:'']), (''structural_types'', JArr [JStr ''type:epic'']),
      (''labels'', JArr [JObj [(''name'', JStr ''type:epic''), (''color'', JStr ''5319E7''),
         (''description'', JStr ''parent'')]])])))])]"

theorem load_taxonomy_sound_witness:
  "\<exists>t. load_taxonomy sample_taxonomy = Inr t \<and> distinct (map l_name (labels t))"
proof -
  have "isOK (load_taxonomy sample_taxonomy)" by code_simp
  then obtain t where "load_taxonomy sample_taxonomy = Inr t" by (auto simp: isOK_iff)
  with load_taxonomy_sound [OF this] show ?thesis by blast
qed

end
