(* ===== verification/Paging.thy ===== *)
theory Paging
  imports Json
begin

text \<open>
  The pagination loops of the GitHub clients: \<open>all_issues\<close> of \<open>.github/scripts/audit_issue.py\<close>,
  \<open>paged\<close> of \<open>reconcile-labels.py\<close> and \<open>get_all\<close> of \<open>run-hardening-drift-audit.py\<close>. The service is
  outside: \<open>fetch n\<close> is the decoded body of page \<open>n\<close>, or the exception of the request. A service
  that keeps sending full pages keeps the loop going; the loops are partial functions and
  \<open>None\<close> is such a run.
\<close>

definition page_size :: nat where
  "page_size = 100"

datatype 'e page_error = RequestFailed 'e | NotIterable | NonListPage

text \<open>\<open>if not items: return\<close>, then the items, then \<open>if len(items) < 100: return\<close>.\<close>

partial_function (option) paged_from ::
  "(nat \<Rightarrow> 'e + json) \<Rightarrow> nat \<Rightarrow> ('e page_error + json list) option" where
  "paged_from fetch page =
     (case fetch page of
        Inl e \<Rightarrow> Some (Inl (RequestFailed e))
      | Inr v \<Rightarrow>
          if \<not> truthy v then Some (Inr [])
          else
            (case py_iter v of
               None \<Rightarrow> Some (Inl NotIterable)
             | Some items \<Rightarrow>
                 if length items < page_size then Some (Inr items)
                 else
                   Option.bind (paged_from fetch (Suc page)) (\<lambda>out.
                     Some (ebind out (\<lambda>rest. Inr (items @ rest))))))"

definition paged :: "(nat \<Rightarrow> 'e + json) \<Rightarrow> ('e page_error + json list) option" where
  "paged fetch = paged_from fetch 1"

text \<open>\<open>get_all\<close> insists on a list and stops at the first page that is not full.\<close>

partial_function (option) get_all_from ::
  "(nat \<Rightarrow> 'e + json) \<Rightarrow> nat \<Rightarrow> ('e page_error + json list) option" where
  "get_all_from fetch page =
     (case fetch page of
        Inl e \<Rightarrow> Some (Inl (RequestFailed e))
      | Inr v \<Rightarrow>
          (case as_arr v of
             None \<Rightarrow> Some (Inl NonListPage)
           | Some items \<Rightarrow>
               if length items < page_size then Some (Inr items)
               else
                 Option.bind (get_all_from fetch (Suc page)) (\<lambda>out.
                     Some (ebind out (\<lambda>rest. Inr (items @ rest))))))"

definition get_all :: "(nat \<Rightarrow> 'e + json) \<Rightarrow> ('e page_error + json list) option" where
  "get_all fetch = get_all_from fetch 1"

text \<open>\<open>all_issues\<close>: the items that are no pull requests; an item that is not a dict raises.\<close>

definition is_pull_request :: "json \<Rightarrow> bool" where
  "is_pull_request item \<longleftrightarrow> (case item of JObj d \<Rightarrow> has_key d ''pull_request'' | _ \<Rightarrow> False)"

definition all_issues :: "(nat \<Rightarrow> 'e + json) \<Rightarrow> ('e page_error + json list) option" where
  "all_issues fetch =
     map_option (\<lambda>out. ebind out (\<lambda>items. Inr (filter (\<lambda>i. \<not> is_pull_request i) items))) (paged fetch)"

declare paged_from.simps [code] get_all_from.simps [code]

section \<open>The loops return the whole listing\<close>

text \<open>
  The documented behaviour of a paginated listing: page \<open>n\<close> holds the \<open>n\<close>th hundred of the
  items, and pages after the last are empty.
\<close>

definition serves :: "(nat \<Rightarrow> 'e + json) \<Rightarrow> json list \<Rightarrow> bool" where
  "serves fetch items \<longleftrightarrow>
     (\<forall>n. fetch (Suc n) = Inr (JArr (take page_size (drop (n * page_size) items))))"

lemma serves_page:
  "serves fetch items \<Longrightarrow> fetch (Suc n) = Inr (JArr (take page_size (drop (n * page_size) items)))"
  by (simp add: serves_def)

lemma page_split:
  "drop (n * page_size) items = take page_size (drop (n * page_size) items) @ drop (Suc n * page_size) items"
  by (metis add.commute append_take_drop_id drop_drop mult_Suc)

lemma short_page:
  "length (take page_size (drop (n * page_size) items)) < page_size \<Longrightarrow>
     take page_size (drop (n * page_size) items) = drop (n * page_size) items"
  by simp

lemma paged_from_serves:
  assumes "serves fetch items"
  shows "paged_from fetch (Suc n) = Some (Inr (drop (n * page_size) items))"
proof (induction "length items - n * page_size" arbitrary: n rule: less_induct)
  case less
  let ?page = "take page_size (drop (n * page_size) items)"
  note unfold = paged_from.simps [of fetch "Suc n"] serves_page [OF assms, of n]
  show ?case
  proof (cases "length ?page < page_size")
    case True
    then have "length items - n * page_size < page_size" by (simp add: min_def split: if_splits)
    then show ?thesis by (simp add: unfold short_page)
  next
    case False
    then have "length items - Suc n * page_size < length items - n * page_size"
      by (simp add: page_size_def)
    from less [OF this] False show ?thesis
      by (subst page_split) (auto simp: unfold page_size_def)
  qed
qed

lemma get_all_from_serves:
  assumes "serves fetch items"
  shows "get_all_from fetch (Suc n) = Some (Inr (drop (n * page_size) items))"
proof (induction "length items - n * page_size" arbitrary: n rule: less_induct)
  case less
  let ?page = "take page_size (drop (n * page_size) items)"
  note unfold = get_all_from.simps [of fetch "Suc n"] serves_page [OF assms, of n]
  show ?case
  proof (cases "length ?page < page_size")
    case True
    then have "length items - n * page_size < page_size" by (simp add: min_def split: if_splits)
    then show ?thesis by (simp add: unfold short_page)
  next
    case False
    then have "length items - Suc n * page_size < length items - n * page_size"
      by (simp add: page_size_def)
    from less [OF this] False show ?thesis
      by (subst page_split) (simp add: unfold)
  qed
qed

section \<open>Properties\<close>

text \<open>
  C13. The pagination loops end on every finite listing and lose nothing: over a service that
  sends the listing in pages of a hundred, both clients return exactly the listing, and
  \<open>all_issues\<close> exactly the items of it that are no pull requests.
\<close>

theorem pagination_complete:
  assumes "serves fetch items"
  shows "paged fetch = Some (Inr items) \<and> get_all fetch = Some (Inr items)
    \<and> all_issues fetch = Some (Inr (filter (\<lambda>i. \<not> is_pull_request i) items))"
  using paged_from_serves [OF assms, of 0] get_all_from_serves [OF assms, of 0]
  by (simp add: paged_def get_all_def all_issues_def)

theorem pagination_complete_witness:
  "get_all (\<lambda>n. Inr (JArr (if n = 1 then replicate 100 (JInt 1) else if n = 2 then [JInt 2] else [])))
     = (Some (Inr (replicate 100 (JInt 1) @ [JInt 2])) :: (unit page_error + json list) option)"
proof -
  let ?fetch = "\<lambda>n. (Inr (JArr (if n = 1 then replicate 100 (JInt 1) else if n = 2 then [JInt 2] else []))) :: unit + json"
  have "take page_size (drop (n * page_size) (replicate 100 (JInt 1) @ [JInt 2])) =
      (if n = 0 then replicate 100 (JInt 1) else if n = 1 then [JInt 2] else [])" for n
    by (cases n; cases "n - 1") (auto simp: page_size_def)
  then have "serves ?fetch (replicate 100 (JInt 1) @ [JInt 2])"
    by (simp add: serves_def)
  then show ?thesis using pagination_complete by blast
qed

end
