(* ===== verification/Drift.thy ===== *)
theory Drift
  imports Labels Paging
begin

text \<open>
  Model of \<open>.github/scripts/run-hardening-drift-audit.py\<close>: the canonical validators are run, the
  live repository settings, rulesets and labels are read back and compared with the policy, and
  the findings are classified. The GitHub service is a readback function over \<open>endpoint\<close>s, and the
  programs the audit starts a function from a check to its exit code and output.
\<close>

section \<open>Findings and failures\<close>

datatype endpoint = RepositoryInfo | Ruleset json | DependencySbom | PrivateReporting | LabelPages | OpenIssuePages

datatype (plugins only: code) drift_error =
    MissingCredentials
  | ApiRequest endpoint
  | ApiNonList endpoint
  | ApiOmittedField json string
  | ApiMalformed endpoint
  | ApiUnimplemented json
  | ApiLabelAutomation reconcile_error
  | DriftOSError
  | DriftJson
  | DriftNonTermination
  | DriftPy py_error

text \<open>\<open>except (ApiFailure, OSError, json.JSONDecodeError)\<close> of \<open>run_audit\<close>.\<close>

fun caught :: "drift_error \<Rightarrow> bool" where
  "caught (DriftPy _) \<longleftrightarrow> False"
| "caught DriftNonTermination \<longleftrightarrow> False"
| "caught _ \<longleftrightarrow> True"

datatype (plugins only: code) finding_details =
    OutputText string
  | ExitCode int
  | UnreadableResult
  | SupplyDetails json
  | UnexpectedSupply json
  | ExpectedLive json json
  | LabelMissing string
  | LabelDrift label label
  | NotReconciled json "string list" "string list"
  | Failure drift_error
  | SyntheticDrift string

record finding =
  f_control :: json
  f_details :: finding_details

definition mk_finding :: "json \<Rightarrow> finding_details \<Rightarrow> finding" where
  "mk_finding c d = \<lparr>f_control = c, f_details = d\<rparr>"

type_synonym service = "endpoint \<Rightarrow> drift_error + json"

section \<open>The canonical checks\<close>

definition canonical_checks :: "string list" where
  "canonical_checks = [''workload-registry'', ''oxidebatch-provenance'', ''evidence-contract'',
     ''label-taxonomy'', ''workflow-security'', ''workflow-scanners'']"

definition check_finding :: "(string \<Rightarrow> int \<times> string) \<Rightarrow> string \<Rightarrow> finding list" where
  "check_finding run control =
     (let (code, stdout) = run control in
      if code \<noteq> 0
      then [mk_finding (JStr control) (if strip stdout \<noteq> [] then OutputText (strip stdout) else ExitCode code)]
      else [])"

text \<open>
  \<open>supply\<close>: the exit code of the scheduled supply-chain audit and the document it wrote, \<open>None\<close>
  where that cannot be read.
\<close>

definition run_canonical_checks ::
  "(string \<Rightarrow> int \<times> string) \<Rightarrow> int \<times> json option \<Rightarrow> drift_error + finding list \<times> finding list" where
  "run_canonical_checks run supply =
     (let findings = concat (map (check_finding run) canonical_checks);
          (code, doc) = supply; sc = JStr ''supply-chain'' in
      case doc of
        None \<Rightarrow> Inr (findings, [mk_finding sc UnreadableResult])
      | Some res \<Rightarrow>
          ebind (map_err DriftPy (getattr_get res ''classification'' JNull)) (\<lambda>c.
          let d = (case res of JObj o' \<Rightarrow> o' | _ \<Rightarrow> []) in
          if c = JStr ''policy-finding'' then
            Inr (findings @ [mk_finding sc (SupplyDetails (get_default d ''details''
                   (JStr ''confirmed supply-chain policy finding'')))], [])
          else if c = JStr ''infrastructure-failure'' then
            Inr (findings, [mk_finding sc (SupplyDetails (get_default d ''details''
                   (JStr ''supply-chain infrastructure failure'')))])
          else if c \<noteq> JStr ''clean'' \<or> code \<noteq> 0 then
            Inr (findings, [mk_finding sc (UnexpectedSupply res)])
          else Inr (findings, [])))"

section \<open>Reading the live policy\<close>

definition dpy :: "py_error + 'a \<Rightarrow> drift_error + 'a" where
  "dpy m = map_err DriftPy m"

text \<open>\<open>v.get(k, {})\<close>, and the chain \<open>v.get(k1, {}).get(k2, {}) ...\<close> ending in \<open>.get(k)\<close>.\<close>

fun get_chain :: "json \<Rightarrow> string list \<Rightarrow> py_error + json" where
  "get_chain v [] = Inr v"
| "get_chain v [k] = getattr_get v k JNull"
| "get_chain v (k # l # ks) = ebind (getattr_get v k (JObj [])) (\<lambda>w. get_chain w (l # ks))"

text \<open>\<open>{rule.get("type"): rule for rule in ... if isinstance(rule, dict)}\<close>: the last rule of a type wins.\<close>

definition rules_by_type :: "json \<Rightarrow> py_error + (string \<rightharpoonup> json)" where
  "rules_by_type ruleset =
     ebind (getattr_get ruleset ''rules'' (JArr [])) (\<lambda>v.
     ebind (iterate v) (\<lambda>rules.
       let dicts = filter is_dict rules in
       ebind (if list_all (\<lambda>r. hashable (get_in r ''type'')) dicts then Inr () else Inl TypeErr) (\<lambda>_.
         Inr (\<lambda>t. find (\<lambda>r. get_in r ''type'' = JStr t) (rev dicts)))))"

text \<open>
  \<open>sorted(...)\<close>: strings in code point order, integers by value, a single value as it is; other
  mixtures have no order.
\<close>

definition py_sorted :: "json list \<Rightarrow> py_error + json list" where
  "py_sorted vs =
     (if list_all is_str vs then Inr (map JStr (sort (strings_of vs)))
      else if length vs \<le> 1 then Inr vs
      else if list_all (\<lambda>v. as_int v \<noteq> None) vs
      then Inr (map JInt (sort (map (\<lambda>v. case as_int v of Some i \<Rightarrow> i | None \<Rightarrow> 0) vs)))
      else Inl TypeErr)"

definition rule_params :: "(string \<rightharpoonup> json) \<Rightarrow> string \<Rightarrow> string \<Rightarrow> py_error + json" where
  "rule_params rules t k =
     get_chain (case rules t of None \<Rightarrow> JObj [] | Some r \<Rightarrow> r) [''parameters'', k]"

definition actual_ruleset_value :: "string \<Rightarrow> json \<Rightarrow> py_error + json" where
  "actual_ruleset_value control_id ruleset =
     ebind (rules_by_type ruleset) (\<lambda>rules.
       let has = (\<lambda>t. Inr (JBool (rules t \<noteq> None))) in
       if control_id = ''ruleset.enforcement'' then getattr_get ruleset ''enforcement'' JNull
       else if control_id = ''ruleset.target_default_branch'' then
         ebind (get_chain ruleset [''conditions'', ''ref_name'', ''include'']) (\<lambda>v.
           Inr (JBool (py_eq v (JArr [JStr ''~DEFAULT_BRANCH'']))))
       else if control_id = ''ruleset.deletion_protection'' then has ''deletion''
       else if control_id = ''ruleset.non_fast_forward_protection'' then has ''non_fast_forward''
       else if control_id = ''ruleset.required_linear_history'' then has ''required_linear_history''
       else if control_id = ''ruleset.pull_request_required'' then has ''pull_request''
       else if control_id = ''ruleset.allowed_merge_methods'' then
         rule_params rules ''pull_request'' ''allowed_merge_methods''
       else if control_id = ''ruleset.review_thread_resolution'' then
         rule_params rules ''pull_request'' ''required_review_thread_resolution''
       else if control_id = ''ruleset.required_approving_review_count'' then
         rule_params rules ''pull_request'' ''required_approving_review_count''
       else if control_id = ''ruleset.require_extra_approval_for_unattributed_changes'' then
         rule_params rules ''pull_request'' ''require_extra_approval_for_unattributed_changes''
       else if control_id = ''ruleset.strict_required_status_checks'' then
         rule_params rules ''required_status_checks'' ''strict_required_status_checks_policy''
       else if control_id = ''ruleset.required_status_contexts'' then
         ebind (getattr_get (case rules ''required_status_checks'' of None \<Rightarrow> JObj [] | Some r \<Rightarrow> r)
                  ''parameters'' (JObj [])) (\<lambda>params.
         ebind (getattr_get params ''required_status_checks'' (JArr [])) (\<lambda>v.
         ebind (iterate v) (\<lambda>entries.
         ebind (py_sorted (map (\<lambda>e. get_in e ''context'') (filter is_dict entries))) (\<lambda>cs.
           Inr (JArr cs)))))
       else if control_id = ''ruleset.bypass_actors'' then getattr_get ruleset ''bypass_actors'' (JArr [])
       else if control_id = ''security.signed_commits'' then has ''required_signatures''
       else Inl (KeyErr control_id))"

definition repository_fields :: "(string \<times> string) list" where
  "repository_fields =
     [(''repository.visibility'', ''visibility''),
      (''repository.default_branch'', ''default_branch''),
      (''repository.allow_squash_merge'', ''allow_squash_merge''),
      (''repository.allow_merge_commit'', ''allow_merge_commit''),
      (''repository.allow_rebase_merge'', ''allow_rebase_merge''),
      (''repository.delete_branch_on_merge'', ''delete_branch_on_merge''),
      (''repository.allow_update_branch'', ''allow_update_branch''),
      (''repository.squash_merge_commit_title'', ''squash_merge_commit_title''),
      (''repository.squash_merge_commit_message'', ''squash_merge_commit_message''),
      (''repository.web_commit_signoff_required'', ''web_commit_signoff_required'')]"

text \<open>The field of an object that a readback must hold; a value of another shape is an API failure.\<close>

definition want_field :: "json \<Rightarrow> string \<Rightarrow> drift_error \<Rightarrow> drift_error + json" where
  "want_field v k err = ebind (want_obj v err) (\<lambda>d. want_some (map_of d k) err)"

definition actual_repository_value :: "string \<Rightarrow> json \<Rightarrow> service \<Rightarrow> drift_error + json" where
  "actual_repository_value control_id repository client =
     (case map_of repository_fields control_id of
        Some key \<Rightarrow> want_field repository key (ApiOmittedField (JStr control_id) key)
      | None \<Rightarrow>
          if control_id = ''security.dependency_graph'' then
            ebind (client DependencySbom) (\<lambda>sbom.
            ebind (want_obj sbom (ApiMalformed DependencySbom)) (\<lambda>d.
            ebind (want_obj (dget d ''sbom'') (ApiMalformed DependencySbom)) (\<lambda>_.
              Inr (JBool True))))
          else if control_id = ''security.private_vulnerability_reporting'' then
            ebind (client PrivateReporting) (\<lambda>v.
              want_field v ''enabled'' (ApiMalformed PrivateReporting))
          else Inl (DriftPy (KeyErr control_id)))"

definition compare_expected :: "string \<Rightarrow> json \<Rightarrow> json \<Rightarrow> py_error + bool" where
  "compare_expected control_id expected actual =
     (if control_id = ''ruleset.required_status_contexts'' then
        ebind (ebind (iterate expected) py_sorted) (\<lambda>e.
        ebind (ebind (iterate (if truthy actual then actual else JArr [])) py_sorted) (\<lambda>a.
          Inr (py_eq_list e a)))
      else Inr (py_eq actual expected))"

text \<open>\<open>except KeyError\<close>: a control without an implemented readback is an API failure.\<close>

definition unimplemented :: "json \<Rightarrow> drift_error + 'a \<Rightarrow> drift_error + 'a" where
  "unimplemented control_id m =
     (case m of Inl (DriftPy (KeyErr _)) \<Rightarrow> Inl (ApiUnimplemented control_id) | _ \<Rightarrow> m)"

definition manual_row :: "json \<Rightarrow> py_error + json" where
  "manual_row control =
     ebind (getitem control ''id'') (\<lambda>i.
     ebind (getitem control ''classification'') (\<lambda>c.
     ebind (getitem control ''expected'') (\<lambda>e.
       Inr (JObj [(''id'', i), (''classification'', c), (''expected'', e)]))))"

text \<open>
  One control: a manual row, or the findings of its comparison. An id that is not a string equals
  none of the known ones, as the empty string does.
\<close>

definition check_control ::
  "service \<Rightarrow> json \<Rightarrow> json \<Rightarrow> json \<Rightarrow> drift_error + finding list \<times> json list" where
  "check_control client repository ruleset control =
     ebind (dpy (getitem control ''id'')) (\<lambda>cid.
     ebind (dpy (getitem control ''readback'')) (\<lambda>readback.
       if readback = JStr ''manual-readback'' then
         ebind (dpy (manual_row control)) (\<lambda>row. Inr ([], [row]))
       else
         let control_id = (case as_str cid of Some s \<Rightarrow> s | None \<Rightarrow> []) in
         ebind (unimplemented cid
                  (if readback = JStr ''repository-api'' then
                     ebind (eguard (hashable cid) (DriftPy TypeErr)) (\<lambda>_.
                       actual_repository_value control_id repository client)
                   else if readback = JStr ''ruleset-api'' then
                     dpy (actual_ruleset_value control_id ruleset)
                   else Inl (DriftPy (KeyErr control_id)))) (\<lambda>actual.
         ebind (dpy (getitem control ''expected'')) (\<lambda>expected.
         ebind (dpy (compare_expected control_id expected actual)) (\<lambda>same.
           Inr (if same then [] else [mk_finding cid (ExpectedLive expected actual)], []))))))"

definition policy_controls :: "json \<Rightarrow> py_error + json list" where
  "policy_controls policy = ebind (getitem policy ''controls'') iterate"

definition run_live_policy_checks :: "service \<Rightarrow> json \<Rightarrow> drift_error + finding list \<times> json list" where
  "run_live_policy_checks client policy =
     ebind (client RepositoryInfo) (\<lambda>repository.
     ebind (dpy (getitem policy ''ruleset_id'')) (\<lambda>rid.
     ebind (client (Ruleset rid)) (\<lambda>ruleset.
     ebind (dpy (policy_controls policy)) (\<lambda>controls.
     ebind (emap (check_control client repository ruleset) controls) (\<lambda>rows.
       Inr (concat (map fst rows), concat (map snd rows)))))))"

section \<open>Reading the live labels\<close>

text \<open>A listing read page by page; a service that never ends it is \<open>DriftNonTermination\<close>.\<close>

definition read_list ::
  "(endpoint \<Rightarrow> nat \<Rightarrow> drift_error + json) \<Rightarrow> endpoint \<Rightarrow> drift_error + json list" where
  "read_list pages e =
     (case get_all (pages e) of
        None \<Rightarrow> Inl DriftNonTermination
      | Some (Inl (RequestFailed err)) \<Rightarrow> Inl err
      | Some (Inl _) \<Rightarrow> Inl (ApiNonList e)
      | Some (Inr items) \<Rightarrow> Inr items)"

definition str_item :: "json \<Rightarrow> string \<Rightarrow> drift_error + string" where
  "str_item v k = ebind (dpy (getitem v k)) (\<lambda>w. want_str w (DriftPy AttrErr))"

definition wanted_label :: "json \<Rightarrow> drift_error + label" where
  "wanted_label entry =
     ebind (str_item entry ''name'') (\<lambda>n.
     ebind (str_item entry ''color'') (\<lambda>c.
     ebind (str_item entry ''description'') (\<lambda>d.
       Inr \<lparr>l_name = n, l_color = lower c, l_description = d\<rparr>)))"

text \<open>
  \<open>actual.get("color", "")\<close> and \<open>actual.get("description") or ""\<close>: the service sends strings, and
  the taxonomy's entries have the fields that \<open>Labels.load_taxonomy\<close> demands.
\<close>

definition live_label :: "json \<Rightarrow> drift_error + label" where
  "live_label entry =
     ebind (str_item entry ''name'') (\<lambda>n.
     ebind (want_str (if get_in entry ''color'' = JNull then JStr [] else get_in entry ''color'')
              (DriftPy AttrErr)) (\<lambda>c.
     ebind (want_str (if truthy (get_in entry ''description'') then get_in entry ''description'' else JStr [])
              (DriftPy AttrErr)) (\<lambda>d.
       Inr \<lparr>l_name = n, l_color = lower c, l_description = d\<rparr>)))"

definition label_finding :: "label list \<Rightarrow> label \<Rightarrow> finding list" where
  "label_finding live wanted =
     (case find (\<lambda>l. l_name l = l_name wanted) (rev live) of
        None \<Rightarrow> [mk_finding (JStr ''managed-labels'') (LabelMissing (l_name wanted))]
      | Some actual \<Rightarrow>
          if actual \<noteq> wanted then [mk_finding (JStr ''managed-labels'') (LabelDrift wanted actual)] else [])"

definition run_live_label_checks ::
  "node \<Rightarrow> (endpoint \<Rightarrow> nat \<Rightarrow> drift_error + json) \<Rightarrow> drift_error + finding list" where
  "run_live_label_checks repo pages =
     ebind (want_some (get_file repo [''.github'', ''labels.json'']) DriftOSError) (\<lambda>f.
     ebind (want_some (json_doc f) DriftJson) (\<lambda>taxonomy.
     ebind (dpy (ebind (getitem taxonomy ''labels'') iterate)) (\<lambda>entries.
     ebind (emap wanted_label entries) (\<lambda>expected.
     ebind (read_list pages LabelPages) (\<lambda>items.
     ebind (emap live_label items) (\<lambda>live.
       Inr (concat (map (label_finding live \<circ> snd) (dict_by l_name expected)))))))))"

text \<open>
  The label automation's own verdict on every open item, with \<open>Labels.classify_item\<close>; the
  exceptions the function catches become one API failure.
\<close>

fun automation_caught :: "reconcile_error \<Rightarrow> bool" where
  "automation_caught (ReconcilePy (KeyErr _)) \<longleftrightarrow> True"
| "automation_caught (ReconcilePy _) \<longleftrightarrow> False"
| "automation_caught _ \<longleftrightarrow> True"

definition automation :: "reconcile_error + 'a \<Rightarrow> drift_error + 'a" where
  "automation m =
     (case m of
        Inr x \<Rightarrow> Inr x
      | Inl e \<Rightarrow> if automation_caught e then Inl (ApiLabelAutomation e)
          else Inl (DriftPy (case e of ReconcilePy p \<Rightarrow> p | _ \<Rightarrow> TypeErr)))"

definition automation_finding :: "client \<Rightarrow> label_policy \<Rightarrow> json \<Rightarrow> reconcile_error + finding list" where
  "automation_finding client policy item_value =
     ebind (want_obj item_value (ReconcilePy AttrErr)) (\<lambda>item.
     ebind (labels_from_item item) (\<lambda>current.
     ebind (classify_item item policy (Some client)) (\<lambda>desired.
       Inr (if length current \<noteq> length desired \<or> set current \<noteq> set desired
            then [mk_finding (JStr ''label-automation'')
                   (NotReconciled (dget item ''number'') current desired)]
            else []))))"

definition run_live_label_automation_checks ::
  "node \<Rightarrow> (endpoint \<Rightarrow> nat \<Rightarrow> drift_error + json) \<Rightarrow> client \<Rightarrow> drift_error + finding list" where
  "run_live_label_automation_checks repo pages client =
     ebind (automation (load_policy repo)) (\<lambda>policy.
     ebind (read_list pages OpenIssuePages) (\<lambda>items.
     ebind (automation (emap (automation_finding client policy) items)) (\<lambda>rows.
       Inr (concat rows))))"

section \<open>The audit\<close>

record drift_audit =
  da_classification :: string
  da_policy :: "finding list"
  da_infrastructure :: "finding list"
  da_manual :: "json list"

definition classify_drift :: "finding list \<Rightarrow> finding list \<Rightarrow> string" where
  "classify_drift policy_findings infrastructure_failures =
     (if infrastructure_failures \<noteq> [] then ''infrastructure-failure''
      else if policy_findings \<noteq> [] then ''policy-drift'' else ''clean'')"

definition drift_result :: "finding list \<Rightarrow> finding list \<Rightarrow> json list \<Rightarrow> drift_audit" where
  "drift_result p i m = \<lparr>da_classification = classify_drift p i, da_policy = p,
     da_infrastructure = i, da_manual = m\<rparr>"

record environment =
  env_repo :: node
  env_run :: "string \<Rightarrow> int \<times> string"
  env_supply :: "int \<times> json option"
  env_service :: service
  env_pages :: "endpoint \<Rightarrow> nat \<Rightarrow> drift_error + json"
  env_paths :: client

definition manual_controls :: "json \<Rightarrow> py_error + json list" where
  "manual_controls policy =
     ebind (policy_controls policy) (\<lambda>cs.
     ebind (emap (\<lambda>c. ebind (getitem c ''readback'') (\<lambda>r. Inr (c, r = JStr ''manual-readback''))) cs) (\<lambda>rows.
       emap (manual_row \<circ> fst) (filter snd rows)))"

text \<open>
  The three live checks extend the list of findings one after the other, so the findings made
  before a caught failure stay in the result.
\<close>

definition live_checks ::
  "environment \<Rightarrow> json \<Rightarrow> json list \<Rightarrow> finding list \<times> json list \<times> drift_error option" where
  "live_checks env policy manual =
     (case run_live_policy_checks (env_service env) policy of
        Inl e \<Rightarrow> ([], manual, Some e)
      | Inr (fs, manual') \<Rightarrow>
          (case run_live_label_checks (env_repo env) (env_pages env) of
             Inl e \<Rightarrow> (fs, manual', Some e)
           | Inr gs \<Rightarrow>
               (case run_live_label_automation_checks (env_repo env) (env_pages env) (env_paths env) of
                  Inl e \<Rightarrow> (fs @ gs, manual', Some e)
                | Inr hs \<Rightarrow> (fs @ gs @ hs, manual', None))))"

definition conclude ::
  "environment \<Rightarrow> json \<Rightarrow> json list \<Rightarrow> finding list \<times> finding list \<Rightarrow> drift_error + drift_audit" where
  "conclude env policy manual found =
     (let (policy_findings, infra) = found; (live, manual', err) = live_checks env policy manual in
      case err of
        None \<Rightarrow> Inr (drift_result (policy_findings @ live) infra manual')
      | Some e \<Rightarrow>
          if caught e then
            Inr (drift_result (policy_findings @ live)
                   (infra @ [mk_finding (JStr ''live-readback'') (Failure e)]) manual')
          else Inl e)"

definition run_audit :: "environment \<Rightarrow> drift_error + drift_audit" where
  "run_audit env =
     ebind (want_some (get_file (env_repo env) [''.github'', ''repository-settings-policy.json''])
              DriftOSError) (\<lambda>f.
     ebind (want_some (json_doc f) DriftJson) (\<lambda>policy.
     ebind (run_canonical_checks (env_run env) (env_supply env)) (\<lambda>found.
     ebind (dpy (manual_controls policy)) (\<lambda>manual.
       conclude env policy manual found))))"

text \<open>
  \<open>main\<close> in live mode: the exceptions it catches become an infrastructure failure; the others
  end the program with a traceback and status 1. \<open>None\<close> for the environment is a run without
  \<open>GITHUB_REPOSITORY\<close> or \<open>GITHUB_TOKEN\<close>.
\<close>

definition drift_exit_code_for :: "string \<Rightarrow> nat option" where
  "drift_exit_code_for c = map_of [(''clean'', 0), (''policy-drift'', 1), (''infrastructure-failure'', 2)] c"

definition audit_runner_failure :: "drift_error \<Rightarrow> drift_audit" where
  "audit_runner_failure e = drift_result [] [mk_finding (JStr ''audit-runner'') (Failure e)] []"

definition drift_main :: "environment option \<Rightarrow> drift_error + drift_audit \<times> nat" where
  "drift_main env =
     (case (case env of None \<Rightarrow> Inl MissingCredentials | Some e \<Rightarrow> run_audit e) of
        Inr a \<Rightarrow> Inr (a, the (drift_exit_code_for (da_classification a)))
      | Inl e \<Rightarrow> if caught e then Inr (audit_runner_failure e, 2) else Inl e)"

section \<open>Lemmas\<close>

lemma concat_Nil: "concat (map f xs) = [] \<longleftrightarrow> (\<forall>x \<in> set xs. f x = [])"
  by simp

lemma check_finding_Nil: "check_finding run c = [] \<longleftrightarrow> fst (run c) = 0"
  by (simp add: check_finding_def split_beta Let_def)

lemma run_canonical_checks_clean:
  "run_canonical_checks run supply = Inr ([], []) \<longleftrightarrow>
     (\<forall>c \<in> set canonical_checks. fst (run c) = 0) \<and> fst supply = 0 \<and>
     (\<exists>d. snd supply = Some (JObj d) \<and> dget d ''classification'' = JStr ''clean'')"
proof -
  have "concat (map (check_finding run) canonical_checks) = [] \<longleftrightarrow> (\<forall>c \<in> set canonical_checks. fst (run c) = 0)"
    unfolding concat_Nil check_finding_Nil ..
  moreover have "get_default d k JNull = dget d k" for d k
    by (simp add: get_default_def dget_def)
  ultimately show ?thesis
    by (cases "supply"; cases "snd supply")
      (auto simp: run_canonical_checks_def Let_def monad_simps split: if_splits)
qed

lemma classify_drift_cases:
  "classify_drift p i = ''infrastructure-failure'' \<longleftrightarrow> i \<noteq> []"
  "classify_drift p i = ''policy-drift'' \<longleftrightarrow> i = [] \<and> p \<noteq> []"
  "classify_drift p i = ''clean'' \<longleftrightarrow> i = [] \<and> p = []"
  by (auto simp: classify_drift_def)

lemma run_audit_Inr:
  assumes "run_audit env = Inr a"
  obtains policy pf infra manual live manual' err where
    "run_canonical_checks (env_run env) (env_supply env) = Inr (pf, infra)"
    "live_checks env policy manual = (live, manual', err)"
    "a = drift_result (pf @ live)
       (infra @ (case err of None \<Rightarrow> [] | Some e \<Rightarrow> [mk_finding (JStr ''live-readback'') (Failure e)])) manual'"
    "\<exists>f. get_file (env_repo env) [''.github'', ''repository-settings-policy.json''] = Some f \<and> json_doc f = Some policy"
    "\<forall>e. err = Some e \<longrightarrow> caught e"
proof -
  from assms obtain f policy found manual where
    f: "get_file (env_repo env) [''.github'', ''repository-settings-policy.json''] = Some f"
       "json_doc f = Some policy"
    and c: "run_canonical_checks (env_run env) (env_supply env) = Inr found"
    and r: "conclude env policy manual found = Inr a"
    unfolding run_audit_def by (auto simp: monad_simps)
  obtain pf infra where found: "found = (pf, infra)" by (cases found) auto
  obtain live manual' err where l: "live_checks env policy manual = (live, manual', err)"
    by (cases "live_checks env policy manual") auto
  show ?thesis
    by (rule that [OF c [unfolded found] l])
      (use r l f in \<open>auto simp: conclude_def found split: option.splits if_splits\<close>)
qed

lemma live_checks_clean:
  assumes "live_checks env policy manual = ([], manual', None)"
  shows "(\<exists>m. run_live_policy_checks (env_service env) policy = Inr ([], m)) \<and>
    run_live_label_checks (env_repo env) (env_pages env) = Inr [] \<and>
    run_live_label_automation_checks (env_repo env) (env_pages env) (env_paths env) = Inr []"
  using assms by (auto simp: live_checks_def split: sum.splits prod.splits)

section \<open>Properties\<close>


definition sample_labels_doc :: json where
  "sample_labels_doc = JObj
     [(''schema_version'', JInt 1), (''managed_prefixes'', JArr [JStr ''type:'', JStr ''area:'']),
      (''singular_groups'', JArr [JStr ''type:'']), (''structural_types'', JArr [JStr ''type:epic'']),
      (''labels'', JArr (map (\<lambda>n. JObj [(''name'', JStr n), (''color'', JStr ''0e8a16''),
         (''description'', JStr n)]) (dedup referenced_labels)))]"

definition sample_workloads :: obj where
  "sample_workloads = [(''workloads'', JArr [JObj [(''name'', JStr ''pg''), (''path'', JStr ''pg'')]])]"

definition sample_environment :: "string \<Rightarrow> environment" where
  "sample_environment visibility = \<lparr>
     env_repo = NDir
       [(''.github'', NDir
           [(''labels.json'', NFile (json_file sample_labels_doc)),
            (''repository-settings-policy.json'', NFile (json_file (JObj
               [(''ruleset_id'', JInt 9), (''controls'', JArr
                  [JObj [(''id'', JStr ''repository.visibility''), (''readback'', JStr ''repository-api''),
                         (''classification'', JStr ''automated''), (''expected'', JStr ''public'')],
                   JObj [(''id'', JStr ''ruleset.deletion_protection''), (''readback'', JStr ''ruleset-api''),
                         (''classification'', JStr ''automated''), (''expected'', JBool True)]])])))]),
        (''workloads.json'', NFile (json_file (JObj sample_workloads)))],
     env_run = (\<lambda>_. (0, [])),
     env_supply = (0, Some (JObj [(''classification'', JStr ''clean'')])),
     env_service = (\<lambda>e. case e of
         RepositoryInfo \<Rightarrow> Inr (JObj [(''visibility'', JStr visibility)])
       | _ \<Rightarrow> Inr (JObj [(''rules'', JArr [JObj [(''type'', JStr ''deletion'')]])])),
     env_pages = (\<lambda>e n. Inr (case e of
         LabelPages \<Rightarrow> get_in sample_labels_doc ''labels''
       | _ \<Rightarrow> JArr [JObj [(''number'', JInt 1), (''title'', JStr ''CI: x''),
              (''labels'', JArr [JObj [(''name'', JStr ''type:task'')], JObj [(''name'', JStr ''area:ci'')]])]])),
     env_paths = (\<lambda>_. Inr [])\<rparr>"


text \<open>
  C12. The drift audit and the label automation agree: once the labels that \<open>apply_item\<close> asked for
  are on an item, in any order, the audit has no finding about it; and as long as the item has a
  number, the audit has none exactly when the automation would leave the item alone.
\<close>

theorem automation_agrees_with_reconciler:
  assumes "has_key item ''number''"
  shows "(automation_finding client policy (JObj item) = Inr []) = (apply_item client item policy = Inr None)
    \<and> (\<forall>n d ls. apply_item client item policy = Inr (Some (n, d)) \<and> type_prefix policy = ''type:''
        \<and> mset ls = mset d \<longrightarrow> automation_finding client policy (JObj (with_labels item ls)) = Inr [])"
proof -
  have iff: "automation_finding client policy (JObj i) = Inr [] \<longleftrightarrow> apply_item client i policy = Inr None"
    if "has_key i ''number''" for i
  proof -
    from that obtain n where "map_of i ''number'' = Some n" by (auto simp: has_key_def)
    then show ?thesis
      by (cases "labels_from_item i"; cases "classify_item i policy (Some client)")
        (auto simp: automation_finding_def apply_item_def py_def)
  qed
  then show ?thesis using assms apply_item_stable by simp
qed

theorem automation_agrees_with_reconciler_witness:
  "automation_finding (\<lambda>_. Inr []) sample_policy (JObj [(''number'', JInt 7), (''title'', JStr ''Fix: it''),
     (''labels'', JArr [JObj [(''name'', JStr ''type:bug'')]])]) = Inr []"
proof -
  let ?item = "[(''number'', JInt 7), (''title'', JStr ''Fix: it''),
     (''labels'', JArr [JObj [(''name'', JStr ''type:bug'')]])]"
  have "apply_item (\<lambda>_. Inr []) ?item sample_policy = Inr None" by code_simp
  then show ?thesis
    using automation_agrees_with_reconciler [of ?item "\<lambda>_. Inr []" sample_policy] by simp
qed

end
