(* ===== verification/Audit_Issue.thy ===== *)
theory Audit_Issue
  imports Supply Drift
begin

text \<open>
  Models of \<open>.github/scripts/audit_issue.py\<close> (the one issue a scheduled audit owns) and of its two
  users \<open>report-supply-chain-audit.py\<close> and \<open>report-hardening-drift-audit.py\<close>. The client is
  outside: the listing of the issues is an argument, and the requests made are returned in order
  as \<open>action\<close>s.
\<close>

section \<open>The owned issue\<close>

datatype (plugins only: code) issue_error =
    MultipleOwned "json list"
  | UnsupportedClassification json
  | MissingReportingLabels "string list"
  | IssuePy py_error
  | IssueOSError
  | IssueJson

datatype (plugins only: code) action =
    CommentIssue json string
  | UpdateIssue json obj
  | CreateIssue obj

datatype (plugins only: code) issue_outcome = ClosedRecovered json | CleanNoOpenIssue | CreatedIssue | UpdatedIssue json

definition ipy :: "py_error + 'a \<Rightarrow> issue_error + 'a" where
  "ipy m = map_err IssuePy m"

text \<open>\<open>marker in (issue.get("body") or "")\<close>; the service sends a string or \<open>null\<close>.\<close>

definition body_text :: "json \<Rightarrow> py_error + string" where
  "body_text issue =
     ebind (getattr_get issue ''body'' JNull) (\<lambda>b.
       if truthy b then want_str b TypeErr else Inr [])"

definition owned_flag :: "string \<Rightarrow> json \<Rightarrow> py_error + json \<times> bool" where
  "owned_flag marker issue = ebind (body_text issue) (\<lambda>b. Inr (issue, contains marker b))"

definition find_owned_issue :: "string \<Rightarrow> json list \<Rightarrow> issue_error + json option" where
  "find_owned_issue marker issues =
     ebind (ipy (emap (owned_flag marker) issues)) (\<lambda>flags.
       let matches = map fst (filter snd flags) in
       if length matches > 1 then
         ebind (ipy (emap (\<lambda>i. getitem i ''number'') matches)) (\<lambda>ns. Inl (MultipleOwned ns))
       else Inr (case matches of [] \<Rightarrow> None | m # _ \<Rightarrow> Some m))"

definition reconcile_owned_issue ::
  "string \<Rightarrow> string \<Rightarrow> string list \<Rightarrow> string \<Rightarrow> string \<Rightarrow> string \<Rightarrow> string \<Rightarrow> json list
     \<Rightarrow> issue_error + issue_outcome \<times> action list" where
  "reconcile_owned_issue marker title issue_labels classification clean_classification body run_url issues =
     ebind (find_owned_issue marker issues) (\<lambda>owned.
       if classification = clean_classification then
         (case owned of
            None \<Rightarrow> Inr (CleanNoOpenIssue, [])
          | Some issue \<Rightarrow>
              if get_in issue ''state'' = JStr ''open'' then
                ebind (ipy (getitem issue ''number'')) (\<lambda>number.
                  Inr (ClosedRecovered number,
                       [CommentIssue number (''Audit recovered to clean. Run: '' @ run_url),
                        UpdateIssue number [(''state'', JStr ''closed''),
                                            (''state_reason'', JStr ''completed'')]]))
              else Inr (CleanNoOpenIssue, []))
       else
         (let payload = [(''title'', JStr title), (''body'', JStr body),
                         (''labels'', JArr (map JStr issue_labels))] in
          case owned of
            None \<Rightarrow> Inr (CreatedIssue, [CreateIssue payload])
          | Some issue \<Rightarrow>
              ebind (ipy (getitem issue ''number'')) (\<lambda>number.
                Inr (UpdatedIssue number,
                     [UpdateIssue number
                        (payload @ (if get_in issue ''state'' \<noteq> JStr ''open''
                           then [(''state'', JStr ''open''), (''state_reason'', JStr ''reopened'')] else [])),
                      CommentIssue number (''Audit remains non-clean with classification `''
                        @ classification @ ''`. Run: '' @ run_url)]))))"

section \<open>The two reporters\<close>

text \<open>\<open>{entry["name"] for entry in taxonomy["labels"]}\<close> must hold the labels the reporter uses.\<close>

definition validate_reporting_labels :: "string list \<Rightarrow> node \<Rightarrow> issue_error + unit" where
  "validate_reporting_labels wanted repo =
     ebind (want_some (get_file repo [''.github'', ''labels.json'']) IssueOSError) (\<lambda>f.
     ebind (want_some (json_doc f) IssueJson) (\<lambda>taxonomy.
     ebind (ipy (ebind (getitem taxonomy ''labels'') iterate)) (\<lambda>entries.
     ebind (ipy (emap (\<lambda>e. ebind (getitem e ''name'') (\<lambda>v.
              if hashable v then Inr v else Inl TypeErr)) entries)) (\<lambda>names.
       let missing = sort (dedup (filter (\<lambda>l. JStr l \<notin> set names) wanted)) in
       eguard (missing = []) (MissingReportingLabels missing)))))"

definition nl :: string where
  "nl = [line_feed]"

definition supply_marker :: string where
  "supply_marker = ''<!-- oxide-batch-workloads:supply-chain-audit -->''"

definition supply_title :: string where
  "supply_title = ''[supply-chain-audit] scheduled audit requires attention''"

definition supply_labels :: "string list" where
  "supply_labels = [''type:security'', ''area:security'', ''dependencies'']"

definition supply_classes :: "string list" where
  "supply_classes = [''clean'', ''policy-finding'', ''infrastructure-failure'']"

definition supply_body :: "string \<Rightarrow> string \<Rightarrow> string list \<Rightarrow> string \<Rightarrow> string" where
  "supply_body classification details ws run_url =
     supply_marker @ nl @ ''## Scheduled supply-chain audit'' @ nl @ nl
     @ ''**Classification:** `'' @ classification @ ''`'' @ nl @ nl
     @ ''**Scanned workloads:** '' @ (if ws \<noteq> [] then join '', '' ws else ''(none)'') @ nl @ nl
     @ ''**Workflow run:** '' @ run_url @ nl @ nl
     @ ''### Details'' @ nl @ nl
     @ ''```text'' @ nl @ take 50000 details @ nl @ ''```'' @ nl @ nl
     @ ''This issue is owned by the scheduled supply-chain audit. Repeated non-clean runs update/reopen ''
     @ ''this same issue; a later clean run adds a recovery comment and closes it.'' @ nl"

text \<open>\<open>render_body\<close> on the audit document: details are sliced, workloads joined, so both are text.\<close>

definition supply_render :: "obj \<Rightarrow> string \<Rightarrow> string \<Rightarrow> py_error + string" where
  "supply_render audit classification run_url =
     ebind (want_str (get_default audit ''details'' (JStr [])) TypeErr) (\<lambda>details.
     ebind (iterate (get_default audit ''workloads'' (JArr []))) (\<lambda>vs.
     ebind (emap (\<lambda>v. want_str v TypeErr) vs) (\<lambda>ws.
       Inr (supply_body classification details ws run_url))))"

text \<open>\<open>classification not in {...}\<close> on a value of any type.\<close>

definition check_classification :: "string list \<Rightarrow> json \<Rightarrow> issue_error + string" where
  "check_classification accepted v =
     ebind (eguard (hashable v) (IssuePy TypeErr)) (\<lambda>_.
     ebind (want_str v (UnsupportedClassification v)) (\<lambda>c.
     ebind (eguard (c \<in> set accepted) (UnsupportedClassification v)) (\<lambda>_. Inr c)))"

definition supply_reconcile_issue ::
  "json \<Rightarrow> string \<Rightarrow> json list \<Rightarrow> issue_error + issue_outcome \<times> action list" where
  "supply_reconcile_issue audit run_url issues =
     ebind (ipy (getattr_get audit ''classification'' JNull)) (\<lambda>v.
     ebind (check_classification supply_classes v) (\<lambda>classification.
     ebind (ipy (supply_render (case audit of JObj d \<Rightarrow> d | _ \<Rightarrow> []) classification run_url)) (\<lambda>body.
       reconcile_owned_issue supply_marker supply_title supply_labels classification ''clean''
         body run_url issues)))"

definition drift_marker :: string where
  "drift_marker = ''<!-- oxide-batch-workloads:hardening-drift-audit -->''"

definition drift_title :: string where
  "drift_title = ''[hardening-drift] repository hardening audit requires attention''"

definition drift_labels :: "string list" where
  "drift_labels = [''type:task'', ''area:governance'', ''area:security'', ''area:ci'']"

definition drift_classes :: "string list" where
  "drift_classes = [''clean'', ''policy-drift'', ''infrastructure-failure'']"

text \<open>\<open>dumps\<close> is the text of \<open>json.dumps(v, indent=2)\<close>.\<close>

definition drift_body :: "(json \<Rightarrow> string) \<Rightarrow> string \<Rightarrow> json \<Rightarrow> json \<Rightarrow> json \<Rightarrow> string \<Rightarrow> string" where
  "drift_body dumps classification findings infra manual run_url =
     join nl
       [drift_marker, ''## Repository hardening drift audit'', [],
        ''**Classification:** `'' @ classification @ ''`'', [], ''**Workflow run:** '' @ run_url, [],
        ''### Confirmed policy drift'', [], ''```json'', take 40000 (dumps findings), ''```'', [],
        ''### Infrastructure/readback failures'', [], ''```json'', take 20000 (dumps infra), ''```'', [],
        ''### Explicit manual-readback controls'', [],
        ''These controls are canonical but are not claimed as continuously monitored by the low-privilege scheduled audit.'',
        [], ''```json'', take 20000 (dumps manual), ''```'', [],
        ''This issue is owned by the recurring hardening drift audit. Repeated non-clean runs update/reopen ''
          @ ''this same issue; a later clean run records recovery and closes it.''] @ nl"

definition drift_reconcile_issue ::
  "(json \<Rightarrow> string) \<Rightarrow> json \<Rightarrow> string \<Rightarrow> json list \<Rightarrow> issue_error + issue_outcome \<times> action list" where
  "drift_reconcile_issue dumps audit run_url issues =
     ebind (ipy (getattr_get audit ''classification'' JNull)) (\<lambda>v.
     ebind (check_classification drift_classes v) (\<lambda>classification.
       let d = (case audit of JObj o' \<Rightarrow> o' | _ \<Rightarrow> []) in
       reconcile_owned_issue drift_marker drift_title drift_labels classification ''clean''
         (drift_body dumps classification (get_default d ''policy_findings'' (JArr []))
            (get_default d ''infrastructure_failures'' (JArr []))
            (get_default d ''manual_readback'' (JArr [])) run_url) run_url issues))"

text \<open>
  \<open>main\<close>: labels first, then the audit document (\<open>None\<close> where it cannot be read or parsed), then
  the issue. The exit code is 0 exactly when nothing was raised.
\<close>

definition report_main ::
  "string list \<Rightarrow> (json \<Rightarrow> issue_error + issue_outcome \<times> action list) \<Rightarrow> node \<Rightarrow> json option
     \<Rightarrow> issue_error + issue_outcome \<times> action list" where
  "report_main wanted reconcile repo audit =
     ebind (validate_reporting_labels wanted repo) (\<lambda>_.
     ebind (want_some audit IssueJson) reconcile)"

definition supply_report :: "node \<Rightarrow> json option \<Rightarrow> string \<Rightarrow> json list
     \<Rightarrow> issue_error + issue_outcome \<times> action list" where
  "supply_report repo audit run_url issues =
     report_main supply_labels (\<lambda>a. supply_reconcile_issue a run_url issues) repo audit"

definition drift_report :: "(json \<Rightarrow> string) \<Rightarrow> node \<Rightarrow> json option \<Rightarrow> string \<Rightarrow> json list
     \<Rightarrow> issue_error + issue_outcome \<times> action list" where
  "drift_report dumps repo audit run_url issues =
     report_main drift_labels (\<lambda>a. drift_reconcile_issue dumps a run_url issues) repo audit"

section \<open>Audits and reporters fit together\<close>

text \<open>
  What a reporter relies on: every classification the audit can produce is one it accepts, has an
  exit code, and has exit code 0 only if it is clean.
\<close>

locale audit_contract =
  fixes produced :: "string \<Rightarrow> bool" and accepted :: "string list" and exit_of :: "string \<Rightarrow> nat option"
  assumes produced_accepted: "produced c \<Longrightarrow> c \<in> set accepted"
    and exit_defined: "c \<in> set accepted \<Longrightarrow> exit_of c \<noteq> None"
    and exit_zero: "c \<in> set accepted \<Longrightarrow> exit_of c = Some 0 \<Longrightarrow> c = ''clean''"
begin

lemma produced_reported: "produced c \<Longrightarrow> check_classification accepted (JStr c) = Inr c"
  using produced_accepted by (simp add: check_classification_def)

lemma produced_exit:
  "produced c \<Longrightarrow> \<exists>n. exit_of c = Some n \<and> (n = 0 \<longrightarrow> c = ''clean'')"
  using produced_accepted exit_defined exit_zero by fastforce

end

lemma run_live_audit_classes:
  "run_live_audit d v = Some a \<Longrightarrow> a_classification a \<in> set supply_classes"
  by (auto simp: run_live_audit_def Let_def audit_result_def supply_classes_def
      split: prod.splits if_splits option.splits)

lemma run_audit_classes: "run_audit env = Inr a \<Longrightarrow> da_classification a \<in> set drift_classes"
  by (erule run_audit_Inr) (auto simp: drift_result_def classify_drift_def drift_classes_def)

interpretation supply_audit: audit_contract
  "\<lambda>c. \<exists>d v a. run_live_audit d v = Some a \<and> a_classification a = c" supply_classes exit_code_for
  by unfold_locales
    (auto simp: exit_code_for_def supply_classes_def split: if_splits
      dest: run_live_audit_classes [unfolded supply_classes_def])

interpretation drift_audit: audit_contract
  "\<lambda>c. \<exists>env a. run_audit env = Inr a \<and> da_classification a = c" drift_classes drift_exit_code_for
  by unfold_locales
    (auto simp: drift_exit_code_for_def drift_classes_def split: if_splits
      dest: run_audit_classes [unfolded drift_classes_def])

section \<open>The service's documented behaviour\<close>

text \<open>
  What the reporter relies on of the issue service, over its states \<open>'s\<close>: \<open>view\<close> lists the
  issues, and \<open>snap\<close> is what matters of them here. Creating adds one open issue with a number of
  its own, an update changes the given fields of the issue with that number, a comment changes
  none, numbers identify issues and bodies are text or \<open>null\<close>.
\<close>

record summary =
  s_number :: json
  s_title :: json
  s_body :: json
  s_state :: json

definition summary_of :: "json \<Rightarrow> summary" where
  "summary_of i = \<lparr>s_number = get_in i ''number'', s_title = get_in i ''title'',
     s_body = get_in i ''body'', s_state = get_in i ''state''\<rparr>"

definition patch :: "json \<Rightarrow> obj \<Rightarrow> summary \<Rightarrow> summary" where
  "patch n p i =
     (if s_number i = n then
        i\<lparr>s_title := get_default p ''title'' (s_title i), s_body := get_default p ''body'' (s_body i),
          s_state := get_default p ''state'' (s_state i)\<rparr>
      else i)"

definition snap :: "('s \<Rightarrow> json list) \<Rightarrow> 's \<Rightarrow> summary multiset" where
  "snap view s = image_mset summary_of (mset (view s))"

definition issue_wf :: "json \<Rightarrow> bool" where
  "issue_wf i \<longleftrightarrow> is_dict i \<and> (case i of JObj d \<Rightarrow> has_key d ''number'' | _ \<Rightarrow> False)
     \<and> (get_in i ''body'' = JNull \<or> is_str (get_in i ''body''))"

definition github_contract :: "('s \<Rightarrow> json list) \<Rightarrow> (action \<Rightarrow> 's \<Rightarrow> 's) \<Rightarrow> bool" where
  "github_contract view perform \<longleftrightarrow>
     (\<forall>s. \<forall>i \<in> set (view s). issue_wf i) \<and>
     (\<forall>s n. size (filter_mset (\<lambda>i. s_number i = n) (snap view s)) \<le> 1) \<and>
     (\<forall>s p. is_str (dget p ''body'') \<longrightarrow> (\<exists>n. snap view (perform (CreateIssue p) s) = add_mset
        \<lparr>s_number = n, s_title = dget p ''title'', s_body = dget p ''body'', s_state = JStr ''open''\<rparr>
        (snap view s))) \<and>
     (\<forall>s n p. (has_key p ''body'' \<longrightarrow> is_str (dget p ''body'')) \<longrightarrow>
        snap view (perform (UpdateIssue n p) s) = image_mset (patch n p) (snap view s)) \<and>
     (\<forall>s n t. snap view (perform (CommentIssue n t) s) = snap view s)"

definition owned :: "string \<Rightarrow> summary \<Rightarrow> bool" where
  "owned marker i \<longleftrightarrow> (\<exists>b. s_body i = JStr b \<and> b \<noteq> [] \<and> contains marker b)"

definition owned_issues :: "string \<Rightarrow> summary multiset \<Rightarrow> summary multiset" where
  "owned_issues marker is = filter_mset (owned marker) is"

definition foreign_issues :: "string \<Rightarrow> summary multiset \<Rightarrow> summary multiset" where
  "foreign_issues marker is = filter_mset (\<lambda>i. \<not> owned marker i) is"

section \<open>One report\<close>

definition is_owned :: "string \<Rightarrow> json \<Rightarrow> bool" where
  "is_owned marker i \<longleftrightarrow> owned marker (summary_of i)"

lemma contains_Nil: "marker \<noteq> [] \<Longrightarrow> \<not> contains marker []"
  by simp

lemma owned_flag_wf:
  assumes "issue_wf i" "marker \<noteq> []"
  shows "owned_flag marker i = Inr (i, is_owned marker i)"
proof -
  obtain d where d: "i = JObj d" using assms(1) by (auto simp: issue_wf_def is_dict_iff)
  have "get_default d ''body'' JNull = dget d ''body''" by (simp add: get_default_def dget_def)
  then show ?thesis
    using assms d
    by (cases "dget d ''body''")
      (auto simp: owned_flag_def body_text_def is_owned_def owned_def summary_of_def issue_wf_def)
qed

lemma owned_flags:
  assumes "\<forall>i \<in> set issues. issue_wf i" "marker \<noteq> []"
  shows "emap (owned_flag marker) issues = Inr (map (\<lambda>i. (i, is_owned marker i)) issues)"
  using assms owned_flag_wf by (intro emap_pure) auto

lemma find_owned_wf:
  assumes "\<forall>i \<in> set issues. issue_wf i" "marker \<noteq> []" "length (filter (is_owned marker) issues) \<le> 1"
  shows "find_owned_issue marker issues =
    Inr (case filter (is_owned marker) issues of [] \<Rightarrow> None | m # _ \<Rightarrow> Some m)"
proof -
  have "map fst (filter snd (map (\<lambda>i. (i, is_owned marker i)) issues)) = filter (is_owned marker) issues"
    by (induction issues) auto
  with assms show ?thesis
    by (simp add: find_owned_issue_def owned_flags ipy_def Let_def comp_def)
qed

lemma owned_issues_view:
  "owned_issues marker (snap view s) = image_mset summary_of (mset (filter (is_owned marker) (view s)))"
  by (simp add: owned_issues_def snap_def is_owned_def filter_mset_image_mset)

text \<open>The text written into the issue carries the marker, and an update keeps it owned.\<close>

definition writes :: "string \<Rightarrow> string \<Rightarrow> string \<Rightarrow> summary \<Rightarrow> bool" where
  "writes marker title body i \<longleftrightarrow> s_title i = JStr title \<and> s_body i = JStr body \<and> s_state i = JStr ''open''"

lemma patch_other: "s_number i \<noteq> n \<Longrightarrow> patch n p i = i"
  by (simp add: patch_def)

lemma image_patch_single:
  assumes "size (filter_mset (\<lambda>i. s_number i = n) (add_mset x N)) \<le> 1" "s_number x = n"
  shows "image_mset (patch n p) (add_mset x N) = add_mset (patch n p x) N"
proof -
  have "s_number i \<noteq> n" if "i \<in># N" for i
    using assms that by (auto dest!: multi_member_split)
  then have "image_mset (patch n p) N = image_mset id N"
    by (intro image_mset_cong) (simp add: patch_other)
  then show ?thesis by simp
qed

text \<open>
  The effect of one report: at most one owned issue, open with the new text after a non-clean
  audit and not open after a clean one, and every other issue as before.
\<close>

definition report_effect ::
  "string \<Rightarrow> string \<Rightarrow> string \<Rightarrow> bool \<Rightarrow> summary multiset \<Rightarrow> summary multiset \<Rightarrow> bool" where
  "report_effect marker title body clean before after \<longleftrightarrow>
     foreign_issues marker after = foreign_issues marker before \<and>
     size (owned_issues marker after) \<le> 1 \<and>
     (if clean then size (owned_issues marker after) = size (owned_issues marker before)
        \<and> (\<forall>i \<in># owned_issues marker after. s_state i \<noteq> JStr ''open'')
      else (\<exists>i. owned_issues marker after = {#i#} \<and> writes marker title body i))"

lemma contract_facts:
  assumes "github_contract view perform"
  shows "\<forall>i \<in> set (view s). issue_wf i"
    and "size (filter_mset (\<lambda>i. s_number i = n) (snap view s)) \<le> 1"
    and "is_str (dget p ''body'') \<Longrightarrow> \<exists>n. snap view (perform (CreateIssue p) s) = add_mset
        \<lparr>s_number = n, s_title = dget p ''title'', s_body = dget p ''body'', s_state = JStr ''open''\<rparr>
        (snap view s)"
    and "(has_key p ''body'' \<Longrightarrow> is_str (dget p ''body'')) \<Longrightarrow>
      snap view (perform (UpdateIssue n p) s) = image_mset (patch n p) (snap view s)"
    and "snap view (perform (CommentIssue n t) s) = snap view s"
  using assms unfolding github_contract_def by blast+

text \<open>The owned issue of a state, its number and the other issues.\<close>

definition owns :: "('s \<Rightarrow> json list) \<Rightarrow> string \<Rightarrow> 's \<Rightarrow> obj \<Rightarrow> json \<Rightarrow> summary multiset \<Rightarrow> bool" where
  "owns view marker s d n N \<longleftrightarrow>
     filter (is_owned marker) (view s) = [JObj d] \<and> map_of d ''number'' = Some n \<and>
     snap view s = add_mset (summary_of (JObj d)) N \<and> s_number (summary_of (JObj d)) = n \<and>
     owned marker (summary_of (JObj d)) \<and> owned_issues marker N = {#}"

lemma owned_cases:
  assumes "github_contract view perform" "size (owned_issues marker (snap view s)) \<le> 1"
  obtains (none) "filter (is_owned marker) (view s) = []" "owned_issues marker (snap view s) = {#}"
    | (one) d n N where "owns view marker s d n N"
proof (cases "filter (is_owned marker) (view s)")
  case Nil
  with none show thesis by (simp add: owned_issues_view)
next
  case (Cons m ms)
  have "size (owned_issues marker (snap view s)) = length (filter (is_owned marker) (view s))"
    unfolding owned_issues_view by (simp only: size_image_mset size_mset)
  with assms(2) Cons have ms: "filter (is_owned marker) (view s) = [m]" by simp
  then have "m \<in> set (filter (is_owned marker) (view s))" by simp
  then have m: "m \<in> set (view s)" "is_owned marker m" by auto
  have "issue_wf m" using contract_facts(1) [OF assms(1)] m(1) by blast
  then obtain d n where d: "m = JObj d" "map_of d ''number'' = Some n"
    by (auto simp: issue_wf_def is_dict_iff has_key_def)
  obtain N where N: "snap view s = add_mset (summary_of m) N"
    using m(1) unfolding snap_def by (metis image_eqI insert_DiffM set_image_mset set_mset_mset)
  have "owned_issues marker (snap view s) = {#summary_of m#}"
    by (simp only: owned_issues_view ms) simp
  with N m(2) have "owned_issues marker N = {#}"
    by (simp add: owned_issues_def is_owned_def)
  with d ms N m(2) show thesis
    by (intro one [of d n N]) (simp add: owns_def summary_of_def dget_def is_owned_def)
qed

lemma owned_update:
  assumes "github_contract view perform" "owns view marker s d n N"
    and "snap view s' = snap view s" "has_key p ''body'' \<Longrightarrow> is_str (dget p ''body'')"
  shows "snap view (perform (UpdateIssue n p) s') = add_mset (patch n p (summary_of (JObj d))) N"
proof -
  have "snap view (perform (UpdateIssue n p) s') = image_mset (patch n p) (add_mset (summary_of (JObj d)) N)"
    using contract_facts(4) [OF assms(1), of p n s'] assms(2-4) by (simp add: owns_def)
  also have "\<dots> = add_mset (patch n p (summary_of (JObj d))) N"
    using contract_facts(2) [OF assms(1), of n s] assms(2)
    by (intro image_patch_single) (simp_all add: owns_def)
  finally show ?thesis .
qed

lemma effect_of_update:
  assumes "owns view marker s d n N" "owned marker y"
    and "clean \<Longrightarrow> s_state y \<noteq> JStr ''open''" "\<not> clean \<Longrightarrow> writes marker title body y"
  shows "report_effect marker title body clean (snap view s) (add_mset y N)"
proof -
  have N: "filter_mset (owned marker) N = {#}" using assms(1) by (simp add: owns_def owned_issues_def)
  have "owned_issues marker (add_mset y N) = {#y#}"
    using assms(2) by (simp only: owned_issues_def filter_mset_add_mset N if_True)
  moreover have "owned_issues marker (snap view s) = {#summary_of (JObj d)#}"
    using assms(1) N by (simp only: owns_def owned_issues_def filter_mset_add_mset if_True)
  moreover have "foreign_issues marker (add_mset y N) = foreign_issues marker (snap view s)"
    using assms(1,2) by (simp add: owns_def foreign_issues_def)
  ultimately show ?thesis using assms(3,4) by (simp add: report_effect_def)
qed

lemma report_clean:
  assumes gh: "github_contract view perform" and marker: "marker \<noteq> []"
    and single: "size (owned_issues marker (snap view s)) \<le> 1"
    and run: "reconcile_owned_issue marker title ls clean clean body url (view s) = Inr (out, acts)"
  shows "report_effect marker title body True (snap view s) (snap view (fold perform acts s))"
  using gh single
proof (cases rule: owned_cases)
  case none
  with run find_owned_wf [OF contract_facts(1) [OF gh] marker, of s] show ?thesis
    by (simp add: reconcile_owned_issue_def report_effect_def)
next
  case (one d n N)
  then have find: "find_owned_issue marker (view s) = Inr (Some (JObj d))"
    using find_owned_wf [OF contract_facts(1) [OF gh] marker, of s] by (simp add: owns_def)
  show ?thesis
  proof (cases "dget d ''state'' = JStr ''open''")
    case True
    let ?p = "[(''state'', JStr ''closed''), (''state_reason'', JStr ''completed'')]"
    have "acts = [CommentIssue n (''Audit recovered to clean. Run: '' @ url), UpdateIssue n ?p]"
      using run find True one by (auto simp: reconcile_owned_issue_def ipy_def owns_def)
    then have "snap view (fold perform acts s) = add_mset (patch n ?p (summary_of (JObj d))) N"
      using owned_update [OF gh one contract_facts(5) [OF gh], of ?p] by simp
    moreover have "owned marker (patch n ?p (summary_of (JObj d)))"
      using one by (simp add: owns_def patch_def owned_def)
    moreover have "s_state (patch n ?p (summary_of (JObj d))) \<noteq> JStr ''open''"
      using one by (simp add: owns_def patch_def)
    ultimately show ?thesis using effect_of_update [OF one, where clean = True] by simp
  next
    case False
    then have "snap view (fold perform acts s) = add_mset (summary_of (JObj d)) N"
      using run find one by (simp add: reconcile_owned_issue_def owns_def)
    moreover have "owned marker (summary_of (JObj d))" using one by (simp add: owns_def)
    moreover have "s_state (summary_of (JObj d)) \<noteq> JStr ''open''"
      using False by (simp add: summary_of_def)
    ultimately show ?thesis using effect_of_update [OF one, where clean = True] by simp
  qed
qed

lemma report_non_clean:
  assumes gh: "github_contract view perform" and marker: "marker \<noteq> []" "contains marker body"
    and single: "size (owned_issues marker (snap view s)) \<le> 1" and c: "c \<noteq> clean"
    and run: "reconcile_owned_issue marker title ls c clean body url (view s) = Inr (out, acts)"
  shows "report_effect marker title body False (snap view s) (snap view (fold perform acts s))"
  using gh single
proof (cases rule: owned_cases)
  case none
  let ?p = "[(''title'', JStr title), (''body'', JStr body), (''labels'', JArr (map JStr ls))]"
  have body: "body \<noteq> []" using marker by (cases body) auto
  have "acts = [CreateIssue ?p]"
    using run c none find_owned_wf [OF contract_facts(1) [OF gh] marker(1), of s]
    by (simp add: reconcile_owned_issue_def)
  then obtain n where "snap view (fold perform acts s) = add_mset
      \<lparr>s_number = n, s_title = JStr title, s_body = JStr body, s_state = JStr ''open''\<rparr> (snap view s)"
    using contract_facts(3) [OF gh, of ?p s] by auto
  with none marker body show ?thesis
    by (simp add: report_effect_def foreign_issues_def owned_issues_def owned_def writes_def)
next
  case (one d n N)
  let ?p = "[(''title'', JStr title), (''body'', JStr body), (''labels'', JArr (map JStr ls))]
     @ (if dget d ''state'' \<noteq> JStr ''open''
        then [(''state'', JStr ''open''), (''state_reason'', JStr ''reopened'')] else [])"
  have body: "body \<noteq> []" using marker by (cases body) auto
  have "find_owned_issue marker (view s) = Inr (Some (JObj d))"
    using one find_owned_wf [OF contract_facts(1) [OF gh] marker(1), of s] by (simp add: owns_def)
  then have "acts = [UpdateIssue n ?p, CommentIssue n (''Audit remains non-clean with classification `''
                        @ c @ ''`. Run: '' @ url)]"
    using run c one by (auto simp: reconcile_owned_issue_def ipy_def owns_def)
  then have "snap view (fold perform acts s) = add_mset (patch n ?p (summary_of (JObj d))) N"
    using owned_update [OF gh one, of s ?p] contract_facts(5) [OF gh] by simp
  moreover have "writes marker title body (patch n ?p (summary_of (JObj d)))"
    using one by (simp add: patch_def writes_def summary_of_def owns_def)
  moreover from this have "owned marker (patch n ?p (summary_of (JObj d)))"
    using marker body unfolding writes_def owned_def by blast
  ultimately show ?thesis using effect_of_update [OF one] by metis
qed

lemma report_step:
  assumes "github_contract view perform" "marker \<noteq> []" "contains marker body"
    and "size (owned_issues marker (snap view s)) \<le> 1"
    and "reconcile_owned_issue marker title ls c clean body url (view s) = Inr (out, acts)"
  shows "report_effect marker title body (c = clean) (snap view s) (snap view (fold perform acts s))"
  using report_clean [OF assms(1,2,4)] report_non_clean [OF assms(1-4)] assms(5)
  by (cases "c = clean") auto

section \<open>A sequence of audits\<close>

text \<open>
  The states a service goes through under a sequence of audit reports by one owner: \<open>body\<close> is the
  text rendered for a classification. The index lists the classifications reported so far.
\<close>

inductive audit_runs ::
  "('s \<Rightarrow> json list) \<Rightarrow> (action \<Rightarrow> 's \<Rightarrow> 's) \<Rightarrow> string \<Rightarrow> string \<Rightarrow> string list \<Rightarrow> (string \<Rightarrow> string)
     \<Rightarrow> 's \<Rightarrow> string list \<Rightarrow> 's \<Rightarrow> bool"
  for view perform marker title ls body s0 where
  start: "audit_runs view perform marker title ls body s0 [] s0"
| report: "audit_runs view perform marker title ls body s0 cs s \<Longrightarrow>
    reconcile_owned_issue marker title ls c ''clean'' (body c) url (view s) = Inr (out, acts) \<Longrightarrow>
    audit_runs view perform marker title ls body s0 (cs @ [c]) (fold perform acts s)"

inductive_cases audit_runs_snocE: "audit_runs view perform marker title ls body s0 (cs @ [c]) s"

lemma audit_runs_invariant:
  assumes "audit_runs view perform marker title ls body s0 cs s"
    and "github_contract view perform" "marker \<noteq> []" "\<And>c. contains marker (body c)"
    and "owned_issues marker (snap view s0) = {#}"
  shows "size (owned_issues marker (snap view s)) \<le> 1 \<and>
    foreign_issues marker (snap view s) = foreign_issues marker (snap view s0) \<and>
    ((\<exists>i \<in># owned_issues marker (snap view s). s_state i = JStr ''open'')
       \<longleftrightarrow> cs \<noteq> [] \<and> last cs \<noteq> ''clean'')"
  using assms(1)
proof (induction rule: audit_runs.induct)
  case start
  then show ?case using assms(5) by simp
next
  case (report cs s c url out acts)
  have eff: "report_effect marker title (body c) (c = ''clean'') (snap view s) (snap view (fold perform acts s))"
    using assms(2-4) report.IH report.hyps(2) by (intro report_step) auto
  then show ?case using report.IH
    by (cases "c = ''clean''") (auto simp: report_effect_def writes_def)
qed

section \<open>Properties\<close>

text \<open>
  C5. A scheduled audit owns at most one issue: over any sequence of reports, starting from a
  service without an owned issue, there is never more than one, it is open exactly while the
  last audit was not clean, and no other issue is touched.
\<close>

theorem owned_issue_lifecycle:
  assumes "audit_runs view perform marker title ls body s0 cs s"
    and "github_contract view perform" and "marker \<noteq> []" and "\<forall>c. contains marker (body c)"
    and "owned_issues marker (snap view s0) = {#}"
  shows "size (owned_issues marker (snap view s)) \<le> 1 \<and>
    foreign_issues marker (snap view s) = foreign_issues marker (snap view s0) \<and>
    (\<exists>i \<in># owned_issues marker (snap view s). s_state i = JStr ''open'')
      = (cs \<noteq> [] \<and> last cs \<noteq> ''clean'')"
  using audit_runs_invariant [OF assms(1-3) _ assms(5)] assms(4) by blast

text \<open>
  A service of this kind: issues are kept in a list, an issue's number is its position, a payload
  replaces title, body and state.
\<close>

type_synonym issue_list = "(json \<times> string \<times> json) list"

fun list_issue :: "nat \<times> json \<times> string \<times> json \<Rightarrow> json" where
  "list_issue (n, t, b, st) = JObj [(''number'', JInt (int n)), (''title'', t),
     (''body'', JStr b), (''state'', st)]"

definition list_view :: "issue_list \<Rightarrow> json list" where
  "list_view s = map list_issue (enumerate 0 s)"

definition text_of :: "json \<Rightarrow> string" where
  "text_of v = (case as_str v of Some b \<Rightarrow> b | None \<Rightarrow> [])"

fun list_patch :: "obj \<Rightarrow> json \<times> string \<times> json \<Rightarrow> json \<times> string \<times> json" where
  "list_patch p (t, b, st) = (get_default p ''title'' t,
     text_of (get_default p ''body'' (JStr b)), get_default p ''state'' st)"

fun list_perform :: "action \<Rightarrow> issue_list \<Rightarrow> issue_list" where
  "list_perform (CreateIssue p) s = s @ [(dget p ''title'', text_of (dget p ''body''), JStr ''open'')]"
| "list_perform (UpdateIssue n p) s =
     map (\<lambda>(i, x). if JInt (int i) = n then list_patch p x else x) (enumerate 0 s)"
| "list_perform (CommentIssue n t) s = s"

lemma summary_list_issue [simp]:
  "summary_of (JObj [(''number'', n), (''title'', t), (''body'', b), (''state'', st)])
     = \<lparr>s_number = n, s_title = t, s_body = b, s_state = st\<rparr>"
  by (simp add: summary_of_def)

lemma list_issue_number: "s_number (summary_of (list_issue x)) = JInt (int (fst x))"
  by (cases x) auto

lemma enumerate_map_enumerate:
  "enumerate k (map f (enumerate k xs)) = map (\<lambda>(i, x). (i, f (i, x))) (enumerate k xs)"
  by (induction xs arbitrary: k) auto

lemma list_numbers: "size (filter_mset (\<lambda>i. s_number i = n) (snap list_view s)) \<le> 1"
proof -
  have "size (filter_mset (\<lambda>i. s_number i = n) (snap list_view s))
      = length (filter (\<lambda>x. JInt (int (fst x)) = n) (enumerate 0 s))"
    by (simp add: snap_def list_view_def filter_mset_image_mset list_issue_number comp_def
        flip: mset_map mset_filter)
  also have "\<dots> \<le> 1"
  proof (cases "\<exists>k. n = JInt (int k)")
    case True
    then obtain k where "n = JInt (int k)" by auto
    then have "filter (\<lambda>x. JInt (int (fst x)) = n) (enumerate 0 s) = filter (\<lambda>x. fst x = k) (enumerate 0 s)"
      by simp
    moreover have "length (filter (\<lambda>x. fst x = k) (enumerate m s)) \<le> 1 \<and>
        (k < m \<longrightarrow> filter (\<lambda>x. fst x = k) (enumerate m s) = [])" for m
      by (induction s arbitrary: m) (auto simp: less_Suc_eq)
    ultimately show ?thesis by simp
  next
    case False
    then have "filter (\<lambda>x. JInt (int (fst x)) = n) (enumerate 0 s) = []"
      by (auto simp: filter_empty_conv)
    then show ?thesis by simp
  qed
  finally show ?thesis .
qed

lemma list_update_snap:
  assumes "has_key p ''body'' \<longrightarrow> is_str (dget p ''body'')"
  shows "snap list_view (list_perform (UpdateIssue n p) s) = image_mset (patch n p) (snap list_view s)"
proof -
  have "summary_of (list_issue (i, if JInt (int i) = n then list_patch p x else x))
      = patch n p (summary_of (list_issue (i, x)))" for i x
    using assms
    by (cases x) (auto simp: patch_def text_of_def get_default_def dget_def has_key_def is_str_iff
        split: option.splits)
  then show ?thesis
    by (simp add: snap_def list_view_def enumerate_map_enumerate case_prod_unfold multiset.map_comp
        comp_def flip: mset_map)
qed

lemma list_service: "github_contract list_view list_perform"
  unfolding github_contract_def
proof (intro conjI allI ballI impI)
  show "issue_wf i" if "i \<in> set (list_view s)" for s i
    using that by (auto simp: list_view_def issue_wf_def)
  show "size (filter_mset (\<lambda>i. s_number i = n) (snap list_view s)) \<le> 1" for s n
    by (rule list_numbers)
  show "\<exists>n. snap list_view (list_perform (CreateIssue p) s) = add_mset
        \<lparr>s_number = n, s_title = dget p ''title'', s_body = dget p ''body'', s_state = JStr ''open''\<rparr>
        (snap list_view s)" if "is_str (dget p ''body'')" for s p
    using that by (auto simp: snap_def list_view_def enumerate_append_eq text_of_def is_str_iff)
  show "snap list_view (list_perform (UpdateIssue n p) s) = image_mset (patch n p) (snap list_view s)"
    if "has_key p ''body'' \<longrightarrow> is_str (dget p ''body'')" for s n p
    using that by (rule list_update_snap)
  show "snap list_view (list_perform (CommentIssue n t) s) = snap list_view s" for s n t
    by simp
qed

theorem owned_issue_lifecycle_witness:
  "let s = fold list_perform [CreateIssue [(''title'', JStr ''t''), (''body'', JStr ''m''), (''labels'', JArr [])]] []
   in size (owned_issues ''m'' (snap list_view s)) \<le> 1 \<and>
     (\<exists>i \<in># owned_issues ''m'' (snap list_view s). s_state i = JStr ''open'')"
proof -
  let ?acts = "[CreateIssue [(''title'', JStr ''t''), (''body'', JStr ''m''), (''labels'', JArr [])]]"
  have "reconcile_owned_issue ''m'' ''t'' [] ''policy-drift'' ''clean'' ''m'' [] (list_view []) = Inr (CreatedIssue, ?acts)"
    by code_simp
  then have "audit_runs list_view list_perform ''m'' ''t'' [] (\<lambda>_. ''m'') [] ([] @ [''policy-drift''])
      (fold list_perform ?acts [])"
    by (intro audit_runs.report [OF audit_runs.start])
  from owned_issue_lifecycle [OF this list_service]
  show ?thesis unfolding Let_def by (simp add: owned_issues_def snap_def list_view_def)
qed

end
