(* ===== verification/Scope.thy ===== *)
theory Scope
  imports Filesystem
begin

text \<open>
  Model of \<open>.github/scripts/detect-pr-qualification-scope.py\<close>: the changed paths of a pull request
  switch four qualification scopes on. The set the code builds is a list here; only whether some
  path satisfies a predicate is ever asked of it.
\<close>

definition under :: "string \<Rightarrow> string \<Rightarrow> bool" where
  "under path pre \<longleftrightarrow> startswith path pre"

definition workflow_file :: "string \<Rightarrow> bool" where
  "workflow_file path \<longleftrightarrow>
     startswith path ''.github/workflows/'' \<and> endswith path ''.yml'' \<and>
     CHR ''/'' \<notin> set (drop (length ''.github/workflows/'') path)"

definition jberet_clean_path :: "string \<Rightarrow> bool" where
  "jberet_clean_path path \<longleftrightarrow>
     under path ''postgres-postgres/benchmark/java/'' \<or>
     path \<in> {''postgres-postgres/ci/validate-jberet-clean'', ''postgres-postgres/ci/validate-supply-chain'',
       ''.github/workflows/jberet-clean.yml''}"

definition jberet_crash_path :: "string \<Rightarrow> bool" where
  "jberet_crash_path path \<longleftrightarrow>
     path = ''.github/workflows/jberet-crash.yml'' \<or>
     under path ''postgres-postgres/benchmark/java/jberet/src/test/'' \<or>
     path \<in> {''postgres-postgres/benchmark/java/ci/validate-jberet-crash.py'',
       ''postgres-postgres/benchmark/java/ci/test-validate-jberet-crash.py'',
       ''postgres-postgres/ci/validate-jberet-crash-recovery''} \<or>
     under path ''postgres-postgres/benchmark/java/jberet/src/main/'' \<or>
     path \<in> {''postgres-postgres/benchmark/java/jberet/pom.xml'', ''postgres-postgres/Cargo.toml'',
       ''postgres-postgres/Cargo.lock'', ''postgres-postgres/docker-compose.yml''} \<or>
     under path ''postgres-postgres/src/'' \<or> under path ''postgres-postgres/migrations/''"

definition pr4_semantic_path :: "string \<Rightarrow> bool" where
  "pr4_semantic_path path \<longleftrightarrow>
     under path ''postgres-postgres/'' \<or>
     path \<in> {''.github/workflows/pr4-four-way-semantic.yml'',
       ''.github/workflows/benchmark-postgres-postgres-four-way.yml''}"

definition governance_exact :: "string list" where
  "governance_exact =
     [''deny.toml'', ''workloads.json'', ''.github/labels.json'', ''.github/dependabot.yml'',
      ''.github/repository-settings-policy.json'', ''.github/scripts/audit_issue.py'',
      ''.github/scripts/discover-supply-chain-workloads.py'', ''.github/scripts/validate-supply-chain.py'',
      ''.github/scripts/run-hardening-drift-audit.py'', ''.github/scripts/report-hardening-drift-audit.py'',
      ''.github/scripts/run-scheduled-supply-chain-audit.py'', ''.github/scripts/report-supply-chain-audit.py'',
      ''.github/scripts/reconcile-labels.py'', ''.github/scripts/validate-label-taxonomy.py'',
      ''.github/scripts/validate-workflow-security.py'', ''.github/scripts/test-hardening-drift-audit.py'',
      ''.github/scripts/test-cache-producer-guards.py'', ''.github/scripts/test-scheduled-supply-chain-audit.py'',
      ''.github/scripts/test-repository-settings-policy.py'', ''.github/scripts/test-reconcile-labels.py'',
      ''.github/scripts/test-label-taxonomy.py'']"

definition governance_path :: "string \<Rightarrow> bool" where
  "governance_path path \<longleftrightarrow>
     path \<in> set governance_exact \<or> under path ''.github/ISSUE_TEMPLATE/'' \<or> workflow_file path"

type_synonym scopes = "(string \<times> bool) list"

definition classify :: "string list \<Rightarrow> scopes" where
  "classify paths =
     (let normalized = map strip (filter (\<lambda>p. strip p \<noteq> []) paths)
      in [(''jberet_clean'', list_ex jberet_clean_path normalized),
          (''jberet_crash'', list_ex jberet_crash_path normalized),
          (''pr4_semantic'', list_ex pr4_semantic_path normalized),
          (''governance'', list_ex governance_path normalized)])"

text \<open>What \<open>main\<close> appends to the file named by \<open>--github-output\<close>.\<close>

definition output_line :: "string \<times> bool \<Rightarrow> string" where
  "output_line e = fst e @ ''='' @ (if snd e then ''true'' else ''false'') @ [line_feed]"

definition github_output :: "string \<Rightarrow> string" where
  "github_output files = concat (map output_line (classify (splitlines files)))"

section \<open>What a scope depends on\<close>

definition scope_paths :: "(string \<times> (string \<Rightarrow> bool)) list" where
  "scope_paths = [(''jberet_clean'', jberet_clean_path), (''jberet_crash'', jberet_crash_path),
     (''pr4_semantic'', pr4_semantic_path), (''governance'', governance_path)]"

definition on :: "string \<Rightarrow> string list \<Rightarrow> bool" where
  "on scope paths \<longleftrightarrow> map_of (classify paths) scope = Some True"

lemma classify_scope_paths:
  "classify paths = map (\<lambda>(k, P). (k, list_ex P (map strip (filter (\<lambda>p. strip p \<noteq> []) paths)))) scope_paths"
  by (simp add: classify_def scope_paths_def Let_def)

lemma on_iff:
  "on scope paths \<longleftrightarrow> (\<exists>P. map_of scope_paths scope = Some P \<and> (\<exists>p \<in> set paths. strip p \<noteq> [] \<and> P (strip p)))"
proof -
  have "map_of (map (\<lambda>(k, P). (k, f P)) xs) scope = map_option f (map_of xs scope)"
    for f :: "(string \<Rightarrow> bool) \<Rightarrow> bool" and xs
    by (induction xs) auto
  then show ?thesis
    unfolding on_def classify_scope_paths by (auto simp: list_ex_iff)
qed

lemma onI: "map_of scope_paths scope = Some P \<Longrightarrow> strip p = p \<Longrightarrow> p \<noteq> [] \<Longrightarrow> P p \<Longrightarrow> on scope [p]"
  by (simp add: on_iff)

lemma endswith_append: "endswith s p \<Longrightarrow> endswith (t @ s) p"
  by (auto simp: endswith_iff)

lemma workflow_file_name:
  assumes "endswith name ''.yml''" "CHR ''/'' \<notin> set name"
  shows "workflow_file (''.github/workflows/'' @ name)"
  using assms(2) endswith_append [OF assms(1), of "''.github/workflows/''"]
  by (simp add: workflow_file_def)

lemma under_trans: "under p q \<Longrightarrow> under q r \<Longrightarrow> under p r"
  by (auto simp: under_def startswith_def)

lemma crash_prefixes:
  "under ''postgres-postgres/benchmark/java/jberet/src/test/'' ''postgres-postgres/''"
  "under ''postgres-postgres/benchmark/java/jberet/src/main/'' ''postgres-postgres/''"
  "under ''postgres-postgres/src/'' ''postgres-postgres/''"
  "under ''postgres-postgres/migrations/'' ''postgres-postgres/''"
  by (simp_all add: under_def)

lemma crash_files:
  "p \<in> {''postgres-postgres/benchmark/java/ci/validate-jberet-crash.py'',
       ''postgres-postgres/benchmark/java/ci/test-validate-jberet-crash.py'',
       ''postgres-postgres/ci/validate-jberet-crash-recovery''} \<Longrightarrow> under p ''postgres-postgres/''"
  "p \<in> {''postgres-postgres/benchmark/java/jberet/pom.xml'', ''postgres-postgres/Cargo.toml'',
       ''postgres-postgres/Cargo.lock'', ''postgres-postgres/docker-compose.yml''} \<Longrightarrow> under p ''postgres-postgres/''"
  by (elim insertE emptyE; simp add: under_def)+

lemma crash_path_pr4:
  assumes "jberet_crash_path p"
  shows "pr4_semantic_path p \<or> p = ''.github/workflows/jberet-crash.yml''"
proof -
  have "under p ''postgres-postgres/'' \<or> p = ''.github/workflows/jberet-crash.yml''"
    using assms unfolding jberet_crash_path_def
    by (elim disjE)
      (assumption | (rule disjI1, (erule crash_files | (erule under_trans, rule crash_prefixes)))
        | (rule disjI2, assumption))+
  then show ?thesis unfolding pr4_semantic_path_def by (elim disjE) simp_all
qed

section \<open>Properties\<close>

text \<open>
  C19. The scopes of a pull request depend on its changed files one by one: a list of files switches
  a scope on exactly if some single file of it does, so neither their order, their repetition, blank
  lines nor the white space around a path matter, and further files never switch a scope off; and
  whatever makes the crash qualification run makes the four-way semantic one run too, unless it is
  the crash workflow itself, which governance covers.
\<close>

theorem scopes_pointwise:
  "(on scope (xs @ ys) \<longleftrightarrow> on scope xs \<or> on scope ys) \<and>
   (on scope xs \<longleftrightarrow> (\<exists>p \<in> set xs. on scope [p])) \<and>
   (on scope [p] \<longleftrightarrow> on scope [strip p]) \<and>
   (on ''jberet_crash'' xs \<longrightarrow> on ''pr4_semantic'' xs \<or> on ''governance'' xs)"
proof (intro conjI impI)
  show "on scope (xs @ ys) \<longleftrightarrow> on scope xs \<or> on scope ys"
    unfolding on_iff by auto
  show "on scope xs \<longleftrightarrow> (\<exists>p \<in> set xs. on scope [p])"
    unfolding on_iff by auto
  show "on scope [p] \<longleftrightarrow> on scope [strip p]"
    unfolding on_iff by (simp add: strip_strip)
  assume "on ''jberet_crash'' xs"
  then obtain p where p: "p \<in> set xs" "strip p \<noteq> []" "jberet_crash_path (strip p)"
    by (auto simp: on_iff scope_paths_def)
  have "governance_path ''.github/workflows/jberet-crash.yml''" by code_simp
  with crash_path_pr4 [OF p(3)] p(1,2)
  show "on ''pr4_semantic'' xs \<or> on ''governance'' xs"
    unfolding on_iff scope_paths_def by auto
qed

lemma crash_source_on: "on ''jberet_crash'' [''README.md'', ''postgres-postgres/src/main.rs'']"
  by code_simp

theorem scopes_pointwise_witness:
  "on ''pr4_semantic'' [''README.md'', ''postgres-postgres/src/main.rs''] \<or>
   on ''governance'' [''README.md'', ''postgres-postgres/src/main.rs'']"
  by (rule scopes_pointwise [THEN conjunct2, THEN conjunct2, THEN conjunct2, THEN mp, OF crash_source_on])

end
