(* ===== verification/Workflow_Security.thy ===== *)
theory Workflow_Security
  imports Scope
begin

text \<open>
  Model of \<open>.github/scripts/validate-workflow-security.py\<close>: external actions are pinned to full
  commit names, ephemeral workflows name an owner and a retirement, the label automation keeps its
  trusted boundary and the audits isolate their write permission. A workflow is its lines.
  \<open>main\<close> turns both an \<open>OSError\<close> and a violation into exit code 1.
\<close>

datatype (plugins only: code) pin_violation =
    NoImmutableRef string nat string
  | NotFullSha string nat string

datatype (plugins only: code) workflow_error =
    WorkflowOSError
  | PinViolations "pin_violation list"
  | EphemeralViolations "string list"
  | LostBoundary "string list"
  | BackfillNotOptIn
  | DryRunNotSafe
  | ChecksOutHead
  | MissingWorkflow string
  | DefaultPermissions string
  | MissingJob string
  | DetectCanWrite string
  | ReportNotIsolated string

section \<open>Reading workflows\<close>

definition workflows_dir :: "string list" where
  "workflows_dir = [''.github'', ''workflows'']"

definition workflow_names :: "node \<Rightarrow> string list" where
  "workflow_names repo =
     sort (filter (\<lambda>n. endswith n ''.yml'' \<or> endswith n ''.yaml'')
       (case get_dir repo workflows_dir of Some es \<Rightarrow> map fst es | None \<Rightarrow> []))"

definition read_lines :: "node \<Rightarrow> string \<Rightarrow> workflow_error + string list" where
  "read_lines repo name =
     ebind (want_some (get_file repo (workflows_dir @ [name])) WorkflowOSError) (\<lambda>f.
       Inr (splitlines (raw f)))"

definition commented :: "string \<Rightarrow> bool" where
  "commented line \<longleftrightarrow> startswith (lstrip line) ''#''"

definition active :: "string list \<Rightarrow> string list" where
  "active lines = map rstrip (filter (\<lambda>l. \<not> blank l \<and> \<not> commented l) lines)"

definition active_lines :: "node \<Rightarrow> string \<Rightarrow> workflow_error + string list" where
  "active_lines repo name = ebind (read_lines repo name) (\<lambda>ls. Inr (active ls))"

definition lines_text :: "string list \<Rightarrow> string" where
  "lines_text lines = join [line_feed] lines"

section \<open>Action pins\<close>

text \<open>\<open>^\s*(?:-\s*)?uses:\s*([^\s#]+)\<close>: the group, where the line matches.\<close>

definition uses_value :: "string \<Rightarrow> string option" where
  "uses_value line =
     (let s = lstrip line;
          s' = (if startswith s ''-'' then lstrip (tl s) else s);
          v = takeWhile (\<lambda>c. \<not> is_space c \<and> c \<noteq> CHR ''#'') (lstrip (drop 5 s'))
      in if startswith s' ''uses:'' \<and> v \<noteq> [] then Some v else None)"

definition local_action :: "string \<Rightarrow> bool" where
  "local_action v \<longleftrightarrow> startswith v ''./'' \<or> startswith v ''$/''"

text \<open>\<open>value.rsplit("@", 1)[1]\<close>.\<close>

definition action_ref :: "string \<Rightarrow> string" where
  "action_ref v = rev (takeWhile (\<lambda>c. c \<noteq> CHR ''@'') (rev v))"

definition check_pin :: "string \<Rightarrow> nat \<times> string \<Rightarrow> pin_violation list" where
  "check_pin name numbered =
     (case numbered of (lineno, line) \<Rightarrow>
        if commented line then []
        else
          (case uses_value line of
             None \<Rightarrow> []
           | Some v \<Rightarrow>
               if local_action v then []
               else if CHR ''@'' \<notin> set v then [NoImmutableRef name lineno v]
               else if hex_string 40 (action_ref v) then [] else [NotFullSha name lineno v]))"

definition pin_violations :: "node \<Rightarrow> string \<Rightarrow> workflow_error + pin_violation list" where
  "pin_violations repo name =
     ebind (read_lines repo name) (\<lambda>lines.
       Inr (concat (map (check_pin name) (enumerate 1 lines))))"

definition validate_action_pins :: "node \<Rightarrow> workflow_error + unit" where
  "validate_action_pins repo =
     ebind (emap (pin_violations repo) (workflow_names repo)) (\<lambda>vs.
       eguard (concat vs = []) (PinViolations (concat vs)))"

section \<open>Ephemeral workflows\<close>

definition ephemeral_words :: "string list" where
  "ephemeral_words = [''research'', ''temporary'', ''tmp'', ''experiment'']"

text \<open>\<open>^(?:research|temporary|tmp|experiment)(?:[-_].*)?\.(?:ya?ml)$\<close>, ignoring case.\<close>

definition ephemeral_rest :: "string \<Rightarrow> bool" where
  "ephemeral_rest r \<longleftrightarrow>
     r \<in> {''.yml'', ''.yaml''} \<or>
     (r \<noteq> [] \<and> hd r \<in> {CHR ''-'', CHR ''_''} \<and> (endswith (tl r) ''.yml'' \<or> endswith (tl r) ''.yaml''))"

definition ephemeral :: "string \<Rightarrow> bool" where
  "ephemeral name \<longleftrightarrow>
     list_ex (\<lambda>w. startswith (lower name) w \<and> ephemeral_rest (drop (length w) (lower name))) ephemeral_words"

text \<open>\<open>^\s*#\s*lifecycle-owner:\s*(\S.*)$\<close>, ignoring case; the group, stripped.\<close>

definition lifecycle_value :: "string \<Rightarrow> string \<Rightarrow> string option" where
  "lifecycle_value key line =
     (let s = lstrip line; s' = lstrip (tl s); v = lstrip (drop (length key) s')
      in if startswith s ''#'' \<and> startswith (lower s') key \<and> v \<noteq> [] then Some (strip v) else None)"

fun first_value :: "(string \<Rightarrow> string option) \<Rightarrow> string list \<Rightarrow> string" where
  "first_value f [] = []"
| "first_value f (line # lines) = (case f line of Some v \<Rightarrow> v | None \<Rightarrow> first_value f lines)"

definition lifecycle_violation :: "node \<Rightarrow> string \<Rightarrow> workflow_error + string list" where
  "lifecycle_violation repo name =
     (if \<not> ephemeral name then Inr []
      else
        ebind (read_lines repo name) (\<lambda>all_lines.
          let lines = take 40 all_lines;
              owner = first_value (lifecycle_value ''lifecycle-owner:'') lines;
              retire = first_value (lifecycle_value ''lifecycle-retire:'') lines
          in Inr (if owner = [] \<or> retire = [] then [name] else [])))"

definition validate_ephemeral_workflow_lifecycle :: "node \<Rightarrow> workflow_error + unit" where
  "validate_ephemeral_workflow_lifecycle repo =
     ebind (emap (lifecycle_violation repo) (workflow_names repo)) (\<lambda>vs.
       eguard (concat vs = []) (EphemeralViolations (concat vs)))"

section \<open>The label automation\<close>

definition quote_char :: char where
  "quote_char = char_of (39 :: nat)"

definition required_texts :: "string list" where
  "required_texts =
     [''pull_request_target:'',
      ''branches: [main]'',
      ''if: github.repository == '' @ [quote_char] @ ''luceat-lux-vestra/oxide-batch-workloads'' @ [quote_char],
      ''issues: write'',
      ''pull-requests: write'',
      ''ref: ${{ github.event.repository.default_branch }}'',
      ''persist-credentials: false'',
      ''python3 .github/scripts/reconcile-labels.py'',
      ''DRY_RUN: ${{ inputs.dry_run }}'',
      ''DEFAULT_BRANCH: ${{ github.event.repository.default_branch }}'',
      ''expected_ref=\"refs/heads/${DEFAULT_BRANCH}\"'',
      ''if [[ \"${DRY_RUN}\" != \"true\" && \"${GITHUB_REF}\" != \"${expected_ref}\" ]]; then'',
      ''Mutating backlog reconciliation must run from'']"

definition backfill_contract :: string where
  "backfill_contract = lines_text
     [''      backfill:'',
      ''        description: Reconcile all currently open issues and pull requests'',
      ''        required: true'', ''        type: boolean'', ''        default: false'']"

definition dry_run_contract :: string where
  "dry_run_contract = lines_text
     [''      dry_run:'',
      ''        description: Report proposed changes without mutating labels'',
      ''        required: true'', ''        type: boolean'', ''        default: true'']"

definition validate_label_automation_boundary :: "node \<Rightarrow> workflow_error + unit" where
  "validate_label_automation_boundary repo =
     ebind (active_lines repo ''label-automation.yml'') (\<lambda>lines.
     let text = lines_text lines; missing = filter (\<lambda>v. \<not> contains v text) required_texts in
     ebind (eguard (missing = []) (LostBoundary missing)) (\<lambda>_.
     ebind (eguard (contains backfill_contract text) BackfillNotOptIn) (\<lambda>_.
     ebind (eguard (contains dry_run_contract text) DryRunNotSafe) (\<lambda>_.
       eguard (\<not> (contains ''ref: ${{ github.event.pull_request.head.sha }}'' text \<or>
                    contains ''ref: ${{ github.head_ref }}'' text)) ChecksOutHead))))"

section \<open>The audits\<close>

definition job_header :: "string \<Rightarrow> string" where
  "job_header job = ''  '' @ job @ '':''"

text \<open>The lines from a job's header up to the next job's header, or to the end.\<close>

definition job_section :: "string list \<Rightarrow> string \<Rightarrow> string option \<Rightarrow> workflow_error + string list" where
  "job_section lines job next_job =
     (case dropWhile (\<lambda>l. l \<noteq> job_header job) lines of
        [] \<Rightarrow> Inl (MissingJob job)
      | start # rest \<Rightarrow>
          (case next_job of
             None \<Rightarrow> Inr (start # rest)
           | Some j \<Rightarrow>
               if job_header j \<in> set rest
               then Inr (start # takeWhile (\<lambda>l. l \<noteq> job_header j) rest) else Inl (MissingJob j)))"

definition check_audit_workflow :: "node \<Rightarrow> string \<Rightarrow> workflow_error + unit" where
  "check_audit_workflow repo name =
     ebind (active_lines repo name) (\<lambda>lines.
     ebind (eguard (''permissions: {}'' \<in> set (map strip lines)) (DefaultPermissions name)) (\<lambda>_.
     ebind (job_section lines ''detect'' (Some ''report'')) (\<lambda>detect.
     ebind (job_section lines ''report'' None) (\<lambda>report.
     ebind (eguard (\<not> contains ''issues: write'' (lines_text detect)) (DetectCanWrite name)) (\<lambda>_.
       eguard (contains ''issues: write'' (lines_text report)) (ReportNotIsolated name))))))"

definition validate_audit_permission_boundaries :: "node \<Rightarrow> workflow_error + unit" where
  "validate_audit_permission_boundaries repo =
     ebind (emap (\<lambda>name.
         if \<not> path_exists repo (workflows_dir @ [name])
         then eguard (name = ''hardening-drift-audit.yml'') (MissingWorkflow name)
         else check_audit_workflow repo name)
       [''scheduled-supply-chain-audit.yml'', ''hardening-drift-audit.yml'']) (\<lambda>_. Inr ())"

definition validate_workflows :: "node \<Rightarrow> workflow_error + unit" where
  "validate_workflows repo =
     ebind (validate_action_pins repo) (\<lambda>_.
     ebind (validate_ephemeral_workflow_lifecycle repo) (\<lambda>_.
     ebind (validate_label_automation_boundary repo) (\<lambda>_.
       validate_audit_permission_boundaries repo)))"

definition security_main :: "node \<Rightarrow> int" where
  "security_main repo = (if isOK (validate_workflows repo) then 0 else 1)"

section \<open>The specification\<close>

definition pinned :: "string \<Rightarrow> bool" where
  "pinned v \<longleftrightarrow> (\<exists>action r. v = action @ ''@'' @ r \<and> hex_string 40 r)"

definition line_pinned :: "string \<Rightarrow> bool" where
  "line_pinned line \<longleftrightarrow>
     (\<forall>v. \<not> commented line \<and> uses_value line = Some v \<longrightarrow> local_action v \<or> pinned v)"

definition pins_ok :: "node \<Rightarrow> bool" where
  "pins_ok repo \<longleftrightarrow>
     (\<forall>name \<in> set (workflow_names repo). \<exists>f. get_file repo (workflows_dir @ [name]) = Some f \<and>
        (\<forall>line \<in> set (splitlines (raw f)). line_pinned line))"

definition owned_ok :: "node \<Rightarrow> bool" where
  "owned_ok repo \<longleftrightarrow>
     (\<forall>name \<in> set (workflow_names repo). ephemeral name \<longrightarrow>
        (\<exists>f. get_file repo (workflows_dir @ [name]) = Some f \<and>
           (\<forall>key \<in> {''lifecycle-owner:'', ''lifecycle-retire:''}.
              \<exists>line \<in> set (take 40 (splitlines (raw f))). lifecycle_value key line \<noteq> None)))"

definition automation_ok :: "node \<Rightarrow> bool" where
  "automation_ok repo \<longleftrightarrow>
     (\<exists>f. get_file repo (workflows_dir @ [''label-automation.yml'']) = Some f \<and>
        (\<forall>v \<in> set (required_texts @ [backfill_contract, dry_run_contract]).
           contains v (lines_text (active (splitlines (raw f))))) \<and>
        (\<forall>v \<in> {''ref: ${{ github.event.pull_request.head.sha }}'', ''ref: ${{ github.head_ref }}''}.
           \<not> contains v (lines_text (active (splitlines (raw f))))))"

definition audit_lines_ok :: "string list \<Rightarrow> bool" where
  "audit_lines_ok lines \<longleftrightarrow>
     (\<exists>l \<in> set lines. strip l = ''permissions: {}'') \<and>
     (\<exists>before detect after. lines = before @ job_header ''detect'' # detect @ job_header ''report'' # after \<and>
        job_header ''detect'' \<notin> set before \<and> job_header ''report'' \<notin> set detect \<and>
        \<not> contains ''issues: write'' (lines_text (job_header ''detect'' # detect))) \<and>
     (\<exists>before report. lines = before @ job_header ''report'' # report \<and> job_header ''report'' \<notin> set before \<and>
        contains ''issues: write'' (lines_text (job_header ''report'' # report)))"

definition audits_ok :: "node \<Rightarrow> bool" where
  "audits_ok repo \<longleftrightarrow>
     path_exists repo (workflows_dir @ [''scheduled-supply-chain-audit.yml'']) \<and>
     (\<forall>name \<in> {''scheduled-supply-chain-audit.yml'', ''hardening-drift-audit.yml''}.
        path_exists repo (workflows_dir @ [name]) \<longrightarrow>
          (\<exists>f. get_file repo (workflows_dir @ [name]) = Some f \<and> audit_lines_ok (active (splitlines (raw f)))))"

section \<open>The validator meets it\<close>

lemma hex_no_at: "hex_string n r \<Longrightarrow> CHR ''@'' \<notin> set r"
proof
  assume "hex_string n r" "CHR ''@'' \<in> set r"
  then have "is_lower_hex (CHR ''@'')" by (auto simp: hex_string_def list_all_iff)
  moreover have "\<not> is_lower_hex (CHR ''@'')" by code_simp
  ultimately show False by simp
qed

lemma action_ref_append: "CHR ''@'' \<notin> set r \<Longrightarrow> action_ref (a @ ''@'' @ r) = r"
proof -
  assume "CHR ''@'' \<notin> set r"
  then have "takeWhile (\<lambda>c. c \<noteq> CHR ''@'') (rev r @ CHR ''@'' # rev a) = rev r"
    by (subst takeWhile_append2) auto
  then show ?thesis by (simp add: action_ref_def)
qed

lemma pinned_iff: "pinned v \<longleftrightarrow> CHR ''@'' \<in> set v \<and> hex_string 40 (action_ref v)"
proof
  assume "pinned v"
  then show "CHR ''@'' \<in> set v \<and> hex_string 40 (action_ref v)"
    by (auto simp: pinned_def action_ref_append [OF hex_no_at, simplified])
next
  assume v: "CHR ''@'' \<in> set v \<and> hex_string 40 (action_ref v)"
  then obtain a r where ar: "v = a @ CHR ''@'' # r" "CHR ''@'' \<notin> set r"
    using split_list_last by metis
  with v action_ref_append [OF ar(2), of a] show "pinned v"
    unfolding pinned_def by (intro exI [of _ a] exI [of _ r]) simp
qed

lemma check_pin_Nil: "check_pin name (n, line) = [] \<longleftrightarrow> line_pinned line"
  by (auto simp: check_pin_def line_pinned_def pinned_iff split: option.splits)

lemma concat_check_pin:
  "concat (map (check_pin name) (enumerate n lines)) = [] \<longleftrightarrow> (\<forall>line \<in> set lines. line_pinned line)"
  by (induction lines arbitrary: n) (auto simp: check_pin_Nil)

lemma emap_concat_Nil:
  "isOK (ebind (emap f xs) (\<lambda>vs. eguard (concat vs = []) (e vs))) \<longleftrightarrow> (\<forall>x \<in> set xs. f x = Inr [])"
proof -
  have "(\<exists>vs. emap f xs = Inr vs \<and> concat vs = []) \<longleftrightarrow> (\<forall>x \<in> set xs. f x = Inr [])"
  proof (induction xs)
    case Nil
    then show ?case by simp
  next
    case (Cons x xs)
    then show ?case by (cases "f x") (auto simp: ebind_Inr_iff)
  qed
  then show ?thesis by simp
qed

lemma read_lines_Inr:
  "read_lines repo name = Inr ls \<longleftrightarrow>
     (\<exists>f. get_file repo (workflows_dir @ [name]) = Some f \<and> ls = splitlines (raw f))"
  by (auto simp: read_lines_def monad_simps)

lemma active_lines_Inr:
  "active_lines repo name = Inr ls \<longleftrightarrow>
     (\<exists>f. get_file repo (workflows_dir @ [name]) = Some f \<and> ls = active (splitlines (raw f)))"
  by (auto simp: active_lines_def ebind_Inr_iff read_lines_Inr)

lemma action_pins_iff: "isOK (validate_action_pins repo) \<longleftrightarrow> pins_ok repo"
  unfolding validate_action_pins_def emap_concat_Nil pins_ok_def pin_violations_def ebind_Inr_iff read_lines_Inr
  using concat_check_pin by (auto simp del: concat_eq_Nil_conv)

lemma lstrip_not_blank: "lstrip s \<noteq> [] \<Longrightarrow> \<not> blank (lstrip s)"
  by (induction s) (auto simp: lstrip_def blank_def)

lemma lifecycle_value_nonempty: "lifecycle_value key line = Some v \<Longrightarrow> v \<noteq> []"
  using lstrip_not_blank by (auto simp: lifecycle_value_def Let_def strip_eq_Nil split: if_splits)

lemma first_value_Nil:
  "first_value (lifecycle_value key) lines = [] \<longleftrightarrow> \<not> (\<exists>line \<in> set lines. lifecycle_value key line \<noteq> None)"
  by (induction lines) (auto split: option.splits dest: lifecycle_value_nonempty)

lemma ephemeral_iff: "isOK (validate_ephemeral_workflow_lifecycle repo) \<longleftrightarrow> owned_ok repo"
proof -
  have "lifecycle_violation repo name = Inr [] \<longleftrightarrow> (ephemeral name \<longrightarrow>
        (\<exists>f. get_file repo (workflows_dir @ [name]) = Some f \<and>
           (\<forall>key \<in> {''lifecycle-owner:'', ''lifecycle-retire:''}.
              \<exists>line \<in> set (take 40 (splitlines (raw f))). lifecycle_value key line \<noteq> None)))" for name
    unfolding lifecycle_violation_def Let_def first_value_Nil
    by (auto simp: ebind_Inr_iff read_lines_Inr)
  then show ?thesis
    unfolding validate_ephemeral_workflow_lifecycle_def emap_concat_Nil owned_ok_def by simp
qed

lemma job_section_found:
  assumes "lines = before @ job_header job # rest" "job_header job \<notin> set before"
  shows "job_section lines job nxt =
    (case nxt of
       None \<Rightarrow> Inr (job_header job # rest)
     | Some j \<Rightarrow>
         if job_header j \<in> set rest
         then Inr (job_header job # takeWhile (\<lambda>l. l \<noteq> job_header j) rest) else Inl (MissingJob j))"
proof -
  have "dropWhile (\<lambda>l. l \<noteq> job_header job) lines = job_header job # rest"
    using assms by (subst assms(1), subst dropWhile_append2) auto
  then show ?thesis by (simp add: job_section_def)
qed

lemma job_section_missing: "job_header job \<notin> set lines \<Longrightarrow> job_section lines job nxt = Inl (MissingJob job)"
proof -
  assume "job_header job \<notin> set lines"
  then have "dropWhile (\<lambda>l. l \<noteq> job_header job) lines = []" by (auto simp: dropWhile_eq_Nil_conv)
  then show ?thesis by (simp only: job_section_def list.case)
qed

lemma first_occurrence:
  "x \<in> set xs \<Longrightarrow> \<exists>before after. xs = before @ x # after \<and> x \<notin> set before"
  by (rule split_list_first)

lemma job_section_None:
  "job_section lines job None = Inr ls \<longleftrightarrow>
     (\<exists>before rest. lines = before @ job_header job # rest \<and> job_header job \<notin> set before \<and> ls = job_header job # rest)"
proof
  assume l: "job_section lines job None = Inr ls"
  then have "job_header job \<in> set lines" using job_section_missing by force
  from first_occurrence [OF this] obtain before rest where
    *: "lines = before @ job_header job # rest" "job_header job \<notin> set before" by blast
  with l job_section_found [OF *, of None] show
    "\<exists>before rest. lines = before @ job_header job # rest \<and> job_header job \<notin> set before \<and> ls = job_header job # rest"
    by auto
next
  assume "\<exists>before rest. lines = before @ job_header job # rest \<and> job_header job \<notin> set before \<and> ls = job_header job # rest"
  then show "job_section lines job None = Inr ls" using job_section_found by fastforce
qed

lemma job_section_Some:
  "job_section lines job (Some j) = Inr ls \<longleftrightarrow>
     (\<exists>before body after. lines = before @ job_header job # body @ job_header j # after \<and>
        job_header job \<notin> set before \<and> job_header j \<notin> set body \<and> ls = job_header job # body)"
proof
  assume l: "job_section lines job (Some j) = Inr ls"
  then have "job_header job \<in> set lines" using job_section_missing by force
  from first_occurrence [OF this] obtain before rest where
    *: "lines = before @ job_header job # rest" "job_header job \<notin> set before" by blast
  have in_rest: "job_header j \<in> set rest" and ls: "ls = job_header job # takeWhile (\<lambda>l. l \<noteq> job_header j) rest"
    using l job_section_found [OF *, of "Some j"] by (simp_all split: if_splits)
  from first_occurrence [OF in_rest] obtain body after where
    b: "rest = body @ job_header j # after" "job_header j \<notin> set body" by blast
  then have "takeWhile (\<lambda>l. l \<noteq> job_header j) rest = body" by (subst b(1), subst takeWhile_append2) auto
  with * b ls show "\<exists>before body after. lines = before @ job_header job # body @ job_header j # after \<and>
        job_header job \<notin> set before \<and> job_header j \<notin> set body \<and> ls = job_header job # body"
    by blast
next
  assume "\<exists>before body after. lines = before @ job_header job # body @ job_header j # after \<and>
        job_header job \<notin> set before \<and> job_header j \<notin> set body \<and> ls = job_header job # body"
  then obtain before body after where *: "lines = before @ job_header job # (body @ job_header j # after)"
    "job_header job \<notin> set before" "job_header j \<notin> set body" "ls = job_header job # body" by blast
  have "takeWhile (\<lambda>l. l \<noteq> job_header j) (body @ job_header j # after) = body"
    using *(3) by (subst takeWhile_append2) auto
  with job_section_found [OF *(1,2), of "Some j"] *(4) show "job_section lines job (Some j) = Inr ls" by simp
qed

lemma check_audit_iff:
  "isOK (check_audit_workflow repo name) \<longleftrightarrow>
     (\<exists>f. get_file repo (workflows_dir @ [name]) = Some f \<and> audit_lines_ok (active (splitlines (raw f))))"
proof -
  have perm: "''permissions: {}'' \<in> set (map strip lines) \<longleftrightarrow> (\<exists>l \<in> set lines. strip l = ''permissions: {}'')" for lines
    by force
  show ?thesis
    unfolding check_audit_workflow_def isOK_ebind isOK_eguard eguard_Inr active_lines_Inr job_section_None
      job_section_Some perm audit_lines_ok_def
    by blast
qed

lemma audits_iff: "isOK (validate_audit_permission_boundaries repo) \<longleftrightarrow> audits_ok repo"
proof -
  have "isOK (if \<not> path_exists repo (workflows_dir @ [name])
         then eguard (name = ''hardening-drift-audit.yml'') (MissingWorkflow name)
         else check_audit_workflow repo name) \<longleftrightarrow>
      (path_exists repo (workflows_dir @ [name]) \<or> name = ''hardening-drift-audit.yml'') \<and>
      (path_exists repo (workflows_dir @ [name]) \<longrightarrow>
        (\<exists>f. get_file repo (workflows_dir @ [name]) = Some f \<and> audit_lines_ok (active (splitlines (raw f)))))" for name
    by (simp add: check_audit_iff)
  then show ?thesis
    unfolding validate_audit_permission_boundaries_def isOK_ebind isOK_simps simp_thms emap_ex audits_ok_def
    by (simp del: emap.simps)
qed

lemma automation_iff: "isOK (validate_label_automation_boundary repo) \<longleftrightarrow> automation_ok repo"
proof -
  have all: "(\<forall>v \<in> set (required_texts @ [backfill_contract, dry_run_contract]). contains v t) \<longleftrightarrow>
      filter (\<lambda>v. \<not> contains v t) required_texts = [] \<and> contains backfill_contract t \<and> contains dry_run_contract t" for t
    by (auto simp: filter_empty_conv)
  have none: "(\<forall>v \<in> {a, b}. \<not> contains v t) \<longleftrightarrow> \<not> (contains a t \<or> contains b t)" for a b t
    by auto
  show ?thesis
    unfolding validate_label_automation_boundary_def automation_ok_def all none Let_def isOK_ebind isOK_eguard
      eguard_Inr active_lines_Inr
    by blast
qed

lemma validate_workflows_iff:
  "isOK (validate_workflows repo) \<longleftrightarrow> pins_ok repo \<and> owned_ok repo \<and> automation_ok repo \<and> audits_ok repo"
  unfolding action_pins_iff [symmetric] ephemeral_iff [symmetric] automation_iff [symmetric] audits_iff [symmetric]
    validate_workflows_def isOK_ebind
  by (auto simp: isOK_iff)

lemma strip_ends:
  assumes "s \<noteq> []" "\<not> is_space (hd s)" "\<not> is_space (last s)"
  shows "strip s = s"
proof -
  have "dropWhile is_space s = s"
    using assms(1,2) by (cases s) auto
  moreover have "dropWhile is_space (rev s) = rev s"
    using assms(1,3) by (cases s rule: rev_cases) auto
  ultimately show ?thesis by (simp add: strip_def rstrip_def lstrip_def)
qed

lemma strip_yml: "endswith name ''.yml'' \<Longrightarrow> strip (''.github/workflows/'' @ name) = ''.github/workflows/'' @ name"
proof (rule strip_ends)
  have ns: "\<not> is_space (CHR ''.'')" "\<not> is_space (CHR ''l'')" by code_simp+
  then show "\<not> is_space (hd (''.github/workflows/'' @ name))" by simp
  assume "endswith name ''.yml''"
  then obtain t where "name = t @ ''.yml''" by (auto simp: endswith_iff)
  with ns show "\<not> is_space (last (''.github/workflows/'' @ name))" by simp
qed simp

section \<open>Properties\<close>

definition pin_tree :: "string list \<Rightarrow> string list \<Rightarrow> node" where
  "pin_tree yml yaml = NDir [(''.github'', NDir [(''workflows'', NDir
     [(''ci.yml'', NFile (text_file (lines_text yml))), (''extra.yaml'', NFile (text_file (lines_text yaml)))])])]"

text \<open>
  C18. The workflow validator exits 0 exactly if every uncommented \<open>uses:\<close> of every workflow is local
  or names a full commit, every ephemeral workflow states an owner and a retirement in its first
  forty lines, the label automation keeps each required text and checks out no pull-request head,
  and in each audit workflow the detection job, as a block of lines, cannot write issues while the
  reporting job can.
\<close>

theorem security_main_iff:
  "security_main repo = 0 \<longleftrightarrow> pins_ok repo \<and> owned_ok repo \<and> automation_ok repo \<and> audits_ok repo"
  unfolding security_main_def validate_workflows_iff [symmetric] by simp

text \<open>
  C20. A change to a \<open>.yml\<close> workflow switches the governance scope on, in which the workflow
  validator runs; but the validator also covers \<open>.yaml\<close> workflows, and there is a repository with a
  workflow whose pins it rejects while a change to that workflow switches no scope on at all.
\<close>

theorem workflow_scope_gap:
  "(\<forall>name. endswith name ''.yml'' \<and> CHR ''/'' \<notin> set name \<longrightarrow> on ''governance'' [''.github/workflows/'' @ name]) \<and>
   (\<exists>repo name. name \<in> set (workflow_names repo) \<and> validate_action_pins repo \<noteq> Inr () \<and>
      (\<forall>scope. \<not> on scope [''.github/workflows/'' @ name]))"
proof (intro conjI allI impI)
  fix name assume n: "endswith name ''.yml'' \<and> CHR ''/'' \<notin> set name"
  let ?p = "''.github/workflows/'' @ name"
  show "on ''governance'' [?p]"
  proof (rule onI)
    show "map_of scope_paths ''governance'' = Some governance_path" by (simp add: scope_paths_def)
    show "strip ?p = ?p" by (rule strip_yml) (rule conjunct1 [OF n])
    show "governance_path ?p"
      unfolding governance_path_def by (intro disjI2 workflow_file_name conjunct1 [OF n] conjunct2 [OF n])
  qed simp
next
  let ?repo = "pin_tree [] [''    - uses: actions/checkout@v4'']"
  have "''extra.yaml'' \<in> set (workflow_names ?repo)" "validate_action_pins ?repo \<noteq> Inr ()"
    by code_simp+
  moreover have "\<not> on scope [''.github/workflows/'' @ ''extra.yaml'']" for scope
  proof -
    have "list_all (\<lambda>e. snd e = False) (classify [''.github/workflows/'' @ ''extra.yaml''])"
      by code_simp
    then show ?thesis
      unfolding on_def list_all_iff by (auto dest!: map_of_SomeD)
  qed
  ultimately show "\<exists>repo name. name \<in> set (workflow_names repo) \<and> validate_action_pins repo \<noteq> Inr () \<and>
      (\<forall>scope. \<not> on scope [''.github/workflows/'' @ name])"
    by blast
qed

theorem workflow_scope_gap_witness: "on ''governance'' [''.github/workflows/'' @ ''ci.yml'']"
proof -
  have "endswith ''ci.yml'' ''.yml'' \<and> CHR ''/'' \<notin> set ''ci.yml''" by code_simp
  then show ?thesis using workflow_scope_gap by blast
qed

end
