(* ===== verification/Release_Policy.thy ===== *)
theory Release_Policy
  imports Workflow_Security
begin

text \<open>
  Model of \<open>tools/ci/verify_release_codeql_policy.py\<close>: the checks that no workflow publishes a
  release unless a CodeQL preflight job precedes and gates it. Every \<open>reject\<close> is a constructor of
  \<open>policy_error\<close>. The regular expressions are written out as scanners over the text; texts are
  ASCII, so that a word character is a letter, a digit or an underscore.
\<close>

datatype (plugins only: code) policy_error =
    CannotRead string
  | CannotLoad
  | KeySetDrift
  | PolicyField string
  | NoPublisherName
  | RoutineCodeql
  | ScannerMissing string
  | PreflightMissing string
  | PreflightPublishes
  | CiMissing string
  | PublisherWithoutMutation
  | PublisherCount "string list"
  | PublisherName string
  | PreflightJobCount
  | PreflightUntrusted
  | PreflightMutates
  | UnattributedMutation
  | BeforePreflight string
  | NotGated string

section \<open>Searching\<close>

definition word_char :: "char \<Rightarrow> bool" where
  "word_char c \<longleftrightarrow> is_lower_letter c \<or> is_upper_letter c \<or> is_digit c \<or> c = CHR ''_''"

text \<open>\<open>\b\<close> before and after a word character.\<close>

definition word_end :: "string \<Rightarrow> bool" where
  "word_end s \<longleftrightarrow> s = [] \<or> \<not> word_char (hd s)"

definition word_start :: "char option \<Rightarrow> bool" where
  "word_start prev \<longleftrightarrow> (case prev of None \<Rightarrow> True | Some c \<Rightarrow> \<not> word_char c)"

text \<open>\<open>t1\s+t2\s+...\<close> at the start of a text: what follows it.\<close>

fun match_words :: "string list \<Rightarrow> string \<Rightarrow> string option" where
  "match_words [] s = Some s"
| "match_words [t] s = (if startswith s t then Some (drop (length t) s) else None)"
| "match_words (t # u # ts) s =
     (if startswith s t \<and> drop (length t) s \<noteq> [] \<and> is_space (hd (drop (length t) s))
      then match_words (u # ts) (lstrip (drop (length t) s)) else None)"

text \<open>\<open>re.search\<close>: some position whose previous character and rest satisfy \<open>P\<close>.\<close>

fun search_from :: "(char option \<Rightarrow> string \<Rightarrow> bool) \<Rightarrow> char option \<Rightarrow> string \<Rightarrow> bool" where
  "search_from P prev [] \<longleftrightarrow> P prev []"
| "search_from P prev (c # s) \<longleftrightarrow> P prev (c # s) \<or> search_from P (Some c) s"

definition search :: "(char option \<Rightarrow> string \<Rightarrow> bool) \<Rightarrow> string \<Rightarrow> bool" where
  "search P s \<longleftrightarrow> search_from P None s"

text \<open>\<open>\bw1\s+w2\s+...\b\<close>, and \<open>\bprefix\<close> for a pattern that ends in a character that is no word character.\<close>

definition at_command :: "string list \<Rightarrow> char option \<Rightarrow> string \<Rightarrow> bool" where
  "at_command ts prev s \<longleftrightarrow>
     word_start prev \<and> (case match_words ts s of Some r \<Rightarrow> word_end r | None \<Rightarrow> False)"

definition at_prefix :: "string \<Rightarrow> char option \<Rightarrow> string \<Rightarrow> bool" where
  "at_prefix t prev s \<longleftrightarrow> word_start prev \<and> startswith s t"

definition mutation_commands :: "string list list" where
  "mutation_commands =
     [[''gh'', ''release'', ''create''], [''gh'', ''release'', ''upload''], [''gh'', ''release'', ''edit''],
      [''cargo'', ''publish''], [''maturin'', ''publish''], [''twine'', ''upload''], [''npm'', ''publish''],
      [''docker'', ''push'']]"

definition mutation_actions :: "string list" where
  "mutation_actions = [''softprops/action-gh-release@'', ''ncipollo/release-action@'', ''actions/create-release@'',
     ''actions/upload-release-asset@'']"

definition known_mutation :: "string \<Rightarrow> bool" where
  "known_mutation source \<longleftrightarrow>
     list_ex (\<lambda>ts. search (at_command ts) source) mutation_commands \<or>
     list_ex (\<lambda>t. search (at_prefix t) source) mutation_actions"

text \<open>
  \<open>\bgh\s+api\b[^\n]*(?:\\\r?\n[^\n]*)*\<close>. The first \<open>[^\n]*\<close> is greedy and nothing after it can
  fail, so it is never shortened: the group is tried at a line feed or at the end of the text.
\<close>

definition rest_of_line :: "string \<Rightarrow> string" where
  "rest_of_line s = takeWhile (\<lambda>c. c \<noteq> line_feed) s"

definition after_line :: "string \<Rightarrow> string" where
  "after_line s = dropWhile (\<lambda>c. c \<noteq> line_feed) s"

definition backslash :: char where
  "backslash = CHR 0x5C"

definition continuation_break :: "string \<Rightarrow> string option" where
  "continuation_break s =
     (if startswith s [backslash, line_feed] then Some (drop 2 s)
      else if startswith s [backslash, carriage_return, line_feed] then Some (drop 3 s)
      else None)"

function continuations :: "string \<Rightarrow> string" where
  "continuations s =
     (case continuation_break s of
        None \<Rightarrow> []
      | Some r \<Rightarrow> take (length s - length r) s @ rest_of_line r @ continuations (after_line r))"
  by pat_completeness auto
termination
proof (relation "measure length")
  fix s r
  assume c: "continuation_break s = Some r"
  have "length (after_line r) \<le> length r" by (simp add: after_line_def length_dropWhile_le)
  also have "length r < length s"
    using c by (auto simp: continuation_break_def startswith_iff split: if_splits)
  finally show "(after_line r, s) \<in> measure length" by simp
qed simp

declare continuations.simps [simp del]

text \<open>The commands: \<open>gh api\<close>, the rest of the line, and the continuations. After a match the scan goes on behind it.\<close>

definition api_command :: "char option \<Rightarrow> string \<Rightarrow> string option" where
  "api_command prev s =
     (if word_start prev
      then
        (case match_words [''gh'', ''api''] s of
           Some r \<Rightarrow>
             (if word_end r
              then Some (take (length s - length r) s @ rest_of_line r @ continuations (after_line r))
              else None)
         | None \<Rightarrow> None)
      else None)"

function api_commands :: "char option \<Rightarrow> string \<Rightarrow> string list" where
  "api_commands prev [] = []"
| "api_commands prev (c # s) =
     (case api_command prev (c # s) of
        None \<Rightarrow> api_commands (Some c) s
      | Some m \<Rightarrow> m # (if m = [] then [] else api_commands (Some (last m)) (drop (length m) (c # s))))"
  by pat_completeness auto
termination
  by (relation "measure (\<lambda>(prev, s). length s)") auto

text \<open>\<open>/releases(?:/|\b)\<close> and \<open>(?:-X|--method)\s+(?:POST|PATCH|DELETE)\b\<close>.\<close>

definition at_releases :: "char option \<Rightarrow> string \<Rightarrow> bool" where
  "at_releases prev s \<longleftrightarrow> startswith s ''/releases'' \<and> word_end (drop 9 s)"

definition at_method :: "char option \<Rightarrow> string \<Rightarrow> bool" where
  "at_method prev s \<longleftrightarrow>
     list_ex (\<lambda>flag. list_ex (\<lambda>m. case match_words [flag, m] s of Some r \<Rightarrow> word_end r | None \<Rightarrow> False)
       [''POST'', ''PATCH'', ''DELETE'']) [''-X'', ''--method'']"

definition contains_release_mutation :: "string \<Rightarrow> bool" where
  "contains_release_mutation source \<longleftrightarrow>
     known_mutation source \<or>
     list_ex (\<lambda>command. search at_releases command \<and> search at_method command) (api_commands None source)"

section \<open>Jobs of a workflow\<close>

text \<open>\<open>Path.read_text\<close> turns every line ending into a line feed.\<close>

fun universal_newlines :: "string \<Rightarrow> string" where
  "universal_newlines [] = []"
| "universal_newlines [c] = [if c = carriage_return then line_feed else c]"
| "universal_newlines (c # d # s) =
     (if c = carriage_return \<and> d = line_feed then line_feed # universal_newlines s
      else (if c = carriage_return then line_feed else c) # universal_newlines (d # s))"

definition read_source :: "node \<Rightarrow> string list \<Rightarrow> policy_error + string" where
  "read_source repo path =
     ebind (want_some (get_file repo path) (CannotRead (as_posix path))) (\<lambda>f. Inr (universal_newlines (raw f)))"

text \<open>The lines of a text between line feeds, each with its line feed.\<close>

fun keep_lines :: "string \<Rightarrow> string \<Rightarrow> string list" where
  "keep_lines acc [] = (if acc = [] then [] else [rev acc])"
| "keep_lines acc (c # s) =
     (if c = line_feed then rev (c # acc) # keep_lines [] s else keep_lines (c # acc) s)"

definition is_name_char :: "char \<Rightarrow> bool" where
  "is_name_char c \<longleftrightarrow> is_lower_letter c \<or> is_upper_letter c \<or> is_digit c \<or> c \<in> set ''_-''"

text \<open>A line that matches \<open>jobs:\s*$\<close>; white space that runs on over blank lines changes nothing.\<close>

definition jobs_line :: "string \<Rightarrow> bool" where
  "jobs_line l \<longleftrightarrow> startswith l ''jobs:'' \<and> blank (drop 5 l)"

text \<open>The name in a line that matches \<open>  ([A-Za-z0-9_-]+):\s*$\<close>.\<close>

definition job_id :: "string \<Rightarrow> string option" where
  "job_id l =
     (if startswith l ''  ''
      then
        (let name = takeWhile is_name_char (drop 2 l); r = dropWhile is_name_char (drop 2 l)
         in if name \<noteq> [] \<and> startswith r '':'' \<and> blank (drop 1 r) then Some name else None)
      else None)"

text \<open>Blocks in order: the id, the text from its line up to the next job, and the offset of the line.\<close>

fun job_blocks :: "nat \<Rightarrow> string list \<Rightarrow> (string \<times> string \<times> nat) list" where
  "job_blocks offset [] = []"
| "job_blocks offset (l # ls) =
     (case job_id l of
        None \<Rightarrow> job_blocks (offset + length l) ls
      | Some name \<Rightarrow>
          (name, concat (l # takeWhile (\<lambda>k. job_id k = None) ls), offset) # job_blocks (offset + length l) ls)"

definition top_level_job_blocks :: "string \<Rightarrow> (string \<times> string \<times> nat) list" where
  "top_level_job_blocks source =
     (let ls = keep_lines [] source;
          before_jobs = takeWhile (\<lambda>l. \<not> jobs_line l) ls
      in job_blocks (length (concat (take (length before_jobs + 1) ls))) (drop (length before_jobs + 1) ls))"

definition is_name :: "string \<Rightarrow> bool" where
  "is_name d \<longleftrightarrow> d \<noteq> [] \<and> list_all is_name_char d"

text \<open>The entries of a block sequence; \<open>None\<close> where the code gives up on the block.\<close>

fun needs_items :: "string list \<Rightarrow> string list option" where
  "needs_items [] = Some []"
| "needs_items (l # ls) =
     (if \<not> startswith l ''      '' then Some []
      else if \<not> startswith l ''      - '' then None
      else map_option ((#) (strip (drop 8 l))) (needs_items ls))"

definition needs_dependencies :: "string \<Rightarrow> string list \<Rightarrow> string list option" where
  "needs_dependencies line following =
     (let v = strip (drop 10 line) in
      if v \<noteq> []
      then Some (if startswith v ''['' \<and> endswith v '']'' then map strip (split_on (CHR '','') (butlast (tl v))) else [v])
      else needs_items following)"

definition needs_preflight :: "string \<Rightarrow> bool" where
  "needs_preflight block \<longleftrightarrow>
     (let is_needs = (\<lambda>l. startswith l ''    needs:''); ls = splitlines block in
      case filter is_needs ls of
        [line] \<Rightarrow>
          \<not> startswith line ''     '' \<and>
          (case needs_dependencies line (tl (dropWhile (\<lambda>l. \<not> is_needs l) ls)) of
             None \<Rightarrow> False
           | Some deps \<Rightarrow> deps \<noteq> [] \<and> list_all is_name deps \<and> distinct deps \<and> ''codeql-preflight'' \<in> set deps)
      | _ \<Rightarrow> False)"

section \<open>The policy file and the required texts\<close>

definition preflight_script :: string where
  "preflight_script = ''tools/ci/release_codeql_preflight.py''"

definition expected_mutations :: "string list" where
  "expected_mutations = [''draft-to-public'', ''github-release-create'', ''github-release-upload'',
     ''crates-io-publish'', ''package-registry-publish'']"

definition load_release_policy :: "node \<Rightarrow> policy_error + obj" where
  "load_release_policy repo =
     ebind (want_some (get_file repo [''.github'', ''release-codeql-policy.toml'']) CannotLoad) (\<lambda>f.
       want_some (toml_doc f) CannotLoad)"

definition validate_policy :: "node \<Rightarrow> policy_error + string" where
  "validate_policy repo =
     ebind (load_release_policy repo) (\<lambda>policy.
     ebind (eguard (exact_keys policy [''schema_version'', ''channel'', ''managed_publisher'', ''prepublication_required'',
              ''preflight_entrypoint'', ''operator_bypass_scope'', ''first_external_mutations'']) KeySetDrift) (\<lambda>_.
     ebind (eguard (py_eq (dget policy ''schema_version'') (JInt 1)) (PolicyField ''schema_version'')) (\<lambda>_.
     ebind (eguard (dget policy ''channel'' = JStr ''github-releases'') (PolicyField ''channel'')) (\<lambda>_.
     ebind (eguard (dget policy ''prepublication_required'' = JBool True) (PolicyField ''prepublication_required'')) (\<lambda>_.
     ebind (eguard (dget policy ''preflight_entrypoint'' = JStr preflight_script) (PolicyField ''preflight_entrypoint'')) (\<lambda>_.
     ebind (eguard (dget policy ''operator_bypass_scope'' = JStr ''owner-ui-api-governance'')
              (PolicyField ''operator_bypass_scope'')) (\<lambda>_.
     ebind (eguard (dget policy ''first_external_mutations'' = JArr (map JStr expected_mutations))
              (PolicyField ''first_external_mutations'')) (\<lambda>_.
     ebind (want_str (dget policy ''managed_publisher'') NoPublisherName) (\<lambda>publisher.
     ebind (eguard (publisher \<noteq> []) NoPublisherName) (\<lambda>_. Inr publisher))))))))))"

definition scanner_tokens :: "string list" where
  "scanner_tokens =
     [''run-name: CodeQL source ${{ inputs.candidate_sha || github.sha }}'', ''candidate_sha:'', ''schedule:'',
      ''language: [actions, python, rust, java-kotlin]'', ''build-mode: none'', ''security-events: write'',
      ''cancel-in-progress: false'', ''compare/${EXPECTED_SHA}...${remote_main}'', ''merge_base_commit.sha'',
      ''base_commit.sha'', ''source-identity.json'', ''codeql-source-${{ env.EXPECTED_SHA }}-${{ matrix.language }}'',
      ''release-codeql-verdict.py'', ''retention-days: 90'']"

definition routine_trigger :: "string \<Rightarrow> bool" where
  "routine_trigger l \<longleftrightarrow> list_ex (startswith l) [''  pull_request:'', ''  pull_request_target:'', ''  push:'']"

text \<open>\<open>for token in tokens: if token not in source: reject\<close>.\<close>

definition require_tokens :: "(string \<Rightarrow> policy_error) \<Rightarrow> string list \<Rightarrow> string \<Rightarrow> policy_error + unit" where
  "require_tokens err tokens source =
     (case filter (\<lambda>t. \<not> contains t source) tokens of [] \<Rightarrow> Inr () | t # _ \<Rightarrow> Inl (err t))"

definition validate_scanner :: "node \<Rightarrow> policy_error + unit" where
  "validate_scanner repo =
     ebind (read_source repo (workflows_dir @ [''codeql.yml''])) (\<lambda>source.
     ebind (eguard (\<not> list_ex routine_trigger (keep_lines [] source)) RoutineCodeql) (\<lambda>_.
       require_tokens ScannerMissing scanner_tokens source))"

definition preflight_tokens :: "string list" where
  "preflight_tokens = [''workflow_dispatch:'', ''candidate_sha:'', ''actions: write'', ''contents: read'',
     ''cancel-in-progress: false'', ''Release CodeQL preflight'', preflight_script, ''--timeout-seconds 4200'']"

definition validate_preflight :: "node \<Rightarrow> policy_error + unit" where
  "validate_preflight repo =
     ebind (read_source repo (workflows_dir @ [''release-codeql-preflight.yml''])) (\<lambda>source.
     ebind (require_tokens PreflightMissing preflight_tokens source) (\<lambda>_.
       eguard (\<not> contains_release_mutation source) PreflightPublishes))"

definition ci_tokens :: "string list" where
  "ci_tokens = [''release-codeql-verdict.py --self-test'', ''release_codeql_preflight.py --self-test'',
     ''verify_release_codeql_policy.py --self-test'', ''verify_release_codeql_policy.py'']"

definition validate_ci_regressions :: "node \<Rightarrow> policy_error + unit" where
  "validate_ci_regressions repo =
     ebind (read_source repo (workflows_dir @ [''ci.yml''])) (\<lambda>source. require_tokens CiMissing ci_tokens source)"

section \<open>Publishers\<close>

definition published_workflow :: "node \<Rightarrow> string \<Rightarrow> policy_error + (string \<times> string) list" where
  "published_workflow repo name =
     (if name \<in> {''codeql.yml'', ''release-codeql-preflight.yml''} then Inr []
      else
        ebind (read_source repo (workflows_dir @ [name])) (\<lambda>source.
          Inr (if contains_release_mutation source then [(name, source)] else [])))"

definition rel_name :: "string \<Rightarrow> string" where
  "rel_name name = ''.github/workflows/'' @ name"

definition check_mutation_job :: "nat \<Rightarrow> string \<times> string \<times> nat \<Rightarrow> policy_error + unit" where
  "check_mutation_job preflight_offset j =
     (case j of (job, block, offset) \<Rightarrow>
        ebind (eguard (preflight_offset < offset) (BeforePreflight job)) (\<lambda>_.
          eguard (needs_preflight block) (NotGated job)))"

definition check_publisher :: "string \<Rightarrow> policy_error + unit" where
  "check_publisher source =
     (let jobs = top_level_job_blocks source in
      case filter (\<lambda>(job, block, offset). job = ''codeql-preflight'') jobs of
        [(_, preflight, preflight_offset)] \<Rightarrow>
          ebind (eguard (contains preflight_script preflight \<and> contains ''actions: write'' preflight) PreflightUntrusted) (\<lambda>_.
          ebind (eguard (\<not> contains_release_mutation preflight) PreflightMutates) (\<lambda>_.
          let mutation_jobs =
            filter (\<lambda>(job, block, offset). job \<noteq> ''codeql-preflight'' \<and> contains_release_mutation block) jobs in
          ebind (eguard (mutation_jobs \<noteq> []) UnattributedMutation) (\<lambda>_.
          ebind (emap (check_mutation_job preflight_offset) mutation_jobs) (\<lambda>_. Inr ()))))
      | _ \<Rightarrow> Inl PreflightJobCount)"

definition validate_publishers :: "node \<Rightarrow> string \<Rightarrow> policy_error + unit" where
  "validate_publishers repo configured =
     ebind (emap (published_workflow repo) (workflow_names repo)) (\<lambda>found.
       case concat found of
         [] \<Rightarrow> eguard (configured = ''not-implemented'') PublisherWithoutMutation
       | [(name, source)] \<Rightarrow>
           ebind (eguard (configured = rel_name name) (PublisherName (rel_name name))) (\<lambda>_. check_publisher source)
       | publishers \<Rightarrow> Inl (PublisherCount (map (rel_name \<circ> fst) publishers)))"

definition verify_policy :: "node \<Rightarrow> policy_error + unit" where
  "verify_policy repo =
     ebind (validate_policy repo) (\<lambda>configured.
     ebind (validate_scanner repo) (\<lambda>_.
     ebind (validate_preflight repo) (\<lambda>_.
     ebind (validate_ci_regressions repo) (\<lambda>_.
       validate_publishers repo configured))))"

definition policy_main :: "node \<Rightarrow> int" where
  "policy_main repo = (if isOK (verify_policy repo) then 0 else 1)"

section \<open>The self test's publishers\<close>

definition unlines :: "string list \<Rightarrow> string" where
  "unlines ls = concat (map (\<lambda>l. l @ [line_feed]) ls)"

text \<open>A repository whose only workflow is the publisher.\<close>

definition publisher_repo :: "string list \<Rightarrow> node" where
  "publisher_repo ls = NDir [(''.github'', NDir [(''workflows'', NDir [(''release.yml'', NFile (text_file (unlines ls)))])])]"

definition preflight_job :: "string list" where
  "preflight_job = [''  codeql-preflight:'', ''    permissions:'', ''      actions: write'', ''      contents: read'',
     ''    run: python3 tools/ci/release_codeql_preflight.py'']"

definition good_publisher :: "string list" where
  "good_publisher = [''name: release'', ''jobs:'', ''  classify:'', ''    run: echo read-only''] @ preflight_job @
     [''  publish:'', ''    needs: [classify, codeql-preflight]'', ''    run: gh release create \"$TAG\"'']"

definition missing_preflight :: "string list" where
  "missing_preflight = [''name: release'', ''jobs:'', ''  classify:'', ''    run: echo read-only'',
     ''  publish:'', ''    needs: [classify, codeql-preflight]'', ''    run: gh release create \"$TAG\"'']"

definition not_gated :: "string list" where
  "not_gated = butlast (butlast good_publisher) @ [''    needs: classify'', ''    run: gh release create \"$TAG\"'']"

definition publish_first :: "string list" where
  "publish_first = [''name: release'', ''jobs:'', ''  publish:'', ''    needs: codeql-preflight'',
     ''    run: gh release create \"$TAG\"''] @ preflight_job"

definition publishing_preflight :: "string list" where
  "publishing_preflight = [''name: release'', ''jobs:'', ''  classify:'', ''    run: echo read-only''] @ butlast preflight_job @
     [''    run: |'', ''      python3 tools/ci/release_codeql_preflight.py'', ''      gh release create v0.0.0'',
      ''  publish:'', ''    needs: [classify, codeql-preflight]'', ''    run: gh release create \"$TAG\"'']"

text \<open>A publisher without any gate, on one line and continued on the next.\<close>

definition api_publisher :: "string list" where
  "api_publisher = [''name: release'', ''jobs:'', ''  publish:'', ''    run: |'',
     ''      gh api --method POST repos/o/r/releases -f tag_name=v1'']"

definition continued_publisher :: "string list" where
  "continued_publisher = [''name: release'', ''jobs:'', ''  publish:'', ''    run: |'',
     ''      gh api --method POST '' @ [backslash], ''        repos/o/r/releases -f tag_name=v1'']"

section \<open>What the checks guarantee\<close>

text \<open>The workflows other than the scanner and the preflight with a recognised mutation.\<close>

definition publishing :: "node \<Rightarrow> (string \<times> string) list" where
  "publishing repo = concat (map (\<lambda>name. case published_workflow repo name of Inr ps \<Rightarrow> ps | Inl _ \<Rightarrow> []) (workflow_names repo))"

definition readable_workflows :: "node \<Rightarrow> bool" where
  "readable_workflows repo \<longleftrightarrow>
     (\<forall>name \<in> set (workflow_names repo). name \<noteq> ''codeql.yml'' \<longrightarrow> name \<noteq> ''release-codeql-preflight.yml'' \<longrightarrow>
        is_file repo (workflows_dir @ [name]))"

definition job_gated :: "string \<Rightarrow> nat \<Rightarrow> string \<times> string \<times> nat \<Rightarrow> bool" where
  "job_gated source preflight_offset j \<longleftrightarrow>
     (case j of (job, block, offset) \<Rightarrow>
        preflight_offset < offset \<and> needs_preflight block \<and> prefix block (drop offset source))"

text \<open>One trusted preflight job that publishes nothing; every job that publishes comes after it and needs it.\<close>

definition gated :: "string \<Rightarrow> bool" where
  "gated source \<longleftrightarrow>
     (\<exists>preflight offset.
        filter (\<lambda>(job, block, offset). job = ''codeql-preflight'') (top_level_job_blocks source) =
          [(''codeql-preflight'', preflight, offset)] \<and>
        contains preflight_script preflight \<and> contains ''actions: write'' preflight \<and>
        \<not> contains_release_mutation preflight \<and>
        (\<exists>j \<in> set (top_level_job_blocks source). fst j \<noteq> ''codeql-preflight'' \<and> contains_release_mutation (fst (snd j))) \<and>
        (\<forall>j \<in> set (top_level_job_blocks source).
           fst j \<noteq> ''codeql-preflight'' \<longrightarrow> contains_release_mutation (fst (snd j)) \<longrightarrow> job_gated source offset j))"

lemma concat_keep_lines: "concat (keep_lines acc s) = rev acc @ s"
  by (induction acc s rule: keep_lines.induct) auto

lemma prefix_concat_takeWhile: "prefix (concat (takeWhile P ls)) (concat ls)"
  by (metis concat_append prefixI takeWhile_dropWhile_id)

lemma job_blocks_located:
  "(j, b, o') \<in> set (job_blocks off ls) \<Longrightarrow> off \<le> o' \<and> prefix b (drop (o' - off) (concat ls))"
proof (induction off ls rule: job_blocks.induct)
  case (1 off)
  then show ?case by simp
next
  case (2 off l ls)
  have tail: "off \<le> o' \<and> prefix b (drop (o' - off) (concat (l # ls)))"
    if "(j, b, o') \<in> set (job_blocks (off + length l) ls)"
  proof -
    have "off + length l \<le> o' \<and> prefix b (drop (o' - (off + length l)) (concat ls))"
      using 2 that by (cases "job_id l") auto
    then show ?thesis by (simp add: le_diff_conv2 add.commute diff_diff_left)
  qed
  show ?case
  proof (cases "job_id l")
    case None
    with 2(3) tail show ?thesis by simp
  next
    case (Some name)
    with 2(3) consider "(j, b, o') = (name, concat (l # takeWhile (\<lambda>k. job_id k = None) ls), off)" |
      "(j, b, o') \<in> set (job_blocks (off + length l) ls)" by auto
    then show ?thesis
    proof cases
      case 1
      then show ?thesis by (simp add: prefix_concat_takeWhile)
    next
      case 2
      then show ?thesis by (rule tail)
    qed
  qed
qed

lemma top_level_job_blocks_located:
  assumes "(j, b, off) \<in> set (top_level_job_blocks source)"
  shows "prefix b (drop off source)"
proof -
  let ?n = "length (takeWhile (\<lambda>l. \<not> jobs_line l) (keep_lines [] source)) + 1"
  have *: "source = concat (take ?n (keep_lines [] source)) @ concat (drop ?n (keep_lines [] source))"
    by (metis append_take_drop_id concat_append concat_keep_lines append_Nil rev.simps(1))
  have "length (concat (take ?n (keep_lines [] source))) \<le> off \<and>
      prefix b (drop (off - length (concat (take ?n (keep_lines [] source)))) (concat (drop ?n (keep_lines [] source))))"
    using job_blocks_located assms unfolding top_level_job_blocks_def Let_def by blast
  then show ?thesis by (subst *) (simp add: drop_append)
qed

lemma check_mutation_job_iff:
  "isOK (check_mutation_job o0 j) \<longleftrightarrow> o0 < snd (snd j) \<and> needs_preflight (fst (snd j))"
  by (cases j) (simp add: check_mutation_job_def)

lemma check_publisher_iff: "isOK (check_publisher source) \<longleftrightarrow> gated source"
proof -
  let ?jobs = "top_level_job_blocks source"
  let ?pre = "filter (\<lambda>(job, block, offset). job = ''codeql-preflight'') ?jobs"
  have gate: "job_gated source o0 j \<longleftrightarrow> isOK (check_mutation_job o0 j)" if "j \<in> set ?jobs" for o0 j
    using that top_level_job_blocks_located [of "fst j" "fst (snd j)" "snd (snd j)" source]
    by (simp add: job_gated_def check_mutation_job_iff split_beta)
  consider (one) p o0 where "?pre = [(''codeql-preflight'', p, o0)]" | (other) "\<nexists>p o0. ?pre = [(''codeql-preflight'', p, o0)]"
    by blast
  then show ?thesis
  proof cases
    case one
    then show ?thesis
      unfolding check_publisher_def gated_def Let_def
      by (auto simp: isOK_emap filter_empty_conv gate split_beta)
  next
    case other
    have "\<nexists>x. ?pre = [x]"
    proof
      assume "\<exists>x. ?pre = [x]"
      then obtain x where x: "?pre = [x]" by blast
      then have "x \<in> set ?pre" by simp
      then have "fst x = ''codeql-preflight''" by auto
      with x other show False by (metis prod.collapse)
    qed
    then have "check_publisher source = Inl PreflightJobCount"
      unfolding check_publisher_def Let_def by (auto split: list.splits)
    with other show ?thesis by (simp add: gated_def)
  qed
qed

lemma published_workflow_isOK:
  "isOK (published_workflow repo name) \<longleftrightarrow>
     name \<in> {''codeql.yml'', ''release-codeql-preflight.yml''} \<or> is_file repo (workflows_dir @ [name])"
  by (auto simp: published_workflow_def read_source_def is_file_def ebind_Inr_iff want_some_Inr)

lemma published_workflows:
  "emap (published_workflow repo) names = Inr found \<Longrightarrow>
     concat found = concat (map (\<lambda>name. case published_workflow repo name of Inr ps \<Rightarrow> ps | Inl _ \<Rightarrow> []) names)"
  by (induction names arbitrary: found) (auto simp: ebind_Inr_iff)

lemma validate_publishers_iff:
  "isOK (validate_publishers repo configured) \<longleftrightarrow>
     readable_workflows repo \<and>
     ((publishing repo = [] \<and> configured = ''not-implemented'') \<or>
      (\<exists>name source. publishing repo = [(name, source)] \<and> configured = rel_name name \<and> gated source))"
proof (cases "emap (published_workflow repo) (workflow_names repo)")
  case (Inl e)
  then have "\<not> isOK (emap (published_workflow repo) (workflow_names repo))" by simp
  then have "\<not> readable_workflows repo"
    by (auto simp: isOK_emap published_workflow_isOK readable_workflows_def)
  with Inl show ?thesis by (simp add: validate_publishers_def)
next
  case (Inr found)
  then have "isOK (emap (published_workflow repo) (workflow_names repo))" by simp
  then have "readable_workflows repo"
    by (auto simp: isOK_emap published_workflow_isOK readable_workflows_def)
  moreover have "concat found = publishing repo" using published_workflows [OF Inr] by (simp add: publishing_def)
  ultimately show ?thesis using Inr
    by (auto simp: validate_publishers_def check_publisher_iff split: list.splits)
qed

text \<open>A group is tried only where a line has ended, so no continuation line is ever part of a command.\<close>

lemma continuations_after_line: "continuations (after_line s) = []"
proof (cases "after_line s")
  case Nil
  then show ?thesis by (simp add: continuations.simps continuation_break_def)
next
  case (Cons c r)
  then have "\<not> c \<noteq> line_feed" unfolding after_line_def by (rule dropWhile_eq_Cons_conv [THEN iffD1, THEN conjunct2])
  then have "c \<noteq> backslash" by (simp add: line_feed_code backslash_def)
  then have "continuation_break (after_line s) = None" by (simp add: Cons continuation_break_def)
  then show ?thesis by (simp add: continuations.simps)
qed

lemma rest_of_line_split: "rest_of_line (rest_of_line a @ [backslash, line_feed] @ b) = rest_of_line a @ [backslash]"
proof -
  have "\<forall>c \<in> set (rest_of_line a). c \<noteq> line_feed" by (auto simp: rest_of_line_def dest: set_takeWhileD)
  moreover have "backslash \<noteq> line_feed" by (simp add: line_feed_code backslash_def)
  ultimately show ?thesis by (simp add: rest_of_line_def [of "_ @ _"] takeWhile_append2)
qed

section \<open>Properties\<close>

text \<open>
  C24. The policy check accepts a repository only if nothing in it publishes a release past the gate:
  either no workflow has a recognised mutation and the policy says so, or exactly one has, the
  policy names it, and in it every publishing job stands after the one trusted preflight job and
  lists it in its needs. The scan for publishers decides exactly this, for readable workflows.
\<close>

theorem publication_gated:
  "(isOK (verify_policy repo) \<longleftrightarrow>
     (\<exists>configured. validate_policy repo = Inr configured \<and> isOK (validate_scanner repo) \<and>
        isOK (validate_preflight repo) \<and> isOK (validate_ci_regressions repo) \<and> isOK (validate_publishers repo configured))) \<and>
   (isOK (validate_publishers repo configured) \<longleftrightarrow>
     readable_workflows repo \<and>
     ((publishing repo = [] \<and> configured = ''not-implemented'') \<or>
      (\<exists>name source. publishing repo = [(name, source)] \<and> configured = rel_name name \<and> gated source)))"
proof (rule conjI [OF _ validate_publishers_iff])
  show "isOK (verify_policy repo) \<longleftrightarrow>
     (\<exists>configured. validate_policy repo = Inr configured \<and> isOK (validate_scanner repo) \<and>
        isOK (validate_preflight repo) \<and> isOK (validate_ci_regressions repo) \<and> isOK (validate_publishers repo configured))"
    unfolding verify_policy_def isOK_ebind by (auto simp: isOK_iff)
qed

text \<open>
  C25. The scan for \<open>gh api\<close> commands never looks at a continuation line, although it means to: the
  command it inspects ends at the backslash. So a workflow that publishes through a \<open>gh api\<close> call
  split over two lines passes as a repository without a publisher, while the same call on one line
  is rejected.
\<close>

theorem continuation_not_inspected:
  "api_command None (''gh api '' @ rest_of_line a @ [backslash, line_feed] @ b) = Some (''gh api '' @ rest_of_line a @ [backslash]) \<and>
   validate_publishers (publisher_repo continued_publisher) ''not-implemented'' = Inr () \<and>
   validate_publishers (publisher_repo api_publisher) ''not-implemented'' = Inl (PublisherName ''.github/workflows/release.yml'')"
proof (intro conjI)
  let ?s = "'' '' @ rest_of_line a @ [backslash, line_feed] @ b"
  have m: "match_words [''gh'', ''api''] (''gh api'' @ ?s) = Some ?s"
    by (simp add: lstrip_def is_space_code)
  have "rest_of_line (CHR '' '' # r) = CHR '' '' # rest_of_line r" for r
    by (simp add: rest_of_line_def line_feed_code)
  then have "rest_of_line ?s = '' '' @ rest_of_line a @ [backslash]"
    using rest_of_line_split [of a b] by simp
  then show "api_command None (''gh api '' @ rest_of_line a @ [backslash, line_feed] @ b) =
      Some (''gh api '' @ rest_of_line a @ [backslash])"
    using m by (simp add: api_command_def word_start_def word_end_def word_char_def is_lower_letter_code
        is_upper_letter_code is_digit_code continuations_after_line del: match_words.simps)
next
  show "validate_publishers (publisher_repo continued_publisher) ''not-implemented'' = Inr ()" by code_simp
next
  show "validate_publishers (publisher_repo api_publisher) ''not-implemented'' = Inl (PublisherName ''.github/workflows/release.yml'')"
    by code_simp
qed

lemma good_publisher_accepted:
  "validate_publishers (publisher_repo good_publisher) ''.github/workflows/release.yml'' = Inr ()"
  by code_simp

lemma missing_preflight_rejected:
  "validate_publishers (publisher_repo missing_preflight) ''.github/workflows/release.yml'' = Inl PreflightJobCount"
  by code_simp

lemma not_gated_rejected:
  "validate_publishers (publisher_repo not_gated) ''.github/workflows/release.yml'' = Inl (NotGated ''publish'')"
  by code_simp

lemma publish_first_rejected:
  "validate_publishers (publisher_repo publish_first) ''.github/workflows/release.yml'' = Inl (BeforePreflight ''publish'')"
  by code_simp

lemma publishing_preflight_rejected:
  "validate_publishers (publisher_repo publishing_preflight) ''.github/workflows/release.yml'' = Inl PreflightMutates"
  by code_simp

text \<open>
  The script's own controls: the gated publisher is accepted, and it is rejected without its
  preflight, with a publishing job that does not need it, with one before it, and with a preflight
  that publishes.
\<close>

theorem publisher_controls:
  "map (\<lambda>p. validate_publishers (publisher_repo p) ''.github/workflows/release.yml'')
     [good_publisher, missing_preflight, not_gated, publish_first, publishing_preflight] =
   [Inr (), Inl PreflightJobCount, Inl (NotGated ''publish''), Inl (BeforePreflight ''publish''), Inl PreflightMutates]"
  by (simp add: good_publisher_accepted missing_preflight_rejected not_gated_rejected publish_first_rejected
      publishing_preflight_rejected)

end
