(* ===== verification/Actions.thy ===== *)
theory Actions
  imports Base
begin

text \<open>
  Programs that talk to a service: an action takes the history of requests so far, latest first,
  and returns its result or the exception it ends with, and the history after it. The service's
  answers are functions of the history, so that it may answer the same request differently at
  different times. \<open>grows P m\<close> says that every request the action makes satisfies \<open>P\<close>.
\<close>

type_synonym ('ev, 'e, 'a) interaction = "'ev list \<Rightarrow> ('e + 'a) \<times> 'ev list"

definition areturn :: "'a \<Rightarrow> ('ev, 'e, 'a) interaction" where
  "areturn x h = (Inr x, h)"

definition alift :: "'e + 'a \<Rightarrow> ('ev, 'e, 'a) interaction" where
  "alift m h = (m, h)"

definition abind :: "('ev, 'e, 'a) interaction \<Rightarrow> ('a \<Rightarrow> ('ev, 'e, 'b) interaction) \<Rightarrow> ('ev, 'e, 'b) interaction" where
  "abind m f h = (case m h of (r, h') \<Rightarrow> (case r of Inl e \<Rightarrow> (Inl e, h') | Inr x \<Rightarrow> f x h'))"

declare abind_def [code_unfold]

text \<open>One request: the answer depends on what was asked before.\<close>

definition ask :: "'ev \<Rightarrow> ('ev list \<Rightarrow> 'e + 'a) \<Rightarrow> ('ev, 'e, 'a) interaction" where
  "ask ev answer h = (answer h, ev # h)"

text \<open>\<open>try: m\<close> with a handler for every exception; the handler may raise again.\<close>

definition acatch :: "('ev, 'e, 'a) interaction \<Rightarrow> ('e \<Rightarrow> 'e) \<Rightarrow> ('ev, 'e, 'a) interaction" where
  "acatch m g h = (case m h of (r, h') \<Rightarrow> (map_err g r, h'))"

fun amap :: "('a \<Rightarrow> ('ev, 'e, 'b) interaction) \<Rightarrow> 'a list \<Rightarrow> ('ev, 'e, 'b list) interaction" where
  "amap f [] = areturn []"
| "amap f (x # xs) = abind (f x) (\<lambda>y. abind (amap f xs) (\<lambda>ys. areturn (y # ys)))"

text \<open>Filtering and \<open>any\<close> with a condition that may raise.\<close>

fun efilter :: "('a \<Rightarrow> 'e + bool) \<Rightarrow> 'a list \<Rightarrow> 'e + 'a list" where
  "efilter P [] = Inr []"
| "efilter P (x # xs) =
     ebind (P x) (\<lambda>b. ebind (efilter P xs) (\<lambda>ys. Inr (if b then x # ys else ys)))"

fun eany :: "('a \<Rightarrow> 'e + bool) \<Rightarrow> 'a list \<Rightarrow> 'e + bool" where
  "eany P [] = Inr False"
| "eany P (x # xs) = ebind (P x) (\<lambda>b. if b then Inr True else eany P xs)"

section \<open>Inversion\<close>

named_theorems action_simps \<open>inversion rules of actions that return\<close>
named_theorems grows_intros \<open>rules that bound the requests of an action\<close>

lemma areturn_Inr [simp, action_simps]: "areturn x h = (Inr y, h') \<longleftrightarrow> y = x \<and> h' = h"
  by (auto simp: areturn_def)

lemma alift_Inr [simp, action_simps]: "alift m h = (Inr y, h') \<longleftrightarrow> m = Inr y \<and> h' = h"
  by (auto simp: alift_def)

lemma abind_Inr [action_simps]:
  "abind m f h = (Inr y, h2) \<longleftrightarrow> (\<exists>x h1. m h = (Inr x, h1) \<and> f x h1 = (Inr y, h2))"
  by (auto simp: abind_def split: prod.split sum.split)

lemma ask_Inr [action_simps]: "ask ev answer h = (Inr y, h') \<longleftrightarrow> answer h = Inr y \<and> h' = ev # h"
  by (auto simp: ask_def)

lemma acatch_Inr [action_simps]: "acatch m g h = (Inr y, h') \<longleftrightarrow> m h = (Inr y, h')"
  by (cases "m h"; cases "fst (m h)") (auto simp: acatch_def)

lemma efilter_set: "efilter P xs = Inr ys \<Longrightarrow> y \<in> set ys \<longleftrightarrow> y \<in> set xs \<and> P y = Inr True"
proof (induction xs arbitrary: ys)
  case Nil
  then show ?case by simp
next
  case (Cons x xs)
  then obtain b zs where "P x = Inr b" "efilter P xs = Inr zs" "ys = (if b then x # zs else zs)"
    by (auto simp: ebind_Inr_iff)
  with Cons.IH [of zs] show ?case by (cases b) auto
qed

lemma eany_False: "eany P xs = Inr False \<longleftrightarrow> (\<forall>x \<in> set xs. P x = Inr False)"
  by (induction xs) (auto simp: ebind_Inr_iff)

section \<open>The requests of an action\<close>

definition grows :: "('ev \<Rightarrow> bool) \<Rightarrow> ('ev, 'e, 'a) interaction \<Rightarrow> bool" where
  "grows P m \<longleftrightarrow> (\<forall>h. \<exists>es. snd (m h) = es @ h \<and> list_all P es)"

lemma grows_areturn [grows_intros]: "grows P (areturn x)"
  by (simp add: grows_def areturn_def)

lemma grows_alift [grows_intros]: "grows P (alift m)"
  by (simp add: grows_def alift_def)

lemma grows_ask [grows_intros]: "P ev \<Longrightarrow> grows P (ask ev answer)"
  by (simp add: grows_def ask_def)

lemma grows_acatch [grows_intros]: "grows P m \<Longrightarrow> grows P (acatch m g)"
  by (simp add: grows_def acatch_def split_beta)

lemma grows_abind [grows_intros]:
  assumes "grows P m" "\<And>x. grows P (f x)"
  shows "grows P (abind m f)"
  unfolding grows_def
proof
  fix h
  obtain r h1 es where m: "m h = (r, h1)" "h1 = es @ h" "list_all P es"
    using assms(1) by (metis grows_def prod.collapse)
  show "\<exists>es. snd (abind m f h) = es @ h \<and> list_all P es"
  proof (cases r)
    case (Inl e)
    with m show ?thesis by (auto simp: abind_def)
  next
    case (Inr x)
    obtain es' where "snd (f x h1) = es' @ h1" "list_all P es'"
      using assms(2) [of x] by (auto simp: grows_def)
    with m Inr show ?thesis by (auto simp: abind_def)
  qed
qed

lemma grows_amap [grows_intros]: "(\<And>x. grows P (f x)) \<Longrightarrow> grows P (amap f xs)"
  by (induction xs) (auto intro!: grows_intros)

lemma grows_if [grows_intros]: "(b \<Longrightarrow> grows P m) \<Longrightarrow> (\<not> b \<Longrightarrow> grows P m') \<Longrightarrow> grows P (if b then m else m')"
  by simp

lemma grows_prod [grows_intros]: "(\<And>x y. grows P (f x y)) \<Longrightarrow> grows P (case p of (x, y) \<Rightarrow> f x y)"
  by (cases p) simp

lemma growsD: "grows P m \<Longrightarrow> m h = (r, h') \<Longrightarrow> \<exists>es. h' = es @ h \<and> list_all P es"
  by (metis grows_def snd_conv)

lemma grows_mono: "grows P m \<Longrightarrow> (\<And>e. P e \<Longrightarrow> Q e) \<Longrightarrow> grows Q m"
  unfolding grows_def by (metis list.pred_mono_strong)

end
