(* ===== verification/Floats.thy ===== *)
theory Floats
  imports Json
begin

text \<open>
  Python floats as the scripts use them: \<open>to_double\<close> rounds a rational to the nearest IEEE double,
  ties to even, with gradual underflow and overflow to infinity; \<open>float_of_str\<close> is \<open>float(s)\<close> on an
  ASCII string and \<open>py_float\<close> is \<open>float(v)\<close> on a decoded JSON value, \<open>None\<close> where it raises
  \<open>ValueError\<close>, \<open>TypeError\<close> or \<open>OverflowError\<close>. A negative zero is the rational zero.
\<close>

section \<open>Rounding to a double\<close>

text \<open>The number of binary digits of a positive integer.\<close>

function bit_length :: "int \<Rightarrow> int" where
  "bit_length n = (if n \<le> 0 then 0 else 1 + bit_length (n div 2))"
  by pat_completeness auto
termination
  by (relation "measure nat") auto

declare bit_length.simps [simp del]

text \<open>The integer nearest to \<open>n / d\<close> for a positive \<open>d\<close>, ties to even.\<close>

definition round_div :: "int \<Rightarrow> int \<Rightarrow> int" where
  "round_div n d =
     (let l = n div d; r = 2 * (n mod d)
      in if r < d then l else if d < r then l + 1 else if even l then l else l + 1)"

text \<open>\<open>a / b\<close> as a quotient by \<open>2\<^sup>e\<close>: numerator and denominator.\<close>

definition scaled :: "int \<Rightarrow> int \<Rightarrow> int \<Rightarrow> int \<times> int" where
  "scaled a b e = (if e \<le> 0 then (a * 2 ^ nat (- e), b) else (a, b * 2 ^ nat e))"

text \<open>
  The exponent of the last digit of a double near \<open>a / b\<close>: 52 below the leading digit, and never
  below \<open>-1074\<close>. The difference of the bit lengths is the leading exponent or one more.
\<close>

definition leading_exponent :: "int \<Rightarrow> int \<Rightarrow> int" where
  "leading_exponent a b =
     (let e = bit_length a - bit_length b; (n, d) = scaled a b e in if d \<le> n then e else e - 1)"

definition last_exponent :: "int \<Rightarrow> int \<Rightarrow> int" where
  "last_exponent a b = max (leading_exponent a b - 52) (- 1074)"

definition round_positive :: "int \<Rightarrow> int \<Rightarrow> pyfloat" where
  "round_positive a b =
     (let e = last_exponent a b; (n, d) = scaled a b e; m = round_div n d
      in if 1024 < e + bit_length m then PInf
         else Fin (if 0 \<le> e then of_int (m * 2 ^ nat e) else of_int m / of_int (2 ^ nat (- e))))"

fun neg_float :: "pyfloat \<Rightarrow> pyfloat" where
  "neg_float (Fin x) = Fin (- x)"
| "neg_float PInf = NInf"
| "neg_float NInf = PInf"
| "neg_float NaN = NaN"

definition to_double :: "rat \<Rightarrow> pyfloat" where
  "to_double x =
     (case quotient_of x of (a, b) \<Rightarrow>
        if a = 0 then Fin 0 else if 0 < a then round_positive a b else neg_float (round_positive (- a) b))"

section \<open>Parsing\<close>

definition digit_value :: "char \<Rightarrow> int" where
  "digit_value c = of_char c - 48"

definition digits_value :: "string \<Rightarrow> int" where
  "digits_value s = foldl (\<lambda>n c. 10 * n + digit_value c) 0 s"

text \<open>Underscores may stand between digits only; they are removed.\<close>

fun drop_underscores :: "char option \<Rightarrow> string \<Rightarrow> string option" where
  "drop_underscores prev [] = Some []"
| "drop_underscores prev (c # s) =
     (if c = CHR ''_''
      then
        (if (case prev of Some b \<Rightarrow> is_digit b | None \<Rightarrow> False) \<and> s \<noteq> [] \<and> is_digit (hd s)
         then drop_underscores (Some c) s else None)
      else map_option ((#) c) (drop_underscores (Some c) s))"

definition take_sign :: "string \<Rightarrow> bool \<times> string" where
  "take_sign s =
     (case s of
        [] \<Rightarrow> (False, [])
      | c # r \<Rightarrow> if c = CHR ''-'' then (True, r) else if c = CHR ''+'' then (False, r) else (False, s))"

text \<open>The exponent part: nothing, or \<open>e\<close>, a sign and digits.\<close>

definition parse_exponent :: "string \<Rightarrow> int option" where
  "parse_exponent s =
     (case s of
        [] \<Rightarrow> Some 0
      | c # r \<Rightarrow>
          if c \<noteq> CHR ''e'' then None
          else
            (case take_sign r of (neg, ds) \<Rightarrow>
               if ds = [] \<or> \<not> list_all is_digit ds then None
               else Some ((if neg then - 1 else 1) * digits_value ds)))"

definition parse_decimal :: "string \<Rightarrow> rat option" where
  "parse_decimal s =
     (let whole = takeWhile is_digit s; r = dropWhile is_digit s;
          pointed = (r \<noteq> [] \<and> hd r = CHR ''.'');
          frac = (if pointed then takeWhile is_digit (tl r) else []);
          r' = (if pointed then dropWhile is_digit (tl r) else r)
      in if whole = [] \<and> frac = [] then None
         else
           map_option (\<lambda>e.
             let m = digits_value (whole @ frac); k = e - int (length frac)
             in if 0 \<le> k then of_int (m * 10 ^ nat k) else of_int m / of_int (10 ^ nat (- k)))
             (parse_exponent r'))"

definition float_of_str :: "string \<Rightarrow> pyfloat option" where
  "float_of_str text =
     Option.bind (drop_underscores None (lower (strip text))) (\<lambda>s.
       case take_sign s of (neg, r) \<Rightarrow>
         map_option (\<lambda>x. if neg then neg_float x else x)
           (if r \<in> {''inf'', ''infinity''} then Some PInf
            else if r = ''nan'' then Some NaN
            else map_option to_double (parse_decimal r)))"

definition finite_float :: "pyfloat \<Rightarrow> pyfloat option" where
  "finite_float x = (case x of Fin q \<Rightarrow> Some (Fin q) | _ \<Rightarrow> None)"

fun py_float :: "json \<Rightarrow> pyfloat option" where
  "py_float (JStr s) = float_of_str s"
| "py_float (JInt i) = finite_float (to_double (of_int i))"
| "py_float (JBool b) = Some (Fin (if b then 1 else 0))"
| "py_float (JFloat x) = Some x"
| "py_float _ = None"

section \<open>Comparison\<close>

text \<open>Python's \<open><\<close> and \<open><=\<close> on floats; every comparison with NaN is false.\<close>

fun float_le :: "pyfloat \<Rightarrow> pyfloat \<Rightarrow> bool" where
  "float_le (Fin a) (Fin b) \<longleftrightarrow> a \<le> b"
| "float_le NaN _ \<longleftrightarrow> False"
| "float_le _ NaN \<longleftrightarrow> False"
| "float_le NInf _ \<longleftrightarrow> True"
| "float_le _ PInf \<longleftrightarrow> True"
| "float_le _ _ \<longleftrightarrow> False"

definition float_lt :: "pyfloat \<Rightarrow> pyfloat \<Rightarrow> bool" where
  "float_lt x y \<longleftrightarrow> float_le x y \<and> \<not> float_eq x y"

section \<open>Lemmas\<close>

lemma float_lt_Fin [simp]: "float_lt (Fin a) (Fin b) \<longleftrightarrow> a < b"
  by (auto simp: float_lt_def)

lemma round_div_near:
  assumes "0 < d"
  shows "2 * \<bar>round_div n d * d - n\<bar> \<le> d"
proof -
  have n: "n = (n div d) * d + n mod d" by simp
  have r: "0 \<le> n mod d" "n mod d < d" using assms by simp_all
  have "round_div n d * d - n = (if round_div n d = n div d then - (n mod d) else d - n mod d)"
    by (subst n) (auto simp: round_div_def Let_def algebra_simps)
  with r show ?thesis by (auto simp: round_div_def Let_def split: if_splits)
qed

lemma round_div_exact: "0 < d \<Longrightarrow> round_div (k * d) d = k"
  by (simp add: round_div_def)

section \<open>The error of a quotient\<close>

lemma bit_length_pos: "0 < n \<Longrightarrow> bit_length n = 1 + bit_length (n div 2)"
  by (subst bit_length.simps) simp

lemma bit_length_0 [simp]: "n \<le> 0 \<Longrightarrow> bit_length n = 0"
  by (subst bit_length.simps) simp

lemma bit_length_nonneg: "0 \<le> bit_length n"
  by (induction n rule: bit_length.induct) (subst bit_length.simps, simp)

lemma bit_length_bounds:
  assumes "0 < n"
  shows "1 \<le> bit_length n \<and> 2 ^ nat (bit_length n - 1) \<le> n \<and> n < 2 ^ nat (bit_length n)"
  using assms
proof (induction n rule: bit_length.induct)
  case (1 n)
  show ?case
  proof (cases "n div 2 = 0")
    case True
    with 1(2) have "n = 1" by simp
    then show ?thesis by (simp add: bit_length_pos)
  next
    case False
    with 1(2) have pos: "0 < n div 2" by simp
    let ?k = "bit_length (n div 2)"
    from 1 pos have IH: "1 \<le> ?k" "2 ^ nat (?k - 1) \<le> n div 2" "n div 2 < 2 ^ nat ?k" by simp_all
    have s: "nat ?k = Suc (nat (?k - 1))" "nat (1 + ?k) = Suc (nat ?k)" using IH(1) by simp_all
    have n: "2 * (n div 2) \<le> n" "n < 2 * (n div 2) + 2" by simp_all
    have "2 ^ nat ?k = 2 * (2 :: int) ^ nat (?k - 1)" "(2 :: int) ^ nat (1 + ?k) = 2 * 2 ^ nat ?k"
      using s by (metis power_Suc)+
    with IH n have "2 ^ nat ?k \<le> n" "n < 2 ^ nat (1 + ?k)" by linarith+
    then show ?thesis using IH(1) 1(2) by (simp add: bit_length_pos)
  qed
qed

lemma bit_length_le:
  assumes "n < 2 ^ k"
  shows "bit_length n \<le> int k"
proof (cases "0 < n")
  case True
  then have "2 ^ nat (bit_length n - 1) \<le> n" using bit_length_bounds by blast
  also note assms
  finally have "(2::int) ^ nat (bit_length n - 1) < 2 ^ k" .
  then have "nat (bit_length n - 1) < k" by simp
  then show ?thesis by linarith
qed simp

lemma powi_cases:
  "(2 :: rat) powi e = (if 0 \<le> e then of_int (2 ^ nat e) else 1 / of_int (2 ^ nat (- e)))"
  by (simp add: power_int_def inverse_eq_divide power_one_over)

lemma scaled_le:
  assumes "0 < b"
  shows "(case scaled a b e of (n, d) \<Rightarrow> d \<le> n) \<longleftrightarrow> 2 powi e \<le> (of_int a / of_int b :: rat)"
proof (cases "e \<le> 0")
  case True
  have "b \<le> a * 2 ^ nat (- e) \<longleftrightarrow> (of_int b :: rat) \<le> of_int (a * 2 ^ nat (- e))"
    by (simp only: of_int_le_iff)
  then show ?thesis using True assms by (auto simp: scaled_def powi_cases field_simps)
next
  case False
  have "b * 2 ^ nat e \<le> a \<longleftrightarrow> (of_int (b * 2 ^ nat e) :: rat) \<le> of_int a"
    by (simp only: of_int_le_iff)
  then show ?thesis using False assms by (auto simp: scaled_def powi_cases field_simps)
qed

lemma leading_exponent_le:
  assumes "0 < a" "0 < b"
  shows "2 powi leading_exponent a b \<le> (of_int a / of_int b :: rat)"
proof -
  let ?e = "bit_length a - bit_length b"
  have a: "2 ^ nat (bit_length a - 1) \<le> a" "1 \<le> bit_length a" using bit_length_bounds [OF assms(1)] by auto
  have b: "b < 2 ^ nat (bit_length b)" "1 \<le> bit_length b" using bit_length_bounds [OF assms(2)] by auto
  have "(2 ^ nat (bit_length a - 1) :: rat) \<le> of_int a"
    using a(1) by (metis of_int_le_iff of_int_numeral of_int_power)
  moreover have "(of_int b :: rat) \<le> 2 ^ nat (bit_length b)"
    using b(1) by (metis less_imp_le of_int_le_iff of_int_numeral of_int_power)
  ultimately have "2 ^ nat (bit_length a - 1) / 2 ^ nat (bit_length b) \<le> (of_int a / of_int b :: rat)"
    using assms by (intro frac_le) auto
  moreover have "(2 ^ nat (bit_length a - 1) / 2 ^ nat (bit_length b) :: rat) = 2 powi (?e - 1)"
  proof -
    have "(2 :: rat) powi (?e - 1) = 2 powi (bit_length a - 1) / 2 powi (bit_length b)"
      by (simp add: power_int_diff [symmetric] algebra_simps)
    then show ?thesis using a b by (simp add: power_int_def)
  qed
  ultimately show ?thesis
    using scaled_le [OF assms(2), of a ?e] by (auto simp: leading_exponent_def Let_def split: prod.splits)
qed

lemma leading_exponent_bits: "leading_exponent a b \<le> bit_length a - bit_length b"
  "bit_length a - bit_length b - 1 \<le> leading_exponent a b"
  by (simp_all add: leading_exponent_def Let_def split: prod.split)

text \<open>A quotient of positive integers below \<open>2\<^sup>5\<^sup>3\<close> is rounded by less than its last binary digit.\<close>

lemma round_positive_near:
  assumes "0 < a" "0 < b" "a < 2 ^ 53" "b < 2 ^ 53"
  shows "\<exists>m k. round_positive a b = Fin (of_int m / 2 ^ k) \<and> m = round_div (a * 2 ^ k) b \<and>
    of_int b * \<bar>of_int m / 2 ^ k - of_int a / of_int b\<bar> \<le> (of_int a / 2 ^ 53 :: rat)"
proof -
  let ?l = "leading_exponent a b"
  have bits: "1 \<le> bit_length a" "1 \<le> bit_length b" "bit_length a \<le> 53" "bit_length b \<le> 53"
    using assms bit_length_bounds [of a] bit_length_bounds [of b] bit_length_le [of a 53] bit_length_le [of b 53] by auto
  with leading_exponent_bits [of a b] have l: "?l \<le> 52" "- 53 \<le> ?l" by linarith+
  define k where "k = nat (52 - ?l)"
  define m where "m = round_div (a * 2 ^ k) b"
  have e: "last_exponent a b = - int k" "k \<le> 105" using l by (simp_all add: last_exponent_def k_def)
  have near: "2 * \<bar>m * b - a * 2 ^ k\<bar> \<le> b" using round_div_near [OF assms(2)] by (simp add: m_def)
  have "bit_length m \<le> 200"
  proof -
    have "(2::int) ^ k \<le> 2 ^ 105" using e(2) by (intro power_increasing) auto
    then have "a * 2 ^ k \<le> 2 ^ 53 * 2 ^ 105" using assms by (intro mult_mono) auto
    moreover have "m \<le> a * 2 ^ k + 1"
    proof (rule ccontr)
      assume "\<not> ?thesis"
      then have "(a * 2 ^ k + 2) * b \<le> m * b" using assms by (intro mult_right_mono) auto
      moreover have "a * 2 ^ k * 1 \<le> a * 2 ^ k * b" using assms by (intro mult_left_mono) auto
      ultimately show False using near assms(2) by (simp add: algebra_simps abs_if split: if_splits)
    qed
    ultimately have "m < 2 ^ 200" by simp
    then show ?thesis using bit_length_le [of m 200] by simp
  qed
  then have "round_positive a b = Fin (of_int m / 2 ^ k)"
    using e by (simp add: round_positive_def scaled_def Let_def m_def)
  moreover have "of_int b * \<bar>of_int m / 2 ^ k - of_int a / of_int b\<bar> \<le> (of_int a / 2 ^ 53 :: rat)"
  proof -
    have "of_int b * \<bar>of_int m / 2 ^ k - of_int a / of_int b\<bar> = \<bar>of_int (m * b - a * 2 ^ k)\<bar> / (2 ^ k :: rat)"
      using assms(2) by (simp add: abs_if field_simps)
    also have "\<dots> \<le> of_int b / 2 / 2 ^ k"
    proof -
      have "of_int (2 * \<bar>m * b - a * 2 ^ k\<bar>) \<le> (of_int b :: rat)" using near by (simp only: of_int_le_iff)
      then show ?thesis by (simp add: field_simps)
    qed
    also have "\<dots> = of_int b * 2 powi ?l / 2 ^ 53"
    proof -
      have "(2 :: rat) powi ?l = 2 powi (52 - int k)" using l by (simp add: k_def)
      then show ?thesis by (simp add: power_int_diff)
    qed
    also have "\<dots> \<le> of_int a / 2 ^ 53"
      using leading_exponent_le [OF assms(1,2)] assms(2) by (simp add: field_simps)
    finally show ?thesis .
  qed
  ultimately show ?thesis unfolding m_def by blast
qed

end
