(* ===== verification/Codeql_Verdict.thy ===== *)
theory Codeql_Verdict
  imports Filesystem Floats
begin

text \<open>
  Model of \<open>.github/scripts/release-codeql-verdict.py\<close>: the verdict on the SARIF document of one
  CodeQL language. Every \<open>reject\<close> is a constructor of \<open>verdict_error\<close>; \<open>Builtin\<close> stands for the
  \<open>TypeError\<close>, \<open>AttributeError\<close> and \<open>KeyError\<close> of unchecked accesses, on which the script exits
  non-zero as well. SHA-256 is a parameter.
\<close>

datatype (plugins only: code) verdict_error =
    UnexpectedLanguage
  | NotImmutableSha
  | SarifCount nat
  | NotJson
  | NotSarif
  | RunCount
  | NotCodeql
  | WrongCategory
  | NoInvocations
  | UnsuccessfulInvocation
  | MalformedNotifications
  | ToolError json
  | ExtractionWarning
  | ExtractionError
  | MalformedNotification
  | NoSourceLocation
  | InvalidSourceUri
  | NothingExpected
  | NothingExtracted
  | NotExtracted "string list"
  | NoPackMetadata
  | PackCount
  | NoRules
  | MalformedRule
  | RulesReduced "string list"
  | MalformedResults
  | UnknownRule json
  | InvalidRuleReference string
  | MalformedProperties
  | MalformedTags
  | NoSeverity string
  | UnparseableSeverity string
  | SeverityOutOfRange string
  | HighFindings "(string \<times> pyfloat) list"
  | Builtin py_error

definition languages :: "string list" where
  "languages = [''actions'', ''python'', ''rust'', ''java-kotlin'']"

definition packs :: "(string \<times> string) list" where
  "packs = [(''actions'', ''codeql/actions-queries''), (''python'', ''codeql/python-queries''),
     (''rust'', ''codeql/rust-queries''), (''java-kotlin'', ''codeql/java-queries'')]"

definition required_rules :: "(string \<times> string list) list" where
  "required_rules =
     [(''actions'',
       [''actions/untrusted-checkout-toctou/critical'', ''actions/untrusted-checkout-toctou/high'',
        ''actions/missing-workflow-permissions'', ''actions/cache-poisoning/direct-cache'',
        ''actions/cache-poisoning/poisonable-step'', ''actions/cache-poisoning/code-injection'',
        ''actions/artifact-poisoning/critical'', ''actions/untrusted-checkout/high'',
        ''actions/untrusted-checkout/critical'', ''actions/vulnerable-action'',
        ''actions/code-injection/critical'', ''actions/improper-access-control'',
        ''actions/secrets-in-artifacts'', ''actions/excessive-secrets-exposure'',
        ''actions/unmasked-secret-exposure'', ''actions/envvar-injection/critical'',
        ''actions/envpath-injection/critical'']),
      (''python'',
       [''py/use-of-input'', ''py/sql-injection'', ''py/full-ssrf'', ''py/command-line-injection'',
        ''py/code-injection'', ''py/unsafe-deserialization'', ''py/ldap-injection'',
        ''py/xpath-injection'', ''py/xxe'', ''py/template-injection'',
        ''py/paramiko-missing-host-key-validation'', ''py/path-injection'',
        ''py/insecure-temporary-file'', ''py/weak-sensitive-data-hashing'', ''py/regex-injection'',
        ''py/flask-debug'', ''py/csrf-protection-disabled'']),
      (''java-kotlin'',
       [''java/sql-injection'', ''java/command-line-injection'', ''java/unsafe-deserialization'',
        ''java/xss'', ''java/ssrf'', ''java/path-injection'', ''java/zipslip'', ''java/xxe'',
        ''java/ldap-injection'', ''java/jndi-injection'', ''java/weak-cryptographic-algorithm'',
        ''java/unsafe-hostname-verification'', ''java/insecure-trustmanager'',
        ''java/missing-jwt-signature-check'', ''java/spring-disabled-csrf-protection'',
        ''java/regex-injection'', ''java/unvalidated-url-forward'']),
      (''rust'',
       [''rust/insecure-cookie'', ''rust/xss'', ''rust/access-invalid-pointer'',
        ''rust/cleartext-transmission'', ''rust/weak-cryptographic-algorithm'',
        ''rust/weak-sensitive-data-hashing'', ''rust/uncontrolled-allocation-size'',
        ''rust/sql-injection'', ''rust/hard-coded-cryptographic-value'', ''rust/request-forgery'',
        ''rust/non-https-url'', ''rust/command-line-injection'', ''rust/disabled-certificate-check'',
        ''rust/path-injection'', ''rust/cleartext-logging'', ''rust/cleartext-storage-database'',
        ''rust/regex-injection''])]"

definition extraction :: "(string \<times> string \<times> string \<times> string option) list" where
  "extraction =
     [(''actions'', ''actions/diagnostics/successfully-extracted-files'', ''cli/expected-extracted-files/actions'', None),
      (''python'', ''py/diagnostics/successfully-extracted-files'', ''cli/expected-extracted-files/python'', Some ''py/diagnostics/extraction-warnings''),
      (''java-kotlin'', ''java/diagnostics/successfully-extracted-files'', ''cli/expected-extracted-files/java'', Some ''java/diagnostics/extraction-warnings''),
      (''rust'', ''rust/diagnostics/successfully-extracted-files'', ''cli/expected-extracted-files/rust'', Some ''rust/diagnostics/extraction-warnings'')]"

text \<open>The entry of a table for a language that \<open>languages\<close> lists.\<close>

definition entry_for :: "(string \<times> 'a) list \<Rightarrow> string \<Rightarrow> verdict_error + 'a" where
  "entry_for table language = want_some (map_of table language) (Builtin (KeyErr language))"

definition builtin :: "py_error + 'a \<Rightarrow> verdict_error + 'a" where
  "builtin m = map_err Builtin m"

section \<open>Extraction coverage\<close>

definition location_uri :: "json \<Rightarrow> verdict_error + string" where
  "location_uri location =
     ebind (if is_dict location
            then
              builtin (ebind (getattr_get location ''physicalLocation'' (JObj [])) (\<lambda>p.
                       ebind (getattr_get p ''artifactLocation'' (JObj [])) (\<lambda>a.
                         getattr_get a ''uri'' JNull)))
            else Inr JNull) (\<lambda>uri.
     ebind (want_str uri InvalidSourceUri) (\<lambda>u.
     ebind (eguard (u \<noteq> []) InvalidSourceUri) (\<lambda>_. Inr u)))"

text \<open>\<open>descriptor.get("id")\<close> of a notification; \<open>None\<close> where the code skips it.\<close>

definition descriptor_id :: "json \<Rightarrow> json" where
  "descriptor_id note = get_in (get_in note ''descriptor'') ''id''"

definition note_paths :: "string \<Rightarrow> json \<Rightarrow> verdict_error + string list" where
  "note_paths notification_id note =
     ebind (want_obj note MalformedNotification) (\<lambda>n.
       if \<not> (is_dict (dget n ''descriptor'') \<and> descriptor_id note = JStr notification_id) then Inr []
       else
         ebind (want_arr (dget n ''locations'') NoSourceLocation) (\<lambda>locations.
         ebind (eguard (locations \<noteq> []) NoSourceLocation) (\<lambda>_. emap location_uri locations)))"

definition notification_paths :: "json list \<Rightarrow> string \<Rightarrow> verdict_error + string list" where
  "notification_paths notes notification_id =
     ebind (emap (note_paths notification_id) notes) (\<lambda>pss. Inr (dedup (concat pss)))"

definition expected_source :: "string \<Rightarrow> string \<Rightarrow> bool" where
  "expected_source path language \<longleftrightarrow>
     (if language = ''actions''
      then startswith path ''.github/'' \<and> (endswith path ''.yml'' \<or> endswith path ''.yaml'')
      else if language = ''python'' then endswith path ''.py''
      else if language = ''java-kotlin'' then endswith path ''.java''
      else endswith path ''.rs'')"

definition invocation_notes :: "json \<Rightarrow> verdict_error + json list" where
  "invocation_notes invocation =
     ebind (want_obj invocation UnsuccessfulInvocation) (\<lambda>i.
     ebind (eguard (dget i ''executionSuccessful'' = JBool True) UnsuccessfulInvocation) (\<lambda>_.
       want_arr (get_default i ''toolExecutionNotifications'' (JArr [])) MalformedNotifications))"

definition extraction_errors :: "string list" where
  "extraction_errors = [''rust/diagnostics/extraction-errors'', ''java/diagnostics/extraction-errors'',
     ''py/diagnostics/extraction-errors'']"

definition check_note :: "string option \<Rightarrow> json \<Rightarrow> verdict_error + unit" where
  "check_note warning_id note =
     (let nid = descriptor_id note in
      ebind (eguard (get_in note ''level'' \<noteq> JStr ''error'') (ToolError nid)) (\<lambda>_.
      ebind (eguard (\<not> (\<exists>w \<in> set_option warning_id. nid = JStr w)) ExtractionWarning) (\<lambda>_.
      ebind (eguard (hashable nid) (Builtin TypeErr)) (\<lambda>_.
        eguard (nid \<notin> JStr ` set extraction_errors) ExtractionError))))"

definition coverage :: "obj \<Rightarrow> string \<Rightarrow> verdict_error + string list \<times> string list" where
  "coverage run language =
     ebind (entry_for extraction language) (\<lambda>(actual_id, expected_id, warning_id).
     ebind (want_arr (dget run ''invocations'') NoInvocations) (\<lambda>invocations.
     ebind (eguard (invocations \<noteq> []) NoInvocations) (\<lambda>_.
     ebind (emap invocation_notes invocations) (\<lambda>noteses.
     let notes = concat noteses in
     ebind (emap (check_note warning_id) notes) (\<lambda>_.
     ebind (notification_paths notes actual_id) (\<lambda>actual.
     ebind (notification_paths notes expected_id) (\<lambda>expected_paths.
     let expected = filter (\<lambda>p. expected_source p language) expected_paths in
     ebind (eguard (expected \<noteq> []) NothingExpected) (\<lambda>_.
     ebind (eguard (actual \<noteq> []) NothingExtracted) (\<lambda>_.
     let missing = sort (filter (\<lambda>p. p \<notin> set actual) expected) in
     ebind (eguard (missing = []) (NotExtracted missing)) (\<lambda>_.
       Inr (actual, expected)))))))))))"

section \<open>Rules and results\<close>

definition find_component :: "json list \<Rightarrow> string \<Rightarrow> verdict_error + nat \<times> obj" where
  "find_component extensions pack =
     (case filter (\<lambda>(i, x). get_in x ''name'' = JStr pack) (enumerate 0 extensions) of
        [(i, JObj x)] \<Rightarrow> Inr (i, x)
      | _ \<Rightarrow> Inl PackCount)"

type_synonym rule_table = "(string \<times> nat \<times> json) list"

definition add_rule :: "rule_table \<Rightarrow> nat \<times> json \<Rightarrow> verdict_error + rule_table" where
  "add_rule by_id e =
     (case e of (index, rule) \<Rightarrow>
        ebind (want_str (get_in rule ''id'') MalformedRule) (\<lambda>rid.
        ebind (eguard (rid \<noteq> [] \<and> map_of by_id rid = None) MalformedRule) (\<lambda>_.
          Inr (by_id @ [(rid, index, rule)]))))"

definition is_security :: "json list \<Rightarrow> bool" where
  "is_security tags \<longleftrightarrow>
     JStr ''security'' \<in> set tags \<or>
     list_ex (\<lambda>t. startswith t ''external/cwe/'' \<or> startswith t ''cwe/'') (strings_of tags)"

definition check_score :: "string \<Rightarrow> json \<Rightarrow> verdict_error + (string \<times> pyfloat) list" where
  "check_score rid score =
     ebind (want_some (py_float score) (UnparseableSeverity rid)) (\<lambda>v.
     ebind (eguard (\<not> float_eq v PInf \<and> \<not> float_eq v NInf \<and> float_le (Fin 0) v \<and> float_le v (Fin 10))
              (SeverityOutOfRange rid)) (\<lambda>_.
       Inr (if float_le (Fin 7) v then [(rid, v)] else [])))"

definition severity_scores :: "obj \<Rightarrow> obj \<Rightarrow> json list" where
  "severity_scores props rprops =
     concat (map (\<lambda>d. if has_key d ''security-severity'' then [dget d ''security-severity''] else []) [props, rprops])"

definition reference_ok :: "json \<Rightarrow> string \<Rightarrow> nat \<Rightarrow> nat \<Rightarrow> bool" where
  "reference_ok reference rid rule_index component_index \<longleftrightarrow>
     is_dict reference \<and> get_in reference ''id'' = JStr rid \<and>
     py_eq (get_in reference ''index'') (JInt (int rule_index)) \<and>
     is_dict (get_in reference ''toolComponent'') \<and>
     py_eq (get_in (get_in reference ''toolComponent'') ''index'') (JInt (int component_index))"

definition check_result :: "nat \<Rightarrow> rule_table \<Rightarrow> json \<Rightarrow> verdict_error + (string \<times> pyfloat) list" where
  "check_result component_index by_id result =
     ebind (want_str (get_in result ''ruleId'') (UnknownRule (get_in result ''ruleId''))) (\<lambda>rid.
     ebind (want_some (map_of by_id rid) (UnknownRule (JStr rid))) (\<lambda>(rule_index, rule).
     ebind (eguard (reference_ok (get_in result ''rule'') rid rule_index component_index) (InvalidRuleReference rid)) (\<lambda>_.
     ebind (builtin (getattr_get rule ''properties'' (JObj []))) (\<lambda>p.
     ebind (builtin (getattr_get result ''properties'' (JObj []))) (\<lambda>rp.
     ebind (want_obj p MalformedProperties) (\<lambda>props.
     ebind (want_obj rp MalformedProperties) (\<lambda>rprops.
     ebind (want_arr (get_default props ''tags'' (JArr [])) MalformedTags) (\<lambda>tags.
     let scores = severity_scores props rprops in
     ebind (eguard (\<not> (is_security tags \<and> scores = [])) (NoSeverity rid)) (\<lambda>_.
     ebind (emap (check_score rid) scores) (\<lambda>highs. Inr (concat highs)))))))))))"

record codeql_verdict =
  vd_candidate :: string
  vd_language :: string
  vd_sha256 :: string
  vd_results :: nat
  vd_rules :: nat
  vd_required :: nat
  vd_extracted :: nat
  vd_expected :: nat

definition read_sarif :: "node \<Rightarrow> verdict_error + filedata \<times> obj" where
  "read_sarif directory =
     (let files = (case get_dir directory [] of Some es \<Rightarrow> rglob_suffix ''.sarif'' es | None \<Rightarrow> []) in
      ebind (eguard (length files = 1) (SarifCount (length files))) (\<lambda>_.
      ebind (want_some (get_file (snd (hd files)) []) (SarifCount 1)) (\<lambda>f.
      ebind (eguard (raw f \<noteq> []) (SarifCount 1)) (\<lambda>_.
      ebind (want_some (json_doc f) NotJson) (\<lambda>v.
      ebind (want_obj v NotSarif) (\<lambda>data.
      ebind (eguard (dget data ''version'' = JStr ''2.1.0'') NotSarif) (\<lambda>_.
        Inr (f, data))))))))"

definition single_run :: "obj \<Rightarrow> verdict_error + obj" where
  "single_run data =
     ebind (want_arr (dget data ''runs'') RunCount) (\<lambda>runs.
     ebind (eguard (length runs = 1) RunCount) (\<lambda>_. want_obj (hd runs) RunCount))"

definition check_identity :: "obj \<Rightarrow> string \<Rightarrow> verdict_error + unit" where
  "check_identity run language =
     ebind (builtin (ebind (getattr_get (get_default run ''tool'' (JObj [])) ''driver'' (JObj [])) (\<lambda>d.
                       getattr_get d ''name'' JNull))) (\<lambda>name.
     ebind (eguard (name = JStr ''CodeQL'') NotCodeql) (\<lambda>_.
     ebind (builtin (getattr_get (get_default run ''automationDetails'' (JObj [])) ''id'' JNull)) (\<lambda>category.
     ebind (eguard (hashable category) (Builtin TypeErr)) (\<lambda>_.
       eguard (category \<in> {JStr (''/language:'' @ language), JStr (''/language:'' @ language @ ''/'')}) WrongCategory))))"

definition check_rules :: "obj \<Rightarrow> string \<Rightarrow> verdict_error + nat \<times> json list \<times> rule_table" where
  "check_rules run language =
     ebind (builtin (getattr_get (get_default run ''tool'' (JObj [])) ''extensions'' JNull)) (\<lambda>ext.
     ebind (want_arr ext NoPackMetadata) (\<lambda>extensions.
     ebind (entry_for packs language) (\<lambda>pack.
     ebind (find_component extensions pack) (\<lambda>(component_index, component).
     ebind (want_arr (dget component ''rules'') NoRules) (\<lambda>rules.
     ebind (eguard (rules \<noteq> []) NoRules) (\<lambda>_.
     ebind (efold add_rule [] (enumerate 0 rules)) (\<lambda>by_id.
     ebind (entry_for required_rules language) (\<lambda>required.
     let missing = sort (filter (\<lambda>r. map_of by_id r = None) required) in
     ebind (eguard (missing = []) (RulesReduced missing)) (\<lambda>_.
       Inr (component_index, rules, by_id))))))))))"

definition check_results :: "obj \<Rightarrow> nat \<Rightarrow> rule_table \<Rightarrow> verdict_error + json list" where
  "check_results run component_index by_id =
     ebind (want_arr (dget run ''results'') MalformedResults) (\<lambda>results.
     ebind (emap (check_result component_index by_id) results) (\<lambda>highs.
     ebind (eguard (concat highs = []) (HighFindings (concat highs))) (\<lambda>_. Inr results)))"

definition check_sarif :: "(string \<Rightarrow> string) \<Rightarrow> node \<Rightarrow> string \<Rightarrow> string \<Rightarrow> verdict_error + codeql_verdict" where
  "check_sarif sha256 directory language candidate =
     ebind (eguard (language \<in> set languages) UnexpectedLanguage) (\<lambda>_.
     ebind (eguard (hex_string 40 candidate) NotImmutableSha) (\<lambda>_.
     ebind (read_sarif directory) (\<lambda>(f, data).
     ebind (single_run data) (\<lambda>run.
     ebind (check_identity run language) (\<lambda>_.
     ebind (coverage run language) (\<lambda>(actual, expected).
     ebind (check_rules run language) (\<lambda>(component_index, rules, by_id).
     ebind (check_results run component_index by_id) (\<lambda>results.
     ebind (entry_for required_rules language) (\<lambda>required.
       Inr \<lparr>vd_candidate = candidate, vd_language = language, vd_sha256 = sha256 (raw f),
         vd_results = length results, vd_rules = length rules, vd_required = length required,
         vd_extracted = length actual, vd_expected = length expected\<rparr>)))))))))"

definition verdict_main :: "(string \<Rightarrow> string) \<Rightarrow> node \<Rightarrow> string \<Rightarrow> string \<Rightarrow> int" where
  "verdict_main sha256 directory language candidate =
     (if isOK (check_sarif sha256 directory language candidate) then 0 else 1)"

section \<open>The self test's documents\<close>

definition fixture_source :: "(string \<times> string) list" where
  "fixture_source = [(''actions'', ''.github/workflows/ci.yml''), (''python'', ''.github/scripts/validate-evidence.py''),
     (''rust'', ''csv-postgres/src/main.rs''),
     (''java-kotlin'', ''postgres-postgres/benchmark/java/ci/BenchmarkLauncher.java'')]"

definition fixture_note :: "string \<Rightarrow> string list \<Rightarrow> json" where
  "fixture_note nid uris = JObj [(''descriptor'', JObj [(''id'', JStr nid)]),
     (''locations'', JArr (map (\<lambda>u. JObj [(''physicalLocation'', JObj [(''artifactLocation'', JObj [(''uri'', JStr u)])])]) uris))]"

definition fixture_rule :: "string \<Rightarrow> string \<Rightarrow> json" where
  "fixture_rule severity rid = JObj [(''id'', JStr rid),
     (''properties'', JObj [(''tags'', JArr [JStr ''security'']), (''security-severity'', JStr severity)])]"

definition fixture_document :: "string \<Rightarrow> json list \<Rightarrow> json list \<Rightarrow> json list \<Rightarrow> json" where
  "fixture_document language rules notes results = JObj [(''version'', JStr ''2.1.0''), (''runs'', JArr [JObj
     [(''tool'', JObj [(''driver'', JObj [(''name'', JStr ''CodeQL'')]),
        (''extensions'', JArr [JObj [(''name'', JStr (the (map_of packs language))), (''rules'', JArr rules)]])]),
      (''automationDetails'', JObj [(''id'', JStr (''/language:'' @ language @ ''/''))]),
      (''invocations'', JArr [JObj [(''executionSuccessful'', JBool True), (''toolExecutionNotifications'', JArr notes)]]),
      (''results'', JArr results)]])]"

definition fixture_rules :: "string \<Rightarrow> bool \<Rightarrow> json list" where
  "fixture_rules language high =
     (case sort (the (map_of required_rules language)) of
        [] \<Rightarrow> []
      | r # rs \<Rightarrow> fixture_rule (if high then ''8.0'' else ''5.0'') r # map (fixture_rule ''5.0'') rs)"

definition fixture_notes :: "string \<Rightarrow> string list \<Rightarrow> json list" where
  "fixture_notes language extra =
     (case the (map_of extraction language) of (actual_id, expected_id, _) \<Rightarrow>
        [fixture_note actual_id [the (map_of fixture_source language)],
         fixture_note expected_id (the (map_of fixture_source language) # extra)])"

definition fixture :: "string \<Rightarrow> bool \<Rightarrow> json" where
  "fixture language high =
     fixture_document language (fixture_rules language high) (fixture_notes language [])
       (if \<not> high then []
        else [JObj [(''ruleId'', get_in (hd (fixture_rules language high)) ''id''),
          (''rule'', JObj [(''id'', get_in (hd (fixture_rules language high)) ''id''), (''index'', JInt 0),
             (''toolComponent'', JObj [(''index'', JInt 0)])])]])"

definition sarif_directory :: "json option \<Rightarrow> node" where
  "sarif_directory doc = NDir [(''result.sarif'', NFile ((text_file ''{}'')\<lparr>json_doc := doc\<rparr>))]"

definition case_without_rule :: json where
  "case_without_rule = fixture_document ''rust'' (butlast (fixture_rules ''rust'' False)) (fixture_notes ''rust'' []) []"

definition case_with_warning :: json where
  "case_with_warning = fixture_document ''rust'' (fixture_rules ''rust'' False)
     (fixture_notes ''rust'' [] @ [fixture_note ''rust/diagnostics/extraction-warnings'' [''src/bad.rs'']]) []"

definition case_incomplete :: json where
  "case_incomplete = fixture_document ''actions'' (fixture_rules ''actions'' False)
     (fixture_notes ''actions'' [''.github/workflows/missing.yml'']) []"

definition rejected_with :: "(verdict_error \<Rightarrow> bool) \<Rightarrow> (string \<Rightarrow> string) \<Rightarrow> json option \<Rightarrow> string \<Rightarrow> bool" where
  "rejected_with P sha256 doc language \<longleftrightarrow>
     (case check_sarif sha256 (sarif_directory doc) language (replicate 40 (CHR ''a'')) of Inl e \<Rightarrow> P e | Inr _ \<Rightarrow> False)"

definition accepted_fixture :: "(string \<Rightarrow> string) \<Rightarrow> string \<Rightarrow> bool" where
  "accepted_fixture sha256 language \<longleftrightarrow>
     (case check_sarif sha256 (sarif_directory (Some (fixture language False))) language (replicate 40 (CHR ''a'')) of
        Inl _ \<Rightarrow> False
      | Inr v \<Rightarrow> vd_required v = 17)"

definition self_test :: "(string \<Rightarrow> string) \<Rightarrow> bool" where
  "self_test sha256 \<longleftrightarrow>
     list_all (accepted_fixture sha256) languages \<and>
     rejected_with (\<lambda>e. case e of HighFindings _ \<Rightarrow> True | _ \<Rightarrow> False) sha256 (Some (fixture ''rust'' True)) ''rust'' \<and>
     rejected_with (\<lambda>e. case e of RulesReduced _ \<Rightarrow> True | _ \<Rightarrow> False) sha256 (Some case_without_rule) ''rust'' \<and>
     rejected_with (\<lambda>e. e = ExtractionWarning) sha256 (Some case_with_warning) ''rust'' \<and>
     rejected_with (\<lambda>e. case e of NotExtracted _ \<Rightarrow> True | _ \<Rightarrow> False) sha256 (Some case_incomplete) ''actions'' \<and>
     rejected_with (\<lambda>e. e = NotJson) sha256 None ''rust''"

section \<open>What a verdict guarantees\<close>

definition finding_ok :: "nat \<Rightarrow> rule_table \<Rightarrow> json \<Rightarrow> bool" where
  "finding_ok component_index by_id result \<longleftrightarrow>
     (\<exists>rid i rule props rprops tags.
        get_in result ''ruleId'' = JStr rid \<and> map_of by_id rid = Some (i, rule) \<and>
        reference_ok (get_in result ''rule'') rid i component_index \<and>
        getattr_get rule ''properties'' (JObj []) = Inr (JObj props) \<and>
        getattr_get result ''properties'' (JObj []) = Inr (JObj rprops) \<and>
        get_default props ''tags'' (JArr []) = JArr tags \<and>
        (is_security tags \<longrightarrow> severity_scores props rprops \<noteq> []) \<and>
        (\<forall>score \<in> set (severity_scores props rprops).
           \<exists>q. py_float score = Some (Fin q) \<and> 0 \<le> q \<and> q < 7))"

lemma check_score_Nil:
  "check_score rid score = Inr [] \<longleftrightarrow> (\<exists>q. py_float score = Some (Fin q) \<and> 0 \<le> q \<and> q < 7)"
proof (cases "py_float score")
  case None
  then show ?thesis by (simp add: check_score_def)
next
  case (Some v)
  then show ?thesis by (cases v) (auto simp: check_score_def ebind_Inr_iff)
qed

lemma emap_concat_empty:
  "(\<exists>vs. emap f xs = Inr vs \<and> concat vs = []) \<longleftrightarrow> (\<forall>x \<in> set xs. f x = Inr [])"
proof (induction xs)
  case Nil
  then show ?case by simp
next
  case (Cons x xs)
  then show ?case by (cases "f x") (auto simp: ebind_Inr_iff)
qed

lemma builtin_Inr [simp, monad_simps]: "builtin m = Inr x \<longleftrightarrow> m = Inr x"
  by (simp add: builtin_def)

lemma check_result_Nil: "check_result c by_id result = Inr [] \<longleftrightarrow> finding_ok c by_id result"
proof -
  have scores: "(\<exists>x. emap (check_score rid) scores = Inr x \<and> Inr (concat x) = (Inr [] :: verdict_error + _)) \<longleftrightarrow>
      (\<forall>score \<in> set scores. \<exists>q. py_float score = Some (Fin q) \<and> 0 \<le> q \<and> q < 7)" for rid scores
    using emap_concat_empty [of "check_score rid" scores] by (simp add: check_score_Nil)
  show ?thesis
    unfolding check_result_def finding_ok_def ebind_Inr_iff want_Inr want_some_Inr builtin_Inr Let_def split_paired_Ex
      prod.case scores eguard_Inr
    by (intro iffI; elim exE conjE; intro exI conjI; (assumption | blast))
qed

definition located :: "json list \<Rightarrow> string \<Rightarrow> string \<Rightarrow> bool" where
  "located notes nid p \<longleftrightarrow>
     (\<exists>note \<in> set notes. descriptor_id note = JStr nid \<and>
        (\<exists>ls. get_in note ''locations'' = JArr ls \<and> (\<exists>l \<in> set ls. location_uri l = Inr p)))"

lemma emap_set: "emap f xs = Inr ys \<Longrightarrow> y \<in> set ys \<longleftrightarrow> (\<exists>x \<in> set xs. f x = Inr y)"
proof (induction xs arbitrary: ys)
  case Nil
  then show ?case by simp
next
  case (Cons x xs)
  then obtain z zs where "f x = Inr z" "emap f xs = Inr zs" "ys = z # zs"
    by (auto simp: ebind_Inr_iff)
  with Cons.IH [of zs] show ?case by auto
qed

lemma emap_each: "emap f xs = Inr ys \<Longrightarrow> \<forall>x \<in> set xs. \<exists>y. f x = Inr y"
proof (induction xs arbitrary: ys)
  case Nil
  then show ?case by simp
next
  case (Cons x xs)
  then obtain z zs where "f x = Inr z" "emap f xs = Inr zs"
    by (auto simp: ebind_Inr_iff)
  with Cons.IH [of zs] show ?case by auto
qed

lemma note_paths_set:
  assumes "note_paths nid note = Inr ps"
  shows "p \<in> set ps \<longleftrightarrow> located [note] nid p"
proof -
  obtain n where n: "note = JObj n" using assms by (auto simp: note_paths_def monad_simps)
  show ?thesis
  proof (cases "is_dict (dget n ''descriptor'') \<and> descriptor_id note = JStr nid")
    case False
    have "descriptor_id note \<noteq> JStr nid"
      using False by (cases "dget n ''descriptor''") (auto simp: descriptor_id_def n)
    with False assms show ?thesis by (simp add: note_paths_def n located_def)
  next
    case True
    with assms obtain ls where ls: "dget n ''locations'' = JArr ls" "emap location_uri ls = Inr ps"
      by (auto simp: note_paths_def n ebind_Inr_iff want_Inr)
    with True emap_set [OF ls(2)] show ?thesis by (auto simp: located_def n)
  qed
qed

lemma notification_paths_set:
  assumes "notification_paths notes nid = Inr ps"
  shows "p \<in> set ps \<longleftrightarrow> located notes nid p"
proof -
  obtain pss where pss: "emap (note_paths nid) notes = Inr pss" "ps = dedup (concat pss)"
    using assms by (auto simp: notification_paths_def ebind_Inr_iff)
  have "p \<in> set ps \<longleftrightarrow> (\<exists>qs \<in> set pss. p \<in> set qs)" by (simp add: pss(2))
  also have "\<dots> \<longleftrightarrow> (\<exists>note \<in> set notes. \<exists>qs. note_paths nid note = Inr qs \<and> p \<in> set qs)"
    using emap_set [OF pss(1)] by blast
  also have "\<dots> \<longleftrightarrow> (\<exists>note \<in> set notes. located [note] nid p)"
    using emap_each [OF pss(1)] note_paths_set by blast
  also have "\<dots> \<longleftrightarrow> located notes nid p" by (simp add: located_def)
  finally show ?thesis .
qed

text \<open>The notifications of all invocations of a run, in order.\<close>

definition run_notes :: "obj \<Rightarrow> json list \<Rightarrow> bool" where
  "run_notes run notes \<longleftrightarrow>
     (\<exists>invocations noteses. dget run ''invocations'' = JArr invocations \<and>
        list_all2 (\<lambda>i ns. get_in i ''executionSuccessful'' = JBool True \<and>
          (\<exists>d. i = JObj d \<and> get_default d ''toolExecutionNotifications'' (JArr []) = JArr ns)) invocations noteses \<and>
        notes = concat noteses)"

definition coverage_ok :: "obj \<Rightarrow> string \<Rightarrow> bool" where
  "coverage_ok run language \<longleftrightarrow>
     (\<exists>notes actual_id expected_id warning_id.
        run_notes run notes \<and> map_of extraction language = Some (actual_id, expected_id, warning_id) \<and>
        (\<forall>note \<in> set notes. get_in note ''level'' \<noteq> JStr ''error'' \<and>
           descriptor_id note \<notin> JStr ` (set extraction_errors \<union> set_option warning_id)) \<and>
        (\<exists>p. located notes expected_id p \<and> expected_source p language) \<and>
        (\<forall>p. located notes expected_id p \<and> expected_source p language \<longrightarrow> located notes actual_id p))"

lemma check_note_ok:
  "isOK (check_note w note) \<Longrightarrow> get_in note ''level'' \<noteq> JStr ''error'' \<and>
     descriptor_id note \<notin> JStr ` (set extraction_errors \<union> set_option w)"
  by (auto simp: check_note_def Let_def)

lemma invocation_notes_Inr:
  "invocation_notes i = Inr ns \<Longrightarrow> get_in i ''executionSuccessful'' = JBool True \<and>
     (\<exists>d. i = JObj d \<and> get_default d ''toolExecutionNotifications'' (JArr []) = JArr ns)"
  by (auto simp: invocation_notes_def ebind_Inr_iff want_Inr)

lemma coverage_Inr:
  assumes "coverage run language = Inr r"
  shows "coverage_ok run language"
proof -
  obtain a x w invocations noteses actual paths where
    e: "map_of extraction language = Some (a, x, w)" and
    inv: "dget run ''invocations'' = JArr invocations" "emap invocation_notes invocations = Inr noteses" and
    chk: "\<forall>ns \<in> set noteses. \<forall>note \<in> set ns. isOK (check_note w note)" and
    ps: "notification_paths (concat noteses) a = Inr actual" "notification_paths (concat noteses) x = Inr paths" and
    ne: "filter (\<lambda>p. expected_source p language) paths \<noteq> []" and
    miss: "sort (filter (\<lambda>p. p \<notin> set actual) (filter (\<lambda>p. expected_source p language) paths)) = []"
    using assms unfolding coverage_def entry_for_def ebind_Inr_iff want_Inr want_some_Inr eguard_Inr Let_def
    by (auto simp: ebind_Inr_iff want_Inr simp del: emap.simps filter_filter)
  have "list_all2 (\<lambda>i ns. invocation_notes i = Inr ns) invocations noteses"
    using inv(2) by (simp only: emap_Inr_iff)
  then have "list_all2 (\<lambda>i ns. get_in i ''executionSuccessful'' = JBool True \<and>
      (\<exists>d. i = JObj d \<and> get_default d ''toolExecutionNotifications'' (JArr []) = JArr ns)) invocations noteses"
    by (rule list_all2_mono) (rule invocation_notes_Inr)
  then have "run_notes run (concat noteses)"
    using inv(1) unfolding run_notes_def by blast
  moreover have "\<forall>note \<in> set (concat noteses). get_in note ''level'' \<noteq> JStr ''error'' \<and>
      descriptor_id note \<notin> JStr ` (set extraction_errors \<union> set_option w)"
    using chk check_note_ok by auto
  moreover have "\<exists>p. located (concat noteses) x p \<and> expected_source p language"
  proof -
    from ne obtain p where "p \<in> set paths" "expected_source p language"
      by (auto simp: filter_empty_conv)
    then show ?thesis using notification_paths_set [OF ps(2)] by blast
  qed
  moreover have "\<forall>p. located (concat noteses) x p \<and> expected_source p language \<longrightarrow> located (concat noteses) a p"
  proof (intro allI impI)
    fix p assume "located (concat noteses) x p \<and> expected_source p language"
    then have "p \<in> set (filter (\<lambda>p. expected_source p language) paths)"
      using notification_paths_set [OF ps(2)] by simp
    moreover have "filter (\<lambda>p. p \<notin> set actual) (filter (\<lambda>p. expected_source p language) paths) = []"
      using miss by (metis set_empty set_sort)
    ultimately have "p \<in> set actual" unfolding filter_empty_conv by blast
    then show "located (concat noteses) a p" using notification_paths_set [OF ps(1)] by blast
  qed
  ultimately show ?thesis using e unfolding coverage_ok_def by blast
qed

lemma add_rule_Inr:
  "add_rule t (n, rule) = Inr t' \<Longrightarrow>
     \<exists>rid. get_in rule ''id'' = JStr rid \<and> map_of t rid = None \<and> t' = t @ [(rid, n, rule)]"
  by (auto simp: add_rule_def ebind_Inr_iff want_Inr)

lemma efold_add_rule:
  "efold add_rule t (enumerate n rules) = Inr t' \<Longrightarrow> distinct (map fst t) \<Longrightarrow>
     distinct (map fst t') \<and> length t' = length t + length rules \<and>
     (\<forall>rid i rule. (rid, i, rule) \<in> set t' \<longrightarrow> (rid, i, rule) \<in> set t \<or>
        (n \<le> i \<and> i - n < length rules \<and> rules ! (i - n) = rule \<and> get_in rule ''id'' = JStr rid))"
proof (induction rules arbitrary: n t)
  case Nil
  then show ?case by simp
next
  case (Cons rule rules)
  from Cons.prems(1) obtain t1 where "add_rule t (n, rule) = Inr t1" "efold add_rule t1 (enumerate (Suc n) rules) = Inr t'"
    by (auto simp: ebind_Inr_iff)
  with add_rule_Inr obtain rid where step: "get_in rule ''id'' = JStr rid" "map_of t rid = None"
    "efold add_rule (t @ [(rid, n, rule)]) (enumerate (Suc n) rules) = Inr t'"
    by blast
  have d: "distinct (map fst (t @ [(rid, n, rule)]))"
    using step(2) Cons.prems(2) by (simp add: map_of_eq_None_iff)
  from Cons.IH [OF step(3) d] have
    IH: "distinct (map fst t')" "length t' = length t + 1 + length rules"
      "\<And>rid' i r. (rid', i, r) \<in> set t' \<Longrightarrow> (rid', i, r) \<in> set (t @ [(rid, n, rule)]) \<or>
        (Suc n \<le> i \<and> i - Suc n < length rules \<and> rules ! (i - Suc n) = r \<and> get_in r ''id'' = JStr rid')"
    by auto
  have "(rid', i, r) \<in> set t \<or> (n \<le> i \<and> i - n < length (rule # rules) \<and> (rule # rules) ! (i - n) = r \<and> get_in r ''id'' = JStr rid')"
    if "(rid', i, r) \<in> set t'" for rid' i r
    using IH(3) [OF that] step(1) by (auto simp: nth_Cons' Suc_diff_le)
  with IH(1,2) show ?case by simp
qed

text \<open>The table of a rule list: every entry is the rule at its index, under its own identifier.\<close>

definition rule_table_of :: "json list \<Rightarrow> rule_table \<Rightarrow> bool" where
  "rule_table_of rules t \<longleftrightarrow> distinct (map fst t) \<and> length t = length rules \<and>
     (\<forall>(rid, i, rule) \<in> set t. i < length rules \<and> rules ! i = rule \<and> get_in rule ''id'' = JStr rid)"

lemma rule_table: "efold add_rule [] (enumerate 0 rules) = Inr t \<Longrightarrow> rule_table_of rules t"
  using efold_add_rule [of "[]" 0 rules t] by (auto simp: rule_table_of_def)

definition verdict_ok :: "(string \<Rightarrow> string) \<Rightarrow> node \<Rightarrow> string \<Rightarrow> codeql_verdict \<Rightarrow> bool" where
  "verdict_ok sha256 directory language v \<longleftrightarrow>
     (\<exists>f data run c extensions component rules by_id required results.
        read_sarif directory = Inr (f, data) \<and> vd_sha256 v = sha256 (raw f) \<and>
        dget data ''runs'' = JArr [JObj run] \<and> coverage_ok run language \<and>
        get_in (get_default run ''tool'' (JObj [])) ''extensions'' = JArr extensions \<and>
        c < length extensions \<and> extensions ! c = JObj component \<and>
        dget component ''name'' = JStr (the (map_of packs language)) \<and>
        dget component ''rules'' = JArr rules \<and> rule_table_of rules by_id \<and>
        map_of required_rules language = Some required \<and> set required \<subseteq> fst ` set by_id \<and>
        dget run ''results'' = JArr results \<and> list_all (finding_ok c by_id) results \<and>
        vd_results v = length results \<and> vd_rules v = length rules \<and> vd_required v = length required)"

lemma find_component_Inr:
  assumes "find_component extensions pack = Inr (c, component)"
  shows "c < length extensions \<and> extensions ! c = JObj component \<and> dget component ''name'' = JStr pack"
proof -
  have "filter (\<lambda>(i, x). get_in x ''name'' = JStr pack) (enumerate 0 extensions) = [(c, JObj component)]"
    using assms unfolding find_component_def by (auto split: list.splits prod.splits json.splits)
  then have "(c, JObj component) \<in> set (filter (\<lambda>(i, x). get_in x ''name'' = JStr pack) (enumerate 0 extensions))"
    by simp
  then show ?thesis by (auto simp: in_set_enumerate_eq)
qed

lemma check_rules_Inr:
  assumes "check_rules run language = Inr (c, rules, by_id)"
  shows "\<exists>extensions component required.
    get_in (get_default run ''tool'' (JObj [])) ''extensions'' = JArr extensions \<and>
    c < length extensions \<and> extensions ! c = JObj component \<and>
    dget component ''name'' = JStr (the (map_of packs language)) \<and>
    dget component ''rules'' = JArr rules \<and> rule_table_of rules by_id \<and>
    map_of required_rules language = Some required \<and> set required \<subseteq> fst ` set by_id"
proof -
  obtain extensions pack component required where
    ext: "getattr_get (get_default run ''tool'' (JObj [])) ''extensions'' JNull = Inr (JArr extensions)" and
    pack: "map_of packs language = Some pack" "find_component extensions pack = Inr (c, component)" and
    rules: "dget component ''rules'' = JArr rules" "efold add_rule [] (enumerate 0 rules) = Inr by_id" and
    req: "map_of required_rules language = Some required"
      "sort (filter (\<lambda>r. map_of by_id r = None) required) = []"
    using assms unfolding check_rules_def entry_for_def ebind_Inr_iff want_Inr want_some_Inr eguard_Inr Let_def builtin_Inr
    by (auto simp: ebind_Inr_iff want_Inr want_some_Inr simp del: efold.simps)
  have "get_in (get_default run ''tool'' (JObj [])) ''extensions'' = JArr extensions"
    using ext by (auto simp: getattr_get_Inr get_default_def dget_def split: option.splits)
  moreover have "set required \<subseteq> fst ` set by_id"
  proof -
    have "filter (\<lambda>r. map_of by_id r = None) required = []"
      using req(2) by (metis set_empty set_sort)
    then show ?thesis by (auto simp: filter_empty_conv map_of_eq_None_iff)
  qed
  ultimately show ?thesis
    using find_component_Inr [OF pack(2)] pack(1) rules rule_table req(1) by fastforce
qed

lemma check_sarif_steps:
  assumes "check_sarif sha256 directory language candidate = Inr v"
  shows "\<exists>fd run cov cr results required.
    language \<in> set languages \<and> hex_string 40 candidate \<and> read_sarif directory = Inr fd \<and>
    single_run (snd fd) = Inr run \<and> coverage run language = Inr cov \<and>
    check_rules run language = Inr cr \<and> check_results run (fst cr) (snd (snd cr)) = Inr results \<and>
    map_of required_rules language = Some required \<and>
    v = \<lparr>vd_candidate = candidate, vd_language = language, vd_sha256 = sha256 (raw (fst fd)),
         vd_results = length results, vd_rules = length (fst (snd cr)), vd_required = length required,
         vd_extracted = length (fst cov), vd_expected = length (snd cov)\<rparr>"
  using assms
  unfolding check_sarif_def ebind_Inr_iff eguard_Inr entry_for_def want_some_Inr split_beta sum.inject
  by (elim exE conjE) (hypsubst, (intro exI conjI; (assumption | rule refl)))

lemma check_sarif_sound:
  assumes "check_sarif sha256 directory language candidate = Inr v"
  shows "verdict_ok sha256 directory language v \<and> vd_candidate v = candidate \<and> hex_string 40 candidate \<and>
    vd_language v = language \<and> language \<in> set languages"
proof -
  obtain fd run cov cr results required where
    l: "language \<in> set languages" "hex_string 40 candidate" and
    f: "read_sarif directory = Inr fd" "single_run (snd fd) = Inr run" and
    cov: "coverage run language = Inr cov" and
    rules: "check_rules run language = Inr cr" and
    res: "check_results run (fst cr) (snd (snd cr)) = Inr results" and
    req: "map_of required_rules language = Some required" and
    v: "v = \<lparr>vd_candidate = candidate, vd_language = language, vd_sha256 = sha256 (raw (fst fd)),
         vd_results = length results, vd_rules = length (fst (snd cr)), vd_required = length required,
         vd_extracted = length (fst cov), vd_expected = length (snd cov)\<rparr>"
    using check_sarif_steps [OF assms] by (elim exE conjE)
  have run: "dget (snd fd) ''runs'' = JArr [JObj run]"
    using f(2) by (auto simp: single_run_def ebind_Inr_iff want_Inr length_Suc_conv)
  obtain highs where highs: "dget run ''results'' = JArr results"
      "emap (check_result (fst cr) (snd (snd cr))) results = Inr highs" "concat highs = []"
    using res by (auto simp: check_results_def ebind_Inr_iff want_Inr simp del: concat_eq_Nil_conv)
  then have list: "list_all (finding_ok (fst cr) (snd (snd cr))) results"
    using emap_concat_empty [of "check_result (fst cr) (snd (snd cr))" results] check_result_Nil
    by (auto simp: list_all_iff)
  have cr: "check_rules run language = Inr (fst cr, fst (snd cr), snd (snd cr))"
    using rules by simp
  have fd: "read_sarif directory = Inr (fst fd, snd fd)" using f(1) by simp
  obtain extensions component req' where c:
    "get_in (get_default run ''tool'' (JObj [])) ''extensions'' = JArr extensions"
    "fst cr < length extensions" "extensions ! fst cr = JObj component"
    "dget component ''name'' = JStr (the (map_of packs language))"
    "dget component ''rules'' = JArr (fst (snd cr))" "rule_table_of (fst (snd cr)) (snd (snd cr))"
    "map_of required_rules language = Some req'" "set req' \<subseteq> fst ` set (snd (snd cr))"
    using check_rules_Inr [OF cr] by (elim exE conjE)
  have "verdict_ok sha256 directory language v"
    unfolding verdict_ok_def
    by (intro exI [of _ "fst fd"] exI [of _ "snd fd"] exI [of _ run] exI [of _ "fst cr"] exI [of _ extensions]
        exI [of _ component] exI [of _ "fst (snd cr)"] exI [of _ "snd (snd cr)"] exI [of _ req'] exI [of _ results] conjI
        c fd run highs(1) list coverage_Inr [OF cov])
      (use c(7) req in \<open>simp_all add: v\<close>)
  with l show ?thesis by (simp add: v)
qed


lemma rust_fixture_verdict:
  "check_sarif (\<lambda>s. s) (sarif_directory (Some (fixture ''rust'' False))) ''rust'' (replicate 40 (CHR ''a'')) =
   Inr \<lparr>vd_candidate = replicate 40 (CHR ''a''), vd_language = ''rust'', vd_sha256 = ''{}'', vd_results = 0,
     vd_rules = 17, vd_required = 17, vd_extracted = 1, vd_expected = 1\<rparr>"
  by code_simp


lemma accepted_rust: "accepted_fixture (\<lambda>s. s) ''rust''"
  by (simp add: accepted_fixture_def rust_fixture_verdict)

lemma accepted_scripts: "accepted_fixture (\<lambda>s. s) ''actions''" "accepted_fixture (\<lambda>s. s) ''python''"
  by code_simp+

lemma accepted_java: "accepted_fixture (\<lambda>s. s) ''java-kotlin''"
  by code_simp

lemma rejected_high:
  "rejected_with (\<lambda>e. case e of HighFindings _ \<Rightarrow> True | _ \<Rightarrow> False) (\<lambda>s. s) (Some (fixture ''rust'' True)) ''rust''"
  by code_simp

lemma rejected_reduced:
  "rejected_with (\<lambda>e. case e of RulesReduced _ \<Rightarrow> True | _ \<Rightarrow> False) (\<lambda>s. s) (Some case_without_rule) ''rust''"
  by code_simp

lemma rejected_extraction:
  "rejected_with (\<lambda>e. e = ExtractionWarning) (\<lambda>s. s) (Some case_with_warning) ''rust''"
  "rejected_with (\<lambda>e. case e of NotExtracted _ \<Rightarrow> True | _ \<Rightarrow> False) (\<lambda>s. s) (Some case_incomplete) ''actions''"
  "rejected_with (\<lambda>e. e = NotJson) (\<lambda>s. s) None ''rust''"
  by code_simp+

text \<open>the script's own self test passes: the four clean documents are accepted, and the high
  finding, the missing rule, the extraction warning, the file that was not extracted and the
  malformed document are rejected for that reason.\<close>

theorem verdict_self_test: "self_test (\<lambda>s. s)"
  unfolding self_test_def
  by (simp add: languages_def accepted_rust accepted_scripts accepted_java rejected_high rejected_reduced
      rejected_extraction)

end
