(* ===== verification/Preflight.thy ===== *)
theory Preflight
  imports Actions Codeql_Verdict
begin

text \<open>
  Model of \<open>tools/ci/release_codeql_preflight.py\<close>: the gate that reuses, joins or dispatches the
  CodeQL scan of a release candidate and waits for it. GitHub is outside: an \<open>env\<close> answers each
  request as a function of the history of requests, so its listings may change between two polls.
  The verdict script it runs on the downloaded SARIF documents is the model of Codeql_Verdict.
  The polling loop is a partial function: \<open>None\<close> is a loop that never ends.
\<close>

section \<open>Requests, answers and errors\<close>

datatype (plugins only: code) request =
    MainRef
  | CompareTo string string
  | CodeqlWorkflow
  | Runs string nat
  | RunOf json
  | JobsOf json
  | ArtifactsOf json
  | CommitOf string

datatype (plugins only: code) event = Get request | Dispatch string | Download json string | Clock | Now | Sleep int

text \<open>\<open>CalledProcessError\<close>, \<open>OSError\<close>, and the \<open>ValueError\<close> of a decoder.\<close>

datatype failure = Command | OsError | Undecodable

datatype iso_date = NotIso | NaiveTime | AwareTime rat

text \<open>
  \<open>get\<close> is the decoded answer of \<open>gh api\<close>, \<open>run_download\<close> the directory \<open>gh run download\<close> fills,
  \<open>monotonic\<close> and \<open>utcnow\<close> are the clocks, \<open>fromisoformat\<close> is the library's ISO 8601 parser.
\<close>

record env =
  gh_token :: bool
  get :: "event list \<Rightarrow> request \<Rightarrow> failure + json"
  post_dispatch :: "event list \<Rightarrow> string \<Rightarrow> failure + unit"
  run_download :: "event list \<Rightarrow> json \<Rightarrow> string \<Rightarrow> failure + node"
  monotonic :: "event list \<Rightarrow> rat"
  utcnow :: "event list \<Rightarrow> rat"
  fromisoformat :: "string \<Rightarrow> iso_date"
  sha256_of :: "string \<Rightarrow> string"

datatype (plugins only: code) reason =
    NonObject
  | InvalidIdentity
  | MainMalformed
  | NotReachable
  | WorkflowInactive
  | InvalidRunArray
  | MalformedRun
  | BoundExhausted
  | UntrustedRun
  | InvalidCreation
  | FutureTimestamp
  | LanguageJobs
  | ArtifactListing
  | UnexpectedArtifact
  | MalformedArtifact
  | UnknownExpiry
  | MissingEvidence
  | SourceChanged
  | TreeMalformed
  | ManifestCount
  | ProvenanceMismatch
  | MissingCredential
  | AmbiguousRerun
  | AmbiguousActive
  | FailedExisting
  | ActiveAndCompleted
  | AmbiguousDispatched
  | ConcurrentScans
  | FailedDuringRefresh
  | ExtraScanner
  | ChangedIdentity json
  | RerunSelected json
  | RunEnded json
  | TimedOutRun json
  | TimedOutDiscovery
  | NegativeSleep

text \<open>Every \<open>reject\<close> is a \<open>Refused\<close>; the last two are the errors that wrap another one.\<close>

datatype (plugins only: code) preflight_error =
    Refused reason
  | Failed failure
  | Py py_error
  | InvalidCompleted json preflight_error
  | PollFailed json preflight_error

type_synonym 'a act = "(event, preflight_error, 'a) interaction"

definition workflow_path :: string where
  "workflow_path = ''.github/workflows/codeql.yml''"

definition refuse_unless :: "bool \<Rightarrow> reason \<Rightarrow> preflight_error + unit" where
  "refuse_unless b r = eguard b (Refused r)"

definition py :: "py_error + 'a \<Rightarrow> preflight_error + 'a" where
  "py m = map_err Py m"

definition api :: "env \<Rightarrow> request \<Rightarrow> obj act" where
  "api env r =
     abind (ask (Get r) (\<lambda>h. map_err Failed (get env h r))) (\<lambda>v. alift (want_obj v (Refused NonObject)))"

section \<open>Identity of repository, candidate and workflow\<close>

definition is_repo_char :: "char \<Rightarrow> bool" where
  "is_repo_char c \<longleftrightarrow> is_upper_letter c \<or> is_lower_letter c \<or> is_digit c \<or> c \<in> set ''_.-''"

definition is_repo :: "string \<Rightarrow> bool" where
  "is_repo s \<longleftrightarrow>
     (case split_on (CHR ''/'') s of
        [owner, name] \<Rightarrow> owner \<noteq> [] \<and> name \<noteq> [] \<and> list_all is_repo_char owner \<and> list_all is_repo_char name
      | _ \<Rightarrow> False)"

text \<open>\<open>value.get(k, {}).get(k')\<close>.\<close>

definition inner :: "obj \<Rightarrow> string \<Rightarrow> string \<Rightarrow> preflight_error + json" where
  "inner d k k' = py (getattr_get (get_default d k (JObj [])) k' JNull)"

definition compare_ok :: "obj \<Rightarrow> string \<Rightarrow> preflight_error + unit" where
  "compare_ok compare sha =
     ebind (refuse_unless (dget compare ''status'' \<in> {JStr ''ahead'', JStr ''identical''}) NotReachable) (\<lambda>_.
     ebind (inner compare ''base_commit'' ''sha'') (\<lambda>base.
     ebind (refuse_unless (base = JStr sha) NotReachable) (\<lambda>_.
     ebind (inner compare ''merge_base_commit'' ''sha'') (\<lambda>merge_base.
       refuse_unless (merge_base = JStr sha) NotReachable))))"

definition ancestry :: "env \<Rightarrow> string \<Rightarrow> string \<Rightarrow> string act" where
  "ancestry env repo sha =
     abind (alift (refuse_unless (is_repo repo \<and> hex_string 40 sha) InvalidIdentity)) (\<lambda>_.
     abind (api env MainRef) (\<lambda>ref.
     abind (alift (ebind (inner ref ''object'' ''sha'') (\<lambda>v.
                   ebind (want_str v (Refused MainMalformed)) (\<lambda>main.
                   ebind (refuse_unless (hex_string 40 main) MainMalformed) (\<lambda>_. Inr main))))) (\<lambda>main.
     abind (api env (CompareTo sha main)) (\<lambda>compare.
     abind (alift (compare_ok compare sha)) (\<lambda>_. areturn main)))))"

definition codeql_workflow :: "env \<Rightarrow> obj act" where
  "codeql_workflow env =
     abind (api env CodeqlWorkflow) (\<lambda>value.
     abind (alift (refuse_unless (is_int (dget value ''id'') \<and> dget value ''path'' = JStr workflow_path \<and>
              dget value ''state'' = JStr ''active'') WorkflowInactive)) (\<lambda>_. areturn value))"

section \<open>Discovery of scans\<close>

text \<open>\<open>(row.get("head_repository") or {}).get("full_name") == repo\<close>.\<close>

definition in_repo :: "string \<Rightarrow> obj \<Rightarrow> preflight_error + bool" where
  "in_repo repo row =
     ebind (py (getattr_get (if truthy (dget row ''head_repository'') then dget row ''head_repository'' else JObj [])
       ''full_name'' JNull)) (\<lambda>name. Inr (name = JStr repo))"

definition trusted_row :: "string \<Rightarrow> obj \<Rightarrow> obj \<Rightarrow> preflight_error + bool" where
  "trusted_row repo wflow row =
     (if py_eq (dget row ''workflow_id'') (dget wflow ''id'') \<and> dget row ''path'' = JStr workflow_path \<and>
         dget row ''head_branch'' = JStr ''main''
      then in_repo repo row else Inr False)"

fun run_pages :: "env \<Rightarrow> string \<Rightarrow> obj \<Rightarrow> string \<Rightarrow> nat list \<Rightarrow> obj list act" where
  "run_pages env repo wflow ev [] = alift (Inl (Refused BoundExhausted))"
| "run_pages env repo wflow ev (page # pages) =
     abind (api env (Runs ev page)) (\<lambda>payload.
     abind (alift (want_arr (dget payload ''workflow_runs'') (Refused InvalidRunArray))) (\<lambda>rows.
     abind (alift (refuse_unless (length rows \<le> 100) InvalidRunArray)) (\<lambda>_.
     abind (alift (emap (\<lambda>r. want_obj r (Refused MalformedRun)) rows)) (\<lambda>runs.
     abind (alift (efilter (trusted_row repo wflow) runs)) (\<lambda>kept.
       if length rows < 100 then areturn kept
       else abind (run_pages env repo wflow ev pages) (\<lambda>rest. areturn (kept @ rest)))))))"

text \<open>
  Newest first. Comparing two creation times that are not strings raises \<open>TypeError\<close> (numbers in
  place of the documented strings would be compared; the model rejects them too).
\<close>

definition created_at :: "obj \<Rightarrow> string" where
  "created_at row = (case get_default row ''created_at'' (JStr []) of JStr s \<Rightarrow> s | _ \<Rightarrow> [])"

definition newest_first :: "obj list \<Rightarrow> preflight_error + obj list" where
  "newest_first rows =
     (if length rows \<le> 1 then Inr rows
      else
        ebind (emap (\<lambda>r. want_str (get_default r ''created_at'' (JStr [])) (Py TypeErr)) rows) (\<lambda>_.
          Inr (rev (sort_key created_at (rev rows)))))"

definition scan_candidates :: "env \<Rightarrow> string \<Rightarrow> obj \<Rightarrow> obj list act" where
  "scan_candidates env repo wflow =
     abind (amap (\<lambda>ev. run_pages env repo wflow ev [1, 2, 3, 4, 5, 6, 7, 8, 9, 10])
             [''workflow_dispatch'', ''schedule'']) (\<lambda>rows. alift (newest_first (concat rows)))"

definition exact_scan :: "obj \<Rightarrow> string \<Rightarrow> bool" where
  "exact_scan run sha \<longleftrightarrow>
     (if dget run ''event'' = JStr ''workflow_dispatch''
      then dget run ''display_title'' = JStr (''CodeQL source '' @ sha)
      else dget run ''event'' = JStr ''schedule'' \<and> dget run ''head_sha'' = JStr sha)"

section \<open>Metadata of a scan\<close>

definition run_trusted :: "string \<Rightarrow> obj \<Rightarrow> obj \<Rightarrow> preflight_error + unit" where
  "run_trusted repo wflow run =
     ebind (refuse_unless (py_eq (dget run ''workflow_id'') (dget wflow ''id'') \<and>
              dget run ''path'' = JStr workflow_path \<and>
              dget run ''event'' \<in> {JStr ''workflow_dispatch'', JStr ''schedule''} \<and>
              dget run ''head_branch'' = JStr ''main'') UntrustedRun) (\<lambda>_.
     ebind (in_repo repo run) (\<lambda>b.
       refuse_unless (b \<and> dget run ''status'' = JStr ''completed'' \<and> dget run ''conclusion'' = JStr ''success'' \<and>
         py_eq (dget run ''run_attempt'') (JInt 1)) UntrustedRun))"

text \<open>\<open>s.replace("Z", "+00:00")\<close>.\<close>

definition replace_z :: "string \<Rightarrow> string" where
  "replace_z s = concat (map (\<lambda>c. if c = CHR ''Z'' then ''+00:00'' else [c]) s)"

definition created_time :: "env \<Rightarrow> obj \<Rightarrow> preflight_error + rat" where
  "created_time env run =
     ebind (want_str (dget run ''created_at'') (Refused InvalidCreation)) (\<lambda>s.
       case fromisoformat env (replace_z s) of
         NotIso \<Rightarrow> Inl (Refused InvalidCreation)
       | NaiveTime \<Rightarrow> Inl (Refused FutureTimestamp)
       | AwareTime t \<Rightarrow> Inr t)"

definition job_names :: "string list" where
  "job_names = map (\<lambda>l. ''codeql ('' @ l @ '')'') languages"

definition jobs_complete :: "obj \<Rightarrow> preflight_error + unit" where
  "jobs_complete jobs =
     ebind (refuse_unless (py_eq (dget jobs ''total_count'') (JInt 4)) LanguageJobs) (\<lambda>_.
     ebind (want_arr (dget jobs ''jobs'') (Refused LanguageJobs)) (\<lambda>rows.
     ebind (refuse_unless (length rows = 4) LanguageJobs) (\<lambda>_.
     let names = map (\<lambda>r. get_in r ''name'') (filter is_dict rows) in
     ebind (eguard (list_all hashable names) (Py TypeErr)) (\<lambda>_.
     ebind (refuse_unless (set names = JStr ` set job_names) LanguageJobs) (\<lambda>_.
       refuse_unless (list_all (\<lambda>r. get_in r ''status'' = JStr ''completed'' \<and>
         get_in r ''conclusion'' = JStr ''success'') rows) LanguageJobs)))))"

definition artifact_kinds :: "string list" where
  "artifact_kinds = [''codeql-'', ''codeql-source-'']"

definition artifact_name :: "string \<Rightarrow> string \<Rightarrow> string \<Rightarrow> string" where
  "artifact_name kind sha language = kind @ sha @ ''-'' @ language"

definition artifact_names :: "string \<Rightarrow> string list" where
  "artifact_names sha = concat (map (\<lambda>kind. map (artifact_name kind sha) languages) artifact_kinds)"

definition int_value :: "json \<Rightarrow> int" where
  "int_value v = (case v of JInt i \<Rightarrow> i | JBool b \<Rightarrow> (if b then 1 else 0) | _ \<Rightarrow> 0)"

text \<open>One artifact row of a listing: is it expired?\<close>

definition artifact_expired :: "obj \<Rightarrow> obj \<Rightarrow> preflight_error + bool" where
  "artifact_expired run row =
     ebind (refuse_unless (is_int (dget row ''id'') \<and> is_int (dget row ''size_in_bytes'') \<and>
              0 < int_value (dget row ''size_in_bytes'')) MalformedArtifact) (\<lambda>_.
     ebind (py (getattr_get (if truthy (dget row ''workflow_run'') then dget row ''workflow_run'' else JObj [])
              ''head_sha'' JNull)) (\<lambda>head.
     ebind (refuse_unless (head = JNull \<or> py_eq head (dget run ''head_sha'')) MalformedArtifact) (\<lambda>_.
       case dget row ''expired'' of JBool b \<Rightarrow> Inr b | _ \<Rightarrow> Inl (Refused UnknownExpiry))))"

definition artifacts_available :: "string \<Rightarrow> bool \<Rightarrow> obj \<Rightarrow> obj \<Rightarrow> preflight_error + bool" where
  "artifacts_available sha allow_missing run artifacts =
     ebind (want_arr (dget artifacts ''artifacts'') (Refused ArtifactListing)) (\<lambda>rows.
     ebind (refuse_unless (py_eq (dget artifacts ''total_count'') (JInt (int (length rows))) \<and> length rows \<le> 8)
              ArtifactListing) (\<lambda>_.
     ebind (emap (\<lambda>r. want_obj r (Refused UnexpectedArtifact)) rows) (\<lambda>objs.
     let names = map (\<lambda>r. dget r ''name'') objs in
     ebind (eguard (list_all hashable names) (Py TypeErr)) (\<lambda>_.
     ebind (refuse_unless (distinct names \<and> set names \<subseteq> JStr ` set (artifact_names sha)) UnexpectedArtifact) (\<lambda>_.
     ebind (emap (artifact_expired run) objs) (\<lambda>expired.
       if length rows = 8 \<and> \<not> list_ex (\<lambda>b. b) expired then Inr True
       else if allow_missing then Inr False
       else Inl (Refused MissingEvidence)))))))"

definition run_metadata :: "env \<Rightarrow> string \<Rightarrow> obj \<Rightarrow> string \<Rightarrow> bool \<Rightarrow> obj \<Rightarrow> obj \<Rightarrow> obj \<Rightarrow> bool act" where
  "run_metadata env repo wflow sha allow_missing run jobs artifacts =
     abind (alift (run_trusted repo wflow run)) (\<lambda>_.
     abind (alift (created_time env run)) (\<lambda>created.
     abind (ask Now (\<lambda>h. Inr (utcnow env h))) (\<lambda>now.
     abind (alift (refuse_unless (created \<le> now) FutureTimestamp)) (\<lambda>_.
     abind (alift (jobs_complete jobs)) (\<lambda>_.
       alift (artifacts_available sha allow_missing run artifacts))))))"

definition evidence_available :: "env \<Rightarrow> string \<Rightarrow> string \<Rightarrow> obj \<Rightarrow> json \<Rightarrow> bool act" where
  "evidence_available env repo sha wflow run_id =
     abind (api env (RunOf run_id)) (\<lambda>run.
     abind (alift (refuse_unless (exact_scan run sha) SourceChanged)) (\<lambda>_.
     abind (api env (JobsOf run_id)) (\<lambda>jobs.
     abind (api env (ArtifactsOf run_id)) (\<lambda>artifacts.
       run_metadata env repo wflow sha True run jobs artifacts))))"

section \<open>Inspection of a scan\<close>

definition commit_tree :: "env \<Rightarrow> string \<Rightarrow> string act" where
  "commit_tree env sha =
     abind (api env (CommitOf sha)) (\<lambda>value.
       alift (ebind (inner value ''tree'' ''sha'') (\<lambda>found.
              ebind (refuse_unless (dget value ''sha'' = JStr sha) TreeMalformed) (\<lambda>_.
              ebind (want_str found (Refused TreeMalformed)) (\<lambda>t.
              ebind (refuse_unless (hex_string 40 t) TreeMalformed) (\<lambda>_. Inr t))))))"

definition expected_identity :: "string \<Rightarrow> obj \<Rightarrow> string \<Rightarrow> string \<Rightarrow> string \<Rightarrow> obj" where
  "expected_identity repo run sha tree_sha language =
     [(''schema'', JInt 1), (''repository'', JStr repo), (''workflow_path'', JStr workflow_path),
      (''workflow_ref'', JStr (repo @ ''/'' @ workflow_path @ ''@refs/heads/main'')),
      (''workflow_sha'', dget run ''head_sha''), (''event_name'', dget run ''event''),
      (''event_sha'', dget run ''head_sha''), (''candidate_sha'', JStr sha), (''checkout_sha'', JStr sha),
      (''candidate_tree'', JStr tree_sha), (''run_id'', dget run ''id''), (''run_attempt'', JInt 1),
      (''language'', JStr language)]"

definition source_manifest :: "node \<Rightarrow> string \<Rightarrow> obj \<Rightarrow> string \<Rightarrow> string \<Rightarrow> string \<Rightarrow> preflight_error + unit" where
  "source_manifest directory repo run sha tree_sha language =
     (let files = (case get_dir directory [] of
                     Some es \<Rightarrow> rglob (\<lambda>name. name = ''source-identity.json'') es
                   | None \<Rightarrow> []) in
      ebind (refuse_unless (length files = 1) ManifestCount) (\<lambda>_.
      ebind (want_some (get_file (snd (hd files)) []) (Failed OsError)) (\<lambda>f.
      ebind (want_some (json_doc f) (Failed Undecodable)) (\<lambda>v.
      ebind (want_obj v (Refused ProvenanceMismatch)) (\<lambda>doc.
        refuse_unless (list_all (\<lambda>(k, w). py_eq (dget doc k) w) (expected_identity repo run sha tree_sha language))
          ProvenanceMismatch)))))"

definition check_sarif_directory :: "env \<Rightarrow> node \<Rightarrow> string \<Rightarrow> string \<Rightarrow> preflight_error + unit" where
  "check_sarif_directory env directory language sha =
     eguard (verdict_main (sha256_of env) directory language sha = 0) (Failed Command)"

definition fetch_artifact :: "env \<Rightarrow> json \<Rightarrow> string \<Rightarrow> node act" where
  "fetch_artifact env run_id name = ask (Download run_id name) (\<lambda>h. map_err Failed (run_download env h run_id name))"

definition inspect_language :: "env \<Rightarrow> string \<Rightarrow> obj \<Rightarrow> string \<Rightarrow> string \<Rightarrow> json \<Rightarrow> string \<Rightarrow> unit act" where
  "inspect_language env repo run sha tree_sha run_id language =
     abind (fetch_artifact env run_id (artifact_name ''codeql-'' sha language)) (\<lambda>sarif.
     abind (alift (check_sarif_directory env sarif language sha)) (\<lambda>_.
     abind (fetch_artifact env run_id (artifact_name ''codeql-source-'' sha language)) (\<lambda>source.
       alift (source_manifest source repo run sha tree_sha language))))"

definition inspect_run :: "env \<Rightarrow> string \<Rightarrow> string \<Rightarrow> obj \<Rightarrow> json \<Rightarrow> unit act" where
  "inspect_run env repo sha wflow run_id =
     abind (api env (RunOf run_id)) (\<lambda>run.
     abind (api env (JobsOf run_id)) (\<lambda>jobs.
     abind (api env (ArtifactsOf run_id)) (\<lambda>artifacts.
     abind (run_metadata env repo wflow sha False run jobs artifacts) (\<lambda>_.
     abind (commit_tree env sha) (\<lambda>tree_sha.
     abind (amap (inspect_language env repo run sha tree_sha run_id) languages) (\<lambda>_.
     abind (ancestry env repo sha) (\<lambda>_. areturn ())))))))"

section \<open>Reuse, join or dispatch\<close>

definition is_completed :: "obj \<Rightarrow> bool" where
  "is_completed row \<longleftrightarrow> dget row ''status'' = JStr ''completed''"

definition succeeded :: "obj \<Rightarrow> bool" where
  "succeeded row \<longleftrightarrow> dget row ''conclusion'' = JStr ''success''"

definition first_attempt :: "obj \<Rightarrow> bool" where
  "first_attempt row \<longleftrightarrow> py_eq (dget row ''run_attempt'') (JInt 1)"

text \<open>The active and the completed exact scans of the first listing.\<close>

definition triage :: "string \<Rightarrow> obj list \<Rightarrow> preflight_error + obj list \<times> obj list" where
  "triage sha all_runs =
     (let exact_runs = filter (\<lambda>row. exact_scan row sha) all_runs;
          active = filter (\<lambda>row. \<not> is_completed row) exact_runs;
          completed = filter is_completed exact_runs in
      ebind (refuse_unless (list_all first_attempt exact_runs) AmbiguousRerun) (\<lambda>_.
      ebind (refuse_unless (length active \<le> 1) AmbiguousActive) (\<lambda>_.
      ebind (refuse_unless (list_all succeeded completed) FailedExisting) (\<lambda>_.
      ebind (refuse_unless (active = [] \<or> completed = []) ActiveAndCompleted) (\<lambda>_.
        Inr (active, completed))))))"

definition known_ids :: "obj list \<Rightarrow> json list" where
  "known_ids rows = filter is_int (map (\<lambda>row. dget row ''id'') rows)"

text \<open>\<open>row.get("id") not in before\<close>, where \<open>before\<close> is a set.\<close>

definition is_new :: "json list \<Rightarrow> obj \<Rightarrow> preflight_error + bool" where
  "is_new before_ids row =
     ebind (eguard (hashable (dget row ''id'')) (Py TypeErr)) (\<lambda>_.
       Inr (\<not> list_ex (py_eq (dget row ''id'')) before_ids))"

definition newly_dispatched :: "json list \<Rightarrow> string \<Rightarrow> obj list \<Rightarrow> preflight_error + obj list" where
  "newly_dispatched before_ids sha rows =
     efilter (\<lambda>row. ebind (is_new before_ids row) (\<lambda>b.
       Inr (b \<and> dget row ''event'' = JStr ''workflow_dispatch'' \<and> exact_scan row sha \<and> first_attempt row))) rows"

text \<open>The only new dispatched scan, \<open>None\<close> while there is none.\<close>

definition select_new :: "obj list \<Rightarrow> preflight_error + json" where
  "select_new newly =
     ebind (refuse_unless (length newly \<le> 1) AmbiguousDispatched) (\<lambda>_.
       case newly of [] \<Rightarrow> Inr JNull | row # _ \<Rightarrow> py (getitem (JObj row) ''id''))"

text \<open>The errors the reuse loop and the polling turn into a \<open>ValueError\<close>; the others pass.\<close>

fun reuse_error :: "json \<Rightarrow> preflight_error \<Rightarrow> preflight_error" where
  "reuse_error run_id (Py AttrErr) = Py AttrErr"
| "reuse_error run_id e = InvalidCompleted run_id e"

fun poll_error :: "json \<Rightarrow> preflight_error \<Rightarrow> preflight_error" where
  "poll_error run_id (Py e) = Py e"
| "poll_error run_id e = PollFailed run_id e"

text \<open>Verifies one completed scan: was its evidence still there?\<close>

definition reuse_scan :: "env \<Rightarrow> string \<Rightarrow> string \<Rightarrow> obj \<Rightarrow> obj \<Rightarrow> bool act" where
  "reuse_scan env repo sha wflow existing =
     abind (alift (py (getitem (JObj existing) ''id''))) (\<lambda>run_id.
       acatch
         (abind (evidence_available env repo sha wflow run_id) (\<lambda>available.
            if available then abind (inspect_run env repo sha wflow run_id) (\<lambda>_. areturn True)
            else areturn False))
         (reuse_error run_id))"

datatype (plugins only: code) progress = Finished | Waiting json

definition dispatch_scan :: "env \<Rightarrow> string \<Rightarrow> string \<Rightarrow> obj \<Rightarrow> json list \<Rightarrow> progress act" where
  "dispatch_scan env repo sha wflow before_ids =
     abind (ask (Dispatch sha) (\<lambda>h. map_err Failed (post_dispatch env h sha))) (\<lambda>_.
     abind (scan_candidates env repo wflow) (\<lambda>rows.
       alift (ebind (newly_dispatched before_ids sha rows) (\<lambda>newly.
              ebind (select_new newly) (\<lambda>selected. Inr (Waiting selected))))))"

text \<open>Without an active scan: reuse every completed one whose evidence is there, or dispatch.\<close>

definition reuse_or_dispatch :: "env \<Rightarrow> string \<Rightarrow> string \<Rightarrow> obj \<Rightarrow> json list \<Rightarrow> obj list \<Rightarrow> progress act" where
  "reuse_or_dispatch env repo sha wflow before_ids completed =
     abind (amap (reuse_scan env repo sha wflow) completed) (\<lambda>reused.
       if list_ex (\<lambda>b. b) reused then areturn Finished
       else dispatch_scan env repo sha wflow before_ids)"

text \<open>Up to the polling loop: the ids of the first listing and the scan to wait for, if any.\<close>

definition choose_scan :: "env \<Rightarrow> string \<Rightarrow> string \<Rightarrow> obj \<Rightarrow> (json list \<times> progress) act" where
  "choose_scan env repo sha wflow =
     abind (scan_candidates env repo wflow) (\<lambda>all_runs.
     abind (alift (triage sha all_runs)) (\<lambda>(active, completed).
     abind (if active \<noteq> []
            then alift (ebind (py (getitem (JObj (hd active)) ''id'')) (\<lambda>selected. Inr (Waiting selected)))
            else reuse_or_dispatch env repo sha wflow (known_ids all_runs) completed) (\<lambda>p.
       areturn (known_ids all_runs, p))))"

section \<open>Polling\<close>

definition check_observed :: "string \<Rightarrow> json list \<Rightarrow> json \<Rightarrow> obj list \<Rightarrow> preflight_error + unit" where
  "check_observed sha before_ids selected observed =
     ebind (refuse_unless (length (filter (\<lambda>row. \<not> is_completed row) observed) \<le> 1) ConcurrentScans) (\<lambda>_.
     ebind (refuse_unless (list_all (\<lambda>row. is_completed row \<longrightarrow> succeeded row) observed) FailedDuringRefresh) (\<lambda>_.
     if selected = JNull then Inr ()
     else
       ebind (eany (\<lambda>row. ebind (is_new before_ids row) (\<lambda>b.
                Inr (b \<and> \<not> py_eq (dget row ''id'') selected))) observed) (\<lambda>extra.
         refuse_unless (\<not> extra) ExtraScanner)))"

definition poll_selected :: "env \<Rightarrow> string \<Rightarrow> string \<Rightarrow> obj \<Rightarrow> json \<Rightarrow> progress act" where
  "poll_selected env repo sha wflow selected =
     abind (acatch (api env (RunOf selected)) (poll_error selected)) (\<lambda>state.
     abind (alift (refuse_unless (exact_scan state sha) (ChangedIdentity selected))) (\<lambda>_.
     abind (alift (refuse_unless (first_attempt state) (RerunSelected selected))) (\<lambda>_.
       if is_completed state then
         abind (alift (refuse_unless (succeeded state) (RunEnded selected))) (\<lambda>_.
         abind (inspect_run env repo sha wflow selected) (\<lambda>_. areturn Finished))
       else areturn (Waiting selected))))"

text \<open>One iteration of the loop, without reading the clock and sleeping.\<close>

definition poll_step :: "env \<Rightarrow> string \<Rightarrow> string \<Rightarrow> obj \<Rightarrow> json list \<Rightarrow> json \<Rightarrow> progress act" where
  "poll_step env repo sha wflow before_ids selected =
     abind (ancestry env repo sha) (\<lambda>_.
     abind (scan_candidates env repo wflow) (\<lambda>rows.
     let observed = filter (\<lambda>row. exact_scan row sha) rows in
     abind (alift (check_observed sha before_ids selected observed)) (\<lambda>_.
     abind (alift (if selected \<noteq> JNull then Inr selected
                   else ebind (newly_dispatched before_ids sha observed) select_new)) (\<lambda>chosen.
       if chosen \<noteq> JNull then poll_selected env repo sha wflow chosen else areturn (Waiting JNull)))))"

definition timed_out :: "json \<Rightarrow> reason" where
  "timed_out selected = (if truthy selected then TimedOutRun selected else TimedOutDiscovery)"

partial_function (option) poll_loop ::
  "env \<Rightarrow> string \<Rightarrow> string \<Rightarrow> obj \<Rightarrow> json list \<Rightarrow> int \<Rightarrow> rat \<Rightarrow> json \<Rightarrow> event list \<Rightarrow> ((preflight_error + unit) \<times> event list) option" where
  "poll_loop env repo sha wflow before_ids poll_seconds deadline selected h =
     (if monotonic env h < deadline
      then
        (case poll_step env repo sha wflow before_ids selected (Clock # h) of
           (r, h1) \<Rightarrow>
             (case r of
                Inl e \<Rightarrow> Some (Inl e, h1)
              | Inr p \<Rightarrow>
                  (case p of
                     Finished \<Rightarrow> Some (Inr (), h1)
                   | Waiting selected' \<Rightarrow>
                       if poll_seconds < 0 then Some (Inl (Refused NegativeSleep), h1)
                       else
                         poll_loop env repo sha wflow before_ids poll_seconds deadline selected'
                           (Sleep poll_seconds # h1))))
      else Some (Inl (Refused (timed_out selected)), Clock # h))"

declare poll_loop.simps [code]

definition start_scan :: "env \<Rightarrow> string \<Rightarrow> string \<Rightarrow> (obj \<times> json list \<times> progress) act" where
  "start_scan env repo sha =
     abind (alift (refuse_unless (gh_token env) MissingCredential)) (\<lambda>_.
     abind (ancestry env repo sha) (\<lambda>_.
     abind (codeql_workflow env) (\<lambda>wflow.
     abind (choose_scan env repo sha wflow) (\<lambda>(before_ids, p). areturn (wflow, before_ids, p)))))"

definition verify_live ::
  "env \<Rightarrow> string \<Rightarrow> string \<Rightarrow> int \<Rightarrow> int \<Rightarrow> ((preflight_error + unit) \<times> event list) option" where
  "verify_live env repo sha timeout_seconds poll_seconds =
     (case start_scan env repo sha [] of
        (r, h) \<Rightarrow>
          (case r of
             Inl e \<Rightarrow> Some (Inl e, h)
           | Inr (wflow, before_ids, p) \<Rightarrow>
               (case p of
                  Finished \<Rightarrow> Some (Inr (), h)
                | Waiting selected \<Rightarrow>
                    poll_loop env repo sha wflow before_ids poll_seconds (monotonic env h + of_int timeout_seconds)
                      selected (Clock # h))))"

text \<open>The exit status: \<open>main\<close> reports the errors it catches, and any other one ends it as well.\<close>

definition preflight_main :: "env \<Rightarrow> string \<Rightarrow> string \<Rightarrow> int \<Rightarrow> int \<Rightarrow> int option" where
  "preflight_main env repo sha timeout_seconds poll_seconds =
     map_option (\<lambda>(r, h). if isOK r then 0 else 1) (verify_live env repo sha timeout_seconds poll_seconds)"

section \<open>What an inspected scan shows\<close>

text \<open>
  \<open>fetched env h run_id name dir\<close>: the download of an artifact filled \<open>dir\<close> at some point of the
  history \<open>h\<close>.
\<close>

definition fetched :: "env \<Rightarrow> event list \<Rightarrow> json \<Rightarrow> string \<Rightarrow> node \<Rightarrow> bool" where
  "fetched env h run_id name dir \<longleftrightarrow>
     (\<exists>es h0. h = es @ Download run_id name # h0 \<and> run_download env h0 run_id name = Inr dir)"

definition answered :: "env \<Rightarrow> event list \<Rightarrow> request \<Rightarrow> obj \<Rightarrow> bool" where
  "answered env h r d \<longleftrightarrow> (\<exists>es h0. h = es @ Get r # h0 \<and> get env h0 r = Inr (JObj d))"

definition language_verified :: "env \<Rightarrow> string \<Rightarrow> obj \<Rightarrow> string \<Rightarrow> string \<Rightarrow> json \<Rightarrow> event list \<Rightarrow> string \<Rightarrow> bool" where
  "language_verified env repo run sha tree_sha run_id h language \<longleftrightarrow>
     (\<exists>sarif v. fetched env h run_id (artifact_name ''codeql-'' sha language) sarif \<and>
        check_sarif (sha256_of env) sarif language sha = Inr v) \<and>
     (\<exists>source. fetched env h run_id (artifact_name ''codeql-source-'' sha language) source \<and>
        source_manifest source repo run sha tree_sha language = Inr ())"

definition scan_verified :: "env \<Rightarrow> string \<Rightarrow> string \<Rightarrow> json \<Rightarrow> event list \<Rightarrow> bool" where
  "scan_verified env repo sha run_id h \<longleftrightarrow>
     (\<exists>run jobs tree_sha.
        answered env h (RunOf run_id) run \<and> answered env h (JobsOf run_id) jobs \<and>
        dget run ''conclusion'' = JStr ''success'' \<and> first_attempt run \<and> in_repo repo run = Inr True \<and>
        jobs_complete jobs = Inr () \<and>
        (\<forall>language \<in> set languages. language_verified env repo run sha tree_sha run_id h language))"

section \<open>The requests of each action\<close>

fun is_dispatch :: "event \<Rightarrow> bool" where
  "is_dispatch (Dispatch sha) \<longleftrightarrow> True" | "is_dispatch _ \<longleftrightarrow> False"

definition quiet :: "'a act \<Rightarrow> bool" where
  "quiet m \<longleftrightarrow> grows (\<lambda>e. \<not> is_dispatch e) m"

lemma quiet_intros:
  "quiet (areturn x)" "quiet (alift r)" "\<not> is_dispatch ev \<Longrightarrow> quiet (ask ev answer)"
  "quiet m \<Longrightarrow> quiet (acatch m g)" "quiet m \<Longrightarrow> (\<And>x. quiet (f x)) \<Longrightarrow> quiet (abind m f)"
  "(\<And>x. quiet (f' x)) \<Longrightarrow> quiet (amap f' xs)" "quiet m \<Longrightarrow> quiet m' \<Longrightarrow> quiet (if b then m else m')"
  for m m' :: "'a act" and f :: "'a \<Rightarrow> 'b act" and f' :: "'c \<Rightarrow> 'b act"
  unfolding quiet_def by (auto intro: grows_intros)

lemma quiet_api: "quiet (api env r)"
  unfolding api_def by (intro quiet_intros) simp

lemma quiet_ancestry: "quiet (ancestry env repo sha)"
  unfolding ancestry_def by (intro quiet_intros quiet_api)

lemma quiet_codeql_workflow: "quiet (codeql_workflow env)"
  unfolding codeql_workflow_def by (intro quiet_intros quiet_api)

lemma quiet_run_pages: "quiet (run_pages env repo wflow ev ps)"
  by (induction ps) (auto intro!: quiet_intros quiet_api)

lemma quiet_scan_candidates: "quiet (scan_candidates env repo wflow)"
  unfolding scan_candidates_def by (intro quiet_intros quiet_run_pages)

lemma quiet_run_metadata: "quiet (run_metadata env repo wflow sha b run jobs artifacts)"
  unfolding run_metadata_def by (intro quiet_intros) simp

lemma quiet_evidence_available: "quiet (evidence_available env repo sha wflow run_id)"
  unfolding evidence_available_def by (intro quiet_intros quiet_api quiet_run_metadata)

lemma quiet_fetch_artifact: "quiet (fetch_artifact env run_id name)"
  unfolding fetch_artifact_def by (intro quiet_intros) simp

lemma quiet_inspect_language: "quiet (inspect_language env repo run sha tree_sha run_id language)"
  unfolding inspect_language_def by (intro quiet_intros quiet_fetch_artifact)

lemma quiet_commit_tree: "quiet (commit_tree env sha)"
  unfolding commit_tree_def by (intro quiet_intros quiet_api)

lemma quiet_inspect_run: "quiet (inspect_run env repo sha wflow run_id)"
  unfolding inspect_run_def
  by (intro quiet_intros quiet_api quiet_run_metadata quiet_commit_tree quiet_inspect_language quiet_ancestry)

lemma quiet_reuse_scan: "quiet (reuse_scan env repo sha wflow existing)"
  unfolding reuse_scan_def by (intro quiet_intros quiet_evidence_available quiet_inspect_run)

lemma quiet_poll_selected: "quiet (poll_selected env repo sha wflow selected)"
  unfolding poll_selected_def by (intro quiet_intros quiet_api quiet_inspect_run)

lemma quiet_poll_step: "quiet (poll_step env repo sha wflow before_ids selected)"
  unfolding poll_step_def Let_def
  by (intro quiet_intros quiet_ancestry quiet_scan_candidates quiet_poll_selected)

lemma quietD: "quiet m \<Longrightarrow> m h = (r, h') \<Longrightarrow> \<exists>es. h' = es @ h \<and> filter is_dispatch es = []"
  unfolding quiet_def by (auto dest!: growsD simp: filter_empty_conv list_all_iff)

lemma quiet_count: "quiet m \<Longrightarrow> m h = (r, h') \<Longrightarrow> filter is_dispatch h' = filter is_dispatch h"
  by (auto dest!: quietD)

section \<open>Inspection\<close>

lemma fetched_mono: "fetched env h run_id name dir \<Longrightarrow> fetched env (es @ h) run_id name dir"
  unfolding fetched_def by (metis append.assoc)

lemma answered_mono: "answered env h r d \<Longrightarrow> answered env (es @ h) r d"
  unfolding answered_def by (metis append.assoc)

lemma language_verified_mono:
  "language_verified env repo run sha tree_sha run_id h language \<Longrightarrow>
     language_verified env repo run sha tree_sha run_id (es @ h) language"
  unfolding language_verified_def using fetched_mono by blast

lemma scan_verified_mono: "scan_verified env repo sha run_id h \<Longrightarrow> scan_verified env repo sha run_id (es @ h)"
  unfolding scan_verified_def by (elim exE conjE) (intro exI conjI ballI; blast intro: answered_mono language_verified_mono)

lemma api_Inr: "api env r h = (Inr d, h') \<longleftrightarrow> get env h r = Inr (JObj d) \<and> h' = Get r # h"
  by (auto simp: api_def action_simps want_Inr)

lemma api_answered: "api env r h = (Inr d, h') \<Longrightarrow> answered env h' r d"
  unfolding answered_def api_Inr by (metis append_Nil)

lemma amap_Inr:
  assumes "amap f xs h = (Inr ys, h')" "\<And>x. quiet (f x)" "x \<in> set xs"
  shows "\<exists>y h0 h1 es. f x h0 = (Inr y, h1) \<and> h' = es @ h1"
  using assms(1,3)
proof (induction xs arbitrary: h ys)
  case Nil
  then show ?case by simp
next
  case (Cons a xs)
  then obtain y h1 zs where s: "f a h = (Inr y, h1)" "amap f xs h1 = (Inr zs, h')"
    by (auto simp: action_simps)
  obtain es where "h' = es @ h1"
    using quietD [OF quiet_intros(6) [OF assms(2)] s(2)] by blast
  with Cons s show ?case by auto
qed

lemma amap_each:
  assumes "amap f xs h = (Inr ys, h')" "\<And>x. quiet (f x)" "y \<in> set ys"
  shows "\<exists>x \<in> set xs. \<exists>h0 h1 es. f x h0 = (Inr y, h1) \<and> h' = es @ h1"
  using assms(1,3)
proof (induction xs arbitrary: h ys)
  case Nil
  then show ?case by simp
next
  case (Cons a xs)
  then obtain z h1 zs where s: "f a h = (Inr z, h1)" "amap f xs h1 = (Inr zs, h')" "ys = z # zs"
    by (auto simp: action_simps)
  obtain es where "h' = es @ h1"
    using quietD [OF quiet_intros(6) [OF assms(2)] s(2)] by blast
  with Cons s show ?case by auto
qed

lemma verdict_main_0: "verdict_main s dir language sha = 0 \<longleftrightarrow> (\<exists>v. check_sarif s dir language sha = Inr v)"
  by (auto simp: verdict_main_def isOK_iff)

lemma fetch_artifact_Inr:
  "fetch_artifact env run_id name h = (Inr dir, h') \<longleftrightarrow>
     run_download env h run_id name = Inr dir \<and> h' = Download run_id name # h"
  by (auto simp: fetch_artifact_def action_simps)

lemma fetched_last: "run_download env h run_id name = Inr dir \<Longrightarrow> fetched env (es @ Download run_id name # h) run_id name dir"
  unfolding fetched_def by blast

lemma inspect_language_Inr:
  assumes "inspect_language env repo run sha tree_sha run_id language h = (Inr u, h')"
  shows "language_verified env repo run sha tree_sha run_id h' language"
proof -
  let ?a = "artifact_name ''codeql-'' sha language" and ?b = "artifact_name ''codeql-source-'' sha language"
  obtain sarif source where
    d: "run_download env h run_id ?a = Inr sarif"
      "run_download env (Download run_id ?a # h) run_id ?b = Inr source" and
    c: "verdict_main (sha256_of env) sarif language sha = 0"
      "source_manifest source repo run sha tree_sha language = Inr u" and
    h': "h' = [Download run_id ?b] @ Download run_id ?a # h"
    using assms by (auto simp: inspect_language_def action_simps fetch_artifact_Inr check_sarif_directory_def)
  have "fetched env h' run_id ?a sarif" unfolding h' by (rule fetched_last [OF d(1)])
  moreover have "fetched env h' run_id ?b source"
    using fetched_last [OF d(2), of "[]"] by (simp add: h')
  ultimately show ?thesis using c unfolding language_verified_def verdict_main_0 by auto
qed

lemma run_metadata_Inr:
  assumes "run_metadata env repo wflow sha m run jobs artifacts h = (Inr b, h')"
  shows "dget run ''conclusion'' = JStr ''success'' \<and> first_attempt run \<and> in_repo repo run = Inr True \<and>
    jobs_complete jobs = Inr () \<and> artifacts_available sha m run artifacts = Inr b"
  using assms unfolding run_metadata_def run_trusted_def first_attempt_def refuse_unless_def
  by (auto simp: action_simps ebind_Inr_iff)

lemma inspect_run_Inr:
  assumes "inspect_run env repo sha wflow run_id h = (Inr u, h')"
  shows "scan_verified env repo sha run_id h'"
proof -
  obtain run h1 jobs h2 artifacts h3 b h4 tree_sha h5 us h6 main where
    run: "api env (RunOf run_id) h = (Inr run, h1)" and
    jobs: "api env (JobsOf run_id) h1 = (Inr jobs, h2)" and
    arts: "api env (ArtifactsOf run_id) h2 = (Inr artifacts, h3)" and
    meta: "run_metadata env repo wflow sha False run jobs artifacts h3 = (Inr b, h4)" and
    t: "commit_tree env sha h4 = (Inr tree_sha, h5)" and
    ls: "amap (inspect_language env repo run sha tree_sha run_id) languages h5 = (Inr us, h6)" and
    main: "ancestry env repo sha h6 = (Inr main, h')"
    using assms unfolding inspect_run_def abind_Inr areturn_Inr by blast
  obtain e1 e2 e3 e4 e5 e6 where ext: "h2 = e1 @ h1" "h3 = e2 @ h2" "h4 = e3 @ h3" "h5 = e4 @ h4" "h6 = e5 @ h5" "h' = e6 @ h6"
    using quietD [OF quiet_api jobs] quietD [OF quiet_api arts] quietD [OF quiet_run_metadata meta]
      quietD [OF quiet_commit_tree t] quietD [OF quiet_intros(6) [OF quiet_inspect_language] ls]
      quietD [OF quiet_ancestry main] by blast
  have "answered env h' (RunOf run_id) run"
    using answered_mono [OF api_answered [OF run], of "e6 @ e5 @ e4 @ e3 @ e2 @ e1"] by (simp add: ext)
  moreover have "answered env h' (JobsOf run_id) jobs"
    using answered_mono [OF api_answered [OF jobs], of "e6 @ e5 @ e4 @ e3 @ e2"] by (simp add: ext)
  moreover have "language_verified env repo run sha tree_sha run_id h' language" if l: "language \<in> set languages" for language
  proof -
    obtain y h0 h7 es where "inspect_language env repo run sha tree_sha run_id language h0 = (Inr y, h7)" "h6 = es @ h7"
      using amap_Inr [OF ls quiet_inspect_language l] by blast
    then show ?thesis
      using language_verified_mono [OF inspect_language_Inr, of _ _ _ _ _ _ _ h0 y h7 "e6 @ es"] ext(6) by simp
  qed
  ultimately show ?thesis using run_metadata_Inr [OF meta] unfolding scan_verified_def by blast
qed

section \<open>The whole gate\<close>

lemma reuse_scan_Inr:
  "reuse_scan env repo sha wflow existing h = (Inr True, h') \<Longrightarrow> \<exists>run_id. scan_verified env repo sha run_id h'"
  unfolding reuse_scan_def
  by (auto simp: action_simps split: if_splits dest!: inspect_run_Inr)

lemma dispatch_scan_Inr: "dispatch_scan env repo sha wflow before_ids h = (Inr p, h') \<Longrightarrow> p \<noteq> Finished"
  unfolding dispatch_scan_def by (auto simp: action_simps ebind_Inr_iff)

lemma reuse_or_dispatch_Finished:
  assumes "reuse_or_dispatch env repo sha wflow before_ids completed h = (Inr Finished, h')"
  shows "\<exists>run_id. scan_verified env repo sha run_id h'"
proof -
  obtain reused where
    m: "amap (reuse_scan env repo sha wflow) completed h = (Inr reused, h')" and t: "True \<in> set reused"
    using assms dispatch_scan_Inr unfolding reuse_or_dispatch_def
    by (fastforce simp: action_simps list_ex_iff split: if_splits)
  obtain existing h0 h2 es where
    "reuse_scan env repo sha wflow existing h0 = (Inr True, h2)" "h' = es @ h2"
    using amap_each [OF m quiet_reuse_scan t] by blast
  then show ?thesis using reuse_scan_Inr scan_verified_mono by blast
qed

lemma choose_scan_Finished:
  "choose_scan env repo sha wflow h = (Inr (before_ids, Finished), h') \<Longrightarrow> \<exists>run_id. scan_verified env repo sha run_id h'"
  unfolding choose_scan_def
  by (auto simp: action_simps ebind_Inr_iff split: if_splits dest: reuse_or_dispatch_Finished)

lemma poll_selected_Finished:
  "poll_selected env repo sha wflow selected h = (Inr Finished, h') \<Longrightarrow> \<exists>run_id. scan_verified env repo sha run_id h'"
  unfolding poll_selected_def
  by (auto simp: action_simps split: if_splits dest!: inspect_run_Inr)

lemma poll_step_Finished:
  "poll_step env repo sha wflow before_ids selected h = (Inr Finished, h') \<Longrightarrow>
     \<exists>run_id. scan_verified env repo sha run_id h'"
  unfolding poll_step_def Let_def abind_Inr
  by (elim exE conjE) (auto split: if_splits dest: poll_selected_Finished)

text \<open>The result of the loop: verified if it returns, and no dispatch on the way.\<close>

lemma poll_loop_result:
  "poll_loop env repo sha wflow before_ids poll_seconds deadline selected h = Some y \<Longrightarrow>
     (fst y = Inr () \<longrightarrow> (\<exists>run_id. scan_verified env repo sha run_id (snd y))) \<and>
     filter is_dispatch (snd y) = filter is_dispatch h \<and> (\<exists>es. snd y = es @ h)"
proof (induction env repo sha wflow before_ids poll_seconds deadline selected h y rule: poll_loop.raw_induct [rotated, consumes 1, case_names step])
  case (step f env repo sha wflow before_ids poll_seconds deadline selected h y)
  obtain r h1 where st: "poll_step env repo sha wflow before_ids selected (Clock # h) = (r, h1)"
    by fastforce
  obtain es where es: "h1 = es @ Clock # h" "filter is_dispatch es = []"
    using quietD [OF quiet_poll_step st] by blast
  show ?case
  proof (cases "monotonic env h < deadline")
    case False
    with step(2) show ?thesis by auto
  next
    case True
    consider (err) e where "r = Inl e" | (fin) "r = Inr Finished" | (wait) s where "r = Inr (Waiting s)"
      by (cases r; cases "projr r") auto
    then show ?thesis
    proof cases
      case err
      with step(2) True st es show ?thesis by auto
    next
      case fin
      with step(2) True st es show ?thesis by (auto dest: poll_step_Finished)
    next
      case wait
      show ?thesis
      proof (cases "poll_seconds < 0")
        case True
        with step(2) \<open>monotonic env h < deadline\<close> st es wait show ?thesis by auto
      next
        case False
        with step(2) \<open>monotonic env h < deadline\<close> st wait
        have "f env repo sha wflow before_ids poll_seconds deadline s (Sleep poll_seconds # h1) = Some y" by auto
        from step(1) [OF this] es show ?thesis by auto
      qed
    qed
  qed
qed

text \<open>A dispatch happens only where the first listing has nothing to reuse or join.\<close>

definition nothing_pending :: "string \<Rightarrow> obj list \<Rightarrow> bool" where
  "nothing_pending sha all_runs \<longleftrightarrow>
     (\<forall>row \<in> set all_runs. exact_scan row sha \<longrightarrow> is_completed row \<and> succeeded row \<and> first_attempt row)"

lemma dispatch_scan_requests:
  assumes "dispatch_scan env repo sha wflow before_ids h = (r, h')"
  shows "\<exists>es. h' = es @ h \<and> filter is_dispatch es = [Dispatch sha]"
proof -
  let ?rest = "\<lambda>x. abind (scan_candidates env repo wflow) (\<lambda>rows.
       alift (ebind (newly_dispatched before_ids sha rows) (\<lambda>newly.
              ebind (select_new newly) (\<lambda>selected. Inr (Waiting selected)))))"
  have q: "quiet (?rest x)" for x by (intro quiet_intros quiet_scan_candidates)
  show ?thesis
  proof (cases "post_dispatch env h sha")
    case (Inl e)
    with assms show ?thesis by (auto simp: dispatch_scan_def abind_def [of "ask _ _"] ask_def)
  next
    case (Inr u)
    then have "?rest u (Dispatch sha # h) = (r, h')"
      using assms by (simp add: dispatch_scan_def abind_def [of "ask _ _"] ask_def)
    from quietD [OF q this] show ?thesis by auto
  qed
qed

lemma reuse_or_dispatch_requests:
  assumes "reuse_or_dispatch env repo sha wflow before_ids completed h = (r, h')"
  shows "\<exists>es. h' = es @ h \<and> filter is_dispatch es \<in> {[], [Dispatch sha]}"
proof -
  obtain r2 h2 where m: "amap (reuse_scan env repo sha wflow) completed h = (r2, h2)" by fastforce
  obtain e2 where e2: "h2 = e2 @ h" "filter is_dispatch e2 = []"
    using quietD [OF quiet_intros(6) [OF quiet_reuse_scan] m] by blast
  show ?thesis
  proof (cases "isOK r2 \<and> \<not> list_ex (\<lambda>b. b) (projr r2)")
    case False
    with assms m have "h' = h2"
      by (cases r2) (auto simp: reuse_or_dispatch_def abind_def areturn_def)
    with e2 show ?thesis by auto
  next
    case True
    with assms m have "dispatch_scan env repo sha wflow before_ids h2 = (r, h')"
      by (cases r2) (auto simp: reuse_or_dispatch_def abind_def)
    from dispatch_scan_requests [OF this] e2 show ?thesis by auto
  qed
qed

lemma triage_pending: "triage sha all_runs = Inr ([], completed) \<Longrightarrow> nothing_pending sha all_runs"
  unfolding triage_def nothing_pending_def refuse_unless_def Let_def
  by (auto simp: ebind_Inr_iff filter_empty_conv list_all_iff)

definition dispatched_for :: "env \<Rightarrow> string \<Rightarrow> string \<Rightarrow> obj \<Rightarrow> event list \<Rightarrow> event list \<Rightarrow> bool" where
  "dispatched_for env repo sha wflow h h' \<longleftrightarrow>
     (\<exists>all_runs h1 es. scan_candidates env repo wflow h = (Inr all_runs, h1) \<and> h' = es @ h1 \<and> nothing_pending sha all_runs)"

lemma choose_scan_requests:
  assumes "choose_scan env repo sha wflow h = (r, h')"
  shows "\<exists>es. h' = es @ h \<and> (filter is_dispatch es = [] \<or>
    (filter is_dispatch es = [Dispatch sha] \<and> dispatched_for env repo sha wflow h h'))"
proof -
  obtain r1 h1 where l: "scan_candidates env repo wflow h = (r1, h1)" by fastforce
  obtain e1 where e1: "h1 = e1 @ h" "filter is_dispatch e1 = []" using quietD [OF quiet_scan_candidates l] by blast
  show ?thesis
  proof (cases "\<exists>all_runs completed. r1 = Inr all_runs \<and> triage sha all_runs = Inr ([], completed)")
    case False
    with assms l have "h' = h1"
      by (cases r1; cases "triage sha (projr r1)")
        (auto simp: choose_scan_def abind_def alift_def areturn_def split: sum.splits list.splits if_splits)
    with e1 show ?thesis by auto
  next
    case True
    then obtain all_runs completed where t: "r1 = Inr all_runs" "triage sha all_runs = Inr ([], completed)"
      by blast
    obtain r2 h2 where d: "reuse_or_dispatch env repo sha wflow (known_ids all_runs) completed h1 = (r2, h2)"
      by fastforce
    have "h' = h2"
      using assms l t d by (cases r2) (auto simp: choose_scan_def abind_def alift_def areturn_def)
    with reuse_or_dispatch_requests [OF d] e1 l t triage_pending [OF t(2)] show ?thesis
      unfolding dispatched_for_def by auto
  qed
qed

lemma dispatched_for_mono: "dispatched_for env repo sha wflow h0 h \<Longrightarrow> dispatched_for env repo sha wflow h0 (es @ h)"
  unfolding dispatched_for_def by (metis append.assoc)

lemma start_scan_requests:
  assumes "start_scan env repo sha [] = (r, h)"
  shows "filter is_dispatch h = [] \<or> (filter is_dispatch h = [Dispatch sha] \<and> (\<exists>wflow h0. dispatched_for env repo sha wflow h0 h))"
proof -
  let ?first = "abind (alift (refuse_unless (gh_token env) MissingCredential)) (\<lambda>_.
     abind (ancestry env repo sha) (\<lambda>_. codeql_workflow env))"
  have q: "quiet ?first" by (intro quiet_intros quiet_ancestry quiet_codeql_workflow)
  obtain r1 h1 where f: "?first [] = (r1, h1)" by fastforce
  have h1: "filter is_dispatch h1 = []" using quiet_count [OF q f] by simp
  have start: "start_scan env repo sha [] = abind ?first (\<lambda>wflow.
     abind (choose_scan env repo sha wflow) (\<lambda>(before_ids, p). areturn (wflow, before_ids, p))) []"
    by (simp add: start_scan_def abind_def split: sum.splits prod.splits)
  show ?thesis
  proof (cases r1)
    case (Inl e)
    with start f assms h1 show ?thesis by (simp add: abind_def [of ?first])
  next
    case (Inr wflow)
    obtain r2 h2 where c: "choose_scan env repo sha wflow h1 = (r2, h2)" by fastforce
    have "h = h2"
      using start f assms Inr c by (cases r2) (auto simp: abind_def [of ?first] abind_def [of "choose_scan _ _ _ _"] areturn_def)
    with choose_scan_requests [OF c] h1 show ?thesis by auto
  qed
qed

lemma verify_live_cases:
  assumes "verify_live env repo sha timeout_seconds poll_seconds = Some (r, h)"
  obtains (err) e where "start_scan env repo sha [] = (Inl e, h)" "r = Inl e"
  | (reused) wflow before_ids where "start_scan env repo sha [] = (Inr (wflow, before_ids, Finished), h)" "r = Inr ()"
  | (polled) wflow before_ids selected h0 where
      "start_scan env repo sha [] = (Inr (wflow, before_ids, Waiting selected), h0)"
      "poll_loop env repo sha wflow before_ids poll_seconds (monotonic env h0 + of_int timeout_seconds) selected (Clock # h0)
         = Some (r, h)"
  using assms unfolding verify_live_def by (auto split: prod.splits sum.splits progress.splits)

lemma start_scan_Inr:
  assumes "start_scan env repo sha [] = (Inr (wflow, before_ids, p), h)"
  shows "gh_token env \<and> hex_string 40 sha \<and> (\<exists>h1. choose_scan env repo sha wflow h1 = (Inr (before_ids, p), h))"
  using assms unfolding start_scan_def ancestry_def refuse_unless_def by (auto simp: action_simps)

section \<open>Properties\<close>

text \<open>
  C21. The preflight only passes on a candidate commit with a verified scan: a successful first
  attempt of the repository's CodeQL workflow with its four language jobs, whose source manifests
  name the candidate, and whose SARIF document of every language, as downloaded, has a sound
  verdict for the candidate. This holds whether the scan was reused, joined or dispatched, and
  whatever the service answers.
\<close>

theorem preflight_sound:
  assumes "verify_live env repo sha timeout_seconds poll_seconds = Some (Inr (), h)"
  shows "hex_string 40 sha \<and>
    (\<exists>run_id. scan_verified env repo sha run_id h \<and>
       (\<forall>language \<in> set languages. \<exists>dir v. fetched env h run_id (artifact_name ''codeql-'' sha language) dir \<and>
          verdict_ok (sha256_of env) dir language v \<and> vd_candidate v = sha))"
proof -
  have "hex_string 40 sha \<and> (\<exists>run_id. scan_verified env repo sha run_id h)"
    using assms
  proof (cases rule: verify_live_cases)
    case (err e)
    then show ?thesis by simp
  next
    case (reused wflow before_ids)
    then show ?thesis using start_scan_Inr choose_scan_Finished by blast
  next
    case (polled wflow before_ids selected h0)
    then show ?thesis using start_scan_Inr poll_loop_result by fastforce
  qed
  then obtain run_id where v: "hex_string 40 sha" "scan_verified env repo sha run_id h" by blast
  have "\<exists>dir v. fetched env h run_id (artifact_name ''codeql-'' sha language) dir \<and>
      verdict_ok (sha256_of env) dir language v \<and> vd_candidate v = sha" if l: "language \<in> set languages" for language
  proof -
    obtain run tree_sha where "language_verified env repo run sha tree_sha run_id h language"
      using v(2) l unfolding scan_verified_def by blast
    then obtain dir v where "fetched env h run_id (artifact_name ''codeql-'' sha language) dir"
      "check_sarif (sha256_of env) dir language sha = Inr v"
      unfolding language_verified_def by blast
    then show ?thesis using check_sarif_sound by blast
  qed
  with v show ?thesis by blast
qed


text \<open>The documented behaviour of the clock: it never goes back, and sleeping takes its time.\<close>

definition steady_clock :: "env \<Rightarrow> int \<Rightarrow> bool" where
  "steady_clock env poll_seconds \<longleftrightarrow>
     (\<forall>h es. monotonic env h \<le> monotonic env (es @ h)) \<and>
     (\<forall>h. monotonic env h + of_int poll_seconds \<le> monotonic env (Sleep poll_seconds # h))"

lemma poll_loop_ends:
  assumes "steady_clock env poll_seconds" "0 < poll_seconds"
  shows "deadline - monotonic env h \<le> of_nat n * of_int poll_seconds \<Longrightarrow>
    poll_loop env repo sha wflow before_ids poll_seconds deadline selected h \<noteq> None"
proof (induction n arbitrary: h selected)
  case 0
  then show ?case by (subst poll_loop.simps) auto
next
  case (Suc n)
  obtain r h1 where step: "poll_step env repo sha wflow before_ids selected (Clock # h) = (r, h1)" by fastforce
  then obtain es where "h1 = (es @ [Clock]) @ h" using quietD [OF quiet_poll_step] by fastforce
  then have "monotonic env h \<le> monotonic env h1" using assms(1) unfolding steady_clock_def by blast
  moreover have "monotonic env h1 + of_int poll_seconds \<le> monotonic env (Sleep poll_seconds # h1)"
    using assms(1) unfolding steady_clock_def by blast
  ultimately have "deadline - monotonic env (Sleep poll_seconds # h1) \<le> of_nat n * of_int poll_seconds"
    using Suc.prems by (simp add: algebra_simps)
  from Suc.IH [OF this] show ?case
    by (subst poll_loop.simps) (use step assms(2) in \<open>auto split: sum.splits progress.splits\<close>)
qed

text \<open>
  C23. The preflight always ends: on a steady clock and with a positive polling interval the loop
  reaches its deadline, however the service behaves.
\<close>

theorem preflight_ends:
  assumes "steady_clock env poll_seconds" "0 < poll_seconds"
  shows "\<exists>r h. verify_live env repo sha timeout_seconds poll_seconds = Some (r, h)"
proof -
  have "poll_loop env repo sha wflow before_ids poll_seconds deadline selected h \<noteq> None" for wflow before_ids deadline selected h
  proof -
    obtain n where "deadline - monotonic env h \<le> of_nat n" using reals_Archimedean2 less_imp_le by blast
    also have "(of_nat n :: rat) \<le> of_nat n * of_int poll_seconds"
      using assms(2) by (simp add: mult_le_cancel_left1)
    finally show ?thesis by (rule poll_loop_ends [OF assms])
  qed
  then show ?thesis unfolding verify_live_def by (fastforce split: prod.splits sum.splits progress.splits)
qed

section \<open>A concrete service\<close>

definition toy_sha :: string where
  "toy_sha = replicate 40 (CHR ''a'')"

definition toy_main :: string where
  "toy_main = replicate 40 (CHR ''b'')"

definition toy_run :: obj where
  "toy_run = [(''id'', JInt 7), (''workflow_id'', JInt 42), (''path'', JStr workflow_path),
     (''event'', JStr ''workflow_dispatch''), (''head_repository'', JObj [(''full_name'', JStr ''owner/repo'')]),
     (''head_branch'', JStr ''main''), (''head_sha'', JStr toy_main), (''display_title'', JStr (''CodeQL source '' @ toy_sha)),
     (''status'', JStr ''completed''), (''conclusion'', JStr ''success''), (''run_attempt'', JInt 1),
     (''created_at'', JStr ''2026-10-15T00:00:00Z'')]"

definition toy_artifact :: "string \<Rightarrow> json" where
  "toy_artifact name = JObj [(''name'', JStr name), (''id'', JInt 1), (''size_in_bytes'', JInt 100),
     (''expired'', JBool False), (''workflow_run'', JObj [(''head_sha'', JStr toy_main)])]"

fun toy_get :: "obj list \<Rightarrow> request \<Rightarrow> obj" where
  "toy_get runs MainRef = [(''object'', JObj [(''sha'', JStr toy_main)])]"
| "toy_get runs (CompareTo base head) =
     [(''status'', JStr ''ahead''), (''base_commit'', JObj [(''sha'', JStr base)]),
      (''merge_base_commit'', JObj [(''sha'', JStr base)])]"
| "toy_get runs CodeqlWorkflow = [(''id'', JInt 42), (''path'', JStr workflow_path), (''state'', JStr ''active'')]"
| "toy_get runs (Runs ev page) =
     [(''workflow_runs'', JArr (map JObj (filter (\<lambda>r. dget r ''event'' = JStr ev) runs)))]"
| "toy_get runs (RunOf run_id) = toy_run"
| "toy_get runs (JobsOf run_id) = [(''total_count'', JInt 4), (''jobs'', JArr (map (\<lambda>n. JObj
     [(''name'', JStr n), (''status'', JStr ''completed''), (''conclusion'', JStr ''success'')]) job_names))]"
| "toy_get runs (ArtifactsOf run_id) = [(''total_count'', JInt 8), (''artifacts'', JArr (map toy_artifact (artifact_names toy_sha)))]"
| "toy_get runs (CommitOf sha) = [(''sha'', JStr sha), (''tree'', JObj [(''sha'', JStr toy_main)])]"

definition toy_download :: "string \<Rightarrow> node" where
  "toy_download name =
     (case filter (\<lambda>l. name = artifact_name ''codeql-'' toy_sha l) languages of
        language # _ \<Rightarrow> sarif_directory (Some (fixture language False))
      | [] \<Rightarrow> NDir [(''source-identity.json'', NFile (json_file (JObj
          (expected_identity ''owner/repo'' toy_run toy_sha toy_main
             (hd (filter (\<lambda>l. name = artifact_name ''codeql-source-'' toy_sha l) languages))))))])"

text \<open>Its clock advances by what the program sleeps.\<close>

definition toy_env :: "obj list \<Rightarrow> env" where
  "toy_env runs = \<lparr>gh_token = True, get = (\<lambda>h r. Inr (JObj (toy_get runs r))), post_dispatch = (\<lambda>h sha. Inl Command),
     run_download = (\<lambda>h run_id name. Inr (toy_download name)),
     monotonic = (\<lambda>h. of_int (sum_list (map (\<lambda>e. case e of Sleep n \<Rightarrow> max 0 n | _ \<Rightarrow> 0) h))),
     utcnow = (\<lambda>h. 1), fromisoformat = (\<lambda>s. AwareTime 0), sha256_of = (\<lambda>s. s)\<rparr>"

lemma toy_steady: "steady_clock (toy_env runs) n"
proof -
  have "0 \<le> sum_list (map (\<lambda>e. case e of Sleep n \<Rightarrow> max 0 n | _ \<Rightarrow> 0) es)" for es :: "event list"
    by (induction es) (auto split: event.split)
  then show ?thesis by (simp add: steady_clock_def toy_env_def flip: of_int_add)
qed

text \<open>With one successful scan of the candidate, its verdicts are those of the fixtures.\<close>

lemma toy_verdict:
  assumes "language \<in> set languages"
  shows "check_sarif_directory (toy_env runs) (toy_download (artifact_name ''codeql-'' toy_sha language)) language toy_sha = Inr ()"
proof -
  have "toy_download (artifact_name ''codeql-'' toy_sha language) = sarif_directory (Some (fixture language False))"
    using assms by (auto simp: toy_download_def languages_def artifact_name_def)
  moreover have "accepted_fixture (\<lambda>s. s) language"
    using assms accepted_rust accepted_scripts accepted_java by (auto simp: languages_def)
  then have "verdict_main (\<lambda>s. s) (sarif_directory (Some (fixture language False))) language toy_sha = 0"
    by (auto simp: accepted_fixture_def verdict_main_def toy_sha_def isOK_iff split: sum.splits)
  ultimately show ?thesis by (simp add: check_sarif_directory_def toy_env_def refuse_unless_def)
qed

lemma toy_source:
  "list_all (\<lambda>language. source_manifest (toy_download (artifact_name ''codeql-source-'' toy_sha language)) ''owner/repo'' toy_run
     toy_sha toy_main language = Inr ()) languages"
  by code_simp

lemma toy_inspect_language:
  assumes "language \<in> set languages"
  shows "\<exists>h'. inspect_language (toy_env runs) ''owner/repo'' toy_run toy_sha toy_main (JInt 7) language h = (Inr (), h')"
proof -
  have "run_download (toy_env runs) h' run_id name = Inr (toy_download name)" for h' run_id name
    by (simp add: toy_env_def)
  with toy_verdict [OF assms] toy_source assms show ?thesis
    by (auto simp: inspect_language_def action_simps fetch_artifact_Inr list_all_iff)
qed

lemma amap_toy:
  assumes "\<And>x h. x \<in> set xs \<Longrightarrow> \<exists>h'. f x h = (Inr (), h')"
  shows "\<exists>ys h'. amap f xs h = (Inr ys, h')"
  using assms
proof (induction xs arbitrary: h)
  case Nil
  then show ?case by (simp add: areturn_def)
next
  case (Cons x xs)
  obtain h1 where "f x h = (Inr (), h1)" using Cons.prems by (metis list.set_intros(1))
  moreover obtain ys h' where "amap f xs h1 = (Inr ys, h')"
    using Cons.IH [of h1] Cons.prems by (metis list.set_intros(2))
  ultimately show ?case by (simp add: abind_def areturn_def)
qed

lemma toy_api: "api (toy_env runs) r h = (Inr (toy_get runs r), Get r # h)"
  by (simp add: api_Inr toy_env_def)

lemma toy_ancestry: "\<exists>h'. ancestry (toy_env runs) ''owner/repo'' toy_sha h = (Inr toy_main, h')"
proof -
  have "is_repo ''owner/repo'' \<and> hex_string 40 toy_sha \<and> hex_string 40 toy_main" by code_simp
  then show ?thesis
    by (simp add: ancestry_def action_simps toy_api refuse_unless_def compare_ok_def inner_def py_def)
qed

lemma toy_metadata:
  "\<exists>h'. run_metadata (toy_env runs) ''owner/repo'' (toy_get runs CodeqlWorkflow) toy_sha m toy_run
     (toy_get runs (JobsOf r)) (toy_get runs (ArtifactsOf r)) h = (Inr True, h')"
proof -
  have "run_trusted ''owner/repo'' (toy_get [] CodeqlWorkflow) toy_run = Inr ()"
    "jobs_complete (toy_get [] (JobsOf JNull)) = Inr ()"
    "artifacts_available toy_sha False toy_run (toy_get [] (ArtifactsOf JNull)) = Inr True"
    "artifacts_available toy_sha True toy_run (toy_get [] (ArtifactsOf JNull)) = Inr True"
    by code_simp+
  moreover have "created_time (toy_env runs) toy_run = Inr 0"
    by (simp add: created_time_def toy_run_def toy_env_def)
  ultimately show ?thesis
    by (cases m) (simp_all add: run_metadata_def action_simps toy_env_def refuse_unless_def)
qed

lemma toy_inspect:
  "\<exists>h'. inspect_run (toy_env runs) ''owner/repo'' toy_sha (toy_get runs CodeqlWorkflow) (JInt 7) h = (Inr (), h')"
proof -
  have tree: "commit_tree (toy_env runs) toy_sha h = (Inr toy_main, Get (CommitOf toy_sha) # h)" for h
  proof -
    have "hex_string 40 toy_main" by code_simp
    then show ?thesis by (simp add: commit_tree_def action_simps toy_api inner_def py_def refuse_unless_def ebind_Inr_iff)
  qed
  obtain h1 where m: "run_metadata (toy_env runs) ''owner/repo'' (toy_get runs CodeqlWorkflow) toy_sha False toy_run
     (toy_get runs (JobsOf (JInt 7))) (toy_get runs (ArtifactsOf (JInt 7)))
     (Get (ArtifactsOf (JInt 7)) # Get (JobsOf (JInt 7)) # Get (RunOf (JInt 7)) # h) = (Inr True, h1)"
    using toy_metadata by blast
  obtain ys h2 where "amap (inspect_language (toy_env runs) ''owner/repo'' toy_run toy_sha toy_main (JInt 7)) languages
      (Get (CommitOf toy_sha) # h1) = (Inr ys, h2)"
    using amap_toy [of languages "inspect_language (toy_env runs) ''owner/repo'' toy_run toy_sha toy_main (JInt 7)"]
      toy_inspect_language by blast
  moreover obtain h3 where "ancestry (toy_env runs) ''owner/repo'' toy_sha h2 = (Inr toy_main, h3)"
    using toy_ancestry by blast
  ultimately show ?thesis using m tree
    by (auto simp: inspect_run_def action_simps toy_api)
qed

lemma toy_candidates:
  "scan_candidates (toy_env [toy_run]) ''owner/repo'' (toy_get [toy_run] CodeqlWorkflow) h =
     (Inr [toy_run], Get (Runs ''schedule'' 1) # Get (Runs ''workflow_dispatch'' 1) # h)"
  by code_simp

lemma toy_live: "\<exists>h. verify_live (toy_env [toy_run]) ''owner/repo'' toy_sha 10 1 = Some (Inr (), h)"
proof -
  let ?w = "toy_get [toy_run] CodeqlWorkflow"
  have t: "triage toy_sha [toy_run] = Inr ([], [toy_run])" "exact_scan toy_run toy_sha"
    "getitem (JObj toy_run) ''id'' = Inr (JInt 7)" by code_simp+
  have w: "is_int (dget ?w ''id'') \<and> dget ?w ''path'' = JStr workflow_path \<and> dget ?w ''state'' = JStr ''active''" by simp
  have e: "\<exists>h'. evidence_available (toy_env [toy_run]) ''owner/repo'' toy_sha ?w (JInt 7) h = (Inr True, h')" for h
    using t(2) toy_metadata by (simp add: evidence_available_def action_simps toy_api refuse_unless_def)
  have r: "\<exists>h'. reuse_scan (toy_env [toy_run]) ''owner/repo'' toy_sha ?w toy_run h = (Inr True, h')" for h
    using e toy_inspect t(3) unfolding reuse_scan_def by (simp add: action_simps py_def del: getitem_JObj) metis
  obtain h1 where a: "ancestry (toy_env [toy_run]) ''owner/repo'' toy_sha [] = (Inr toy_main, h1)" using toy_ancestry by blast
  obtain h2 where c: "scan_candidates (toy_env [toy_run]) ''owner/repo'' ?w (Get CodeqlWorkflow # h1) = (Inr [toy_run], h2)"
    using toy_candidates by simp
  obtain h3 where r: "reuse_scan (toy_env [toy_run]) ''owner/repo'' toy_sha ?w toy_run h2 = (Inr True, h3)" using r by blast
  have "reuse_or_dispatch (toy_env [toy_run]) ''owner/repo'' toy_sha ?w (known_ids [toy_run]) [toy_run] h2 = (Inr Finished, h3)"
    using r by (simp add: reuse_or_dispatch_def abind_def areturn_def)
  then have "choose_scan (toy_env [toy_run]) ''owner/repo'' toy_sha ?w (Get CodeqlWorkflow # h1) = (Inr (known_ids [toy_run], Finished), h3)"
    using c t(1) by (simp add: choose_scan_def abind_def areturn_def alift_def)
  then have "start_scan (toy_env [toy_run]) ''owner/repo'' toy_sha [] = (Inr (?w, known_ids [toy_run], Finished), h3)"
    using a w by (simp add: start_scan_def action_simps codeql_workflow_def toy_api refuse_unless_def) (simp add: toy_env_def)
  then show ?thesis by (simp add: verify_live_def)
qed

theorem preflight_sound_witness:
  "\<exists>h run_id. scan_verified (toy_env [toy_run]) ''owner/repo'' toy_sha run_id h"
  using toy_live preflight_sound by blast

lemma toy_refused:
  "(case verify_live (toy_env []) ''owner/repo'' toy_sha 10 1 of
      Some (Inl (Failed Command), h) \<Rightarrow> filter is_dispatch h | _ \<Rightarrow> []) = [Dispatch toy_sha]"
  by code_simp


theorem preflight_ends_witness: "\<exists>r h. verify_live (toy_env []) ''owner/repo'' toy_sha 4200 15 = Some (r, h)"
  by (rule preflight_ends [OF toy_steady]) simp

end
