(* ===== verification/Provenance.thy ===== *)
theory Provenance
  imports Registry
begin

text \<open>
  Model of \<open>.github/scripts/validate-oxidebatch-provenance.py\<close>: every registered workload must
  depend on exactly versioned, checksummed crates.io releases of the first-party packages, and no
  fixture may have one anywhere. A TOML document is the table \<open>tomllib.loads\<close> returns. The code
  iterates over a set of dependency table names, whose order is unspecified; the model takes them
  in one order, which decides only which of several errors is reported.
\<close>

datatype (plugins only: code) prov_error =
    MissingToml
  | InvalidToml
  | UnsupportedDependency string
  | InvalidPackageName string
  | InvalidVersion string
  | PatchOverride string string
  | ReplaceOverride string
  | ForbiddenFields string string "string list"
  | NoExplicitVersion string string
  | NotExactVersion string string
  | ConflictingVersions string
  | NoSubjects
  | NoPackageArray
  | LockfileCount string string nat
  | NotCratesIo string string
  | BadChecksum string string
  | SourceReplacement
  | CannotReadRegistry
  | NoWorkloads
  | InvalidWorkloadEntry
  | FixturesNotList
  | InvalidFixtureEntry
  | FixtureDependency string string
  | FixturePackage string
  | ProvOSError
  | ProvTypeError

definition crates_io_sources :: "string list" where
  "crates_io_sources =
     [''registry+https://github.com/rust-lang/crates.io-index'', ''sparse+https://index.crates.io/'']"

section \<open>Manifests\<close>

text \<open>\<open>=[0-9]+\.[0-9]+\.[0-9]+(?:[-+][0-9A-Za-z.-]+)?\<close>\<close>

definition number_then :: "(string \<Rightarrow> bool) \<Rightarrow> string \<Rightarrow> bool" where
  "number_then rest s \<longleftrightarrow> s \<noteq> [] \<and> is_digit (hd s) \<and> rest (dropWhile is_digit s)"

definition dot_then :: "(string \<Rightarrow> bool) \<Rightarrow> string \<Rightarrow> bool" where
  "dot_then rest s \<longleftrightarrow> s \<noteq> [] \<and> hd s = CHR ''.'' \<and> rest (tl s)"

definition suffix_char :: "char \<Rightarrow> bool" where
  "suffix_char c \<longleftrightarrow> is_digit c \<or> is_lower_letter c \<or> is_upper_letter c \<or> c = CHR ''.'' \<or> c = CHR ''-''"

definition version_suffix :: "string \<Rightarrow> bool" where
  "version_suffix s \<longleftrightarrow>
     s = [] \<or> (hd s \<in> {CHR ''-'', CHR ''+''} \<and> tl s \<noteq> [] \<and> list_all suffix_char (tl s))"

definition semver :: "string \<Rightarrow> bool" where
  "semver s \<longleftrightarrow> number_then (dot_then (number_then (dot_then (number_then version_suffix)))) s"

definition exact_version :: "string \<Rightarrow> bool" where
  "exact_version s \<longleftrightarrow> s \<noteq> [] \<and> hd s = CHR ''='' \<and> semver (tl s)"

definition is_first_party :: "string \<Rightarrow> bool" where
  "is_first_party package \<longleftrightarrow> package = ''oxide-batch'' \<or> startswith package ''oxide-batch-''"

definition dependency_tables :: "string list" where
  "dependency_tables = [''dependencies'', ''dev-dependencies'', ''build-dependencies'']"

definition tables_in :: "string \<Rightarrow> obj \<Rightarrow> (string \<times> obj) list" where
  "tables_in pre d =
     concat (map (\<lambda>t. case dget d t of JObj table \<Rightarrow> [(pre @ t, table)] | _ \<Rightarrow> []) dependency_tables)"

definition iter_dependency_tables :: "obj \<Rightarrow> (string \<times> obj) list" where
  "iter_dependency_tables document =
     tables_in [] document @
     (case dget document ''target'' of
        JObj target \<Rightarrow>
          concat (map (\<lambda>(name, config).
            case config of
              JObj c \<Rightarrow> tables_in (''target.'' @ name @ ''.'') c
            | _ \<Rightarrow> []) target)
      | _ \<Rightarrow> [])"

text \<open>Every dependency of a manifest: its table, its alias and its specification.\<close>

definition dependencies :: "obj \<Rightarrow> (string \<times> string \<times> json) list" where
  "dependencies document =
     concat (map (\<lambda>(name, table). map (\<lambda>(alias, spec). (name, alias, spec)) table)
       (iter_dependency_tables document))"

definition optional_str :: "json \<Rightarrow> 'e \<Rightarrow> 'e + string option" where
  "optional_str v err = (if v = JNull then Inr None else ebind (want_str v err) (\<lambda>s. Inr (Some s)))"

definition dependency_package :: "string \<Rightarrow> json \<Rightarrow> prov_error + string \<times> string option \<times> obj option" where
  "dependency_package alias spec =
     (case as_str spec of
        Some s \<Rightarrow> Inr (alias, Some s, None)
      | None \<Rightarrow>
          ebind (want_obj spec (UnsupportedDependency alias)) (\<lambda>d.
          ebind (want_str (get_default d ''package'' (JStr alias)) (InvalidPackageName alias)) (\<lambda>package.
          ebind (eguard (package \<noteq> []) (InvalidPackageName alias)) (\<lambda>_.
          ebind (optional_str (dget d ''version'') (InvalidVersion alias)) (\<lambda>v.
            Inr (package, v, Some d))))))"

definition read_toml :: "node \<Rightarrow> string list \<Rightarrow> prov_error + obj" where
  "read_toml repo path =
     ebind (want_some (resolve repo path) MissingToml) (\<lambda>_.
     ebind (want_some (get_file repo path) ProvOSError) (\<lambda>f.
       want_some (toml_doc f) InvalidToml))"

definition forbidden_fields :: "obj option \<Rightarrow> string list" where
  "forbidden_fields detailed =
     (case detailed of
        None \<Rightarrow> []
      | Some d \<Rightarrow> filter (has_key d) [''git'', ''path'', ''registry'', ''workspace''])"

definition patched_package :: "string \<times> json \<Rightarrow> string" where
  "patched_package e = (case as_str (get_in (snd e) ''package'') of Some p \<Rightarrow> p | None \<Rightarrow> fst e)"

definition check_patch :: "obj \<Rightarrow> prov_error + unit" where
  "check_patch document =
     (case dget document ''patch'' of
        JObj patch \<Rightarrow>
          ebind (emap (\<lambda>(registry, entries).
            case entries of
              JObj es \<Rightarrow>
                ebind (emap (\<lambda>e. eguard (\<not> is_first_party (patched_package e))
                         (PatchOverride (patched_package e) registry)) es) (\<lambda>_. Inr ())
            | _ \<Rightarrow> Inr ()) patch) (\<lambda>_. Inr ())
      | _ \<Rightarrow> Inr ())"

definition replaced_package :: "string \<Rightarrow> string" where
  "replaced_package key = takeWhile (\<lambda>c. c \<noteq> CHR '':'') key"

definition check_replace :: "obj \<Rightarrow> prov_error + unit" where
  "check_replace document =
     (case dget document ''replace'' of
        JObj replace \<Rightarrow>
          ebind (emap (\<lambda>e. eguard (\<not> is_first_party (replaced_package (fst e)))
                   (ReplaceOverride (replaced_package (fst e)))) replace) (\<lambda>_. Inr ())
      | _ \<Rightarrow> Inr ())"

type_synonym subjects = "(string \<times> string) list"

definition add_subject :: "subjects \<Rightarrow> string \<times> string \<times> json \<Rightarrow> prov_error + subjects" where
  "add_subject subjects dep =
     (case dep of (table, alias, spec) \<Rightarrow>
        ebind (dependency_package alias spec) (\<lambda>(package, ver, detailed).
          if \<not> is_first_party package then Inr subjects
          else
            ebind (eguard (forbidden_fields detailed = [])
                     (ForbiddenFields alias package (forbidden_fields detailed))) (\<lambda>_.
            ebind (want_some ver (NoExplicitVersion alias package)) (\<lambda>v.
            ebind (eguard (exact_version v) (NotExactVersion package v)) (\<lambda>_.
            ebind (eguard (map_of subjects package \<in> {None, Some (tl v)}) (ConflictingVersions package)) (\<lambda>_.
              Inr (assoc_set subjects package (tl v))))))))"

definition validate_manifest :: "node \<Rightarrow> string list \<Rightarrow> prov_error + subjects" where
  "validate_manifest repo path =
     ebind (read_toml repo path) (\<lambda>document.
     ebind (check_patch document) (\<lambda>_.
     ebind (check_replace document) (\<lambda>_.
     ebind (efold add_subject [] (dependencies document)) (\<lambda>subjects.
     ebind (eguard (subjects \<noteq> []) NoSubjects) (\<lambda>_. Inr subjects)))))"

section \<open>Lock files\<close>

definition locked_as :: "string \<Rightarrow> string \<Rightarrow> json \<Rightarrow> bool" where
  "locked_as name ver p \<longleftrightarrow>
     get_in p ''name'' = JStr name \<and> get_in p ''version'' = JStr ver"

definition checksum_ok :: "json \<Rightarrow> bool" where
  "checksum_ok v \<longleftrightarrow> (case as_str v of None \<Rightarrow> False | Some s \<Rightarrow> hex_string 64 s)"

definition check_locked :: "json list \<Rightarrow> string \<times> string \<Rightarrow> prov_error + unit" where
  "check_locked packages subject =
     (case subject of (name, ver) \<Rightarrow>
        (case filter (locked_as name ver) packages of
           [p] \<Rightarrow>
             ebind (eguard (hashable (get_in p ''source'')) ProvTypeError) (\<lambda>_.
             ebind (eguard (get_in p ''source'' \<in> JStr ` set crates_io_sources) (NotCratesIo name ver)) (\<lambda>_.
               eguard (checksum_ok (get_in p ''checksum'')) (BadChecksum name ver)))
         | matches \<Rightarrow> Inl (LockfileCount name ver (length matches))))"

definition validate_lockfile :: "node \<Rightarrow> string list \<Rightarrow> subjects \<Rightarrow> prov_error + unit" where
  "validate_lockfile repo path subjects =
     ebind (read_toml repo path) (\<lambda>document.
     ebind (want_arr (dget document ''package'') NoPackageArray) (\<lambda>packages.
     ebind (emap (check_locked packages) (sort_key fst subjects)) (\<lambda>_. Inr ())))"

definition validate_cargo_source_config :: "node \<Rightarrow> string list \<Rightarrow> prov_error + unit" where
  "validate_cargo_source_config repo base =
     ebind (emap (\<lambda>name.
       let path = base @ [''.cargo'', name] in
       if \<not> path_exists repo path then Inr ()
       else
         ebind (want_some (get_file repo path) ProvOSError) (\<lambda>f.
         ebind (want_some (toml_doc f) InvalidToml) (\<lambda>document.
           eguard (\<not> has_key document ''source'') SourceReplacement)))
       [''config.toml'', ''config'']) (\<lambda>_. Inr ())"

section \<open>The registered projects\<close>

definition read_registry :: "node \<Rightarrow> prov_error + json" where
  "read_registry repo =
     ebind (want_some (resolve repo [''workloads.json'']) CannotReadRegistry) (\<lambda>_.
     ebind (want_some (get_file repo [''workloads.json'']) ProvOSError) (\<lambda>f.
       want_some (json_doc f) CannotReadRegistry))"

definition entry_path :: "prov_error \<Rightarrow> json \<Rightarrow> prov_error + string list" where
  "entry_path err entry =
     ebind (want_str (get_in entry ''path'') err) (\<lambda>p. Inr (path_parts p))"

definition load_workloads :: "node \<Rightarrow> prov_error + string list list" where
  "load_workloads repo =
     ebind (read_registry repo) (\<lambda>registry.
     ebind (want_arr (get_in registry ''workloads'') NoWorkloads) (\<lambda>entries.
     ebind (eguard (entries \<noteq> []) NoWorkloads) (\<lambda>_.
       emap (entry_path InvalidWorkloadEntry) entries)))"

definition load_fixtures :: "node \<Rightarrow> prov_error + string list list" where
  "load_fixtures repo =
     ebind (read_registry repo) (\<lambda>registry.
     ebind (want_arr (case registry of JObj d \<Rightarrow> get_default d ''fixtures'' (JArr []) | _ \<Rightarrow> JArr [])
              FixturesNotList) (\<lambda>entries.
       emap (entry_path InvalidFixtureEntry) entries))"

definition check_fixture_dependency :: "string \<times> string \<times> json \<Rightarrow> prov_error + unit" where
  "check_fixture_dependency dep =
     (case dep of (table, alias, spec) \<Rightarrow>
        ebind (dependency_package alias spec) (\<lambda>(package, _, _).
          eguard (\<not> is_first_party package) (FixtureDependency package table)))"

definition validate_fixture_manifest :: "node \<Rightarrow> string list \<Rightarrow> prov_error + unit" where
  "validate_fixture_manifest repo path =
     ebind (read_toml repo path) (\<lambda>document.
     ebind (emap check_fixture_dependency (dependencies document)) (\<lambda>_. Inr ()))"

definition first_party_package :: "json \<Rightarrow> bool" where
  "first_party_package p \<longleftrightarrow>
     (case as_str (get_in p ''name'') of None \<Rightarrow> False | Some n \<Rightarrow> is_first_party n)"

definition validate_fixture_lockfile :: "node \<Rightarrow> string list \<Rightarrow> prov_error + unit" where
  "validate_fixture_lockfile repo path =
     ebind (read_toml repo path) (\<lambda>document.
     ebind (want_arr (get_default document ''package'' (JArr [])) NoPackageArray) (\<lambda>packages.
     ebind (emap (\<lambda>p. eguard (\<not> first_party_package p)
              (FixturePackage (case as_str (get_in p ''name'') of Some n \<Rightarrow> n | None \<Rightarrow> []))) packages) (\<lambda>_.
       Inr ())))"

text \<open>\<open>workload_dir.name\<close> is the last part of the path, empty for the root.\<close>

definition validate_workload :: "node \<Rightarrow> string list \<Rightarrow> prov_error + string \<times> subjects" where
  "validate_workload repo dir =
     ebind (validate_cargo_source_config repo dir) (\<lambda>_.
     ebind (validate_manifest repo (dir @ [''Cargo.toml''])) (\<lambda>subjects.
     ebind (validate_lockfile repo (dir @ [''Cargo.lock'']) subjects) (\<lambda>_.
       Inr (if dir = [] then [] else last dir, subjects))))"

definition validate_fixture :: "node \<Rightarrow> string list \<Rightarrow> prov_error + unit" where
  "validate_fixture repo dir =
     ebind (validate_fixture_manifest repo (dir @ [''Cargo.toml''])) (\<lambda>_.
       validate_fixture_lockfile repo (dir @ [''Cargo.lock'']))"

definition validate_provenance :: "node \<Rightarrow> prov_error + (string \<times> subjects) list" where
  "validate_provenance repo =
     ebind (validate_cargo_source_config repo []) (\<lambda>_.
     ebind (load_workloads repo) (\<lambda>dirs.
     ebind (emap (validate_workload repo) dirs) (\<lambda>rows.
     ebind (load_fixtures repo) (\<lambda>fixture_dirs.
     ebind (emap (validate_fixture repo) fixture_dirs) (\<lambda>_.
       Inr (foldl (\<lambda>d (k, v). assoc_set d k v) [] rows))))))"

section \<open>The specification\<close>

text \<open>
  A dependency is acceptable if it can be read and, when it names a first-party package, has none
  of the overriding fields and one exact version; \<open>subject_of\<close> is the package and version it then
  declares.
\<close>

definition dep_ok :: "string \<times> string \<times> json \<Rightarrow> bool" where
  "dep_ok dep \<longleftrightarrow>
     (\<exists>p v d. dependency_package (fst (snd dep)) (snd (snd dep)) = Inr (p, v, d) \<and>
        (is_first_party p \<longrightarrow> forbidden_fields d = [] \<and> (\<exists>w. v = Some w \<and> exact_version w)))"

definition subject_of :: "string \<times> string \<times> json \<Rightarrow> (string \<times> string) option" where
  "subject_of dep =
     (case dependency_package (fst (snd dep)) (snd (snd dep)) of
        Inr (p, Some v, _) \<Rightarrow> if is_first_party p then Some (p, tl v) else None
      | _ \<Rightarrow> None)"

definition declares :: "obj \<Rightarrow> string \<Rightarrow> string \<Rightarrow> bool" where
  "declares document p v \<longleftrightarrow> (\<exists>dep \<in> set (dependencies document). subject_of dep = Some (p, v))"

definition no_patch :: "json \<Rightarrow> bool" where
  "no_patch v \<longleftrightarrow>
     (\<forall>patch \<in> set (case v of JObj o' \<Rightarrow> o' | _ \<Rightarrow> []). \<forall>e \<in> set (case snd patch of JObj es \<Rightarrow> es | _ \<Rightarrow> []).
        \<not> is_first_party (patched_package e))"

definition no_replace :: "json \<Rightarrow> bool" where
  "no_replace v \<longleftrightarrow>
     (\<forall>e \<in> set (case v of JObj o' \<Rightarrow> o' | _ \<Rightarrow> []). \<not> is_first_party (replaced_package (fst e)))"

definition no_override :: "obj \<Rightarrow> bool" where
  "no_override document \<longleftrightarrow> no_patch (dget document ''patch'') \<and> no_replace (dget document ''replace'')"

definition manifest_ok :: "obj \<Rightarrow> bool" where
  "manifest_ok document \<longleftrightarrow> no_override document \<and>
     (\<forall>dep \<in> set (dependencies document). dep_ok dep) \<and>
     (\<exists>p v. declares document p v) \<and>
     (\<forall>p v w. declares document p v \<and> declares document p w \<longrightarrow> v = w)"

definition locked_ok :: "json list \<Rightarrow> string \<Rightarrow> string \<Rightarrow> bool" where
  "locked_ok packages p v \<longleftrightarrow>
     (\<exists>pkg. filter (locked_as p v) packages = [pkg] \<and>
        get_in pkg ''source'' \<in> JStr ` set crates_io_sources \<and> checksum_ok (get_in pkg ''checksum''))"

definition source_config_ok :: "node \<Rightarrow> string list \<Rightarrow> bool" where
  "source_config_ok repo base \<longleftrightarrow>
     (\<forall>name \<in> {''config.toml'', ''config''}. path_exists repo (base @ [''.cargo'', name]) \<longrightarrow>
        (\<exists>f d. get_file repo (base @ [''.cargo'', name]) = Some f \<and> toml_doc f = Some d
           \<and> \<not> has_key d ''source''))"

definition workload_ok :: "node \<Rightarrow> string list \<Rightarrow> bool" where
  "workload_ok repo dir \<longleftrightarrow> source_config_ok repo dir \<and>
     (\<exists>document lock packages. read_toml repo (dir @ [''Cargo.toml'']) = Inr document \<and>
        read_toml repo (dir @ [''Cargo.lock'']) = Inr lock \<and> dget lock ''package'' = JArr packages \<and>
        manifest_ok document \<and>
        (\<forall>p v. declares document p v \<longrightarrow> locked_ok packages p v))"

definition fixture_ok :: "node \<Rightarrow> string list \<Rightarrow> bool" where
  "fixture_ok repo dir \<longleftrightarrow>
     (\<exists>document lock packages. read_toml repo (dir @ [''Cargo.toml'']) = Inr document \<and>
        read_toml repo (dir @ [''Cargo.lock'']) = Inr lock \<and>
        get_default lock ''package'' (JArr []) = JArr packages \<and>
        (\<forall>dep \<in> set (dependencies document). \<exists>p v d.
           dependency_package (fst (snd dep)) (snd (snd dep)) = Inr (p, v, d) \<and> \<not> is_first_party p) \<and>
        (\<forall>p \<in> set packages. \<not> first_party_package p))"

section \<open>The validator meets it\<close>

lemma isOK_map_err [simp]: "isOK (map_err f m) = isOK m"
  by (cases m) auto

lemma isOK_emap_then:
  "isOK (ebind (emap f xs) (\<lambda>_. Inr ())) \<longleftrightarrow> (\<forall>x \<in> set xs. isOK (f x))"
  using emap_ex [of f xs] by (simp only: isOK_ebind isOK_simps simp_thms)

lemma unit_Inr_isOK: "(m :: 'e + unit) = Inr u \<longleftrightarrow> isOK m"
  by (cases m) auto

lemma check_patch_ok: "isOK (check_patch d) \<longleftrightarrow> no_patch (dget d ''patch'')"
proof (cases "dget d ''patch''")
  case (JObj o')
  have "isOK (case x of (registry, entries) \<Rightarrow>
            case entries of
              JObj es \<Rightarrow>
                ebind (emap (\<lambda>e. eguard (\<not> is_first_party (patched_package e))
                         (PatchOverride (patched_package e) registry)) es) (\<lambda>_. Inr ())
            | _ \<Rightarrow> Inr ()) \<longleftrightarrow>
      (\<forall>e \<in> set (case snd x of JObj es \<Rightarrow> es | _ \<Rightarrow> []). \<not> is_first_party (patched_package e))" for x
    by (cases x; cases "snd x") simp_all
  then show ?thesis by (simp add: check_patch_def no_patch_def JObj)
qed (simp_all add: check_patch_def no_patch_def)

lemma check_replace_ok: "isOK (check_replace d) \<longleftrightarrow> no_replace (dget d ''replace'')"
  by (cases "dget d ''replace''") (simp_all add: check_replace_def no_replace_def)

lemma add_subject_Inr:
  "add_subject s dep = Inr s' \<longleftrightarrow> dep_ok dep \<and>
     (case subject_of dep of
        None \<Rightarrow> s' = s
      | Some (p, v) \<Rightarrow> map_of s p \<in> {None, Some v} \<and> s' = assoc_set s p v)"
proof (cases "dependency_package (fst (snd dep)) (snd (snd dep))")
  case (Inl e)
  then show ?thesis by (simp add: add_subject_def dep_ok_def split_beta)
next
  case (Inr r)
  obtain p v d where r: "r = (p, v, d)" by (cases r) auto
  show ?thesis
    by (cases v)
      (auto simp: add_subject_def dep_ok_def subject_of_def split_beta Inr r monad_simps)
qed

text \<open>
  The subjects the loop collects: the fold succeeds if every dependency is acceptable and no two
  of them, nor one of them and the subjects collected before, give a package two versions.
\<close>

definition compatible :: "subjects \<Rightarrow> (string \<times> string) list \<Rightarrow> bool" where
  "compatible s pvs \<longleftrightarrow>
     (\<forall>(p, v) \<in> set pvs. map_of s p \<in> {None, Some v} \<and> (\<forall>(q, w) \<in> set pvs. q = p \<longrightarrow> w = v))"

definition subjects_of :: "(string \<times> string \<times> json) list \<Rightarrow> (string \<times> string) list" where
  "subjects_of deps = concat (map (\<lambda>dep. case subject_of dep of None \<Rightarrow> [] | Some pv \<Rightarrow> [pv]) deps)"

lemma compatible_Cons:
  "compatible s ((p, v) # pvs) \<longleftrightarrow> map_of s p \<in> {None, Some v} \<and> compatible (assoc_set s p v) pvs"
proof (cases "map_of s p \<in> {None, Some v}")
  case True
  have "compatible (assoc_set s p v) pvs \<longleftrightarrow> compatible s ((p, v) # pvs)"
  proof
    assume c: "compatible (assoc_set s p v) pvs"
    have "w = v" if "(p, w) \<in> set pvs" for w
      using c that by (fastforce simp: compatible_def map_of_assoc_set)
    moreover have "map_of s q \<in> {None, Some w}" if "(q, w) \<in> set pvs" "q \<noteq> p" for q w
      using c that by (fastforce simp: compatible_def map_of_assoc_set)
    moreover have "w = x" if "(q, w) \<in> set pvs" "(q, x) \<in> set pvs" for q w x
      using c that unfolding compatible_def by blast
    ultimately show "compatible s ((p, v) # pvs)"
      using True unfolding compatible_def by (auto split: prod.splits)
  next
    assume c: "compatible s ((p, v) # pvs)"
    have "w = v" if "(p, w) \<in> set pvs" for w
      using c that by (fastforce simp: compatible_def)
    moreover have "map_of s q \<in> {None, Some w}" if "(q, w) \<in> set pvs" for q w
      using c that by (fastforce simp: compatible_def)
    moreover have "w = x" if "(q, w) \<in> set pvs" "(q, x) \<in> set pvs" for q w x
      using c that unfolding compatible_def by (fastforce split: prod.splits)
    ultimately show "compatible (assoc_set s p v) pvs"
      unfolding compatible_def map_of_assoc_set by (auto split: prod.splits)
  qed
  with True show ?thesis by simp
next
  case False
  then have "\<not> compatible s ((p, v) # pvs)" unfolding compatible_def by auto
  with False show ?thesis by simp
qed

lemma compatible_Nil [simp]: "compatible s []"
  by (simp add: compatible_def)

lemma efold_add_subject:
  "efold add_subject s deps = Inr s' \<longleftrightarrow> list_all dep_ok deps \<and> compatible s (subjects_of deps)
     \<and> s' = foldl (\<lambda>d (p, v). assoc_set d p v) s (subjects_of deps)"
proof (induction deps arbitrary: s)
  case Nil
  then show ?case by (auto simp: subjects_of_def)
next
  case (Cons dep deps)
  have step: "efold add_subject s (dep # deps) = Inr s' \<longleftrightarrow>
      (\<exists>s1. add_subject s dep = Inr s1 \<and> efold add_subject s1 deps = Inr s')"
    by (simp add: monad_simps)
  show ?case
  proof (cases "subject_of dep")
    case None
    then have "subjects_of (dep # deps) = subjects_of deps" by (simp add: subjects_of_def)
    with None show ?thesis unfolding step add_subject_Inr Cons.IH by auto
  next
    case (Some pv)
    obtain p v where pv: "pv = (p, v)" by (cases pv) auto
    have "subjects_of (dep # deps) = (p, v) # subjects_of deps"
      using Some pv by (simp add: subjects_of_def)
    then show ?thesis unfolding step add_subject_Inr Cons.IH using Some pv
      by (simp add: compatible_Cons) blast
  qed
qed

lemma subjects_of_mem: "(p, v) \<in> set (subjects_of (dependencies d)) \<longleftrightarrow> declares d p v"
proof -
  have "x \<in> set (case subject_of dep of None \<Rightarrow> [] | Some pv \<Rightarrow> [pv]) \<longleftrightarrow> subject_of dep = Some x" for dep x
    by (cases "subject_of dep") auto
  then show ?thesis by (simp add: subjects_of_def declares_def)
qed

lemma compatible_empty:
  "compatible [] (subjects_of (dependencies d)) \<longleftrightarrow>
     (\<forall>p v w. declares d p v \<and> declares d p w \<longrightarrow> v = w)"
  unfolding compatible_def Ball_def split_paired_All prod.case subjects_of_mem by auto

lemma map_of_collected:
  "compatible s pvs \<Longrightarrow> map_of (foldl (\<lambda>d (p, v). assoc_set d p v) s pvs) p = Some v
     \<longleftrightarrow> map_of s p = Some v \<or> (p, v) \<in> set pvs"
proof (induction pvs arbitrary: s)
  case Nil
  then show ?case by simp
next
  case (Cons a pvs)
  obtain q w where a: "a = (q, w)" by (cases a) auto
  have c: "map_of s q \<in> {None, Some w}" "compatible (assoc_set s q w) pvs"
    using Cons.prems unfolding a compatible_Cons by simp_all
  show ?case
    using Cons.IH [OF c(2)] c(1) unfolding a by (auto simp: map_of_assoc_set)
qed

lemma distinct_collected:
  "distinct (map fst s) \<Longrightarrow> distinct (map fst (foldl (\<lambda>d (p, v). assoc_set d p v) s pvs))"
  by (induction pvs arbitrary: s) (auto simp: distinct_keys_assoc_set)

definition collected :: "obj \<Rightarrow> subjects" where
  "collected d = foldl (\<lambda>d (p, v). assoc_set d p v) [] (subjects_of (dependencies d))"

lemma collected_mem:
  assumes "\<forall>p v w. declares d p v \<and> declares d p w \<longrightarrow> v = w"
  shows "(p, v) \<in> set (collected d) \<longleftrightarrow> declares d p v"
proof -
  have "distinct (map fst (collected d))"
    unfolding collected_def by (rule distinct_collected) simp
  then have "(p, v) \<in> set (collected d) \<longleftrightarrow> map_of (collected d) p = Some v"
    by simp
  also have "\<dots> \<longleftrightarrow> declares d p v"
    using assms map_of_collected [of "[]" "subjects_of (dependencies d)" p v]
    unfolding collected_def compatible_empty subjects_of_mem by simp
  finally show ?thesis .
qed

lemma collected_nonempty:
  assumes "\<forall>p v w. declares d p v \<and> declares d p w \<longrightarrow> v = w"
  shows "collected d \<noteq> [] \<longleftrightarrow> (\<exists>p v. declares d p v)"
proof -
  have "collected d \<noteq> [] \<longleftrightarrow> (\<exists>p v. (p, v) \<in> set (collected d))"
    by (cases "collected d") auto
  then show ?thesis unfolding collected_mem [OF assms] .
qed

lemma validate_manifest_Inr:
  "validate_manifest repo path = Inr s \<longleftrightarrow>
     (\<exists>d. read_toml repo path = Inr d \<and> manifest_ok d \<and> s = collected d)"
proof -
  have "ebind (check_patch d) (\<lambda>_. ebind (check_replace d) (\<lambda>_.
          ebind (efold add_subject [] (dependencies d)) (\<lambda>subjects.
          ebind (eguard (subjects \<noteq> []) NoSubjects) (\<lambda>_. Inr subjects)))) = Inr s \<longleftrightarrow>
        manifest_ok d \<and> s = collected d" for d
    unfolding manifest_ok_def no_override_def check_patch_ok [symmetric] check_replace_ok [symmetric]
      isOK_iff ebind_Inr_iff efold_add_subject compatible_empty list_all_iff collected_def [symmetric]
    using collected_nonempty [of d] by auto
  then show ?thesis unfolding validate_manifest_def ebind_Inr_iff by auto
qed

lemma check_locked_ok: "isOK (check_locked packages (p, v)) \<longleftrightarrow> locked_ok packages p v"
proof -
  have "hashable x" if "x \<in> JStr ` set crates_io_sources" for x using that by auto
  then show ?thesis
    by (cases "filter (locked_as p v) packages" rule: list.exhaust;
        cases "tl (filter (locked_as p v) packages)")
      (auto simp: check_locked_def locked_ok_def)
qed

lemma validate_lockfile_ok:
  "isOK (validate_lockfile repo path s) \<longleftrightarrow>
     (\<exists>lock packages. read_toml repo path = Inr lock \<and> dget lock ''package'' = JArr packages \<and>
        (\<forall>(p, v) \<in> set s. locked_ok packages p v))"
proof -
  have all: "(\<forall>x \<in> set s. isOK (check_locked packages x)) \<longleftrightarrow> (\<forall>(p, v) \<in> set s. locked_ok packages p v)"
    for packages
    unfolding Ball_def split_paired_All prod.case check_locked_ok by (rule refl)
  show ?thesis
    unfolding validate_lockfile_def isOK_ebind want_Inr
    by (simp only: ex_simps emap_ex isOK_simps mem_sort_key all simp_thms)
qed

lemma source_config_step:
  "isOK (let path = base @ [''.cargo'', name] in
       if \<not> path_exists repo path then Inr ()
       else
         ebind (want_some (get_file repo path) ProvOSError) (\<lambda>f.
         ebind (want_some (toml_doc f) InvalidToml) (\<lambda>document.
           eguard (\<not> has_key document ''source'') SourceReplacement))) \<longleftrightarrow>
   (path_exists repo (base @ [''.cargo'', name]) \<longrightarrow>
        (\<exists>f d. get_file repo (base @ [''.cargo'', name]) = Some f \<and> toml_doc f = Some d
           \<and> \<not> has_key d ''source''))"
  by (simp add: Let_def monad_simps)

lemma source_config_iff: "isOK (validate_cargo_source_config repo base) \<longleftrightarrow> source_config_ok repo base"
  unfolding validate_cargo_source_config_def isOK_emap_then source_config_ok_def
  by (simp add: source_config_step)

lemma workload_step:
  assumes "manifest_ok d"
  shows "(\<forall>(p, v) \<in> set (collected d). locked_ok packages p v) \<longleftrightarrow>
    (\<forall>p v. declares d p v \<longrightarrow> locked_ok packages p v)"
proof -
  have "\<forall>p v w. declares d p v \<and> declares d p w \<longrightarrow> v = w"
    using assms unfolding manifest_ok_def by simp
  note mem = collected_mem [OF this]
  show ?thesis unfolding Ball_def split_paired_All prod.case mem by (rule refl)
qed

lemma validate_workload_ok: "isOK (validate_workload repo dir) \<longleftrightarrow> workload_ok repo dir"
proof -
  have "isOK (validate_workload repo dir) \<longleftrightarrow> isOK (validate_cargo_source_config repo dir) \<and>
      (\<exists>s. validate_manifest repo (dir @ [''Cargo.toml'']) = Inr s \<and>
         isOK (validate_lockfile repo (dir @ [''Cargo.lock'']) s))"
    unfolding validate_workload_def by (auto simp: isOK_iff monad_simps)
  also have "\<dots> \<longleftrightarrow> workload_ok repo dir"
    unfolding source_config_iff validate_lockfile_ok validate_manifest_Inr workload_ok_def
    by (auto simp: workload_step cong: conj_cong) 
  finally show ?thesis .
qed

lemma check_fixture_dependency_ok:
  "isOK (check_fixture_dependency dep) \<longleftrightarrow>
     (\<exists>p v d. dependency_package (fst (snd dep)) (snd (snd dep)) = Inr (p, v, d) \<and> \<not> is_first_party p)"
  by (cases dep) (auto simp: check_fixture_dependency_def split: prod.splits)

lemma validate_fixture_ok: "isOK (validate_fixture repo dir) \<longleftrightarrow> fixture_ok repo dir"
  unfolding validate_fixture_def validate_fixture_manifest_def validate_fixture_lockfile_def fixture_ok_def
  by (simp only: isOK_ebind ebind_ex want_Inr ex_simps emap_ex check_fixture_dependency_ok isOK_simps
      isOK_eguard simp_thms) auto

lemma provenance_accepts:
  "isOK (validate_provenance repo) \<longleftrightarrow> source_config_ok repo [] \<and>
     (\<exists>ws fs. load_workloads repo = Inr ws \<and> load_fixtures repo = Inr fs \<and>
        (\<forall>dir \<in> set ws. workload_ok repo dir) \<and> (\<forall>dir \<in> set fs. fixture_ok repo dir))"
  unfolding validate_provenance_def isOK_ebind source_config_iff [symmetric]
    validate_workload_ok [symmetric] validate_fixture_ok [symmetric]
  by (auto simp: isOK_iff)

section \<open>The registry's entries\<close>

lemma load_registry_read:
  "load_registry repo = Inr d \<Longrightarrow> read_registry repo = Inr (JObj d)"
  by (auto simp: load_registry_def read_registry_def monad_simps)

lemma entry_path_record: "entry_record kind j e \<Longrightarrow> entry_path err j = Inr (path_parts (e_path e))"
  by (auto simp: entry_path_def entry_record_def)

lemma emap_entry_path:
  "list_all2 (entry_record kind) raws es \<Longrightarrow>
     emap (entry_path err) raws = Inr (map (\<lambda>e. path_parts (e_path e)) es)"
  by (induction raws es rule: list_all2_induct) (simp_all add: entry_path_record)

lemma accepted_entry_dirs:
  assumes "validate_repository repo = Inr r"
  shows "\<exists>ws fs. load_workloads repo = Inr (map (\<lambda>e. path_parts (e_path e)) ws) \<and>
    load_fixtures repo = Inr (map (\<lambda>e. path_parts (e_path e)) fs) \<and>
    set ws = set (workloads r) \<and> set fs = set (fixtures r)"
proof -
  obtain d ws_raw fs_raw ws fs where d: "load_registry repo = Inr d" "dget d ''workloads'' = JArr ws_raw"
      "get_default d ''fixtures'' (JArr []) = JArr fs_raw" "ws_raw \<noteq> []"
    and recs: "list_all2 (entry_record ''workload'') ws_raw ws"
      "list_all2 (entry_record ''fixture'') fs_raw fs"
    and r: "r = \<lparr>workloads = sort_key e_path ws, fixtures = sort_key e_path fs\<rparr>"
    using assms unfolding validate_repository_spec registry_spec_def by blast
  have "load_workloads repo = Inr (map (\<lambda>e. path_parts (e_path e)) ws)"
    using d emap_entry_path [OF recs(1)] by (simp add: load_workloads_def load_registry_read)
  moreover have "load_fixtures repo = Inr (map (\<lambda>e. path_parts (e_path e)) fs)"
    using d emap_entry_path [OF recs(2)] by (simp add: load_fixtures_def load_registry_read)
  ultimately show ?thesis unfolding r
    by (intro exI [of _ ws] exI [of _ fs]) simp
qed

lemma registered_provenance:
  assumes "validate_repository repo = Inr r"
  shows "isOK (validate_provenance repo) \<longleftrightarrow> source_config_ok repo [] \<and>
    (\<forall>e \<in> set (workloads r). workload_ok repo (path_parts (e_path e))) \<and>
    (\<forall>e \<in> set (fixtures r). fixture_ok repo (path_parts (e_path e)))"
proof -
  obtain ws fs where *: "load_workloads repo = Inr (map (\<lambda>e. path_parts (e_path e)) ws)"
    "load_fixtures repo = Inr (map (\<lambda>e. path_parts (e_path e)) fs)"
    "set ws = set (workloads r)" "set fs = set (fixtures r)"
    using accepted_entry_dirs [OF assms] by blast
  show ?thesis unfolding provenance_accepts *(1,2) *(3,4) [symmetric] by simp
qed

section \<open>A published workload\<close>

definition toml_file :: "obj \<Rightarrow> filedata" where
  "toml_file d = (text_file [])\<lparr>toml_doc := Some d\<rparr>"

definition published_manifest :: obj where
  "published_manifest =
     [(''package'', JObj [(''name'', JStr ''alpha''), (''rust-version'', JStr ''1.8'')]),
      (''dependencies'', JObj [(''oxide-batch'', JStr ''=0.5.0''), (''serde'', JStr ''1''),
         (''core'', JObj [(''package'', JStr ''oxide-batch-core''), (''version'', JStr ''=0.5.0-rc.1'')])])]"

definition locked_package :: "string \<Rightarrow> string \<Rightarrow> json" where
  "locked_package name ver = JObj [(''name'', JStr name), (''version'', JStr ver),
     (''source'', JStr ''registry+https://github.com/rust-lang/crates.io-index''),
     (''checksum'', JStr (replicate 64 (CHR ''a'')))]"

definition published_lock :: "string \<Rightarrow> obj" where
  "published_lock ver =
     [(''package'', JArr [locked_package ''oxide-batch'' ''0.5.0'', locked_package ''oxide-batch-core'' ver])]"

definition published_tree :: "string \<Rightarrow> node" where
  "published_tree ver = NDir
     [(''workloads.json'', NFile (json_file (JObj sample_registry))),
      (''a'', NDir [(''Cargo.toml'', NFile (toml_file published_manifest)),
                   (''Cargo.lock'', NFile (toml_file (published_lock ver))),
                   (''ci'', NDir [(''validate'', NFile script_file)])]),
      (''b'', NDir [(''Cargo.toml'', NFile (toml_file [(''package'', JObj [(''name'', JStr ''beta'')])])),
                   (''Cargo.lock'', NFile (toml_file [])),
                   (''ci'', NDir [(''validate'', NFile script_file)])]),
      (''r'', NDir [(''Cargo.toml'', NFile (toml_file []))])]"

lemma published_accepted: "validate_repository (published_tree ver) = Inr sample_result"
  by (simp add: published_tree_def) code_simp

lemma published_provenance:
  "validate_provenance (published_tree ''0.5.0-rc.1'') =
     Inr [(''a'', [(''oxide-batch'', ''0.5.0''), (''oxide-batch-core'', ''0.5.0-rc.1'')])]"
  by code_simp

lemma unlocked_provenance:
  "validate_provenance (published_tree ''0.5.0'') = Inl (LockfileCount ''oxide-batch-core'' ''0.5.0-rc.1'' 0)"
  by code_simp

section \<open>Properties\<close>

text \<open>
  C14. The provenance validator accepts exactly the repositories where no Cargo configuration
  replaces a source, every registered workload declares first-party packages, each at one exact
  version, without an override, and locks each of them once, from crates.io, with a checksum,
  and no fixture declares or locks a first-party package.
\<close>

theorem validate_provenance_iff:
  "isOK (validate_provenance repo) \<longleftrightarrow> source_config_ok repo [] \<and>
     (\<exists>ws fs. load_workloads repo = Inr ws \<and> load_fixtures repo = Inr fs \<and>
        (\<forall>dir \<in> set ws. workload_ok repo dir) \<and> (\<forall>dir \<in> set fs. fixture_ok repo dir))"
  by (rule provenance_accepts)

theorem validate_provenance_iff_witness:
  "(source_config_ok (published_tree ''0.5.0-rc.1'') [] \<and>
     (\<exists>ws fs. load_workloads (published_tree ''0.5.0-rc.1'') = Inr ws \<and>
        load_fixtures (published_tree ''0.5.0-rc.1'') = Inr fs \<and>
        (\<forall>dir \<in> set ws. workload_ok (published_tree ''0.5.0-rc.1'') dir) \<and>
        (\<forall>dir \<in> set fs. fixture_ok (published_tree ''0.5.0-rc.1'') dir)))
   \<and> \<not> (source_config_ok (published_tree ''0.5.0'') [] \<and>
     (\<exists>ws fs. load_workloads (published_tree ''0.5.0'') = Inr ws \<and>
        load_fixtures (published_tree ''0.5.0'') = Inr fs \<and>
        (\<forall>dir \<in> set ws. workload_ok (published_tree ''0.5.0'') dir) \<and>
        (\<forall>dir \<in> set fs. fixture_ok (published_tree ''0.5.0'') dir)))"
  unfolding validate_provenance_iff [symmetric] published_provenance unlocked_provenance by simp

text \<open>
  On a repository both validators accept, every entry the registry reports as a workload
  builds published releases only: whatever first-party package its manifest declares, in any
  dependency table of any target, is locked at that one version from crates.io with a checksum;
  and no entry it reports as a fixture locks a first-party package.
\<close>

theorem registered_workloads_published:
  assumes "validate_repository repo = Inr r" and "isOK (validate_provenance repo)"
  shows "(\<forall>e \<in> set (workloads r). workload_ok repo (path_parts (e_path e)))
    \<and> (\<forall>e \<in> set (fixtures r). fixture_ok repo (path_parts (e_path e)))"
  using assms(2) unfolding registered_provenance [OF assms(1)] by simp

theorem registered_workloads_published_witness:
  "workload_ok (published_tree ''0.5.0-rc.1'') [''a''] \<and> fixture_ok (published_tree ''0.5.0-rc.1'') [''b'']"
proof -
  have "path_parts ''a'' = [''a'']" "path_parts ''b'' = [''b'']" by code_simp+
  moreover have "isOK (validate_provenance (published_tree ''0.5.0-rc.1''))"
    unfolding published_provenance by simp
  ultimately show ?thesis
    using registered_workloads_published [OF published_accepted] unfolding sample_result_def by auto
qed

end
