(* ===== verification/Closure.thy ===== *)
theory Closure
  imports Provenance "HOL-Library.Product_Lexorder"
begin

text \<open>
  First part of \<open>.github/scripts/validate-evidence.py\<close>: the field checks, the Git tree of a
  workload and its semantic closure, the paths with their modes and blob identities that the
  producer's semantics depends on. Git is a record of functions: what \<open>cat-file -e\<close>, \<open>show\<close>,
  \<open>cat-file blob\<close>, \<open>ls-tree -r -z\<close> and \<open>rev-list --reverse HEAD\<close> return, \<open>None\<close> where the command
  exits non-zero; SHA-256 is a parameter. The position of an element in its array, which the
  messages carry, is left out of the errors.
\<close>

datatype (plugins only: code) ev_error =
    BadKeys string
  | NotNonEmptyString string
  | NotHex string
  | UnsafePath string string
  | NotArray string
  | NotObject string
  | BadNumber string
  | BadValue string
  | DuplicateItem string string
  | ArtifactNotGenerated string
  | MissingArtifact string
  | DigestMismatch string
  | SizeMismatch string
  | UnsupportedTrustClass string
  | ClaimsTrustedProducer
  | GitFailed string
  | CannotReadTree string
  | MalformedTree
  | TreeEscaped string
  | EmptyTree string
  | SelectorUnmatched string
  | BadMode string
  | OutsideIncludes string
  | NotSorted
  | SelectorUnrecorded string
  | NoHistory
  | NotRepresented
  | ExcludedNotArtifacts
  | EvidenceInClosure "string list"
  | ManifestInClosure
  | ClosureMismatch
  | ProducerMismatch
  | NotInClosure string string
  | BlobUnavailable string
  | SnapshotProvenance prov_error
  | LockUnparsable
  | LockNotUnique string string
  | IdentityMismatch string
  | SubjectMismatch
  | RetentionExceeded string
  | RetentionLayout
  | VerifierMalformed
  | VerifierReported "string list"
  | VerifierExit int
  | MissingManifest string
  | InvalidManifest
  | InvalidRegistry registry_error
  | NotADirectory string
  | EvTypeError
  | EvOSError

record git_repo =
  has_commit :: "string \<Rightarrow> bool"
  show_file :: "string \<Rightarrow> string \<Rightarrow> filedata option"
  blob :: "string \<Rightarrow> filedata option"
  ls_tree :: "string \<Rightarrow> string \<Rightarrow> string option"
  rev_list :: "string list option"

section \<open>Field checks\<close>

definition require_keys :: "json \<Rightarrow> string list \<Rightarrow> string \<Rightarrow> ev_error + obj" where
  "require_keys v expected field =
     ebind (want_obj v (BadKeys field)) (\<lambda>d.
     ebind (eguard (exact_keys d expected) (BadKeys field)) (\<lambda>_. Inr d))"

definition require_string :: "json \<Rightarrow> string \<Rightarrow> ev_error + string" where
  "require_string v field =
     ebind (want_str v (NotNonEmptyString field)) (\<lambda>s.
     ebind (eguard (\<not> blank s) (NotNonEmptyString field)) (\<lambda>_. Inr s))"

definition require_hex :: "json \<Rightarrow> nat \<Rightarrow> string \<Rightarrow> ev_error + string" where
  "require_hex v n field =
     ebind (want_str v (NotHex field)) (\<lambda>s.
     ebind (eguard (hex_string n s) (NotHex field)) (\<lambda>_. Inr s))"

definition safe_path :: "json \<Rightarrow> string \<Rightarrow> ev_error + string" where
  "safe_path v field =
     ebind (require_string v field) (\<lambda>s.
     ebind (eguard (\<not> is_absolute s \<and> list_all (\<lambda>p. p \<notin> {[], ''.'', ''..''}) (path_parts s))
              (UnsafePath field s)) (\<lambda>_.
       Inr (as_posix (path_parts s))))"

text \<open>\<open>if not isinstance(v, list) or not v: fail(...)\<close>.\<close>

definition require_items :: "json \<Rightarrow> string \<Rightarrow> ev_error + json list" where
  "require_items v field =
     ebind (want_arr v (NotArray field)) (\<lambda>xs.
     ebind (eguard (xs \<noteq> []) (NotArray field)) (\<lambda>_. Inr xs))"

text \<open>\<open>v not in {...}\<close> raises \<open>TypeError\<close> on a list or a dict.\<close>

definition require_member :: "json \<Rightarrow> string list \<Rightarrow> ev_error \<Rightarrow> ev_error + unit" where
  "require_member v ss err =
     ebind (eguard (hashable v) EvTypeError) (\<lambda>_. eguard (v \<in> JStr ` set ss) err)"

definition trust_classes :: "string list" where
  "trust_classes =
     [''recorded-metadata'', ''schema-checked'', ''deterministically-recomputed'', ''trusted-producer-bound'']"

definition manifest_name :: string where
  "manifest_name = ''evidence-manifest.json''"

section \<open>Git trees\<close>

definition null_byte :: char where
  "null_byte = char_of (0 :: nat)"

definition tab :: char where
  "tab = char_of (9 :: nat)"

text \<open>\<open>a, b = s.split(c, 1)\<close>; \<open>None\<close> where the unpacking raises \<open>ValueError\<close>.\<close>

definition split1 :: "char \<Rightarrow> string \<Rightarrow> (string \<times> string) option" where
  "split1 c s =
     (if c \<in> set s then Some (takeWhile (\<lambda>x. x \<noteq> c) s, tl (dropWhile (\<lambda>x. x \<noteq> c) s)) else None)"

definition rstrip_slash :: "string \<Rightarrow> string" where
  "rstrip_slash s = rev (dropWhile (\<lambda>c. c = CHR ''/'') (rev s))"

type_synonym identity = "string \<times> string"
type_synonym git_tree = "(string \<times> identity) list"

text \<open>One record of \<open>git ls-tree\<close>: mode, kind, object name and path.\<close>

definition parse_tree_entry :: "string \<Rightarrow> (string \<times> string \<times> string \<times> string) option" where
  "parse_tree_entry e =
     Option.bind (split1 tab e) (\<lambda>(meta, path).
     Option.bind (split1 (CHR '' '') meta) (\<lambda>(mode, r).
     Option.bind (split1 (CHR '' '') r) (\<lambda>(kind, oid). Some (mode, kind, oid, path))))"

definition add_tree_entry :: "string \<Rightarrow> git_tree \<Rightarrow> string \<Rightarrow> ev_error + git_tree" where
  "add_tree_entry pre result e =
     ebind (want_some (parse_tree_entry e) MalformedTree) (\<lambda>(mode, kind, oid, path).
       if kind \<noteq> ''blob'' then Inr result
       else
         ebind (eguard (startswith path pre) (TreeEscaped path)) (\<lambda>_.
           Inr (assoc_set result (drop (length pre) path) (mode, oid))))"

definition parse_tree :: "string \<Rightarrow> string \<Rightarrow> ev_error + git_tree" where
  "parse_tree workload_path out =
     efold (add_tree_entry (rstrip_slash workload_path @ ''/'')) []
       (filter (\<lambda>e. e \<noteq> []) (split_on null_byte out))"

definition workload_tree :: "git_repo \<Rightarrow> string \<Rightarrow> string \<Rightarrow> bool \<Rightarrow> ev_error + git_tree" where
  "workload_tree g revision workload_path required =
     (case ls_tree g revision workload_path of
        None \<Rightarrow> if required then Inl (CannotReadTree workload_path) else Inr []
      | Some out \<Rightarrow>
          ebind (parse_tree workload_path out) (\<lambda>result.
          ebind (eguard (result \<noteq> [] \<or> \<not> required) (EmptyTree workload_path)) (\<lambda>_. Inr result)))"

section \<open>Selecting the closure\<close>

type_synonym closure = "(string \<times> identity) list"

definition selects :: "string \<Rightarrow> string \<Rightarrow> bool" where
  "selects selector path \<longleftrightarrow> path = selector \<or> startswith path (rstrip_slash selector @ ''/'')"

definition update_all :: "git_tree \<Rightarrow> git_tree \<Rightarrow> git_tree" where
  "update_all d new = foldl (\<lambda>d (k, v). assoc_set d k v) d new"

fun select_from :: "git_tree \<Rightarrow> string list \<Rightarrow> git_tree \<Rightarrow> git_tree option" where
  "select_from tree [] selected = Some selected"
| "select_from tree (selector # includes) selected =
     (let matched = filter (\<lambda>e. selects selector (fst e)) tree
      in if matched = [] then None else select_from tree includes (update_all selected matched))"

definition try_select_closure :: "git_tree \<Rightarrow> string list \<Rightarrow> closure option" where
  "try_select_closure tree includes = map_option (sort_key fst) (select_from tree includes [])"

definition select_closure :: "git_tree \<Rightarrow> string list \<Rightarrow> ev_error + closure" where
  "select_closure tree includes =
     (case try_select_closure tree includes of
        Some entries \<Rightarrow> Inr entries
      | None \<Rightarrow>
          Inl (SelectorUnmatched
            (case filter (\<lambda>s. \<not> list_ex (\<lambda>e. selects s (fst e)) tree) includes of
               s # _ \<Rightarrow> s
             | [] \<Rightarrow> [])))"

definition entry_bytes :: "string \<times> identity \<Rightarrow> string" where
  "entry_bytes e =
     (case e of (path, mode, oid) \<Rightarrow> path @ [null_byte] @ mode @ [null_byte] @ oid @ [line_feed])"

definition closure_payload :: "closure \<Rightarrow> string" where
  "closure_payload entries = concat (map entry_bytes (sort entries))"

definition closure_digest :: "(string \<Rightarrow> string) \<Rightarrow> closure \<Rightarrow> string" where
  "closure_digest sha256 entries = sha256 (closure_payload entries)"

section \<open>The recorded closure\<close>

definition parse_closure_entry :: "string list \<Rightarrow> closure \<Rightarrow> json \<Rightarrow> ev_error + closure" where
  "parse_closure_entry includes entries v =
     ebind (require_keys v [''path'', ''mode'', ''git_blob_oid''] ''semantic_closure.entries'') (\<lambda>item.
     ebind (safe_path (dget item ''path'') ''path'') (\<lambda>path.
     ebind (eguard (path \<notin> set (map fst entries)) (DuplicateItem ''semantic_closure.entries'' path)) (\<lambda>_.
     ebind (require_string (dget item ''mode'') ''mode'') (\<lambda>mode.
     ebind (eguard (mode \<in> {''100644'', ''100755''}) (BadMode mode)) (\<lambda>_.
     ebind (require_hex (dget item ''git_blob_oid'') 40 ''git_blob_oid'') (\<lambda>oid.
     ebind (eguard (list_ex (\<lambda>s. selects s path) includes) (OutsideIncludes path)) (\<lambda>_.
       Inr (entries @ [(path, mode, oid)]))))))))"

definition parse_closure_entries :: "json \<Rightarrow> string list \<Rightarrow> ev_error + closure" where
  "parse_closure_entries v includes =
     ebind (require_items v ''semantic_closure.entries'') (\<lambda>items.
     ebind (efold (parse_closure_entry includes) [] items) (\<lambda>entries.
     ebind (eguard (map fst entries = sort (map fst entries)) NotSorted) (\<lambda>_.
     ebind (emap (\<lambda>s. eguard (list_ex (\<lambda>e. selects s (fst e)) entries) (SelectorUnrecorded s)) includes) (\<lambda>_.
       Inr entries))))"

fun first_representation :: "git_repo \<Rightarrow> string \<Rightarrow> string list \<Rightarrow> closure \<Rightarrow> string list \<Rightarrow> ev_error + string" where
  "first_representation g workload_path includes entries [] = Inl NotRepresented"
| "first_representation g workload_path includes entries (revision # revisions) =
     ebind (workload_tree g revision workload_path False) (\<lambda>tree.
       if tree \<noteq> [] \<and> try_select_closure tree includes = Some entries then Inr revision
       else first_representation g workload_path includes entries revisions)"

definition find_reachable_closure_representation ::
    "git_repo \<Rightarrow> string \<Rightarrow> string list \<Rightarrow> closure \<Rightarrow> ev_error + string" where
  "find_reachable_closure_representation g workload_path includes entries =
     ebind (want_some (rev_list g) (GitFailed ''rev-list'')) (\<lambda>revisions.
     ebind (eguard (revisions \<noteq> []) NoHistory) (\<lambda>_.
       first_representation g workload_path includes entries revisions))"

definition validate_semantic_closure ::
    "git_repo \<Rightarrow> (string \<Rightarrow> string) \<Rightarrow> string \<Rightarrow> string \<Rightarrow> bool \<Rightarrow> json \<Rightarrow> string list
       \<Rightarrow> ev_error + closure \<times> string" where
  "validate_semantic_closure g sha256 workload_path producer available v artifacts =
     ebind (require_keys v [''algorithm'', ''includes'', ''excluded_generated_paths'', ''entries'', ''digest_sha256'']
              ''semantic_closure'') (\<lambda>closure.
     ebind (eguard (dget closure ''algorithm'' = JStr ''sha256-git-tree-entries-v1'') (BadValue ''algorithm'')) (\<lambda>_.
     ebind (require_items (dget closure ''includes'') ''includes'') (\<lambda>include_items.
     ebind (emap (\<lambda>i. safe_path i ''includes[]'') include_items) (\<lambda>includes.
     ebind (eguard (distinct includes) (DuplicateItem ''includes'' [])) (\<lambda>_.
     ebind (require_items (dget closure ''excluded_generated_paths'') ''excluded_generated_paths'') (\<lambda>excluded_items.
     ebind (emap (\<lambda>i. safe_path i ''excluded_generated_paths[]'') excluded_items) (\<lambda>excluded.
     ebind (eguard (length (dedup excluded) = length excluded_items) (DuplicateItem ''excluded'' [])) (\<lambda>_.
     ebind (eguard (set excluded = set artifacts) ExcludedNotArtifacts) (\<lambda>_.
     ebind (parse_closure_entries (dget closure ''entries'') includes) (\<lambda>entries.
     let leaked = sort (filter (\<lambda>p. p \<in> set excluded) (map fst entries)) in
     ebind (eguard (leaked = []) (EvidenceInClosure leaked)) (\<lambda>_.
     ebind (eguard (''validation/'' @ manifest_name \<notin> set (map fst entries)) ManifestInClosure) (\<lambda>_.
     ebind (require_hex (dget closure ''digest_sha256'') 64 ''digest_sha256'') (\<lambda>expected.
     ebind (eguard (closure_digest sha256 entries = expected) ClosureMismatch) (\<lambda>_.
     ebind (find_reachable_closure_representation g workload_path includes entries) (\<lambda>representation.
     ebind
       (if available
        then
          ebind (workload_tree g producer workload_path True) (\<lambda>tree.
          ebind (select_closure tree includes) (\<lambda>producer_entries.
            eguard (producer_entries = entries) ProducerMismatch))
        else Inr ()) (\<lambda>_.
       Inr (entries, representation)))))))))))))))))"

section \<open>Reading a tree\<close>

lemma split_on_append: "c \<notin> set xs \<Longrightarrow> split_on c (xs @ c # ys) = xs # split_on c ys"
  by (induction xs) auto

lemma split1_append [simp]: "c \<notin> set xs \<Longrightarrow> split1 c (xs @ c # ys) = Some (xs, ys)"
  by (induction xs) (auto simp: split1_def)

lemma distinct_update_all:
  "distinct (map fst d) \<Longrightarrow> distinct (map fst (update_all d new))"
  unfolding update_all_def by (induction new arbitrary: d) (auto simp: distinct_keys_assoc_set)

lemma map_of_update_all:
  "distinct (map fst new) \<Longrightarrow> map_of (update_all d new) = map_of d ++ map_of new"
proof (induction new arbitrary: d)
  case Nil
  then show ?case by (simp add: update_all_def)
next
  case (Cons e new)
  obtain k v where e: "e = (k, v)" by (cases e) auto
  have "update_all d (e # new) = update_all (assoc_set d k v) new"
    by (simp add: update_all_def e)
  moreover have "k \<notin> dom (map_of new)"
    using Cons.prems e by (auto simp: dom_map_of_conv_image_fst)
  ultimately show ?case
    using Cons e by (simp add: map_add_upd_left) (simp add: map_add_def fun_eq_iff)
qed

lemma add_tree_entry_distinct:
  "add_tree_entry pre t e = Inr t' \<Longrightarrow> distinct (map fst t) \<Longrightarrow> distinct (map fst t')"
  by (auto simp: add_tree_entry_def monad_simps distinct_keys_assoc_set split: if_splits)

lemma parse_tree_distinct: "parse_tree wp out = Inr t \<Longrightarrow> distinct (map fst t)"
proof -
  have "efold (add_tree_entry pre) t0 es = Inr t \<Longrightarrow> distinct (map fst t0) \<Longrightarrow> distinct (map fst t)"
    for pre t0 es
  proof (induction es arbitrary: t0)
    case Nil
    then show ?case by simp
  next
    case (Cons e es)
    then show ?case by (auto simp: ebind_Inr_iff dest: add_tree_entry_distinct)
  qed
  then show "parse_tree wp out = Inr t \<Longrightarrow> distinct (map fst t)"
    unfolding parse_tree_def by simp
qed

lemma workload_tree_distinct: "workload_tree g rv wp b = Inr t \<Longrightarrow> distinct (map fst t)"
  by (auto simp: workload_tree_def monad_simps parse_tree_distinct split: option.splits if_splits)

text \<open>What \<open>git ls-tree -r -z\<close> prints for an entry.\<close>

definition ls_tree_entry :: "string \<times> string \<times> string \<times> string \<Rightarrow> string" where
  "ls_tree_entry e =
     (case e of (mode, kind, oid, path) \<Rightarrow>
        mode @ [CHR '' ''] @ kind @ [CHR '' ''] @ oid @ [tab] @ path)"

definition plain_tree_entry :: "string \<times> string \<times> string \<times> string \<Rightarrow> bool" where
  "plain_tree_entry e \<longleftrightarrow>
     (case e of (mode, kind, oid, path) \<Rightarrow>
        {CHR '' '', tab, null_byte} \<inter> set mode = {} \<and> {CHR '' '', tab, null_byte} \<inter> set kind = {} \<and>
        {tab, null_byte} \<inter> set oid = {} \<and> null_byte \<notin> set path)"

lemma tab_not_blank [simp]: "tab \<noteq> CHR '' ''" "CHR '' '' \<noteq> tab"
  "null_byte \<noteq> tab" "tab \<noteq> null_byte" "null_byte \<noteq> CHR '' ''" "CHR '' '' \<noteq> null_byte"
  by (code_simp)+

lemma parse_ls_tree_entry:
  assumes "plain_tree_entry e"
  shows "parse_tree_entry (ls_tree_entry e) = Some e"
proof -
  obtain mode kind oid path where e: "e = (mode, kind, oid, path)" by (cases e) auto
  have t: "tab \<notin> set (mode @ [CHR '' ''] @ kind @ [CHR '' ''] @ oid)"
    and m: "CHR '' '' \<notin> set mode" and k: "CHR '' '' \<notin> set kind"
    using assms by (auto simp: plain_tree_entry_def e)
  have "ls_tree_entry e = (mode @ [CHR '' ''] @ kind @ [CHR '' ''] @ oid) @ tab # path"
    by (simp add: ls_tree_entry_def e)
  then have "split1 tab (ls_tree_entry e) = Some (mode @ CHR '' '' # kind @ CHR '' '' # oid, path)"
    using split1_append [OF t, of path] by simp
  then show ?thesis
    using split1_append [OF m] split1_append [OF k] by (simp add: parse_tree_entry_def e)
qed

lemma split_ls_tree:
  "list_all plain_tree_entry es \<Longrightarrow>
     filter (\<lambda>e. e \<noteq> []) (split_on null_byte (concat (map (\<lambda>e. ls_tree_entry e @ [null_byte]) es))) =
     map ls_tree_entry es"
proof (induction es)
  case Nil
  then show ?case by simp
next
  case (Cons e es)
  have "null_byte \<notin> set (ls_tree_entry e)"
    using Cons.prems by (auto simp: plain_tree_entry_def ls_tree_entry_def split: prod.splits)
  moreover have "ls_tree_entry e \<noteq> []"
    by (simp add: ls_tree_entry_def split: prod.splits)
  ultimately show ?case
    using Cons by (simp add: split_on_append)
qed

text \<open>The blobs of the entries below a workload, by their path relative to it.\<close>

definition tree_of :: "string \<Rightarrow> (string \<times> string \<times> string \<times> string) list \<Rightarrow> git_tree" where
  "tree_of wp es = map (\<lambda>(mode, kind, oid, path). (drop (length (rstrip_slash wp) + 1) path, mode, oid))
     (filter (\<lambda>(mode, kind, oid, path). kind = ''blob'') es)"

definition path_of :: "string \<times> string \<times> string \<times> string \<Rightarrow> string" where
  "path_of e = snd (snd (snd e))"

lemma tree_of_new:
  assumes "list_all (\<lambda>e. startswith (path_of e) (rstrip_slash wp @ ''/'')) (e # es)"
    and "path_of e \<notin> path_of ` set es"
  shows "map_of (tree_of wp es) (drop (length (rstrip_slash wp) + 1) (path_of e)) = None"
proof -
  have "drop (length (rstrip_slash wp) + 1) (path_of e') \<noteq> drop (length (rstrip_slash wp) + 1) (path_of e)"
    if "e' \<in> set es" for e'
  proof
    assume eq: "drop (length (rstrip_slash wp) + 1) (path_of e') = drop (length (rstrip_slash wp) + 1) (path_of e)"
    have "startswith (path_of e') (rstrip_slash wp @ ''/'')" "startswith (path_of e) (rstrip_slash wp @ ''/'')"
      using assms(1) that by (auto simp: list_all_iff)
    with eq have "path_of e' = path_of e" by (auto simp: startswith_iff)
    with that assms(2) show False by (metis imageI)
  qed
  then have "drop (length (rstrip_slash wp) + 1) (path_of e) \<notin> fst ` set (tree_of wp es)"
    by (force simp: tree_of_def path_of_def)
  then show ?thesis by (simp add: map_of_eq_None_iff)
qed

lemma fold_ls_tree:
  "list_all plain_tree_entry es \<Longrightarrow> distinct (map path_of (before @ es)) \<Longrightarrow>
   list_all (\<lambda>e. startswith (path_of e) (rstrip_slash wp @ ''/'')) (before @ es) \<Longrightarrow>
   efold (add_tree_entry (rstrip_slash wp @ ''/'')) (tree_of wp before) (map ls_tree_entry es)
     = Inr (tree_of wp (before @ es))"
proof (induction es arbitrary: before)
  case Nil
  then show ?case by simp
next
  case (Cons e es)
  obtain mode kind oid path where e: "e = (mode, kind, oid, path)" by (cases e) auto
  have parse: "parse_tree_entry (ls_tree_entry e) = Some (mode, kind, oid, path)"
    using Cons.prems(1) parse_ls_tree_entry [of e] by (simp add: e)
  have new: "map_of (tree_of wp before) (drop (length (rstrip_slash wp) + 1) (path_of e)) = None"
    using Cons.prems(2,3) by (intro tree_of_new) (auto simp: list_all_iff)
  have "startswith path (rstrip_slash wp @ ''/'')"
    using Cons.prems(3) by (simp add: e path_of_def)
  then have "add_tree_entry (rstrip_slash wp @ ''/'') (tree_of wp before) (ls_tree_entry e) =
      Inr (tree_of wp (before @ [e]))"
    using parse new by (simp add: add_tree_entry_def assoc_set_new e tree_of_def path_of_def)
  then show ?case
    using Cons.IH [of "before @ [e]"] Cons.prems by simp
qed

lemma ls_tree_read_back:
  assumes "list_all plain_tree_entry es" "distinct (map path_of es)"
    and "list_all (\<lambda>e. startswith (path_of e) (rstrip_slash wp @ ''/'')) es"
  shows "parse_tree wp (concat (map (\<lambda>e. ls_tree_entry e @ [null_byte]) es)) = Inr (tree_of wp es)"
  using fold_ls_tree [of es "[]" wp] assms
  unfolding parse_tree_def split_ls_tree [OF assms(1)] by (simp add: tree_of_def)

section \<open>What a selection contains\<close>

lemma select_from_Some:
  "select_from tree incl d = Some r \<longleftrightarrow>
     (\<forall>s \<in> set incl. \<exists>e \<in> set tree. selects s (fst e)) \<and>
     r = foldl (\<lambda>d s. update_all d (filter (\<lambda>e. selects s (fst e)) tree)) d incl"
  by (induction incl arbitrary: d) (auto simp: Let_def filter_empty_conv)

lemma map_of_filter_key:
  "map_of (filter (\<lambda>e. P (fst e)) t) k = (if P k then map_of t k else None)"
  by (induction t) auto

lemma foldl_update_map:
  assumes "distinct (map fst tree)"
  shows "map_of (foldl (\<lambda>d s. update_all d (filter (\<lambda>e. selects s (fst e)) tree)) d incl) k =
    (if (\<exists>s \<in> set incl. selects s k) \<and> map_of tree k \<noteq> None then map_of tree k else map_of d k)"
proof (induction incl arbitrary: d)
  case Nil
  then show ?case by simp
next
  case (Cons s incl)
  have "distinct (map fst (filter (\<lambda>e. selects s (fst e)) tree))"
    using assms by (rule distinct_map_filter)
  then show ?case
    by (auto simp: Cons.IH map_of_update_all map_add_def map_of_filter_key split: option.splits)
qed

lemma foldl_update_distinct:
  "distinct (map fst d) \<Longrightarrow>
     distinct (map fst (foldl (\<lambda>d s. update_all d (filter (\<lambda>e. selects s (fst e)) tree)) d incl))"
  by (induction incl arbitrary: d) (simp_all add: distinct_update_all)

definition selection_of :: "git_tree \<Rightarrow> string list \<Rightarrow> closure \<Rightarrow> bool" where
  "selection_of tree incl es \<longleftrightarrow>
     sorted_wrt (<) (map fst es) \<and>
     set es = {e \<in> set tree. \<exists>s \<in> set incl. selects s (fst e)} \<and>
     (\<forall>s \<in> set incl. \<exists>e \<in> set es. selects s (fst e))"

lemma selection_unique:
  assumes "selection_of tree incl es" "selection_of tree incl es'"
  shows "es = es'"
proof -
  have s: "sorted_wrt (<) (map fst es)" "sorted_wrt (<) (map fst es')" "set es = set es'"
    using assms by (simp_all add: selection_of_def)
  then have "map fst es = map fst es'"
    by (intro sorted_distinct_set_unique) (auto simp: strict_sorted_iff)
  moreover have "inj_on fst (set es \<union> set es')"
    using s by (simp add: strict_sorted_iff distinct_map)
  ultimately show ?thesis using map_inj_on by blast
qed

lemma try_select_selection:
  assumes "distinct (map fst tree)" and "try_select_closure tree incl = Some es"
  shows "selection_of tree incl es"
proof -
  let ?r = "foldl (\<lambda>d s. update_all d (filter (\<lambda>e. selects s (fst e)) tree)) [] incl"
  have each: "\<forall>s \<in> set incl. \<exists>e \<in> set tree. selects s (fst e)" and es: "es = sort_key fst ?r"
    using assms(2) by (auto simp: try_select_closure_def select_from_Some)
  have d: "distinct (map fst ?r)" by (rule foldl_update_distinct) simp
  have "(k, v) \<in> set ?r \<longleftrightarrow> (k, v) \<in> set tree \<and> (\<exists>s \<in> set incl. selects s k)" for k v
  proof -
    have "(k, v) \<in> set ?r \<longleftrightarrow> map_of ?r k = Some v"
      using d by simp
    also have "\<dots> \<longleftrightarrow> (\<exists>s \<in> set incl. selects s k) \<and> map_of tree k = Some v"
      unfolding foldl_update_map [OF assms(1)] by (cases v) auto
    also have "\<dots> \<longleftrightarrow> (k, v) \<in> set tree \<and> (\<exists>s \<in> set incl. selects s k)"
      using assms(1) by auto
    finally show ?thesis .
  qed
  then have set: "set es = {e \<in> set tree. \<exists>s \<in> set incl. selects s (fst e)}"
    unfolding es by auto
  have "sorted (map fst es)" "distinct (map fst es)"
    using d by (simp_all add: es distinct_map)
  then show ?thesis
    using set each unfolding selection_of_def strict_sorted_iff by fastforce
qed

lemma try_select_complete:
  assumes "distinct (map fst tree)" "selection_of tree incl es"
  shows "try_select_closure tree incl = Some es"
proof -
  have "\<forall>s \<in> set incl. \<exists>e \<in> set tree. selects s (fst e)"
    using assms(2) unfolding selection_of_def by blast
  then obtain es' where "try_select_closure tree incl = Some es'"
    by (auto simp: try_select_closure_def select_from_Some)
  moreover have "es' = es"
    using selection_unique try_select_selection [OF assms(1) calculation] assms(2) by blast
  ultimately show ?thesis by simp
qed

section \<open>What the digest determines\<close>

definition plain_entry :: "string \<times> identity \<Rightarrow> bool" where
  "plain_entry e \<longleftrightarrow>
     null_byte \<notin> set (fst e) \<and> null_byte \<notin> set (fst (snd e)) \<and> line_feed \<notin> set (snd (snd e))"

lemma sep_append_inj:
  "c \<notin> set xs \<Longrightarrow> c \<notin> set xs' \<Longrightarrow> xs @ c # ys = xs' @ c # ys' \<longleftrightarrow> xs = xs' \<and> ys = ys'"
proof (induction xs arbitrary: xs')
  case Nil
  then show ?case by (cases xs') auto
next
  case (Cons x xs)
  then show ?case by (cases xs') auto
qed

lemma entry_bytes_inj:
  assumes "plain_entry e" "plain_entry e'" "entry_bytes e @ r = entry_bytes e' @ r'"
  shows "e = e' \<and> r = r'"
proof -
  obtain p m i p' m' i' where e: "e = (p, m, i)" "e' = (p', m', i')"
    by (cases e, cases e') auto
  have "p @ null_byte # (m @ null_byte # (i @ line_feed # r)) =
      p' @ null_byte # (m' @ null_byte # (i' @ line_feed # r'))"
    using assms(3) by (simp add: entry_bytes_def e)
  with assms(1,2) show ?thesis by (simp add: plain_entry_def e sep_append_inj)
qed

lemma entries_bytes_inj:
  "list_all plain_entry es \<Longrightarrow> list_all plain_entry es' \<Longrightarrow>
     concat (map entry_bytes es) = concat (map entry_bytes es') \<Longrightarrow> es = es'"
proof (induction es arbitrary: es')
  case Nil
  have "entry_bytes e \<noteq> []" for e by (simp add: entry_bytes_def split: prod.splits)
  with Nil show ?case by (cases es') auto
next
  case (Cons e es)
  have ne: "entry_bytes e \<noteq> []" by (simp add: entry_bytes_def split: prod.splits)
  with Cons.prems obtain e' es1 where es': "es' = e' # es1" by (cases es') auto
  have "entry_bytes e @ concat (map entry_bytes es) = entry_bytes e' @ concat (map entry_bytes es1)"
    using Cons.prems(3) unfolding es' by simp
  moreover have "plain_entry e" "plain_entry e'" "list_all plain_entry es" "list_all plain_entry es1"
    using Cons.prems(1,2) unfolding es' by simp_all
  ultimately show ?case
    using entry_bytes_inj [of e e'] Cons.IH [of es1] unfolding es' by simp
qed

lemma payload_inj:
  assumes "list_all plain_entry es" "list_all plain_entry es'" "closure_payload es = closure_payload es'"
  shows "mset es = mset es'"
proof -
  have "sort es = sort es'"
    using assms unfolding closure_payload_def by (intro entries_bytes_inj) (simp_all add: list_all_iff)
  then have "mset (sort es) = mset (sort es')" by (rule arg_cong)
  then show ?thesis by simp
qed

section \<open>What an accepted closure is\<close>

lemma require_simps [monad_simps]:
  "require_keys v ks f = Inr d \<longleftrightarrow> v = JObj d \<and> exact_keys d ks"
  "require_string v f = Inr s \<longleftrightarrow> v = JStr s \<and> \<not> blank s"
  "require_hex v n f = Inr s \<longleftrightarrow> v = JStr s \<and> hex_string n s"
  "require_items v f = Inr xs \<longleftrightarrow> v = JArr xs \<and> xs \<noteq> []"
  by (auto simp: require_keys_def require_string_def require_hex_def require_items_def monad_simps)

definition is_safe_path :: "string \<Rightarrow> bool" where
  "is_safe_path s \<longleftrightarrow> \<not> is_absolute s \<and> list_all (\<lambda>p. p \<notin> {[], ''.'', ''..''}) (path_parts s)"

lemma safe_path_Inr [monad_simps]:
  "safe_path v f = Inr p \<longleftrightarrow>
     (\<exists>s. v = JStr s \<and> \<not> blank s \<and> is_safe_path s \<and> p = as_posix (path_parts s))"
  by (auto simp: safe_path_def is_safe_path_def monad_simps)

definition entry_ok_in :: "string list \<Rightarrow> string \<times> identity \<Rightarrow> bool" where
  "entry_ok_in incl e \<longleftrightarrow>
     (\<exists>s. is_safe_path s \<and> fst e = as_posix (path_parts s)) \<and>
     fst (snd e) \<in> {''100644'', ''100755''} \<and> hex_string 40 (snd (snd e)) \<and>
     (\<exists>s \<in> set incl. selects s (fst e))"

definition closure_ok :: "string list \<Rightarrow> closure \<Rightarrow> bool" where
  "closure_ok incl es \<longleftrightarrow> es \<noteq> [] \<and> sorted_wrt (<) (map fst es) \<and> list_all (entry_ok_in incl) es \<and>
     (\<forall>s \<in> set incl. \<exists>e \<in> set es. selects s (fst e))"

lemma parse_closure_entry_Inr:
  "parse_closure_entry incl es v = Inr es' \<Longrightarrow>
     \<exists>e. es' = es @ [e] \<and> fst e \<notin> set (map fst es) \<and> entry_ok_in incl e"
  by (auto simp: parse_closure_entry_def entry_ok_in_def monad_simps list_ex_iff)

lemma efold_parse_closure:
  "efold (parse_closure_entry incl) es items = Inr es' \<Longrightarrow> distinct (map fst es) \<Longrightarrow>
     list_all (entry_ok_in incl) es \<Longrightarrow>
     distinct (map fst es') \<and> list_all (entry_ok_in incl) es' \<and> length es' = length es + length items"
proof (induction items arbitrary: es)
  case Nil
  then show ?case by simp
next
  case (Cons v items)
  then obtain es1 where step: "parse_closure_entry incl es v = Inr es1"
    "efold (parse_closure_entry incl) es1 items = Inr es'"
    by (auto simp: ebind_Inr_iff)
  from parse_closure_entry_Inr [OF this(1)] obtain e where
    "es1 = es @ [e]" "fst e \<notin> set (map fst es)" "entry_ok_in incl e" by blast
  with Cons.IH [OF step(2)] Cons.prems show ?case by simp
qed

lemma parse_closure_entries_ok:
  assumes "parse_closure_entries v incl = Inr es"
  shows "closure_ok incl es"
proof -
  obtain items where *: "v = JArr items" "items \<noteq> []"
    "efold (parse_closure_entry incl) [] items = Inr es" "map fst es = sort (map fst es)"
    "\<forall>s \<in> set incl. list_ex (\<lambda>e. selects s (fst e)) es"
    using assms unfolding parse_closure_entries_def by (auto simp: ebind_Inr_iff require_simps)
  have d: "distinct (map fst es)" "list_all (entry_ok_in incl) es" "length es = length items"
    using efold_parse_closure [OF *(3)] by simp_all
  have each: "\<forall>s \<in> set incl. \<exists>e \<in> set es. selects s (fst e)"
    using *(5) by (simp add: list_ex_iff)
  have "sorted (map fst es)" by (subst *(4)) (rule sorted_sort)
  with d each *(2) show ?thesis
    unfolding closure_ok_def strict_sorted_iff by auto
qed

lemma first_representation_Inr:
  assumes "first_representation g wp incl es revs = Inr r"
  shows "\<exists>before after tree. revs = before @ r # after \<and> workload_tree g r wp False = Inr tree \<and>
    try_select_closure tree incl = Some es \<and>
    (\<forall>q \<in> set before. \<forall>t. workload_tree g q wp False = Inr t \<and> t \<noteq> [] \<longrightarrow> try_select_closure t incl \<noteq> Some es)"
  using assms
proof (induction revs)
  case Nil
  then show ?case by simp
next
  case (Cons q revs)
  then obtain t where t: "workload_tree g q wp False = Inr t"
    by (auto simp: ebind_Inr_iff)
  show ?case
  proof (cases "t \<noteq> [] \<and> try_select_closure t incl = Some es")
    case True
    with Cons.prems t have "q = r" by simp
    with True t show ?thesis by (intro exI [of _ "[]"] exI [of _ revs] exI [of _ t]) simp
  next
    case False
    with Cons.prems t have "first_representation g wp incl es revs = Inr r" by (simp add: if_not_P)
    from Cons.IH [OF this] obtain before after tree where
      "revs = before @ r # after" "workload_tree g r wp False = Inr tree"
      "try_select_closure tree incl = Some es"
      "\<forall>q \<in> set before. \<forall>t. workload_tree g q wp False = Inr t \<and> t \<noteq> [] \<longrightarrow> try_select_closure t incl \<noteq> Some es"
      by blast
    with False t show ?thesis
      by (intro exI [of _ "q # before"] exI [of _ after] exI [of _ tree]) auto
  qed
qed

text \<open>
  The first commit in the order of the history whose workload tree, restricted to the selectors,
  is the closure.
\<close>

definition represents :: "git_repo \<Rightarrow> string \<Rightarrow> string list \<Rightarrow> closure \<Rightarrow> string \<Rightarrow> bool" where
  "represents g wp incl es r \<longleftrightarrow>
     (\<exists>tree. workload_tree g r wp False = Inr tree \<and> selection_of tree incl es)"

definition first_representative :: "git_repo \<Rightarrow> string \<Rightarrow> string list \<Rightarrow> closure \<Rightarrow> string \<Rightarrow> bool" where
  "first_representative g wp incl es r \<longleftrightarrow>
     (\<exists>before after. rev_list g = Some (before @ r # after) \<and> represents g wp incl es r \<and>
        (\<forall>q \<in> set before. \<not> represents g wp incl es q))"

lemma represents_nonempty: "represents g wp incl es q \<Longrightarrow> es \<noteq> [] \<Longrightarrow>
    \<exists>t. workload_tree g q wp False = Inr t \<and> t \<noteq> [] \<and> try_select_closure t incl = Some es"
proof -
  assume "represents g wp incl es q" "es \<noteq> []"
  then obtain t where t: "workload_tree g q wp False = Inr t" "selection_of t incl es"
    unfolding represents_def by blast
  then have "try_select_closure t incl = Some es"
    using try_select_complete workload_tree_distinct by blast
  moreover have "t \<noteq> []"
    using t(2) \<open>es \<noteq> []\<close> unfolding selection_of_def by auto
  ultimately show ?thesis using t(1) by blast
qed

lemma find_representation:
  assumes "find_reachable_closure_representation g wp incl es = Inr r" "es \<noteq> []"
  shows "first_representative g wp incl es r"
proof -
  obtain revs where revs: "rev_list g = Some revs" "first_representation g wp incl es revs = Inr r"
    using assms(1) by (auto simp: find_reachable_closure_representation_def monad_simps)
  from first_representation_Inr [OF revs(2)] obtain before after tree where
    *: "revs = before @ r # after" "workload_tree g r wp False = Inr tree"
      "try_select_closure tree incl = Some es"
      "\<forall>q \<in> set before. \<forall>t. workload_tree g q wp False = Inr t \<and> t \<noteq> [] \<longrightarrow> try_select_closure t incl \<noteq> Some es"
    by blast
  have "represents g wp incl es r"
    using *(2,3) try_select_selection workload_tree_distinct unfolding represents_def by blast
  moreover have "\<forall>q \<in> set before. \<not> represents g wp incl es q"
    using represents_nonempty [OF _ assms(2)] *(4) by blast
  ultimately show ?thesis
    using revs(1) *(1) unfolding first_representative_def by blast
qed

lemma select_closure_Inr:
  "select_closure tree incl = Inr es \<longleftrightarrow> try_select_closure tree incl = Some es"
  by (auto simp: select_closure_def split: option.splits)

lemma workload_tree_weaken: "workload_tree g r wp True = Inr t \<Longrightarrow> workload_tree g r wp False = Inr t"
  by (auto simp: workload_tree_def monad_simps split: option.splits)

lemma validate_semantic_closure_sound:
  assumes "validate_semantic_closure g sha256 wp producer available v artifacts = Inr (es, r)"
  shows "\<exists>closure incl. v = JObj closure \<and> closure_ok incl es \<and> set (map fst es) \<inter> set artifacts = {} \<and>
    ''validation/'' @ manifest_name \<notin> set (map fst es) \<and>
    dget closure ''digest_sha256'' = JStr (closure_digest sha256 es) \<and>
    first_representative g wp incl es r \<and> (available \<longrightarrow> represents g wp incl es producer)"
proof -
  obtain closure incl excluded where *: "v = JObj closure" "set excluded = set artifacts"
    and parse: "parse_closure_entries (dget closure ''entries'') incl = Inr es"
    and leaked: "sort (filter (\<lambda>p. p \<in> set excluded) (map fst es)) = []"
    and man: "''validation/'' @ manifest_name \<notin> set (map fst es)"
    and dig: "dget closure ''digest_sha256'' = JStr (closure_digest sha256 es)"
    and rep: "find_reachable_closure_representation g wp incl es = Inr r"
    and prod: "available \<longrightarrow> (\<exists>tree. workload_tree g producer wp True = Inr tree \<and> select_closure tree incl = Inr es)"
    using assms unfolding validate_semantic_closure_def Let_def ebind_Inr_iff require_simps
    by (auto simp: monad_simps split: if_splits)
  have ok: "closure_ok incl es" by (rule parse_closure_entries_ok [OF parse])
  then have first: "first_representative g wp incl es r"
    using find_representation [OF rep] by (simp add: closure_ok_def)
  have "represents g wp incl es producer" if av: "available"
  proof -
    obtain tree where t: "workload_tree g producer wp True = Inr tree" "select_closure tree incl = Inr es"
      using prod av by blast
    then have "selection_of tree incl es"
      using try_select_selection workload_tree_distinct by (simp add: select_closure_Inr)
    with workload_tree_weaken [OF t(1)] show ?thesis unfolding represents_def by blast
  qed
  moreover have "set (map fst es) \<inter> set artifacts = {}"
  proof -
    have "filter (\<lambda>p. p \<in> set excluded) (map fst es) = []"
      using leaked by (metis set_empty set_sort)
    then show ?thesis using *(2) by (auto simp: filter_empty_conv)
  qed
  ultimately show ?thesis using * ok man dig first by blast
qed

section \<open>A small history\<close>

definition toy_sha :: "string \<Rightarrow> string" where
  "toy_sha s = replicate 64 (''0123456789abcdef'' ! (length s mod 16))"

definition toy_oid :: "char \<Rightarrow> string" where
  "toy_oid c = replicate 40 c"

definition sample_files :: "(string \<times> string \<times> string \<times> string) list" where
  "sample_files =
     [(''100644'', ''blob'', toy_oid (CHR ''1''), ''a/Cargo.lock''),
      (''100644'', ''blob'', toy_oid (CHR ''2''), ''a/Cargo.toml''),
      (''100755'', ''blob'', toy_oid (CHR ''3''), ''a/src/main.rs''),
      (''100644'', ''blob'', toy_oid (CHR ''4''), ''a/validation/run.json'')]"

definition ls_output :: "(string \<times> string \<times> string \<times> string) list \<Rightarrow> string" where
  "ls_output es = concat (map (\<lambda>e. ls_tree_entry e @ [null_byte]) es)"

definition sample_closure :: closure where
  "sample_closure =
     [(''Cargo.lock'', ''100644'', toy_oid (CHR ''1'')), (''Cargo.toml'', ''100644'', toy_oid (CHR ''2'')),
      (''src/main.rs'', ''100755'', toy_oid (CHR ''3''))]"

definition closure_json :: "string list \<Rightarrow> string list \<Rightarrow> closure \<Rightarrow> json" where
  "closure_json incl excluded es = JObj
     [(''algorithm'', JStr ''sha256-git-tree-entries-v1''),
      (''includes'', JArr (map JStr incl)),
      (''excluded_generated_paths'', JArr (map JStr excluded)),
      (''entries'', JArr (map (\<lambda>(p, m, i). JObj [(''path'', JStr p), (''mode'', JStr m), (''git_blob_oid'', JStr i)]) es)),
      (''digest_sha256'', JStr (closure_digest toy_sha es))]"

definition sample_git :: git_repo where
  "sample_git = \<lparr>has_commit = (\<lambda>r. r = ''c1''), show_file = (\<lambda>r p. None), blob = (\<lambda>oid. None),
     ls_tree = (\<lambda>r p. if r = ''c1'' \<or> r = ''c2'' then Some (ls_output sample_files) else Some []),
     rev_list = Some [''c0'', ''c1'', ''c2'']\<rparr>"

definition sample_includes :: "string list" where
  "sample_includes = [''Cargo.toml'', ''Cargo.lock'', ''src'']"

definition sample_closure_json :: obj where
  "sample_closure_json =
     (case closure_json sample_includes [''validation/run.json''] sample_closure of JObj d \<Rightarrow> d | _ \<Rightarrow> [])"

lemma sample_closure_accepted:
  "validate_semantic_closure sample_git toy_sha ''a'' ''c1'' True (JObj sample_closure_json)
     [''validation/run.json''] = Inr (sample_closure, ''c1'')"
  by code_simp

section \<open>Properties\<close>

text \<open>
  What an accepted semantic closure guarantees: its entries are strictly sorted regular files,
  each below an include selector and each selector used, disjoint from the retained artifacts and
  without the manifest; the recorded digest is theirs; the revision returned is the first commit
  of the history whose workload tree, cut down to the selectors, is exactly the entries; and the
  producer's own commit, where it is available, has the same entries.
\<close>

theorem semantic_closure_sound:
  assumes "validate_semantic_closure g sha256 wp producer available v artifacts = Inr (es, r)"
  shows "\<exists>closure incl. v = JObj closure \<and> closure_ok incl es \<and> set (map fst es) \<inter> set artifacts = {} \<and>
    ''validation/'' @ manifest_name \<notin> set (map fst es) \<and>
    dget closure ''digest_sha256'' = JStr (closure_digest sha256 es) \<and>
    first_representative g wp incl es r \<and> (available \<longrightarrow> represents g wp incl es producer)"
  by (rule validate_semantic_closure_sound [OF assms])

theorem semantic_closure_sound_witness:
  "\<exists>incl. closure_ok incl sample_closure \<and> first_representative sample_git ''a'' incl sample_closure ''c1''
     \<and> represents sample_git ''a'' incl sample_closure ''c1''"
  using semantic_closure_sound [OF sample_closure_accepted] by blast

text \<open>
  C16. The selection of a tree is exact: for a tree that \<open>workload_tree\<close> returns, where no path
  occurs twice, \<open>try_select_closure\<close> answers exactly when every selector matches a file, with the
  strictly sorted list of precisely the files that some selector covers.
\<close>

theorem closure_selection_exact:
  assumes "workload_tree g r wp required = Inr tree"
  shows "try_select_closure tree incl = Some es \<longleftrightarrow> selection_of tree incl es"
  using try_select_selection try_select_complete workload_tree_distinct [OF assms] by blast

theorem closure_selection_exact_witness:
  "selection_of (tree_of ''a'' sample_files) [''src'', ''Cargo.toml'', ''Cargo.lock'', ''src/main.rs''] sample_closure"
proof -
  have "workload_tree sample_git ''c1'' ''a'' True = Inr (tree_of ''a'' sample_files)"
    by code_simp
  moreover have "try_select_closure (tree_of ''a'' sample_files)
      [''src'', ''Cargo.toml'', ''Cargo.lock'', ''src/main.rs''] = Some sample_closure"
    by code_simp
  ultimately show ?thesis using closure_selection_exact by blast
qed

text \<open>
  The closure digest binds the entries: two closures whose paths and modes contain no null
  byte and whose object names contain no line feed (Git allows neither) have the same digest only
  if they have the same entries, or else a SHA-256 collision has been exhibited.
\<close>

theorem closure_digest_binds:
  assumes "list_all plain_entry es" and "list_all plain_entry es'"
    and "closure_digest sha256 es = closure_digest sha256 es'"
  shows "mset es = mset es' \<or> (\<exists>x y. x \<noteq> y \<and> sha256 x = sha256 y)"
proof (cases "closure_payload es = closure_payload es'")
  case True
  with assms(1,2) show ?thesis using payload_inj by blast
next
  case False
  with assms(3) show ?thesis unfolding closure_digest_def by blast
qed

theorem closure_digest_binds_witness:
  "mset (rev sample_closure) = mset sample_closure \<or> (\<exists>x y. x \<noteq> y \<and> (\<lambda>s. s) x = (\<lambda>s. s) (y :: string))"
proof (rule closure_digest_binds)
  show "list_all plain_entry (rev sample_closure)" "list_all plain_entry sample_closure"
    "closure_digest (\<lambda>s. s) (rev sample_closure) = closure_digest (\<lambda>s. s) sample_closure"
    by code_simp+
qed

text \<open>
  \<open>git ls-tree -r -z\<close> is read back: printing tree entries with distinct paths below the
  workload and parsing the output gives exactly its blobs, by their path relative to the workload.
\<close>

theorem ls_tree_roundtrip:
  assumes "list_all plain_tree_entry es" and "distinct (map path_of es)"
    and "list_all (\<lambda>e. startswith (path_of e) (rstrip_slash wp @ ''/'')) es"
  shows "parse_tree wp (ls_output es) = Inr (tree_of wp es)"
  unfolding ls_output_def by (rule ls_tree_read_back [OF assms])

theorem ls_tree_roundtrip_witness:
  "parse_tree ''a'' (ls_output ((''160000'', ''commit'', toy_oid (CHR ''5''), ''a/sub'') # sample_files)) =
     Inr (tree_of ''a'' sample_files)"
proof -
  let ?es = "(''160000'', ''commit'', toy_oid (CHR ''5''), ''a/sub'') # sample_files"
  have "parse_tree ''a'' (ls_output ?es) = Inr (tree_of ''a'' ?es)"
  proof (rule ls_tree_roundtrip)
    show "list_all plain_tree_entry ?es" by code_simp
    show "distinct (map path_of ?es)" by code_simp
    show "list_all (\<lambda>e. startswith (path_of e) (rstrip_slash ''a'' @ ''/'')) ?es" by code_simp
  qed
  also have "tree_of ''a'' ?es = tree_of ''a'' sample_files" by code_simp
  finally show ?thesis .
qed

end
