(* ===== verification/Evidence.thy ===== *)
theory Evidence
  imports Closure
begin

text \<open>
  Second part of \<open>.github/scripts/validate-evidence.py\<close>: the producer, the retained records, the
  validation subject read from the producer's blobs, the environment, the retention policy, the
  external artifacts, the verifier run, and the composition over the registered workloads. The
  outside world is a record: Git, SHA-256, and what running a verifier script on a manifest gives,
  its exit code and what \<open>json.loads\<close> makes of its standard output.
\<close>

record evidence_env =
  env_git :: git_repo
  sha :: "string \<Rightarrow> string"
  run_verifier :: "string list \<Rightarrow> string list \<Rightarrow> int \<times> json option"

section \<open>Producer and records\<close>

definition when_ok :: "bool \<Rightarrow> 'e + 'a \<Rightarrow> 'e + unit" where
  "when_ok b m = (if b then ebind m (\<lambda>_. Inr ()) else Inr ())"

text \<open>\<open>not isinstance(v, int) or isinstance(v, bool) or v < low\<close> fails.\<close>

definition require_int :: "json \<Rightarrow> int \<Rightarrow> string \<Rightarrow> ev_error + int" where
  "require_int v low field =
     ebind (want_int v (BadNumber field)) (\<lambda>n.
     ebind (eguard (low \<le> n) (BadNumber field)) (\<lambda>_. Inr n))"

definition validate_producer :: "git_repo \<Rightarrow> json \<Rightarrow> ev_error + string \<times> bool" where
  "validate_producer g v =
     ebind (require_keys v [''base_revision'', ''revision_role'', ''run''] ''producer'') (\<lambda>producer.
     ebind (require_hex (dget producer ''base_revision'') 40 ''producer.base_revision'') (\<lambda>revision.
     ebind (require_member (dget producer ''revision_role'') [''producer-checkout'', ''legacy-source-snapshot'']
              (BadValue ''producer.revision_role'')) (\<lambda>_.
     ebind (require_keys (dget producer ''run'') [''kind'', ''identity'', ''binding''] ''producer.run'') (\<lambda>run.
     ebind (require_string (dget run ''kind'') ''producer.run.kind'') (\<lambda>_.
     ebind (when_ok (dget run ''identity'' \<noteq> JNull)
              (require_string (dget run ''identity'') ''producer.run.identity'')) (\<lambda>_.
     ebind (require_member (dget run ''binding'') trust_classes (UnsupportedTrustClass ''producer.run.binding'')) (\<lambda>_.
     ebind (eguard (dget run ''binding'' \<noteq> JStr ''trusted-producer-bound'') ClaimsTrustedProducer) (\<lambda>_.
       Inr (revision, has_commit g revision)))))))))"

text \<open>\<open>Path(path).name\<close>.\<close>

definition base_name :: "string \<Rightarrow> string" where
  "base_name path = (if path_parts path = [] then [] else last (path_parts path))"

definition validate_artifact :: "evidence_env \<Rightarrow> node \<Rightarrow> string list \<Rightarrow> string list \<Rightarrow> json \<Rightarrow> ev_error + string \<times> nat" where
  "validate_artifact env repo dir paths v =
     ebind (require_keys v [''path'', ''sha256'', ''size_bytes''] ''artifact'') (\<lambda>artifact.
     ebind (safe_path (dget artifact ''path'') ''artifact.path'') (\<lambda>path.
     ebind (eguard (startswith path ''validation/'' \<and> base_name path \<noteq> manifest_name)
              (ArtifactNotGenerated path)) (\<lambda>_.
     ebind (eguard (path \<notin> set paths) (DuplicateItem ''artifact.path'' path)) (\<lambda>_.
     ebind (require_hex (dget artifact ''sha256'') 64 ''artifact.sha256'') (\<lambda>expected_sha.
     ebind (require_int (dget artifact ''size_bytes'') 0 ''artifact.size_bytes'') (\<lambda>expected_size.
     ebind (want_some (get_file repo (dir @ path_parts path)) (MissingArtifact path)) (\<lambda>f.
     ebind (eguard (sha env (raw f) = expected_sha) (DigestMismatch path)) (\<lambda>_.
     ebind (eguard (int (length (raw f)) = expected_size) (SizeMismatch path)) (\<lambda>_.
       Inr (path, length (raw f)))))))))))"

definition validate_input :: "json \<Rightarrow> ev_error + unit" where
  "validate_input v =
     ebind (require_keys v [''identity'', ''reproduction''] ''input'') (\<lambda>input_value.
     ebind (want_obj (dget input_value ''identity'') (NotObject ''input.identity'')) (\<lambda>identity.
     ebind (require_string (dget identity ''kind'') ''input.identity.kind'') (\<lambda>_.
     ebind (eguard (has_key identity ''sha256'' \<or> has_key identity ''reference'')
              (BadValue ''input.identity'')) (\<lambda>_.
     ebind (when_ok (has_key identity ''sha256'') (require_hex (dget identity ''sha256'') 64 ''sha256'')) (\<lambda>_.
     ebind (when_ok (has_key identity ''reference'') (require_string (dget identity ''reference'') ''reference'')) (\<lambda>_.
     ebind (when_ok (has_key identity ''size_bytes'') (require_int (dget identity ''size_bytes'') 0 ''size_bytes'')) (\<lambda>_.
     ebind (want_obj (dget input_value ''reproduction'') (NotObject ''input.reproduction'')) (\<lambda>reproduction.
       eguard (reproduction \<noteq> []) (NotObject ''input.reproduction'')))))))))"

record records_state =
  rec_paths :: "string list"
  rec_scenarios :: "string list"
  rec_bytes :: nat

definition validate_record :: "evidence_env \<Rightarrow> node \<Rightarrow> string list \<Rightarrow> records_state \<Rightarrow> json \<Rightarrow> ev_error + records_state" where
  "validate_record env repo dir st v =
     ebind (require_keys v [''scenario'', ''artifact'', ''input'', ''parameters'', ''failure_point''] ''records'') (\<lambda>rec.
     ebind (require_string (dget rec ''scenario'') ''scenario'') (\<lambda>scenario.
     ebind (eguard (scenario \<notin> set (rec_scenarios st)) (DuplicateItem ''scenario'' scenario)) (\<lambda>_.
     ebind (validate_artifact env repo dir (rec_paths st) (dget rec ''artifact'')) (\<lambda>(path, size).
     ebind (validate_input (dget rec ''input'')) (\<lambda>_.
     ebind (want_obj (dget rec ''parameters'') (NotObject ''parameters'')) (\<lambda>_.
     ebind (when_ok (dget rec ''failure_point'' \<noteq> JNull)
              (ebind (want_obj (dget rec ''failure_point'') (NotObject ''failure_point'')) (\<lambda>fp.
                 eguard (fp \<noteq> []) (NotObject ''failure_point'')))) (\<lambda>_.
       Inr \<lparr>rec_paths = rec_paths st @ [path], rec_scenarios = rec_scenarios st @ [scenario],
            rec_bytes = rec_bytes st + size\<rparr>)))))))"

definition validate_records :: "evidence_env \<Rightarrow> node \<Rightarrow> string list \<Rightarrow> json \<Rightarrow> ev_error + string list \<times> nat \<times> nat" where
  "validate_records env repo dir v =
     ebind (require_items v ''records'') (\<lambda>items.
     ebind (efold (validate_record env repo dir) \<lparr>rec_paths = [], rec_scenarios = [], rec_bytes = 0\<rparr> items) (\<lambda>st.
       Inr (rec_paths st, length items, rec_bytes st)))"

section \<open>The validation subject\<close>

definition closure_blob_oid :: "closure \<Rightarrow> string \<Rightarrow> string \<Rightarrow> ev_error + string" where
  "closure_blob_oid entries path field =
     ebind (want_some (map_of entries path) (NotInClosure field path)) (\<lambda>(mode, oid). Inr oid)"

definition git_blob :: "git_repo \<Rightarrow> string \<Rightarrow> ev_error + filedata" where
  "git_blob g oid = want_some (blob g oid) (BlobUnavailable oid)"

definition put :: "filedata \<Rightarrow> string list \<Rightarrow> node \<Rightarrow> ev_error + node" where
  "put f path t = want_some (put_file t path f) EvOSError"

text \<open>The copy of the Cargo configuration of the context revision, for the root and the workload.\<close>

definition copy_config :: "git_repo \<Rightarrow> string \<Rightarrow> node \<Rightarrow> string \<times> string list \<times> string \<Rightarrow> ev_error + node" where
  "copy_config g revision t item =
     (case item of (pre, dir, name) \<Rightarrow>
        (case show_file g revision (pre @ ''.cargo/'' @ name) of
           None \<Rightarrow> Inr t
         | Some f \<Rightarrow> put f (dir @ [''.cargo'', name]) t))"

definition snapshot :: "git_repo \<Rightarrow> string \<Rightarrow> closure \<Rightarrow> string \<Rightarrow> ev_error + node \<times> filedata \<times> string" where
  "snapshot g workload_path entries revision =
     ebind (closure_blob_oid entries ''Cargo.toml'' ''validation_subject'') (\<lambda>manifest_oid.
     ebind (closure_blob_oid entries ''Cargo.lock'' ''validation_subject'') (\<lambda>lock_oid.
     ebind (git_blob g manifest_oid) (\<lambda>manifest.
     ebind (git_blob g lock_oid) (\<lambda>lock.
     let dir = path_parts workload_path in
     ebind (put manifest (dir @ [''Cargo.toml'']) (NDir [])) (\<lambda>t1.
     ebind (put lock (dir @ [''Cargo.lock'']) t1) (\<lambda>t2.
     ebind (efold (copy_config g revision) t2
       [([], [], ''config.toml''), ([], [], ''config''),
        (workload_path @ ''/'', dir, ''config.toml''), (workload_path @ ''/'', dir, ''config'')]) (\<lambda>t.
       Inr (t, lock, lock_oid))))))))"

definition check_snapshot :: "node \<Rightarrow> string list \<Rightarrow> prov_error + subjects" where
  "check_snapshot t dir =
     ebind (validate_cargo_source_config t []) (\<lambda>_.
     ebind (validate_cargo_source_config t dir) (\<lambda>_.
     ebind (Provenance.validate_manifest t (dir @ [''Cargo.toml''])) (\<lambda>subjects.
     ebind (validate_lockfile t (dir @ [''Cargo.lock'']) subjects) (\<lambda>_. Inr subjects))))"

text \<open>A crate as the manifest records it: name, version, source and checksum.\<close>

type_synonym crate = "string \<times> string \<times> string \<times> string"

text \<open>\<open>str(v)\<close>, which the validators above leave applied to strings only.\<close>

definition str_value :: "json \<Rightarrow> string" where
  "str_value v = (case as_str v of Some s \<Rightarrow> s | None \<Rightarrow> [])"

definition locked_crate :: "json list \<Rightarrow> string \<times> string \<Rightarrow> ev_error + crate" where
  "locked_crate packages subject =
     (case subject of (name, ver) \<Rightarrow>
        (case filter (locked_as name ver) packages of
           [p] \<Rightarrow> Inr (name, ver, str_value (get_in p ''source''), str_value (get_in p ''checksum''))
         | _ \<Rightarrow> Inl (LockNotUnique name ver)))"

definition historical_provenance :: "git_repo \<Rightarrow> string \<Rightarrow> closure \<Rightarrow> string \<Rightarrow> ev_error + crate list \<times> string" where
  "historical_provenance g workload_path entries revision =
     ebind (snapshot g workload_path entries revision) (\<lambda>(t, lock, lock_oid).
     ebind (map_err SnapshotProvenance (check_snapshot t (path_parts workload_path))) (\<lambda>subjects.
     ebind (want_some (toml_doc lock) LockUnparsable) (\<lambda>document.
     ebind (want_arr (dget document ''package'') (NotArray ''package'')) (\<lambda>packages.
     ebind (emap (locked_crate packages) (sort_key fst subjects)) (\<lambda>metadata.
       Inr (metadata, lock_oid))))))"

definition recorded_crate :: "json \<Rightarrow> ev_error + crate" where
  "recorded_crate v =
     ebind (require_keys v [''name'', ''version'', ''source'', ''checksum''] ''crates'') (\<lambda>crate.
     ebind (require_string (dget crate ''name'') ''name'') (\<lambda>name.
     ebind (require_string (dget crate ''version'') ''version'') (\<lambda>ver.
     ebind (require_string (dget crate ''source'') ''source'') (\<lambda>source.
     ebind (require_hex (dget crate ''checksum'') 64 ''checksum'') (\<lambda>checksum.
       Inr (name, ver, source, checksum))))))"

definition validate_subject :: "git_repo \<Rightarrow> string \<Rightarrow> closure \<Rightarrow> string \<Rightarrow> json \<Rightarrow> ev_error + unit" where
  "validate_subject g workload_path entries revision v =
     ebind (require_keys v [''lockfile'', ''crates''] ''validation_subject'') (\<lambda>subject.
     ebind (require_keys (dget subject ''lockfile'') [''path'', ''git_blob_oid''] ''validation_subject.lockfile'') (\<lambda>lockfile.
     ebind (safe_path (dget lockfile ''path'') ''lockfile.path'') (\<lambda>path.
     ebind (eguard (path = ''Cargo.lock'') (BadValue ''lockfile.path'')) (\<lambda>_.
     ebind (require_hex (dget lockfile ''git_blob_oid'') 40 ''lockfile.git_blob_oid'') (\<lambda>recorded_oid.
     ebind (historical_provenance g workload_path entries revision) (\<lambda>(expected, actual_oid).
     ebind (eguard (recorded_oid = actual_oid) (IdentityMismatch ''lockfile'')) (\<lambda>_.
     ebind (require_items (dget subject ''crates'') ''crates'') (\<lambda>items.
     ebind (emap recorded_crate items) (\<lambda>crates.
       eguard (sort_key fst crates = expected) SubjectMismatch)))))))))"

section \<open>Environment, retention and external artifacts\<close>

definition scalar :: "json \<Rightarrow> bool" where
  "scalar v \<longleftrightarrow> v \<noteq> JNull \<and> \<not> is_dict v \<and> \<not> is_arr v"

definition validate_observation :: "string list \<Rightarrow> json \<Rightarrow> ev_error + string list" where
  "validate_observation seen v =
     ebind (require_keys v [''name'', ''value'', ''trust'', ''source''] ''observations'') (\<lambda>observation.
     ebind (require_string (dget observation ''name'') ''name'') (\<lambda>name.
     ebind (eguard (name \<notin> set seen) (DuplicateItem ''observations'' name)) (\<lambda>_.
     ebind (eguard (scalar (dget observation ''value'')) (BadValue ''value'')) (\<lambda>_.
     ebind (require_member (dget observation ''trust'') trust_classes (UnsupportedTrustClass ''trust'')) (\<lambda>_.
     ebind (require_string (dget observation ''source'') ''source'') (\<lambda>_.
       Inr (seen @ [name])))))))"

definition nonblank_str :: "json \<Rightarrow> bool" where
  "nonblank_str v \<longleftrightarrow> (case as_str v of Some s \<Rightarrow> \<not> blank s | None \<Rightarrow> False)"

definition validate_environment :: "json \<Rightarrow> ev_error + unit" where
  "validate_environment v =
     ebind (require_keys v [''observations'', ''limitations''] ''environment'') (\<lambda>environment.
     ebind (require_items (dget environment ''observations'') ''observations'') (\<lambda>items.
     ebind (efold validate_observation [] items) (\<lambda>_.
     ebind (want_arr (dget environment ''limitations'') (NotArray ''limitations'')) (\<lambda>limitations.
       eguard (list_all nonblank_str limitations) (NotArray ''limitations'')))))"

text \<open>The names below \<open>validation/\<close> that \<open>glob("*.json")\<close> yields, without the manifest.\<close>

definition committed_json :: "node \<Rightarrow> string list \<Rightarrow> string list" where
  "committed_json repo dir =
     map (\<lambda>name. ''validation/'' @ name)
       (filter (\<lambda>name. endswith name ''.json'' \<and> name \<noteq> manifest_name)
         (case get_dir repo (dir @ [''validation'']) of Some es \<Rightarrow> map fst es | None \<Rightarrow> []))"

definition validate_retention :: "node \<Rightarrow> string list \<Rightarrow> json \<Rightarrow> string list \<Rightarrow> nat \<Rightarrow> nat \<Rightarrow> ev_error + unit" where
  "validate_retention repo dir v paths n_records total_bytes =
     ebind (require_keys v [''committed_artifacts'', ''wall_clock_freshness_merge_gate''] ''retention'') (\<lambda>retention.
     ebind (require_keys (dget retention ''committed_artifacts'')
              [''directory'', ''max_count'', ''max_total_bytes'', ''supersession''] ''retention.committed_artifacts'') (\<lambda>committed.
     ebind (eguard (dget committed ''directory'' = JStr ''validation'') (BadValue ''directory'')) (\<lambda>_.
     ebind (require_int (dget committed ''max_count'') 1 ''max_count'') (\<lambda>max_count.
     ebind (require_int (dget committed ''max_total_bytes'') 1 ''max_total_bytes'') (\<lambda>max_total.
     ebind (require_string (dget committed ''supersession'') ''supersession'') (\<lambda>_.
     ebind (eguard (int n_records \<le> max_count) (RetentionExceeded ''max_count'')) (\<lambda>_.
     ebind (eguard (int total_bytes \<le> max_total) (RetentionExceeded ''max_total_bytes'')) (\<lambda>_.
     ebind (eguard (dget retention ''wall_clock_freshness_merge_gate'' = JBool False)
              (BadValue ''wall_clock_freshness_merge_gate'')) (\<lambda>_.
       eguard (set (committed_json repo dir) = set paths) RetentionLayout)))))))))"

definition validate_external_artifact :: "json \<Rightarrow> ev_error + unit" where
  "validate_external_artifact v =
     ebind (require_keys v [''name'', ''sha256'', ''reference'', ''storage'', ''retention_guarantee''] ''external_artifacts'') (\<lambda>artifact.
     ebind (require_string (dget artifact ''name'') ''name'') (\<lambda>_.
     ebind (require_hex (dget artifact ''sha256'') 64 ''sha256'') (\<lambda>_.
     ebind (require_string (dget artifact ''reference'') ''reference'') (\<lambda>_.
     ebind (require_string (dget artifact ''storage'') ''storage'') (\<lambda>_.
     ebind (require_string (dget artifact ''retention_guarantee'') ''retention_guarantee'') (\<lambda>_. Inr ()))))))"

definition validate_external_artifacts :: "json \<Rightarrow> ev_error + unit" where
  "validate_external_artifacts v =
     ebind (want_arr v (NotArray ''external_artifacts'')) (\<lambda>items.
     ebind (emap validate_external_artifact items) (\<lambda>_. Inr ()))"

section \<open>The verifier run\<close>

definition violation_item :: "json \<Rightarrow> bool" where
  "violation_item v \<longleftrightarrow> (case as_str v of Some s \<Rightarrow> s \<noteq> [] | None \<Rightarrow> False)"

definition check_verifier_result :: "int \<times> json option \<Rightarrow> ev_error + unit" where
  "check_verifier_result completed =
     ebind (want_some (snd completed) VerifierMalformed) (\<lambda>result.
     ebind (want_obj result VerifierMalformed) (\<lambda>r.
     ebind (eguard (py_eq (dget r ''schema_version'') (JInt 1)) VerifierMalformed) (\<lambda>_.
     ebind (want_arr (dget r ''violations'') VerifierMalformed) (\<lambda>violations.
     ebind (eguard (list_all violation_item violations) VerifierMalformed) (\<lambda>_.
     ebind (eguard (violations = []) (VerifierReported (strings_of violations))) (\<lambda>_.
       eguard (fst completed = 0) (VerifierExit (fst completed))))))))"

definition validate_verifier :: "evidence_env \<Rightarrow> node \<Rightarrow> string list \<Rightarrow> closure \<Rightarrow> json \<Rightarrow> string list \<Rightarrow> ev_error + unit" where
  "validate_verifier env repo dir entries v manifest_path =
     ebind (require_keys v [''canonical'', ''producer''] ''verifier'') (\<lambda>verifier.
     ebind (require_keys (dget verifier ''canonical'') [''path'', ''sha256'', ''result_model''] ''verifier.canonical'') (\<lambda>canonical.
     ebind (safe_path (dget canonical ''path'') ''verifier.canonical.path'') (\<lambda>path.
     ebind (eguard (dget canonical ''result_model'' = JStr ''violations-v1'') (BadValue ''result_model'')) (\<lambda>_.
     ebind (require_hex (dget canonical ''sha256'') 64 ''verifier.canonical.sha256'') (\<lambda>expected_sha.
     ebind (want_some (get_file repo (dir @ path_parts path)) (MissingArtifact path)) (\<lambda>f.
     ebind (eguard (sha env (raw f) = expected_sha) (IdentityMismatch ''verifier.canonical'')) (\<lambda>_.
     ebind (require_keys (dget verifier ''producer'') [''path'', ''git_blob_oid''] ''verifier.producer'') (\<lambda>producer.
     ebind (safe_path (dget producer ''path'') ''verifier.producer.path'') (\<lambda>producer_path.
     ebind (require_hex (dget producer ''git_blob_oid'') 40 ''verifier.producer.git_blob_oid'') (\<lambda>recorded_oid.
     ebind (closure_blob_oid entries producer_path ''verifier.producer'') (\<lambda>actual_oid.
     ebind (eguard (recorded_oid = actual_oid) (IdentityMismatch ''verifier.producer'')) (\<lambda>_.
       check_verifier_result (run_verifier env (dir @ path_parts path) manifest_path)))))))))))))"

section \<open>Composition\<close>

definition manifest_keys :: "string list" where
  "manifest_keys = [''schema_version'', ''workload'', ''producer'', ''semantic_closure'',
     ''validation_subject'', ''records'', ''verifier'', ''environment'', ''retention'', ''external_artifacts'']"

definition read_manifest :: "node \<Rightarrow> string \<Rightarrow> string list \<Rightarrow> ev_error + json" where
  "read_manifest repo name path =
     ebind (want_some (resolve repo path) (MissingManifest name)) (\<lambda>_.
     ebind (want_some (get_file repo path) EvOSError) (\<lambda>f.
       want_some (json_doc f) InvalidManifest))"

definition validate_evidence :: "evidence_env \<Rightarrow> node \<Rightarrow> entry \<Rightarrow> string list \<Rightarrow> ev_error + unit" where
  "validate_evidence env repo w path =
     ebind (read_manifest repo (e_name w) path) (\<lambda>v.
     ebind (require_keys v manifest_keys ''evidence manifest'') (\<lambda>manifest.
     ebind (eguard (py_eq (dget manifest ''schema_version'') (JInt 2)) (BadValue ''schema_version'')) (\<lambda>_.
     ebind (eguard (dget manifest ''workload'' = JStr (e_name w)) (BadValue ''workload'')) (\<lambda>_.
     let dir = path_parts (e_path w) in
     ebind (validate_producer (env_git env) (dget manifest ''producer'')) (\<lambda>(producer_revision, available).
     ebind (validate_records env repo dir (dget manifest ''records'')) (\<lambda>(paths, n_records, total_bytes).
     ebind (validate_semantic_closure (env_git env) (sha env) (e_path w) producer_revision available
              (dget manifest ''semantic_closure'') paths) (\<lambda>(entries, representation).
     let context = (if available then producer_revision else representation) in
     ebind (validate_subject (env_git env) (e_path w) entries context (dget manifest ''validation_subject'')) (\<lambda>_.
     ebind (validate_environment (dget manifest ''environment'')) (\<lambda>_.
     ebind (validate_retention repo dir (dget manifest ''retention'') paths n_records total_bytes) (\<lambda>_.
     ebind (validate_external_artifacts (dget manifest ''external_artifacts'')) (\<lambda>_.
       validate_verifier env repo dir entries (dget manifest ''verifier'') path)))))))))))"

fun validate_workload_evidence :: "evidence_env \<Rightarrow> node \<Rightarrow> entry list \<Rightarrow> ev_error + string list" where
  "validate_workload_evidence env repo [] = Inr []"
| "validate_workload_evidence env repo (w # ws) =
     (let dir = path_parts (e_path w) @ [''validation''] in
      if \<not> path_exists repo dir then validate_workload_evidence env repo ws
      else
        ebind (eguard (is_dir repo dir) (NotADirectory (e_name w))) (\<lambda>_.
        ebind (validate_evidence env repo w (dir @ [manifest_name])) (\<lambda>_.
        ebind (validate_workload_evidence env repo ws) (\<lambda>names. Inr (e_name w # names)))))"

definition validate_evidence_repository :: "evidence_env \<Rightarrow> node \<Rightarrow> ev_error + string list" where
  "validate_evidence_repository env repo =
     ebind (map_err InvalidRegistry (validate_repository repo)) (\<lambda>registry.
       validate_workload_evidence env repo (workloads registry))"

section \<open>What accepted evidence is\<close>

definition artifact_matches :: "evidence_env \<Rightarrow> node \<Rightarrow> string list \<Rightarrow> json \<Rightarrow> string \<Rightarrow> bool" where
  "artifact_matches env repo dir rec p \<longleftrightarrow>
     (\<exists>s f. get_in (get_in rec ''artifact'') ''path'' = JStr s \<and> is_safe_path s \<and> p = as_posix (path_parts s) \<and>
        get_file repo (dir @ path_parts p) = Some f \<and>
        get_in (get_in rec ''artifact'') ''sha256'' = JStr (sha env (raw f)) \<and>
        get_in (get_in rec ''artifact'') ''size_bytes'' = JInt (int (length (raw f))))"

definition file_size :: "node \<Rightarrow> string list \<Rightarrow> nat" where
  "file_size repo path = (case get_file repo path of Some f \<Rightarrow> length (raw f) | None \<Rightarrow> 0)"

lemma require_int_Inr [monad_simps]: "require_int v low f = Inr n \<longleftrightarrow> v = JInt n \<and> low \<le> n"
  by (auto simp: require_int_def monad_simps)

lemma validate_artifact_Inr:
  assumes "validate_artifact env repo dir paths v = Inr (p, n)"
  shows "p \<notin> set paths" and "n = file_size repo (dir @ path_parts p)"
    and "get_in rec ''artifact'' = v \<Longrightarrow> artifact_matches env repo dir rec p"
  using assms
  by (auto simp: validate_artifact_def artifact_matches_def file_size_def monad_simps)

lemma validate_record_Inr:
  assumes "validate_record env repo dir st v = Inr st'"
  shows "\<exists>p. rec_paths st' = rec_paths st @ [p] \<and> p \<notin> set (rec_paths st) \<and>
    rec_bytes st' = rec_bytes st + file_size repo (dir @ path_parts p) \<and> artifact_matches env repo dir v p"
proof -
  obtain rec p n where v: "v = JObj rec"
    and art: "validate_artifact env repo dir (rec_paths st) (dget rec ''artifact'') = Inr (p, n)"
    and st': "rec_paths st' = rec_paths st @ [p]" "rec_bytes st' = rec_bytes st + n"
    using assms unfolding validate_record_def ebind_Inr_iff require_simps
    by (auto simp: split_beta ebind_Inr_iff)
  have "get_in v ''artifact'' = dget rec ''artifact''" by (simp add: v)
  with st' validate_artifact_Inr [OF art] show ?thesis by auto
qed

lemma efold_validate_record:
  "efold (validate_record env repo dir) st items = Inr st' \<Longrightarrow>
    \<exists>ps. rec_paths st' = rec_paths st @ ps \<and> list_all2 (artifact_matches env repo dir) items ps \<and>
      rec_bytes st' = rec_bytes st + sum_list (map (\<lambda>p. file_size repo (dir @ path_parts p)) ps) \<and>
      (distinct (rec_paths st) \<longrightarrow> distinct (rec_paths st'))"
proof (induction items arbitrary: st)
  case Nil
  then show ?case by simp
next
  case (Cons v items)
  then obtain st1 where step: "validate_record env repo dir st v = Inr st1"
    and rest: "efold (validate_record env repo dir) st1 items = Inr st'"
    by (auto simp: ebind_Inr_iff)
  from validate_record_Inr [OF step] obtain p where p: "rec_paths st1 = rec_paths st @ [p]"
    "p \<notin> set (rec_paths st)" "rec_bytes st1 = rec_bytes st + file_size repo (dir @ path_parts p)"
    "artifact_matches env repo dir v p" by blast
  from Cons.IH [OF rest] obtain ps where ps: "rec_paths st' = rec_paths st1 @ ps"
    "list_all2 (artifact_matches env repo dir) items ps"
    "rec_bytes st' = rec_bytes st1 + sum_list (map (\<lambda>p. file_size repo (dir @ path_parts p)) ps)"
    "distinct (rec_paths st1) \<longrightarrow> distinct (rec_paths st')" by blast
  show ?case using p ps by (intro exI [of _ "p # ps"]) simp
qed

lemma validate_records_Inr:
  assumes "validate_records env repo dir v = Inr (paths, n, bytes)"
  shows "\<exists>items. v = JArr items \<and> list_all2 (artifact_matches env repo dir) items paths \<and> distinct paths \<and>
    n = length paths \<and> bytes = sum_list (map (\<lambda>p. file_size repo (dir @ path_parts p)) paths)"
proof -
  obtain items st where *: "v = JArr items" "n = length items" "paths = rec_paths st" "bytes = rec_bytes st"
    "efold (validate_record env repo dir) \<lparr>rec_paths = [], rec_scenarios = [], rec_bytes = 0\<rparr> items = Inr st"
    using assms unfolding validate_records_def by (auto simp: ebind_Inr_iff require_simps)
  from efold_validate_record [OF *(5)] have
    "list_all2 (artifact_matches env repo dir) items paths" "distinct paths"
    "bytes = sum_list (map (\<lambda>p. file_size repo (dir @ path_parts p)) paths)"
    using * by auto
  with * show ?thesis by (auto dest: list_all2_lengthD)
qed

definition retained_ok :: "evidence_env \<Rightarrow> node \<Rightarrow> string list \<Rightarrow> obj \<Rightarrow> string list \<Rightarrow> bool" where
  "retained_ok env repo dir manifest paths \<longleftrightarrow>
     (\<exists>items. dget manifest ''records'' = JArr items \<and>
        list_all2 (artifact_matches env repo dir) items paths) \<and>
     distinct paths \<and> set paths = set (committed_json repo dir)"

definition within_retention :: "node \<Rightarrow> string list \<Rightarrow> obj \<Rightarrow> bool" where
  "within_retention repo dir manifest \<longleftrightarrow>
     (\<exists>max_count max_total.
        get_in (get_in (dget manifest ''retention'') ''committed_artifacts'') ''max_count'' = JInt max_count \<and>
        get_in (get_in (dget manifest ''retention'') ''committed_artifacts'') ''max_total_bytes'' = JInt max_total \<and>
        int (card (set (committed_json repo dir))) \<le> max_count \<and>
        int (\<Sum>p \<in> set (committed_json repo dir). file_size repo (dir @ path_parts p)) \<le> max_total)"

lemma validate_retention_Inr:
  assumes "validate_retention repo dir v paths n bytes = Inr ()"
  shows "set (committed_json repo dir) = set paths"
    and "\<exists>max_count max_total. get_in (get_in v ''committed_artifacts'') ''max_count'' = JInt max_count \<and>
      get_in (get_in v ''committed_artifacts'') ''max_total_bytes'' = JInt max_total \<and>
      int n \<le> max_count \<and> int bytes \<le> max_total"
  using assms unfolding validate_retention_def by (auto simp: ebind_Inr_iff require_simps require_int_Inr)

definition verifier_clean :: "evidence_env \<Rightarrow> node \<Rightarrow> string list \<Rightarrow> obj \<Rightarrow> string list \<Rightarrow> bool" where
  "verifier_clean env repo dir manifest path \<longleftrightarrow>
     (\<exists>s f r. get_in (get_in (dget manifest ''verifier'') ''canonical'') ''path'' = JStr s \<and>
        get_file repo (dir @ path_parts (as_posix (path_parts s))) = Some f \<and>
        get_in (get_in (dget manifest ''verifier'') ''canonical'') ''sha256'' = JStr (sha env (raw f)) \<and>
        run_verifier env (dir @ path_parts (as_posix (path_parts s))) path = (0, Some (JObj r)) \<and>
        dget r ''violations'' = JArr [])"

lemma check_verifier_result_Inr:
  "check_verifier_result c = Inr () \<Longrightarrow> \<exists>r. c = (0, Some (JObj r)) \<and> dget r ''violations'' = JArr []"
  by (cases c) (auto simp: check_verifier_result_def monad_simps)

lemma validate_verifier_Inr:
  assumes "validate_verifier env repo dir es (dget manifest ''verifier'') path = Inr ()"
  shows "verifier_clean env repo dir manifest path"
proof -
  obtain s f where *: "get_in (get_in (dget manifest ''verifier'') ''canonical'') ''path'' = JStr s"
    "get_file repo (dir @ path_parts (as_posix (path_parts s))) = Some f"
    "get_in (get_in (dget manifest ''verifier'') ''canonical'') ''sha256'' = JStr (sha env (raw f))"
    "check_verifier_result (run_verifier env (dir @ path_parts (as_posix (path_parts s))) path) = Inr ()"
    using assms unfolding validate_verifier_def ebind_Inr_iff require_simps safe_path_Inr
    by (auto simp: monad_simps)
  from check_verifier_result_Inr [OF *(4)] * show ?thesis unfolding verifier_clean_def by blast
qed

lemma put_Inr: "put f path t = Inr t' \<longleftrightarrow> put_file t path f = Some t'"
  by (simp add: put_def monad_simps)

lemma copy_config_keeps:
  assumes "copy_config g rv t (pre, dir, name) = Inr t'" "ds \<noteq> dir @ [''.cargo'', name]" "get_file t ds = Some f"
  shows "get_file t' ds = Some f"
  using assms get_file_put_other by (auto simp: copy_config_def put_Inr split: option.splits)

lemma efold_copy_config_keeps:
  "efold (copy_config g rv) t items = Inr t' \<Longrightarrow>
     (\<forall>(pre, dir, name) \<in> set items. ds \<noteq> dir @ [''.cargo'', name]) \<Longrightarrow>
     get_file t ds = Some f \<Longrightarrow> get_file t' ds = Some f"
proof (induction items arbitrary: t)
  case Nil
  then show ?case by simp
next
  case (Cons item items)
  obtain pre dir name where item: "item = (pre, dir, name)" by (cases item) auto
  from Cons.prems obtain t1 where "copy_config g rv t item = Inr t1" "efold (copy_config g rv) t1 items = Inr t'"
    by (auto simp: ebind_Inr_iff)
  with Cons copy_config_keeps show ?case unfolding item by fastforce
qed

lemma snapshot_files:
  assumes "snapshot g wp es rv = Inr (t, lock, lock_oid)"
  shows "\<exists>m moid mm ml. map_of es ''Cargo.toml'' = Some (mm, moid) \<and> blob g moid = Some m \<and>
    map_of es ''Cargo.lock'' = Some (ml, lock_oid) \<and> blob g lock_oid = Some lock \<and>
    get_file t (path_parts wp @ [''Cargo.toml'']) = Some m \<and> get_file t (path_parts wp @ [''Cargo.lock'']) = Some lock"
proof -
  let ?dir = "path_parts wp"
  let ?items = "[([], [], ''config.toml''), ([], [], ''config''),
        (wp @ ''/'', ?dir, ''config.toml''), (wp @ ''/'', ?dir, ''config'')]"
  obtain m moid mm ml t1 t2 where *: "map_of es ''Cargo.toml'' = Some (mm, moid)" "blob g moid = Some m"
    "map_of es ''Cargo.lock'' = Some (ml, lock_oid)" "blob g lock_oid = Some lock"
    and t1: "put_file (NDir []) (?dir @ [''Cargo.toml'']) m = Some t1"
    and t2: "put_file t1 (?dir @ [''Cargo.lock'']) lock = Some t2"
    and t: "efold (copy_config g rv) t2 ?items = Inr t"
    using assms unfolding snapshot_def closure_blob_oid_def git_blob_def Let_def
    by (auto simp: ebind_Inr_iff put_Inr want_some_Inr simp del: efold.simps put_file.simps)
  have lock: "get_file t2 (?dir @ [''Cargo.lock'']) = Some lock"
    by (rule get_file_put_file [OF t2])
  have man: "get_file t2 (?dir @ [''Cargo.toml'']) = Some m"
    by (rule get_file_put_other [OF t2 _ get_file_put_file [OF t1]]) simp
  have "get_file t (?dir @ [n]) = Some f" if "get_file t2 (?dir @ [n]) = Some f" "n \<in> {''Cargo.toml'', ''Cargo.lock''}" for n f
  proof (rule efold_copy_config_keeps [OF t _ that(1)])
    have "?dir @ [n] \<noteq> d @ [''.cargo'', c]" if "c \<in> {''config.toml'', ''config''}" for d c
      using \<open>n \<in> _\<close> that by (auto dest: arg_cong [where f = last])
    then show "\<forall>(pre, dir, name) \<in> set ?items. ?dir @ [n] \<noteq> dir @ [''.cargo'', name]" by auto
  qed
  with man lock * show ?thesis by blast
qed

lemma check_snapshot_ok:
  "isOK (check_snapshot t dir) \<longleftrightarrow> source_config_ok t [] \<and> workload_ok t dir"
  unfolding source_config_iff [symmetric] validate_workload_ok [symmetric] check_snapshot_def validate_workload_def
  by (auto simp: isOK_iff ebind_Inr_iff)

definition recorded_as :: "json \<Rightarrow> string \<times> string \<Rightarrow> bool" where
  "recorded_as c pv \<longleftrightarrow> get_in c ''name'' = JStr (fst pv) \<and> get_in c ''version'' = JStr (snd pv)"

text \<open>
  The validation subject: the blobs the closure names for \<open>Cargo.toml\<close> and \<open>Cargo.lock\<close> declare and
  lock published first-party releases only, and the recorded crates are exactly the declared ones.
\<close>

definition subject_ok :: "git_repo \<Rightarrow> closure \<Rightarrow> json \<Rightarrow> bool" where
  "subject_ok g es v \<longleftrightarrow>
     (\<exists>m moid mm ml lock loid document lockdoc packages crates.
        map_of es ''Cargo.toml'' = Some (mm, moid) \<and> blob g moid = Some m \<and> toml_doc m = Some document \<and>
        map_of es ''Cargo.lock'' = Some (ml, loid) \<and> blob g loid = Some lock \<and> toml_doc lock = Some lockdoc \<and>
        get_in (get_in v ''lockfile'') ''git_blob_oid'' = JStr loid \<and>
        dget lockdoc ''package'' = JArr packages \<and> manifest_ok document \<and>
        (\<forall>p w. declares document p w \<longrightarrow> locked_ok packages p w) \<and>
        get_in v ''crates'' = JArr crates \<and>
        (\<forall>p w. declares document p w \<longleftrightarrow> (\<exists>c \<in> set crates. recorded_as c (p, w))) \<and>
        (\<forall>c \<in> set crates. \<exists>p w. recorded_as c (p, w)))"

definition crate_id :: "crate \<Rightarrow> string \<times> string" where
  "crate_id c = (fst c, fst (snd c))"

lemma emap_locked_crate:
  "emap (locked_crate packages) subjects = Inr cs \<Longrightarrow> map crate_id cs = subjects"
proof (induction subjects arbitrary: cs)
  case Nil
  then show ?case by simp
next
  case (Cons s subjects)
  obtain c cs' where *: "locked_crate packages s = Inr c" "emap (locked_crate packages) subjects = Inr cs'"
    "cs = c # cs'"
    using Cons.prems by (auto simp: ebind_Inr_iff)
  have "crate_id c = s"
    using *(1) by (auto simp: locked_crate_def crate_id_def split: prod.splits list.splits)
  with Cons.IH [OF *(2)] *(3) show ?case by simp
qed

lemma recorded_crate_Inr: "recorded_crate v = Inr c \<Longrightarrow> recorded_as v (crate_id c)"
  by (auto simp: recorded_crate_def recorded_as_def crate_id_def monad_simps)

lemma recorded_as_unique: "recorded_as c pv \<Longrightarrow> recorded_as c qw \<Longrightarrow> pv = qw"
  by (auto simp: recorded_as_def prod_eq_iff)

lemma emap_recorded_crate:
  assumes "emap recorded_crate vs = Inr cs"
  shows "(\<exists>c \<in> set vs. recorded_as c pv) \<longleftrightarrow> pv \<in> crate_id ` set cs"
    and "\<forall>c \<in> set vs. \<exists>p w. recorded_as c (p, w)"
proof -
  have rel: "list_all2 (\<lambda>v c. recorded_as v (crate_id c)) vs cs"
    using assms unfolding emap_Inr_iff
    by (auto elim: list_all2_mono simp: recorded_crate_Inr)
  show "(\<exists>c \<in> set vs. recorded_as c pv) \<longleftrightarrow> pv \<in> crate_id ` set cs"
  proof
    assume "\<exists>c \<in> set vs. recorded_as c pv"
    then obtain v where "v \<in> set vs" "recorded_as v pv" by blast
    with list_all2_set1 [OF rel] recorded_as_unique show "pv \<in> crate_id ` set cs" by blast
  next
    assume "pv \<in> crate_id ` set cs"
    with list_all2_set2 [OF rel] show "\<exists>c \<in> set vs. recorded_as c pv" by blast
  qed
  show "\<forall>c \<in> set vs. \<exists>p w. recorded_as c (p, w)"
    using list_all2_set1 [OF rel] by (metis surj_pair)
qed

lemma read_toml_file:
  "get_file repo path = Some f \<Longrightarrow> read_toml repo path = Inr d \<longleftrightarrow> toml_doc f = Some d"
  by (auto simp: read_toml_def monad_simps dest: get_file_resolve)

lemma check_snapshot_Inr:
  assumes "check_snapshot t dir = Inr subjects"
    "get_file t (dir @ [''Cargo.toml'']) = Some m" "get_file t (dir @ [''Cargo.lock'']) = Some lock"
  shows "\<exists>document lockdoc packages. toml_doc m = Some document \<and> toml_doc lock = Some lockdoc \<and>
    dget lockdoc ''package'' = JArr packages \<and> manifest_ok document \<and> subjects = collected document \<and>
    (\<forall>p w. declares document p w \<longrightarrow> locked_ok packages p w)"
proof -
  obtain document where d: "toml_doc m = Some document" "manifest_ok document" "subjects = collected document"
    and l: "isOK (validate_lockfile t (dir @ [''Cargo.lock'']) subjects)"
    using assms(1) unfolding check_snapshot_def
    by (auto simp: ebind_Inr_iff validate_manifest_Inr read_toml_file [OF assms(2)])
  from l obtain lockdoc packages where "toml_doc lock = Some lockdoc" "dget lockdoc ''package'' = JArr packages"
    "\<forall>(p, w) \<in> set subjects. locked_ok packages p w"
    unfolding validate_lockfile_ok read_toml_file [OF assms(3)] by blast
  with d workload_step [OF d(2), of packages] show ?thesis by blast
qed

lemma validate_subject_Inr:
  assumes "validate_subject g wp es rv v = Inr ()"
  shows "subject_ok g es v"
proof -
  obtain expected loid crates cs where
    hist: "historical_provenance g wp es rv = Inr (expected, loid)"
    and oid: "get_in (get_in v ''lockfile'') ''git_blob_oid'' = JStr loid"
    and crates: "get_in v ''crates'' = JArr crates" "emap recorded_crate crates = Inr cs" "sort_key fst cs = expected"
    using assms unfolding validate_subject_def
    by (auto simp: ebind_Inr_iff require_simps split_beta)
  from hist obtain t lock subjects lockdoc packages where
    snap: "snapshot g wp es rv = Inr (t, lock, loid)" and chk: "check_snapshot t (path_parts wp) = Inr subjects"
    and doc: "toml_doc lock = Some lockdoc" "dget lockdoc ''package'' = JArr packages"
    and meta: "emap (locked_crate packages) (sort_key fst subjects) = Inr expected"
    unfolding historical_provenance_def
    by (auto simp: ebind_Inr_iff want_some_Inr want_Inr map_err_Inr simp del: emap.simps)
  from snapshot_files [OF snap] obtain m moid mm ml where
    blobs: "map_of es ''Cargo.toml'' = Some (mm, moid)" "blob g moid = Some m"
      "map_of es ''Cargo.lock'' = Some (ml, loid)" "blob g loid = Some lock"
    and files: "get_file t (path_parts wp @ [''Cargo.toml'']) = Some m"
      "get_file t (path_parts wp @ [''Cargo.lock'']) = Some lock"
    by blast
  from check_snapshot_Inr [OF chk files] doc obtain document where
    d: "toml_doc m = Some document" "manifest_ok document" "subjects = collected document"
      "\<forall>p w. declares document p w \<longrightarrow> locked_ok packages p w"
    by auto
  have "map crate_id expected = sort_key fst subjects" by (rule emap_locked_crate [OF meta])
  then have "crate_id ` set cs = set subjects"
    using crates(3) by (metis set_map set_sort)
  moreover have "(p, w) \<in> set subjects \<longleftrightarrow> declares document p w" for p w
    using collected_mem d(2,3) unfolding manifest_ok_def by blast
  ultimately have "\<forall>p w. declares document p w \<longleftrightarrow> (\<exists>c \<in> set crates. recorded_as c (p, w))"
    using emap_recorded_crate(1) [OF crates(2)] by blast
  with d(1,2,4) blobs oid doc crates(1) emap_recorded_crate(2) [OF crates(2)]
  show ?thesis unfolding subject_ok_def by metis
qed

text \<open>
  Evidence of one workload: the manifest names it, the retained JSON files are exactly the recorded
  artifacts, with their digests and within the declared limits, the semantic closure is a state of
  the history, the subject is published, and the pinned verifier reports no violation.
\<close>

definition evidence_ok :: "evidence_env \<Rightarrow> node \<Rightarrow> entry \<Rightarrow> bool" where
  "evidence_ok env repo w \<longleftrightarrow>
     (\<exists>manifest paths closure incl es r.
        read_manifest repo (e_name w) (path_parts (e_path w) @ [''validation'', manifest_name]) = Inr (JObj manifest) \<and>
        dget manifest ''workload'' = JStr (e_name w) \<and>
        retained_ok env repo (path_parts (e_path w)) manifest paths \<and>
        within_retention repo (path_parts (e_path w)) manifest \<and>
        dget manifest ''semantic_closure'' = JObj closure \<and>
        dget closure ''digest_sha256'' = JStr (closure_digest (sha env) es) \<and>
        closure_ok incl es \<and> set (map fst es) \<inter> set paths = {} \<and>
        first_representative (env_git env) (e_path w) incl es r \<and>
        subject_ok (env_git env) es (dget manifest ''validation_subject'') \<and>
        verifier_clean env repo (path_parts (e_path w)) manifest
          (path_parts (e_path w) @ [''validation'', manifest_name]))"

lemma validate_evidence_steps:
  assumes "validate_evidence env repo w path = Inr ()"
  shows "\<exists>manifest pa rs cl rv u u'.
    read_manifest repo (e_name w) path = Inr (JObj manifest) \<and> dget manifest ''workload'' = JStr (e_name w) \<and>
    validate_records env repo (path_parts (e_path w)) (dget manifest ''records'') = Inr rs \<and>
    validate_semantic_closure (env_git env) (sha env) (e_path w) (fst pa) (snd pa)
      (dget manifest ''semantic_closure'') (fst rs) = Inr cl \<and>
    validate_subject (env_git env) (e_path w) (fst cl) rv (dget manifest ''validation_subject'') = Inr u \<and>
    validate_retention repo (path_parts (e_path w)) (dget manifest ''retention'') (fst rs) (fst (snd rs)) (snd (snd rs)) = Inr u' \<and>
    validate_verifier env repo (path_parts (e_path w)) (fst cl) (dget manifest ''verifier'') path = Inr ()"
  using assms unfolding validate_evidence_def Let_def ebind_Inr_iff require_simps eguard_Inr split_beta
  by (elim exE conjE) (hypsubst, (intro exI conjI; assumption))

lemma validate_evidence_sound:
  assumes "validate_evidence env repo w (path_parts (e_path w) @ [''validation'', manifest_name]) = Inr ()"
  shows "evidence_ok env repo w"
proof -
  let ?dir = "path_parts (e_path w)" and ?path = "path_parts (e_path w) @ [''validation'', manifest_name]"
  from validate_evidence_steps [OF assms] obtain manifest pa rs cl rv where
    man: "read_manifest repo (e_name w) ?path = Inr (JObj manifest)"
      "dget manifest ''workload'' = JStr (e_name w)"
    and recs0: "validate_records env repo ?dir (dget manifest ''records'') = Inr rs"
    and clos0: "validate_semantic_closure (env_git env) (sha env) (e_path w) (fst pa) (snd pa)
        (dget manifest ''semantic_closure'') (fst rs) = Inr cl"
    and subj0: "validate_subject (env_git env) (e_path w) (fst cl) rv (dget manifest ''validation_subject'') = Inr ()"
    and ret0: "validate_retention repo ?dir (dget manifest ''retention'') (fst rs) (fst (snd rs)) (snd (snd rs)) = Inr ()"
    and ver0: "validate_verifier env repo ?dir (fst cl) (dget manifest ''verifier'') ?path = Inr ()"
    by auto
  obtain paths n bytes es r where tuples: "rs = (paths, n, bytes)" "cl = (es, r)"
    by (metis surj_pair)
  note recs = recs0 [unfolded tuples fst_conv snd_conv] and clos = clos0 [unfolded tuples fst_conv snd_conv]
    and subj = subj0 [unfolded tuples fst_conv snd_conv] and ret = ret0 [unfolded tuples fst_conv snd_conv]
    and ver = ver0 [unfolded tuples fst_conv snd_conv]
  from validate_records_Inr [OF recs] obtain items where
    items: "dget manifest ''records'' = JArr items" "list_all2 (artifact_matches env repo ?dir) items paths"
    and paths: "distinct paths" "n = length paths" "bytes = sum_list (map (\<lambda>p. file_size repo (?dir @ path_parts p)) paths)"
    by blast
  have cj: "set (committed_json repo ?dir) = set paths"
    by (rule validate_retention_Inr(1) [OF ret])
  have "retained_ok env repo ?dir manifest paths"
    using items paths(1) cj unfolding retained_ok_def by blast
  moreover have "within_retention repo ?dir manifest"
    using validate_retention_Inr(2) [OF ret]
    unfolding within_retention_def cj paths(2,3) sum_list_distinct_conv_sum_set [OF paths(1)]
    by (simp add: distinct_card paths(1))
  moreover have "subject_ok (env_git env) es (dget manifest ''validation_subject'')"
    by (rule validate_subject_Inr [OF subj])
  moreover have "verifier_clean env repo ?dir manifest ?path"
    by (rule validate_verifier_Inr [OF ver])
  moreover obtain closure incl where "dget manifest ''semantic_closure'' = JObj closure" "closure_ok incl es"
    "set (map fst es) \<inter> set paths = {}" "dget closure ''digest_sha256'' = JStr (closure_digest (sha env) es)"
    "first_representative (env_git env) (e_path w) incl es r"
    using validate_semantic_closure_sound [OF clos] by blast
  ultimately show ?thesis using man unfolding evidence_ok_def by blast
qed

definition retains_evidence :: "node \<Rightarrow> entry \<Rightarrow> bool" where
  "retains_evidence repo w \<longleftrightarrow> path_exists repo (path_parts (e_path w) @ [''validation''])"

lemma workload_evidence_Inr:
  "validate_workload_evidence env repo ws = Inr names \<Longrightarrow>
     names = map e_name (filter (retains_evidence repo) ws) \<and>
     (\<forall>w \<in> set ws. retains_evidence repo w \<longrightarrow> evidence_ok env repo w)"
proof (induction ws arbitrary: names)
  case Nil
  then show ?case by simp
next
  case (Cons w ws)
  show ?case
  proof (cases "retains_evidence repo w")
    case False
    with Cons show ?thesis by (simp add: retains_evidence_def)
  next
    case True
    with Cons.prems obtain names' where
      "validate_evidence env repo w (path_parts (e_path w) @ [''validation'', manifest_name]) = Inr ()"
      "validate_workload_evidence env repo ws = Inr names'" "names = e_name w # names'"
      by (auto simp: retains_evidence_def Let_def ebind_Inr_iff)
    with Cons.IH validate_evidence_sound True show ?thesis by auto
  qed
qed

lemma evidence_repository_Inr:
  assumes "validate_evidence_repository env repo = Inr names"
  shows "\<exists>r. validate_repository repo = Inr r \<and> names = map e_name (filter (retains_evidence repo) (workloads r)) \<and>
    (\<forall>w \<in> set (workloads r). retains_evidence repo w \<longrightarrow> evidence_ok env repo w)"
  using assms workload_evidence_Inr
  unfolding validate_evidence_repository_def ebind_Inr_iff map_err_Inr by blast

section \<open>A workload with retained evidence\<close>

definition sample_blobs :: "string \<Rightarrow> filedata option" where
  "sample_blobs oid =
     (if oid = toy_oid (CHR ''2'') then Some (toml_file published_manifest)
      else if oid = toy_oid (CHR ''1'') then Some (toml_file (published_lock ''0.5.0-rc.1''))
      else None)"

definition sample_env :: evidence_env where
  "sample_env = \<lparr>env_git = sample_git\<lparr>blob := sample_blobs\<rparr>, sha = toy_sha,
     run_verifier = (\<lambda>script manifest. (0, Some (JObj [(''schema_version'', JInt 1), (''violations'', JArr [])])))\<rparr>"

definition sample_records :: json where
  "sample_records = JArr [JObj
     [(''scenario'', JStr ''crash''),
      (''artifact'', JObj [(''path'', JStr ''validation/run.json''), (''sha256'', JStr (toy_sha ''{}'')), (''size_bytes'', JInt 2)]),
      (''input'', JObj [(''identity'', JObj [(''kind'', JStr ''generated''), (''reference'', JStr ''seed 7'')]),
                       (''reproduction'', JObj [(''command'', JStr ''make'')])]),
      (''parameters'', JObj []), (''failure_point'', JNull)]]"

definition sample_subject :: json where
  "sample_subject = JObj
     [(''lockfile'', JObj [(''path'', JStr ''Cargo.lock''), (''git_blob_oid'', JStr (toy_oid (CHR ''1'')))]),
      (''crates'', JArr [locked_package ''oxide-batch-core'' ''0.5.0-rc.1'', locked_package ''oxide-batch'' ''0.5.0''])]"

definition sample_producer :: json where
  "sample_producer = JObj
     [(''base_revision'', JStr (toy_oid (CHR ''c''))), (''revision_role'', JStr ''producer-checkout''),
      (''run'', JObj [(''kind'', JStr ''local''), (''identity'', JNull), (''binding'', JStr ''recorded-metadata'')])]"

definition sample_environment :: json where
  "sample_environment = JObj
     [(''observations'', JArr [JObj [(''name'', JStr ''os''), (''value'', JStr ''linux''),
         (''trust'', JStr ''recorded-metadata''), (''source'', JStr ''uname'')]]),
      (''limitations'', JArr [])]"

definition sample_retention :: "int \<Rightarrow> json" where
  "sample_retention max_bytes = JObj
     [(''committed_artifacts'', JObj [(''directory'', JStr ''validation''), (''max_count'', JInt 1),
         (''max_total_bytes'', JInt max_bytes), (''supersession'', JStr ''replace'')]),
      (''wall_clock_freshness_merge_gate'', JBool False)]"

definition sample_verifier :: json where
  "sample_verifier = JObj
     [(''canonical'', JObj [(''path'', JStr ''validation/verify.py''), (''sha256'', JStr (toy_sha ''#!'')),
         (''result_model'', JStr ''violations-v1'')]),
      (''producer'', JObj [(''path'', JStr ''src/main.rs''), (''git_blob_oid'', JStr (toy_oid (CHR ''3'')))])]"

definition sample_manifest :: "int \<Rightarrow> obj" where
  "sample_manifest max_bytes =
     [(''schema_version'', JInt 2), (''workload'', JStr ''alpha''), (''producer'', sample_producer),
      (''semantic_closure'', JObj sample_closure_json), (''validation_subject'', sample_subject),
      (''records'', sample_records), (''verifier'', sample_verifier), (''environment'', sample_environment),
      (''retention'', sample_retention max_bytes), (''external_artifacts'', JArr [])]"

definition evidence_tree :: "int \<Rightarrow> node" where
  "evidence_tree max_bytes = NDir
     [(''workloads.json'', NFile (json_file (JObj sample_registry))),
      (''a'', NDir [(''Cargo.toml'', NFile (toml_file published_manifest)),
         (''ci'', NDir [(''validate'', NFile script_file)]),
         (''validation'', NDir
           [(manifest_name, NFile (json_file (JObj (sample_manifest max_bytes)))),
            (''run.json'', NFile ((text_file ''{}'')\<lparr>json_doc := Some (JObj [])\<rparr>)),
            (''verify.py'', NFile (text_file ''#!''))])]),
      (''b'', NDir [(''Cargo.toml'', NFile (toml_file [(''package'', JObj [(''name'', JStr ''beta'')])])),
         (''ci'', NDir [(''validate'', NFile script_file)])]),
      (''r'', NDir [(''Cargo.toml'', NFile (toml_file []))])]"

definition sample_workload :: entry where
  "sample_workload = hd (workloads sample_result)"

lemma sample_workload_fields:
  "e_name sample_workload = ''alpha''" "path_parts (e_path sample_workload) = [''a'']" "e_path sample_workload = ''a''"
  "workloads sample_result = [sample_workload]"
  by code_simp+

lemma sample_evidence_registry: "validate_repository (evidence_tree n) = Inr sample_result"
  by (simp add: evidence_tree_def) code_simp

lemma sample_evidence_accepted:
  "validate_evidence_repository sample_env (evidence_tree 2) = Inr [''alpha'']"
  by code_simp

lemma sample_retains: "retains_evidence (evidence_tree 2) sample_workload"
  by code_simp

section \<open>Properties\<close>

text \<open>
  C15. What accepting the retained evidence of a repository guarantees: the registry is valid, the
  reported workloads are those with a validation directory, and each of these has a manifest whose
  recorded artifacts are exactly the committed JSON files, unchanged in content and size and within
  the declared limits, whose semantic closure is the digest-bound state of the first commit of the
  history that has it, whose crates are exactly the published first-party releases the producer's
  manifest declares and its lock file pins, and whose pinned verifier reports no violation.
\<close>

theorem evidence_repository_sound:
  assumes "validate_evidence_repository env repo = Inr names"
  shows "\<exists>r. validate_repository repo = Inr r \<and> names = map e_name (filter (retains_evidence repo) (workloads r)) \<and>
    (\<forall>w \<in> set (workloads r). retains_evidence repo w \<longrightarrow> evidence_ok env repo w)"
  by (rule evidence_repository_Inr [OF assms])

theorem evidence_repository_sound_witness:
  "evidence_ok sample_env (evidence_tree 2) sample_workload"
proof -
  obtain r where "validate_repository (evidence_tree 2) = Inr r"
    "\<forall>w \<in> set (workloads r). retains_evidence (evidence_tree 2) w \<longrightarrow> evidence_ok sample_env (evidence_tree 2) w"
    using evidence_repository_sound [OF sample_evidence_accepted] by blast
  then show ?thesis
    using sample_retains by (simp add: sample_evidence_registry sample_workload_fields)
qed

end
