(* ===== verification/Verifiers.thy ===== *)
theory Verifiers
  imports Evidence
begin

text \<open>
  What the retained-evidence verifiers of the workloads share: \<open>validation/verify-retained-evidence.py\<close>
  of \<open>csv-postgres\<close> and \<open>postgres-postgres\<close> and \<open>verify-track-f-retained-evidence.py\<close>. A verifier
  reads an evidence manifest and the artifacts its records name and returns a list of violations;
  each is named here by a short text in place of the source's sentence. An artifact path is
  looked up in the repository's tree; one that leaves the tree (\<open>..\<close> or an absolute path) is missing there. The locale
  \<open>violations_verifier\<close> is the contract under which \<open>validate-evidence.py\<close> runs them: it accepts
  the report of a verifier exactly if the verifier found no violation.
\<close>

section \<open>Violations\<close>

text \<open>\<open>if not ok: violations.append(message)\<close>, in order.\<close>

definition checks :: "(bool \<times> string) list \<Rightarrow> string list" where
  "checks cs = map snd (filter (\<lambda>c. \<not> fst c) cs)"

lemma checks_Nil_iff [simp]: "checks cs = [] \<longleftrightarrow> list_all fst cs"
  by (auto simp: checks_def filter_empty_conv list_all_iff)

lemma checks_named [simp]: "list_all (\<lambda>c. snd c \<noteq> []) cs \<Longrightarrow> [] \<notin> set (checks cs)"
  by (auto simp: checks_def list_all_iff)

section \<open>Reading\<close>

text \<open>\<open>load_json\<close>: \<open>None\<close> where it raises \<open>ValueError\<close>.\<close>

definition load_dict :: "node \<Rightarrow> string list \<Rightarrow> obj option" where
  "load_dict repo path = Option.bind (get_file repo path) (\<lambda>f. Option.bind (json_doc f) as_obj)"

text \<open>\<open>field(record, *parts)\<close>.\<close>

fun field :: "json \<Rightarrow> string list \<Rightarrow> json" where
  "field v [] = v"
| "field v (k # ks) = field (get_in v k) ks"

lemma field_JNull [simp]: "field JNull ks = JNull"
  by (induction ks) auto

text \<open>\<open>v.get(k) if isinstance(v, dict) else None\<close> is \<open>get_in\<close>; an integer that is no boolean is \<open>as_int\<close>.\<close>

definition positive_int :: "json \<Rightarrow> bool" where
  "positive_int v \<longleftrightarrow> (case as_int v of Some n \<Rightarrow> 0 < n | None \<Rightarrow> False)"

lemma positive_int_iff: "positive_int v \<longleftrightarrow> (\<exists>n. v = JInt n \<and> 0 < n)"
  by (cases v) (auto simp: positive_int_def)

text \<open>The records of a manifest by scenario; a later one replaces an earlier one.\<close>

definition scenario_of :: "json \<Rightarrow> string" where
  "scenario_of item = (case as_str (get_in item ''scenario'') of Some s \<Rightarrow> s | None \<Rightarrow> [])"

definition record_by_scenario :: "json list \<Rightarrow> (string \<times> json) list" where
  "record_by_scenario records =
     dict_by scenario_of (filter (\<lambda>item. is_dict item \<and> is_str (get_in item ''scenario'')) records)"

text \<open>The artifact of a record, below the workload's directory; \<open>Inl\<close> is the violation.\<close>

definition load_artifact :: "node \<Rightarrow> string list \<Rightarrow> string \<times> json \<Rightarrow> string + string \<times> obj" where
  "load_artifact repo dir e =
     (case e of (scenario, rec) \<Rightarrow>
        ebind (want_str (get_in (get_in rec ''artifact'') ''path'') (scenario @ '': artifact path is missing'')) (\<lambda>path.
        ebind (want_some (load_dict repo (dir @ path_parts path)) (scenario @ '': cannot read artifact'')) (\<lambda>d.
          Inr (scenario, d))))"

text \<open>The directory two levels above the manifest.\<close>

definition workload_dir :: "string list \<Rightarrow> string list" where
  "workload_dir manifest_path = butlast (butlast manifest_path)"

fun lefts :: "('a + 'b) list \<Rightarrow> 'a list" where
  "lefts [] = []"
| "lefts (Inl a # xs) = a # lefts xs"
| "lefts (Inr b # xs) = lefts xs"

fun rights :: "('a + 'b) list \<Rightarrow> 'b list" where
  "rights [] = []"
| "rights (Inl a # xs) = rights xs"
| "rights (Inr b # xs) = b # rights xs"

lemma in_lefts [simp]: "a \<in> set (lefts xs) \<longleftrightarrow> Inl a \<in> set xs"
  by (induction xs rule: lefts.induct) auto

lemma in_rights [simp]: "b \<in> set (rights xs) \<longleftrightarrow> Inr b \<in> set xs"
  by (induction xs rule: rights.induct) auto

lemma load_artifact_named: "load_artifact repo dir e = Inl m \<Longrightarrow> m \<noteq> []"
  by (cases e) (auto simp: load_artifact_def ebind_Inl_iff want_str_def want_some_def split: option.splits)

lemma load_artifacts_named [simp]: "[] \<notin> set (lefts (map (load_artifact repo dir) rs))"
  using load_artifact_named by force

section \<open>The contract of a verifier\<close>

text \<open>
  What a verifier prints and the status it exits with; \<open>None\<close> is output that is not JSON.
  \<open>validate-evidence.py\<close> accepts exactly a clean report.
\<close>

definition violations_report :: "string list \<Rightarrow> int \<times> json option" where
  "violations_report vs =
     (if vs = [] then 0 else 1, Some (JObj [(''schema_version'', JInt 1), (''violations'', JArr (map JStr vs))]))"

locale violations_verifier =
  fixes verify :: "node \<Rightarrow> string list \<Rightarrow> 'e + string list"
    and report :: "node \<Rightarrow> string list \<Rightarrow> int \<times> json option"
  assumes reported: "verify repo path = Inr vs \<Longrightarrow>
      \<exists>r. report repo path = (if vs = [] then 0 else 1, Some (JObj r)) \<and>
        dget r ''schema_version'' = JInt 1 \<and> dget r ''violations'' = JArr (map JStr vs)"
    and named: "verify repo path = Inr vs \<Longrightarrow> [] \<notin> set vs"
    and crashed: "verify repo path = Inl e \<Longrightarrow> \<not> isOK (check_verifier_result (report repo path))"
begin

lemma accepted_iff: "isOK (check_verifier_result (report repo path)) \<longleftrightarrow> verify repo path = Inr []"
proof (cases "verify repo path")
  case (Inl e)
  with crashed show ?thesis by simp
next
  case (Inr vs)
  from reported [OF Inr] obtain r where r: "report repo path = (if vs = [] then 0 else 1, Some (JObj r))"
    "dget r ''schema_version'' = JInt 1" "dget r ''violations'' = JArr (map JStr vs)" by blast
  show ?thesis
    using Inr by (cases vs) (auto simp: r check_verifier_result_def num_eq.simps)
qed

lemma rejected_reports:
  assumes "verify repo path = Inr vs" "vs \<noteq> []"
  shows "check_verifier_result (report repo path) = Inl (VerifierReported vs)"
proof -
  from reported [OF assms(1)] obtain r where r: "report repo path = (1, Some (JObj r))"
    "dget r ''schema_version'' = JInt 1" "dget r ''violations'' = JArr (map JStr vs)" using assms(2) by auto
  have "list_all violation_item (map JStr vs)"
    using named [OF assms(1)] by (auto simp: list_all_iff violation_item_def)
  moreover have "strings_of (map JStr vs) = vs" by (induction vs) (simp_all add: strings_of_def)
  ultimately show ?thesis using assms(2) by (simp add: r check_verifier_result_def num_eq.simps)
qed

end

end
