(* ===== verification/Csv_Evidence.thy ===== *)
theory Csv_Evidence
  imports Verifiers Floats
begin

text \<open>
  Model of \<open>csv-postgres/validation/verify-retained-evidence.py\<close>: the relationships between the clean
  run, the crash run and the restart run of the retained evidence, recomputed from their
  observations. The violations are listed in the order of the source.
\<close>

section \<open>Integers as text\<close>

text \<open>\<open>int(s)\<close> on an ASCII string, \<open>None\<close> for \<open>ValueError\<close>; more than 4300 digits are refused.\<close>

definition int_of_str :: "string \<Rightarrow> int option" where
  "int_of_str s =
     (case take_sign (strip s) of (neg, r) \<Rightarrow>
        Option.bind (drop_underscores None r) (\<lambda>ds.
          if ds = [] \<or> \<not> list_all is_digit ds \<or> 4300 < length ds then None
          else Some (if neg then - digits_value ds else digits_value ds)))"

definition digit_char :: "int \<Rightarrow> char" where
  "digit_char n = ''0123456789'' ! nat n"

function show_digits :: "int \<Rightarrow> string" where
  "show_digits n = (if n < 10 then [digit_char n] else show_digits (n div 10) @ [digit_char (n mod 10)])"
  by pat_completeness auto
termination
  by (relation "measure nat") auto

declare show_digits.simps [simp del]

definition show_int :: "int \<Rightarrow> string" where
  "show_int n = (if n < 0 then ''-'' @ show_digits (- n) else show_digits n)"

section \<open>The three runs\<close>

definition csv_scenarios :: "string list" where
  "csv_scenarios = [''clean_run'', ''crash_run'', ''restart_run'']"

record csv_runs =
  clean_record :: json
  crash_record :: json
  restart_record :: json
  clean :: json
  crash :: json
  restart :: json

definition csv_identity :: "csv_runs \<Rightarrow> string list" where
  "csv_identity e =
     (let ci = field (clean_record e) [''input'', ''identity''];
          ki = field (crash_record e) [''input'', ''identity''];
          ri = field (restart_record e) [''input'', ''identity'']
      in checks
        [(get_in (clean e) ''scenario'' = JStr ''clean_run'', ''clean_run scenario''),
         (get_in (crash e) ''scenario'' = JStr ''crash_run'', ''crash_run scenario''),
         (get_in (restart e) ''scenario'' = JStr ''restart_run'', ''restart_run scenario''),
         (is_dict ci \<and> py_eq ci ki \<and> py_eq ki ri, ''input identity'')])"

definition input_value :: "csv_runs \<Rightarrow> string \<Rightarrow> json" where
  "input_value e key = get_in (field (clean_record e) [''input'', ''reproduction'']) key"

definition identity_value :: "csv_runs \<Rightarrow> string \<Rightarrow> json" where
  "identity_value e key = get_in (field (clean_record e) [''input'', ''identity'']) key"

definition csv_dataset :: "csv_runs \<Rightarrow> string list" where
  "csv_dataset e =
     (let cd = get_in (clean e) ''dataset''; kd = get_in (crash e) ''dataset'' in
      if \<not> (is_dict cd \<and> is_dict kd) then [''datasets'']
      else
        concat (map (\<lambda>(key, expected). checks
          [(py_eq (get_in cd key) expected, ''clean_run dataset.'' @ key),
           (py_eq (get_in kd key) expected, ''crash_run dataset.'' @ key)])
          [(''rows'', input_value e ''rows''), (''seed'', input_value e ''seed''),
           (''id_offset'', input_value e ''id_offset''), (''sha256'', identity_value e ''sha256'')]) @
        checks [(py_eq (get_in cd ''file_size_bytes'') (identity_value e ''size_bytes''), ''clean_run dataset.file_size_bytes'')])"

text \<open>The chunk size of the manifest, \<open>None\<close> unless it is a positive integer.\<close>

definition csv_chunk_size :: "csv_runs \<Rightarrow> int option" where
  "csv_chunk_size e =
     (let v = field (clean_record e) [''parameters'', ''chunk_size''] in if positive_int v then as_int v else None)"

definition csv_chunks :: "csv_runs \<Rightarrow> string list" where
  "csv_chunks e =
     (case csv_chunk_size e of
        None \<Rightarrow> [''clean_run chunk_size'']
      | Some n \<Rightarrow> checks
          [(py_eq (field (crash_record e) [''parameters'', ''chunk_size'']) (JInt n), ''crash_run chunk_size''),
           (py_eq (field (restart_record e) [''parameters'', ''chunk_size'']) (JInt n), ''restart_run chunk_size''),
           (py_eq (get_in (clean e) ''chunk_size'') (JInt n), ''clean_run artifact chunk_size''),
           (py_eq (get_in (crash e) ''chunk_size'') (JInt n), ''crash_run artifact chunk_size'')])"

text \<open>\<open>integer(value, name, violations)\<close> is \<open>as_int\<close> with a violation where it fails.\<close>

definition integer_check :: "json \<Rightarrow> string \<Rightarrow> bool \<times> string" where
  "integer_check v name = (as_int v \<noteq> None, name)"

definition csv_rows :: "csv_runs \<Rightarrow> int option" where
  "csv_rows e = as_int (input_value e ''rows'')"

definition csv_clean :: "csv_runs \<Rightarrow> string list" where
  "csv_clean e =
     (let digest = get_in (clean e) ''final_state_digest_sha256'' in
      checks
        [integer_check (input_value e ''rows'') ''manifest input rows'',
         integer_check (get_in (clean e) ''source_rows'') ''clean_run source_rows'',
         integer_check (get_in (clean e) ''db_row_count'') ''clean_run db_row_count'',
         integer_check (get_in (clean e) ''chunks_committed'') ''clean_run chunks_committed'',
         (get_in (clean e) ''job_execution_status'' = JStr ''COMPLETED'', ''clean_run job_execution_status'')] @
      (case csv_rows e of
         None \<Rightarrow> []
       | Some rows \<Rightarrow> checks
           [(as_int (get_in (clean e) ''source_rows'') = Some rows, ''clean_run source_rows equal''),
            (as_int (get_in (clean e) ''db_row_count'') = Some rows, ''clean_run db_row_count equal''),
            (\<not> (\<exists>n \<in> set_option (csv_chunk_size e). rows mod n = 0 \<and>
                 as_int (get_in (clean e) ''chunks_committed'') \<noteq> Some (rows div n)), ''clean_run chunks_committed equal'')]) @
      checks [((case as_str digest of Some s \<Rightarrow> length s = 64 | None \<Rightarrow> False), ''clean_run digest'')])"

text \<open>The failure point of the manifest and the failure injection of the artifact, \<open>{}\<close> where missing.\<close>

definition dict_or_empty :: "json \<Rightarrow> json" where
  "dict_or_empty v = (if is_dict v then v else JObj [])"

definition failure_point :: "csv_runs \<Rightarrow> json" where
  "failure_point e = dict_or_empty (get_in (crash_record e) ''failure_point'')"

definition failure_injection :: "csv_runs \<Rightarrow> json" where
  "failure_injection e = dict_or_empty (get_in (crash e) ''failure_injection'')"

definition fail_chunk :: "csv_runs \<Rightarrow> int option" where
  "fail_chunk e =
     Option.bind (as_str (get_in (failure_point e) ''fail_at'')) (\<lambda>s.
       if startswith s ''chunk:'' then int_of_str (drop 6 s) else None)"

definition csv_failure :: "csv_runs \<Rightarrow> string list" where
  "csv_failure e =
     checks
       ([(is_dict (get_in (crash_record e) ''failure_point''), ''crash_run failure_point''),
         (is_dict (get_in (crash e) ''failure_injection''), ''crash_run failure_injection'')] @
        map (\<lambda>key. (py_eq (get_in (failure_injection e) key) (get_in (failure_point e) key), ''crash_run failure_injection.'' @ key))
          [''fail_at'', ''failure_mode'', ''hard_crash''] @
        [((case fail_chunk e of Some k \<Rightarrow> 0 < k | None \<Rightarrow> False), ''crash_run fail_at''),
         (get_in (failure_point e) ''hard_crash'' = JBool True, ''crash_run hard crash''),
         (\<not> (get_in (crash e) ''process_exit_code'' = JNull \<or> py_eq (get_in (crash e) ''process_exit_code'') (JInt 0)),
            ''crash_run process_exit_code''),
         (get_in (crash e) ''job_execution_status_after_crash'' = JStr ''STARTED'', ''crash_run durable status''),
         integer_check (get_in (crash e) ''business_db_rows_after_crash'') ''crash_run business_db_rows_after_crash'',
         integer_check (get_in (crash e) ''total_chunks'') ''crash_run total_chunks''])"

definition crash_rows :: "csv_runs \<Rightarrow> int option" where
  "crash_rows e = as_int (get_in (crash e) ''business_db_rows_after_crash'')"

definition total_chunks :: "csv_runs \<Rightarrow> int option" where
  "total_chunks e = as_int (get_in (crash e) ''total_chunks'')"

definition ceil_div :: "int \<Rightarrow> int \<Rightarrow> int" where
  "ceil_div a n = a div n + (if a mod n \<noteq> 0 then 1 else 0)"

definition csv_crash_rows :: "csv_runs \<Rightarrow> string list" where
  "csv_crash_rows e =
     (case (csv_rows e, csv_chunk_size e) of
        (Some rows, Some n) \<Rightarrow>
          checks [(total_chunks e = Some (ceil_div rows n), ''crash_run total_chunks equal'')] @
          (case fail_chunk e of
             None \<Rightarrow> []
           | Some k \<Rightarrow> checks
               [(crash_rows e = Some (k * n), ''crash_run durable rows''),
                (py_eq (get_in (crash e) (''expected_rows_from_'' @ show_int k @ ''_committed_chunks'')) (JInt (k * n)),
                   ''crash_run expected rows'')])
      | _ \<Rightarrow> [])"

definition csv_restart :: "csv_runs \<Rightarrow> string list" where
  "csv_restart e =
     (let final_rows = get_in (restart e) ''final_business_db_rows'';
          expected = get_in (restart e) ''expected_final_rows'';
          kp = get_in (crash_record e) ''parameters''; rp = get_in (restart_record e) ''parameters''
      in checks
        [(get_in (restart e) ''restart_job_execution_status'' = JStr ''COMPLETED'', ''restart_run status''),
         integer_check final_rows ''restart_run final_business_db_rows'',
         integer_check expected ''restart_run expected_final_rows'',
         (\<not> (\<exists>rows \<in> set_option (csv_rows e). as_int final_rows \<noteq> Some rows \<or> as_int expected \<noteq> Some rows),
            ''restart_run final rows'')] @
        (if is_dict kp \<and> is_dict rp then
           (let name = get_in kp ''import_name'' in checks
             [(py_eq (get_in rp ''import_name'') name, ''restart_run import_name''),
              (get_in rp ''recovery_of'' = JStr ''crash_run'', ''restart_run recovery_of''),
              (py_eq (get_in (crash e) ''import_name'') name \<and> py_eq (get_in (restart e) ''import_name'') name,
                 ''crash/restart import_name'')])
         else []))"

definition csv_attempt :: "csv_runs \<Rightarrow> string list" where
  "csv_attempt e =
     (let this_attempt = get_in (restart e) ''this_attempt_only''; cumulative = get_in (restart e) ''cumulative_after_restart'' in
      if \<not> (is_dict this_attempt \<and> is_dict cumulative) then [''restart_run attempts'']
      else
        (case (csv_rows e, crash_rows e) of
           (Some rows, Some done) \<Rightarrow>
             checks
               [(py_eq (get_in this_attempt ''committed_read'') (JInt (rows - done)), ''restart_run committed_read''),
                (py_eq (get_in this_attempt ''committed_written'') (JInt (rows - done)), ''restart_run committed_written''),
                (py_eq (get_in cumulative ''read_count'') (JInt rows), ''restart_run read_count''),
                (\<not> (\<exists>t \<in> set_option (total_chunks e). \<not> py_eq (get_in cumulative ''commit_count'') (JInt t)),
                   ''restart_run commit_count'')]
         | _ \<Rightarrow> []))"

definition csv_digests :: "csv_runs \<Rightarrow> string list" where
  "csv_digests e =
     (let d = get_in (clean e) ''final_state_digest_sha256'' in
      checks [(is_str d \<and> get_in (restart e) ''clean_run_full_content_digest_sha256'' = d \<and>
                 get_in (restart e) ''recovered_run_full_content_digest_sha256'' = d, ''full-content digests'')])"

definition csv_checks :: "csv_runs \<Rightarrow> string list" where
  "csv_checks e = csv_identity e @ csv_dataset e @ csv_chunks e @ csv_clean e @ csv_failure e @ csv_crash_rows e @
     csv_restart e @ csv_attempt e @ csv_digests e"

text \<open>The six documents of a manifest, or the violations found on the way to them.\<close>

definition csv_load :: "node \<Rightarrow> string list \<Rightarrow> obj \<Rightarrow> string list + csv_runs" where
  "csv_load repo path manifest =
     ebind (want_arr (dget manifest ''records'') [''manifest records'']) (\<lambda>records.
     let by_scenario = record_by_scenario records;
         loads = map (load_artifact repo (workload_dir path)) by_scenario in
     ebind (eguard (set (map fst by_scenario) = set csv_scenarios) [''scenarios'']) (\<lambda>_.
     ebind (eguard (lefts loads = []) (lefts loads)) (\<lambda>_.
       let rec = (\<lambda>s. the (map_of by_scenario s)); art = (\<lambda>s. JObj (the (map_of (rights loads) s))) in
       Inr \<lparr>clean_record = rec ''clean_run'', crash_record = rec ''crash_run'', restart_record = rec ''restart_run'',
         clean = art ''clean_run'', crash = art ''crash_run'', restart = art ''restart_run''\<rparr>)))"

text \<open>\<open>main\<close> turns the \<open>ValueError\<close> of an unreadable manifest into a violation, so nothing is raised.\<close>

definition csv_verify :: "node \<Rightarrow> string list \<Rightarrow> unit + string list" where
  "csv_verify repo path =
     Inr (case load_dict repo path of
            None \<Rightarrow> [''cannot read manifest'']
          | Some manifest \<Rightarrow>
              (case csv_load repo path manifest of Inl vs \<Rightarrow> vs | Inr e \<Rightarrow> csv_checks e))"

definition csv_report :: "node \<Rightarrow> string list \<Rightarrow> int \<times> json option" where
  "csv_report repo path =
     (case csv_verify repo path of
        Inl _ \<Rightarrow> (1, None)
      | Inr vs \<Rightarrow> (if vs = [] then 0 else 1, Some (JObj
          [(''schema_version'', JInt 1), (''violations'', JArr (map JStr vs)),
           (''display_verdict'', JStr (if vs = [] then ''pass'' else ''fail''))])))"

section \<open>The contract\<close>

lemma csv_checks_named: "[] \<notin> set (csv_checks e)"
proof -
  have "[] \<notin> set (csv_identity e)" "[] \<notin> set (csv_dataset e)" "[] \<notin> set (csv_digests e)" "[] \<notin> set (csv_failure e)"
    by (simp_all add: csv_identity_def csv_dataset_def csv_digests_def csv_failure_def integer_check_def Let_def)
  moreover have "[] \<notin> set (csv_chunks e)" "[] \<notin> set (csv_clean e)"
    by (simp_all add: csv_chunks_def csv_clean_def integer_check_def Let_def split: option.split)
  moreover have "[] \<notin> set (csv_crash_rows e)" "[] \<notin> set (csv_restart e)" "[] \<notin> set (csv_attempt e)"
    by (simp_all add: csv_crash_rows_def csv_restart_def csv_attempt_def integer_check_def Let_def split: option.split)
  ultimately show ?thesis by (simp add: csv_checks_def)
qed

lemma csv_load_named: "csv_load repo path manifest = Inl vs \<Longrightarrow> [] \<notin> set vs"
  unfolding csv_load_def Let_def ebind_Inl_iff want_arr_def want_some_def
  by (auto simp del: in_lefts split: option.splits)

lemma csv_verify_named: "csv_verify repo path = Inr vs \<Longrightarrow> [] \<notin> set vs"
  using csv_checks_named csv_load_named by (auto simp: csv_verify_def split: option.splits sum.splits)

interpretation csv: violations_verifier csv_verify csv_report
proof
  fix repo path vs
  assume v: "csv_verify repo path = Inr vs"
  then show "\<exists>r. csv_report repo path = (if vs = [] then 0 else 1, Some (JObj r)) \<and>
      dget r ''schema_version'' = JInt 1 \<and> dget r ''violations'' = JArr (map JStr vs)"
    by (simp add: csv_report_def)
  show "[] \<notin> set vs" using csv_verify_named [OF v] .
next
  fix repo path e
  assume "csv_verify repo path = Inl e"
  then show "\<not> isOK (check_verifier_result (csv_report repo path))"
    by (simp add: csv_verify_def)
qed

section \<open>What accepted evidence shows\<close>

text \<open>The three runs an accepted manifest names.\<close>

lemma csv_verify_Nil:
  "csv_verify repo path = Inr [] \<longleftrightarrow>
     (\<exists>manifest e. load_dict repo path = Some manifest \<and> csv_load repo path manifest = Inr e \<and> csv_checks e = [])"
proof -
  have "csv_load repo path manifest \<noteq> Inl []" for manifest
    by (auto simp: csv_load_def Let_def ebind_Inl_iff want_arr_def want_some_def split: option.splits)
  then show ?thesis by (auto simp: csv_verify_def split: option.splits sum.splits)
qed

lemma ceil_div_bounds: "0 < n \<Longrightarrow> (ceil_div a n - 1) * n < a \<and> a \<le> ceil_div a n * n"
proof -
  assume n: "0 < n"
  have "n * (a div n) + a mod n = a" "0 \<le> a mod n" "a mod n < n" using n by simp_all
  then have "n * (a div n) \<le> a" "a < n * (a div n) + n" "a mod n = 0 \<Longrightarrow> a = n * (a div n)" "a mod n \<noteq> 0 \<Longrightarrow> n * (a div n) < a"
    by linarith+
  with n show ?thesis unfolding ceil_div_def by (auto simp: algebra_simps)
qed

definition csv_facts :: "csv_runs \<Rightarrow> int \<Rightarrow> int \<Rightarrow> int \<Rightarrow> bool" where
  "csv_facts e rows n k \<longleftrightarrow>
     0 < n \<and> 0 < k \<and> csv_rows e = Some rows \<and> csv_chunk_size e = Some n \<and> fail_chunk e = Some k \<and>
     as_int (get_in (clean e) ''db_row_count'') = Some rows \<and>
     crash_rows e = Some (k * n) \<and>
     py_eq (get_in (get_in (restart e) ''this_attempt_only'') ''committed_read'') (JInt (rows - k * n)) \<and>
     py_eq (get_in (get_in (restart e) ''this_attempt_only'') ''committed_written'') (JInt (rows - k * n)) \<and>
     as_int (get_in (restart e) ''final_business_db_rows'') = Some rows \<and>
     (\<exists>total. total_chunks e = Some total \<and> (total - 1) * n < rows \<and> rows \<le> total * n \<and>
        py_eq (get_in (get_in (restart e) ''cumulative_after_restart'') ''commit_count'') (JInt total)) \<and>
     get_in (clean e) ''job_execution_status'' = JStr ''COMPLETED'' \<and>
     get_in (crash e) ''job_execution_status_after_crash'' = JStr ''STARTED'' \<and>
     get_in (restart e) ''restart_job_execution_status'' = JStr ''COMPLETED'' \<and>
     (\<exists>digest. length digest = 64 \<and> get_in (clean e) ''final_state_digest_sha256'' = JStr digest \<and>
        get_in (restart e) ''recovered_run_full_content_digest_sha256'' = JStr digest)"

lemma csv_checks_facts:
  assumes "csv_checks e = []"
  shows "\<exists>rows n k. csv_facts e rows n k"
proof -
  have c: "csv_chunks e = []" "csv_clean e = []" "csv_failure e = []" "csv_crash_rows e = []" "csv_restart e = []"
    "csv_attempt e = []" "csv_digests e = []"
    using assms by (simp_all add: csv_checks_def)
  obtain n where n: "csv_chunk_size e = Some n"
    using c(1) by (auto simp: csv_chunks_def split: option.splits)
  then have "0 < n" by (auto simp: csv_chunk_size_def Let_def positive_int_iff split: if_splits)
  obtain rows where rows: "csv_rows e = Some rows"
    using c(2) by (auto simp: csv_clean_def integer_check_def csv_rows_def Let_def split: if_splits)
  obtain k where k: "fail_chunk e = Some k" "0 < k"
    using c(3) by (auto simp: csv_failure_def split: if_splits option.splits)
  have crash: "total_chunks e = Some (ceil_div rows n)" "crash_rows e = Some (k * n)"
    using c(4) by (auto simp: csv_crash_rows_def n rows k split: if_splits)
  have clean: "as_int (get_in (clean e) ''db_row_count'') = Some rows" "get_in (clean e) ''job_execution_status'' = JStr ''COMPLETED''"
    using c(2) by (auto simp: csv_clean_def rows Let_def split: if_splits)
  obtain digest where d: "get_in (clean e) ''final_state_digest_sha256'' = JStr digest" "length digest = 64"
    using c(2) by (auto simp: csv_clean_def Let_def split: if_splits option.splits)
  have "get_in (restart e) ''recovered_run_full_content_digest_sha256'' = JStr digest"
    using c(7) by (auto simp: csv_digests_def Let_def d split: if_splits)
  moreover have "get_in (crash e) ''job_execution_status_after_crash'' = JStr ''STARTED''"
    using c(3) by (auto simp: csv_failure_def split: if_splits)
  moreover have "get_in (restart e) ''restart_job_execution_status'' = JStr ''COMPLETED''"
    "as_int (get_in (restart e) ''final_business_db_rows'') = Some rows"
    using c(5) by (auto simp: csv_restart_def Let_def rows split: if_splits)
  moreover have "py_eq (get_in (get_in (restart e) ''this_attempt_only'') ''committed_read'') (JInt (rows - k * n))"
    "py_eq (get_in (get_in (restart e) ''this_attempt_only'') ''committed_written'') (JInt (rows - k * n))"
    "py_eq (get_in (get_in (restart e) ''cumulative_after_restart'') ''commit_count'') (JInt (ceil_div rows n))"
    using c(6) by (auto simp: csv_attempt_def Let_def rows crash split: if_splits)
  ultimately show ?thesis
    using \<open>0 < n\<close> n rows k crash clean d ceil_div_bounds [OF \<open>0 < n\<close>, of rows] unfolding csv_facts_def by blast
qed

section \<open>A concrete evidence tree\<close>

definition toy_digest :: string where
  "toy_digest = replicate 64 (CHR ''a'')"

definition toy_record :: "string \<Rightarrow> int \<Rightarrow> int \<Rightarrow> obj \<Rightarrow> obj \<Rightarrow> json" where
  "toy_record scenario rows n extra tail = JObj
     ([(''scenario'', JStr scenario), (''artifact'', JObj [(''path'', JStr (''validation/'' @ scenario))]),
       (''input'', JObj [(''identity'', JObj [(''sha256'', JStr toy_digest), (''size_bytes'', JInt 100)]),
          (''reproduction'', JObj [(''rows'', JInt rows), (''seed'', JInt 1), (''id_offset'', JInt 0)])]),
       (''parameters'', JObj ([(''chunk_size'', JInt n), (''import_name'', JStr ''import'')] @ extra))] @ tail)"

definition toy_dataset :: "int \<Rightarrow> string \<times> json" where
  "toy_dataset rows = (''dataset'', JObj [(''rows'', JInt rows), (''seed'', JInt 1), (''id_offset'', JInt 0),
     (''sha256'', JStr toy_digest), (''file_size_bytes'', JInt 100)])"

definition toy_failure :: "int \<Rightarrow> json" where
  "toy_failure k = JObj [(''fail_at'', JStr (''chunk:'' @ show_int k)), (''failure_mode'', JStr ''abort''), (''hard_crash'', JBool True)]"

text \<open>A crash after \<open>k\<close> of the chunks of size \<open>n\<close> of an input of \<open>rows\<close> rows.\<close>

definition toy_csv :: "int \<Rightarrow> int \<Rightarrow> int \<Rightarrow> node" where
  "toy_csv rows n k = NDir [(''validation'', NDir
     [(''manifest'', NFile (json_file (JObj [(''records'', JArr
         [toy_record ''clean_run'' rows n [] [], toy_record ''crash_run'' rows n [] [(''failure_point'', toy_failure k)],
          toy_record ''restart_run'' rows n [(''recovery_of'', JStr ''crash_run'')] []])]))),
      (''clean_run'', NFile (json_file (JObj [(''scenario'', JStr ''clean_run''), toy_dataset rows, (''chunk_size'', JInt n),
         (''source_rows'', JInt rows), (''db_row_count'', JInt rows), (''chunks_committed'', JInt (ceil_div rows n)),
         (''job_execution_status'', JStr ''COMPLETED''), (''final_state_digest_sha256'', JStr toy_digest)]))),
      (''crash_run'', NFile (json_file (JObj [(''scenario'', JStr ''crash_run''), toy_dataset rows, (''chunk_size'', JInt n),
         (''failure_injection'', toy_failure k), (''process_exit_code'', JInt 134), (''import_name'', JStr ''import''),
         (''job_execution_status_after_crash'', JStr ''STARTED''), (''business_db_rows_after_crash'', JInt (k * n)),
         (''total_chunks'', JInt (ceil_div rows n)),
         (''expected_rows_from_'' @ show_int k @ ''_committed_chunks'', JInt (k * n))]))),
      (''restart_run'', NFile (json_file (JObj [(''scenario'', JStr ''restart_run''), (''import_name'', JStr ''import''),
         (''restart_job_execution_status'', JStr ''COMPLETED''), (''final_business_db_rows'', JInt rows),
         (''expected_final_rows'', JInt rows),
         (''this_attempt_only'', JObj [(''committed_read'', JInt (rows - k * n)), (''committed_written'', JInt (rows - k * n))]),
         (''cumulative_after_restart'', JObj [(''read_count'', JInt rows), (''commit_count'', JInt (ceil_div rows n))]),
         (''clean_run_full_content_digest_sha256'', JStr toy_digest),
         (''recovered_run_full_content_digest_sha256'', JStr toy_digest)])))])]"

definition toy_manifest_path :: "string list" where
  "toy_manifest_path = [''validation'', ''manifest'']"

lemma toy_csv_accepted: "isOK (check_verifier_result (csv_report (toy_csv 10 4 2) toy_manifest_path))"
  by code_simp

section \<open>Properties\<close>

text \<open>
  C27. Evidence of \<open>csv-postgres\<close> that passes its verifier, as \<open>validate-evidence.py\<close> runs it, shows an
  exact recovery: the crash left exactly the rows of the committed chunks, the restart read and
  wrote exactly the remaining ones, the chunk count is the rows over the chunk size rounded up, and
  the recovered content has the digest of the clean run.
\<close>

theorem csv_evidence_recovers:
  assumes "isOK (check_verifier_result (csv_report repo path))"
  shows "\<exists>manifest e rows n k. load_dict repo path = Some manifest \<and> csv_load repo path manifest = Inr e \<and>
    csv_facts e rows n k"
proof -
  have "csv_verify repo path = Inr []" using assms csv.accepted_iff by simp
  then show ?thesis using csv_verify_Nil csv_checks_facts by blast
qed

theorem csv_evidence_recovers_witness:
  "\<exists>manifest e rows n k. load_dict (toy_csv 10 4 2) toy_manifest_path = Some manifest \<and>
     csv_load (toy_csv 10 4 2) toy_manifest_path manifest = Inr e \<and> csv_facts e rows n k"
  by (rule csv_evidence_recovers [OF toy_csv_accepted])

text \<open>
  The verifier does not check that the failure point lies within the input: it accepts a crash
  after three chunks of five rows of an input of ten rows, with fifteen durable rows after the
  crash and a restart that read and wrote minus five rows, and it accepts an input of minus ten rows.
\<close>

theorem csv_overrun_accepted:
  "csv_verify (toy_csv 10 5 3) toy_manifest_path = Inr [] \<and> csv_verify (toy_csv (- 10) 5 1) toy_manifest_path = Inr []"
proof
  show "csv_verify (toy_csv 10 5 3) toy_manifest_path = Inr []" by code_simp
  show "csv_verify (toy_csv (- 10) 5 1) toy_manifest_path = Inr []" by code_simp
qed

end
