(* ===== verification/Pg_Evidence.thy ===== *)
theory Pg_Evidence
  imports Csv_Evidence
begin

text \<open>
  Model of \<open>postgres-postgres/validation/verify-retained-evidence.py\<close>: the relationships within and
  between the cursor and the paging run. \<open>math.ceil(a / b)\<close> goes through a double, as in the source;
  \<open>DivisionOverflow\<close> is the \<open>OverflowError\<close> of a quotient beyond the doubles.
\<close>

section \<open>Rounding up through a double\<close>

datatype pg_error = DivisionOverflow | UnhashableScenario | NoGetMethod

definition float_ceil_div :: "int \<Rightarrow> int \<Rightarrow> pg_error + int" where
  "float_ceil_div a b =
     (case to_double (of_int a / of_int b) of Fin q \<Rightarrow> Inr \<lceil>q\<rceil> | _ \<Rightarrow> Inl DivisionOverflow)"

lemma quotient_parts:
  assumes "0 < a" "0 < b" "quotient_of (of_int a / of_int b) = (p, d)"
  shows "0 < p \<and> p \<le> a \<and> 0 < d \<and> d \<le> b \<and> p * b = a * d"
proof -
  have d: "0 < d" "coprime p d" using quotient_of_denom_pos [OF assms(3)] quotient_of_coprime [OF assms(3)] by auto
  have "of_int a / of_int b = (of_int p / of_int d :: rat)" using quotient_of_div [OF assms(3)] .
  with d assms have "(of_int (p * b) :: rat) = of_int (a * d)" by (simp add: field_simps)
  then have eq: "p * b = a * d" by (simp only: of_int_eq_iff)
  then have "p dvd a * d" "d dvd p * b" by (metis dvd_triv_left, metis dvd_triv_right)
  with d(2) have "p dvd a" "d dvd b" by (simp_all add: coprime_dvd_mult_left_iff coprime_dvd_mult_right_iff coprime_commute)
  moreover have "0 < p" using eq assms d by (metis mult_pos_pos zero_less_mult_pos2)
  ultimately show ?thesis using d eq assms by (simp add: zdvd_imp_le)
qed

lemma float_ceil_div_small:
  assumes "0 < a" "a < 2 ^ 53" "0 < b" "b < 2 ^ 53"
  shows "float_ceil_div a b = Inr (ceil_div a b)"
proof -
  obtain p d where q: "quotient_of (of_int a / of_int b) = (p, d)" by fastforce
  note pd = quotient_parts [OF assms(1,3) q]
  with assms obtain m k where m: "round_positive p d = Fin (of_int m / 2 ^ k)" "m = round_div (p * 2 ^ k) d"
    "of_int d * \<bar>of_int m / 2 ^ k - of_int p / of_int d\<bar> \<le> (of_int p / 2 ^ 53 :: rat)"
    using round_positive_near [of p d] by auto
  define c where "c = ceil_div a b"
  have "(c - 1) * b * d < a * d" "a * d \<le> c * b * d"
    using ceil_div_bounds [OF assms(3), of a] pd by (simp_all add: c_def)
  then have "((c - 1) * d) * b < p * b" "p * b \<le> (c * d) * b" using pd by (simp_all add: ac_simps)
  then have c: "(c - 1) * d < p" "p \<le> c * d" using assms by simp_all
  have "\<lceil>of_int m / (2 ^ k :: rat)\<rceil> = c"
  proof (cases "p = c * d")
    case True
    then have "m = c * 2 ^ k" using m(2) pd round_div_exact [of d "c * 2 ^ k"] by (simp add: ac_simps)
    then show ?thesis by simp
  next
    case False
    let ?x = "of_int m / (2 ^ k :: rat)"
    have i: "(c - 1) * d + 1 \<le> p" "p + 1 \<le> c * d" using c False by simp_all
    have bounds: "(of_int ((c - 1) * d + 1) :: rat) \<le> of_int p" "(of_int (p + 1) :: rat) \<le> of_int (c * d)"
      using i by (simp_all only: of_int_le_iff)
    have small: "(of_int p / 2 ^ 53 :: rat) < 1"
    proof -
      have "p < 2 ^ 53" using pd assms by linarith
      then have "(of_int p :: rat) < of_int (2 ^ 53)" by (simp only: of_int_less_iff)
      then show ?thesis by simp
    qed
    have "of_int d * ?x - of_int p = of_int d * (?x - of_int p / of_int d)"
      using pd by (simp add: right_diff_distrib)
    then have "\<bar>of_int d * ?x - of_int p\<bar> = of_int d * \<bar>?x - of_int p / of_int d\<bar>"
      using pd by (simp only: abs_mult) simp
    then have "\<bar>of_int d * ?x - of_int p\<bar> < 1" using m(3) small by linarith
    with bounds have "of_int d * (of_int c - 1) < of_int d * ?x" "of_int d * ?x < of_int d * of_int c"
      by (simp_all add: algebra_simps abs_if split: if_splits)
    then have "of_int c - 1 < ?x" "?x < of_int c" using pd by (simp_all only: mult_less_cancel_left_pos of_int_0_less_iff)
    then show ?thesis by (intro ceiling_unique) simp_all
  qed
  then show ?thesis using q m(1) pd by (simp add: float_ceil_div_def to_double_def c_def)
qed

definition min_material_rows :: int where
  "min_material_rows = 50000"

definition postgres_max_bind_params :: int where
  "postgres_max_bind_params = 65535"

definition default_max_parameters :: int where
  "default_max_parameters = 2000"

definition writer_columns_per_row :: int where
  "writer_columns_per_row = 7"

definition is_sha256_hex :: "json \<Rightarrow> bool" where
  "is_sha256_hex v \<longleftrightarrow> (case as_str v of Some s \<Rightarrow> hex_string 64 s | None \<Rightarrow> False)"

definition positive_value :: "json \<Rightarrow> int option" where
  "positive_value v = (if positive_int v then as_int v else None)"

section \<open>The two runs\<close>

definition cursor_scenario :: string where
  "cursor_scenario = ''cursor_bounded_resource_run''"

definition paging_scenario :: string where
  "paging_scenario = ''paging_bounded_resource_run''"

record pg_runs =
  cursor_record :: json
  paging_record :: json
  cursor_run :: json
  paging_run :: json

definition json_has :: "json \<Rightarrow> string \<Rightarrow> bool" where
  "json_has v k \<longleftrightarrow> (case v of JObj d \<Rightarrow> has_key d k | _ \<Rightarrow> False)"

definition pg_input :: "pg_runs \<Rightarrow> string \<Rightarrow> json" where
  "pg_input e key = get_in (field (cursor_record e) [''input'', ''reproduction'']) key"

definition pg_identity :: "pg_runs \<Rightarrow> string list" where
  "pg_identity e =
     (let ci = field (cursor_record e) [''input'', ''identity'']; pi = field (paging_record e) [''input'', ''identity'']
      in checks
        [(get_in (cursor_run e) ''scenario'' = JStr cursor_scenario, ''cursor scenario''),
         (get_in (paging_run e) ''scenario'' = JStr paging_scenario, ''paging scenario''),
         (get_in (cursor_run e) ''reader_mode'' = JStr ''cursor'', ''cursor reader_mode''),
         (get_in (paging_run e) ''reader_mode'' = JStr ''paging'', ''paging reader_mode''),
         (json_has (cursor_run e) ''fetch_size'' \<and> \<not> json_has (cursor_run e) ''page_size'', ''cursor fetch_size only''),
         (json_has (paging_run e) ''page_size'' \<and> \<not> json_has (paging_run e) ''fetch_size'', ''paging page_size only''),
         (is_dict ci \<and> py_eq ci pi, ''input identity'')])"

definition pg_dataset :: "pg_runs \<Rightarrow> string list" where
  "pg_dataset e =
     (let cd = get_in (cursor_run e) ''dataset''; pd = get_in (paging_run e) ''dataset'' in
      if \<not> (is_dict cd \<and> is_dict pd) then [''datasets'']
      else
        concat (map (\<lambda>(key, expected). checks
          [(py_eq (get_in cd key) expected, ''cursor dataset.'' @ key), (py_eq (get_in pd key) expected, ''paging dataset.'' @ key)])
          [(''rows'', pg_input e ''rows''), (''seed'', pg_input e ''seed''), (''id_offset'', pg_input e ''id_offset''),
           (''source_digest_sha256'', get_in (field (cursor_record e) [''input'', ''identity'']) ''sha256'')]) @
        checks [(py_eq (get_in cd ''source_digest_sha256'') (get_in pd ''source_digest_sha256''), ''source digests'')])"

definition pg_rows :: "pg_runs \<Rightarrow> int option" where
  "pg_rows e = as_int (pg_input e ''rows'')"

definition pg_chunk_size :: "pg_runs \<Rightarrow> int option" where
  "pg_chunk_size e = positive_value (field (cursor_record e) [''parameters'', ''chunk_size''])"

text \<open>A size of the manifest that must be positive and equal to the one of the artifact.\<close>

definition size_check :: "json \<Rightarrow> json \<Rightarrow> string \<Rightarrow> string list" where
  "size_check expected actual name =
     (case positive_value expected of
        None \<Rightarrow> [''manifest '' @ name]
      | Some n \<Rightarrow> checks [(py_eq actual (JInt n), ''artifact '' @ name)])"

definition pg_import :: "string \<Rightarrow> json \<Rightarrow> json \<Rightarrow> string list" where
  "pg_import name artifact rec =
     (case as_str (field rec [''parameters'', ''import_name'']) of
        None \<Rightarrow> [name @ '' manifest import_name'']
      | Some s \<Rightarrow>
          if s = [] then [name @ '' manifest import_name'']
          else checks [(get_in artifact ''import_name'' = JStr s, name @ '' artifact import_name'')])"

definition pg_sizes :: "pg_runs \<Rightarrow> string list" where
  "pg_sizes e =
     checks [((case pg_rows e of Some rows \<Rightarrow> min_material_rows \<le> rows | None \<Rightarrow> False), ''dataset rows'')] @
     (case pg_chunk_size e of
        None \<Rightarrow> [''cursor chunk_size'']
      | Some n \<Rightarrow> checks
          [(py_eq (field (paging_record e) [''parameters'', ''chunk_size'']) (JInt n), ''paging chunk_size''),
           (py_eq (get_in (cursor_run e) ''chunk_size'') (JInt n), ''cursor artifact chunk_size''),
           (py_eq (get_in (paging_run e) ''chunk_size'') (JInt n), ''paging artifact chunk_size'')]) @
     size_check (field (cursor_record e) [''parameters'', ''fetch_size'']) (get_in (cursor_run e) ''fetch_size'') ''fetch_size'' @
     size_check (field (paging_record e) [''parameters'', ''page_size'']) (get_in (paging_run e) ''page_size'') ''page_size'' @
     pg_import cursor_scenario (cursor_run e) (cursor_record e) @ pg_import paging_scenario (paging_run e) (paging_record e)"

section \<open>One run\<close>

definition row_counts_match :: "json \<Rightarrow> bool" where
  "row_counts_match v \<longleftrightarrow>
     (case as_int (get_in v ''source_rows'') of Some n \<Rightarrow> py_eq (JInt n) (get_in v ''destination_rows'') | None \<Rightarrow> False)"

definition digests_match :: "json \<Rightarrow> bool" where
  "digests_match v \<longleftrightarrow>
     is_sha256_hex (get_in v ''expected_digest_sha256'') \<and> is_sha256_hex (get_in v ''actual_digest_sha256'') \<and>
     get_in v ''expected_digest_sha256'' = get_in v ''actual_digest_sha256''"

definition run_checks :: "int option \<Rightarrow> int option \<Rightarrow> json \<Rightarrow> pg_error + (bool \<times> string) list" where
  "run_checks rows chunk run =
     ebind (case (rows, chunk) of
              (Some r, Some n) \<Rightarrow>
                ebind (float_ceil_div r n) (\<lambda>k. Inr [(py_eq (get_in run ''chunks_committed'') (JInt k), ''run.chunks_committed'')])
            | _ \<Rightarrow> Inr []) (\<lambda>chunks.
       Inr ([(get_in run ''job_execution_status'' = JStr ''COMPLETED'', ''run.job_execution_status''),
             (\<not> (\<exists>r \<in> set_option rows. \<not> py_eq (get_in run ''committed_read'') (JInt r) \<or>
                   \<not> py_eq (get_in run ''committed_written'') (JInt r)), ''run.committed'')] @ chunks))"

definition verify_checks :: "int option \<Rightarrow> json \<Rightarrow> (bool \<times> string) list" where
  "verify_checks rows v =
     [(py_eq (get_in v ''row_counts_match'') (JBool (row_counts_match v)), ''verify.row_counts_match''),
      (row_counts_match v, ''verify.source_rows and destination_rows''),
      (\<not> (\<exists>r \<in> set_option rows. \<not> py_eq (get_in v ''source_rows'') (JInt r)), ''verify.source_rows''),
      ((case as_int (get_in v ''total_mismatches'') of Some n \<Rightarrow> n = 0 | None \<Rightarrow> False), ''verify.total_mismatches''),
      (get_in v ''mismatches_truncated'' = JBool False, ''verify.mismatches_truncated''),
      (is_sha256_hex (get_in v ''expected_digest_sha256''), ''verify.expected_digest_sha256''),
      (is_sha256_hex (get_in v ''actual_digest_sha256''), ''verify.actual_digest_sha256''),
      (py_eq (get_in v ''digests_match'') (JBool (digests_match v)), ''verify.digests_match''),
      (digests_match v, ''verify digests equal''),
      (get_in v ''digests_match'' = JBool True, ''verify.digests_match true''),
      (py_eq (get_in v ''process_exit_code'') (JInt 0), ''verify.process_exit_code''),
      (py_eq (get_in v ''process_exit_code'') (JInt 0) \<longrightarrow>
         row_counts_match v \<and> py_eq (get_in v ''total_mismatches'') (JInt 0) \<and> digests_match v, ''verify recomputed'')]"

definition positive_check :: "json \<Rightarrow> string \<Rightarrow> (int \<Rightarrow> (bool \<times> string) list) \<Rightarrow> (bool \<times> string) list" where
  "positive_check v name f = (case positive_value v of None \<Rightarrow> [(False, name)] | Some n \<Rightarrow> f n)"

definition when_both :: "int option \<Rightarrow> int option \<Rightarrow> (int \<Rightarrow> int \<Rightarrow> (bool \<times> string) list) \<Rightarrow> (bool \<times> string) list" where
  "when_both a b f = (case (a, b) of (Some x, Some z) \<Rightarrow> f x z | _ \<Rightarrow> [])"

definition writer_checks :: "int option \<Rightarrow> json \<Rightarrow> pg_error + (bool \<times> string) list" where
  "writer_checks chunk w =
     (let cols = positive_value (get_in w ''columns_per_row''); params = positive_value (get_in w ''max_parameters_per_statement'');
          rps = positive_value (get_in w ''rows_per_statement'') in
      if \<not> is_dict w then Inr [(False, ''writer_config'')]
      else
        ebind (case (positive_value (get_in w ''max_sub_batches_per_chunk''), chunk, rps) of
                 (None, _) \<Rightarrow> Inr [(False, ''max_sub_batches_per_chunk positive'')]
               | (Some s, Some n, Some r) \<Rightarrow>
                   ebind (float_ceil_div n r) (\<lambda>k. Inr [(s = k, ''max_sub_batches_per_chunk'')])
               | _ \<Rightarrow> Inr []) (\<lambda>sub_batches.
          Inr ([(get_in w ''mode'' = JStr ''PostgresBatchMode::MultiRowValues'', ''writer mode'')] @
            positive_check (get_in w ''columns_per_row'') ''columns_per_row positive''
              (\<lambda>c. [(c = writer_columns_per_row, ''columns_per_row'')]) @
            positive_check (get_in w ''max_parameters_per_statement'') ''max_parameters positive''
              (\<lambda>m. [(m = default_max_parameters, ''max_parameters''),
                    (m \<le> postgres_max_bind_params, ''max_parameters limit'')]) @
            positive_check (get_in w ''rows_per_statement'') ''rows_per_statement positive''
              (\<lambda>r. when_both cols params (\<lambda>c m. [(r = max (m div c) 1, ''rows_per_statement'')])) @
            positive_check (get_in w ''max_bound_params_per_statement'') ''max_bound_params positive''
              (\<lambda>b. when_both cols rps (\<lambda>c r. [(b = r * c, ''max_bound_params''),
                    (b \<le> postgres_max_bind_params, ''max_bound_params limit'')])) @
            sub_batches @
            when_both params cols (\<lambda>m c. [(c \<le> m, ''max_parameters at least columns'')]))))"

definition peak_checks :: "json \<Rightarrow> (bool \<times> string) list" where
  "peak_checks artifact =
     map (\<lambda>phase. (positive_int (field artifact [phase, ''peak_rss_kib'']), phase @ ''.peak_rss_kib'')) [''run'', ''verify'']"

definition pg_scenario :: "pg_runs \<Rightarrow> string \<times> json \<Rightarrow> pg_error + string list" where
  "pg_scenario e s =
     (case s of (name, artifact) \<Rightarrow>
        let run = get_in artifact ''run''; v = get_in artifact ''verify'' in
        if \<not> (is_dict run \<and> is_dict v) then Inr [name @ '' run and verify objects'']
        else
          ebind (run_checks (pg_rows e) (pg_chunk_size e) run) (\<lambda>rs.
          ebind (writer_checks (pg_chunk_size e) (get_in artifact ''writer_config'')) (\<lambda>ws.
            Inr (map (\<lambda>m. name @ '' '' @ m) (checks (rs @ verify_checks (pg_rows e) v @ ws @ peak_checks artifact))))))"

definition pg_checks :: "pg_runs \<Rightarrow> pg_error + string list" where
  "pg_checks e =
     ebind (emap (pg_scenario e) [(cursor_scenario, cursor_run e), (paging_scenario, paging_run e)]) (\<lambda>vss.
       Inr (pg_identity e @ pg_dataset e @ pg_sizes e @ concat vss))"

definition pg_load :: "node \<Rightarrow> string list \<Rightarrow> obj \<Rightarrow> string list + pg_runs" where
  "pg_load repo dir manifest =
     ebind (want_arr (dget manifest ''records'') [''manifest records'']) (\<lambda>records.
     let by_scenario = record_by_scenario records; loads = map (load_artifact repo dir) by_scenario in
     ebind (eguard (set (map fst by_scenario) = {cursor_scenario, paging_scenario}) [''scenarios'']) (\<lambda>_.
     ebind (eguard (lefts loads = []) (lefts loads)) (\<lambda>_.
       let rec = (\<lambda>s. the (map_of by_scenario s)); art = (\<lambda>s. JObj (the (map_of (rights loads) s))) in
       Inr \<lparr>cursor_record = rec cursor_scenario, paging_record = rec paging_scenario,
         cursor_run = art cursor_scenario, paging_run = art paging_scenario\<rparr>)))"

text \<open>\<open>verify\<close> on a manifest that was read, with the workload's directory.\<close>

definition pg_verify_manifest :: "node \<Rightarrow> string list \<Rightarrow> obj \<Rightarrow> pg_error + string list" where
  "pg_verify_manifest repo dir manifest =
     (case pg_load repo dir manifest of Inl vs \<Rightarrow> Inr vs | Inr e \<Rightarrow> pg_checks e)"

definition pg_verify :: "node \<Rightarrow> string list \<Rightarrow> pg_error + string list" where
  "pg_verify repo path =
     (case load_dict repo path of
        None \<Rightarrow> Inr [''cannot read manifest'']
      | Some manifest \<Rightarrow> pg_verify_manifest repo (workload_dir path) manifest)"

text \<open>An uncaught exception leaves no output.\<close>

definition pg_report :: "node \<Rightarrow> string list \<Rightarrow> int \<times> json option" where
  "pg_report repo path =
     (case pg_verify repo path of Inl _ \<Rightarrow> (1, None) | Inr vs \<Rightarrow> violations_report vs)"

section \<open>The contract\<close>

lemma size_check_named [simp]: "name \<noteq> [] \<Longrightarrow> [] \<notin> set (size_check expected actual name)"
  by (simp add: size_check_def split: option.split)

lemma pg_import_named [simp]: "[] \<notin> set (pg_import name artifact rec)"
  by (simp add: pg_import_def split: option.split)

lemma pg_sizes_named: "[] \<notin> set (pg_sizes e)"
  by (simp add: pg_sizes_def split: option.split)

lemma pg_dataset_named: "[] \<notin> set (pg_dataset e)"
  by (auto simp: pg_dataset_def Let_def)

lemma pg_identity_named: "[] \<notin> set (pg_identity e)"
  by (simp add: pg_identity_def Let_def cursor_scenario_def paging_scenario_def)

lemma pg_scenario_named: "pg_scenario e s = Inr vs \<Longrightarrow> [] \<notin> set vs"
  by (auto simp: pg_scenario_def Let_def ebind_Inr_iff split: prod.splits if_splits)

lemma pg_checks_named: "pg_checks e = Inr vs \<Longrightarrow> [] \<notin> set vs"
  using pg_identity_named pg_dataset_named pg_sizes_named pg_scenario_named
  by (auto simp: pg_checks_def ebind_Inr_iff)

lemma pg_load_Inl: "pg_load repo dir manifest = Inl vs \<Longrightarrow> vs \<noteq> [] \<and> [] \<notin> set vs"
  unfolding pg_load_def Let_def ebind_Inl_iff want_arr_def want_some_def
  by (auto simp del: in_lefts split: option.splits)

lemma pg_verify_manifest_named: "pg_verify_manifest repo dir manifest = Inr vs \<Longrightarrow> [] \<notin> set vs"
  using pg_checks_named pg_load_Inl by (auto simp: pg_verify_manifest_def split: sum.splits)

lemma violations_report_reported:
  "\<exists>r. violations_report vs = (if vs = [] then 0 else 1, Some (JObj r)) \<and>
     dget r ''schema_version'' = JInt 1 \<and> dget r ''violations'' = JArr (map JStr vs)"
  by (simp add: violations_report_def)

lemma no_output_rejected [simp]: "\<not> isOK (check_verifier_result (code, None))"
  by (simp add: check_verifier_result_def)

interpretation pg: violations_verifier pg_verify pg_report
proof
  fix repo path vs
  assume v: "pg_verify repo path = Inr vs"
  then show "\<exists>r. pg_report repo path = (if vs = [] then 0 else 1, Some (JObj r)) \<and>
      dget r ''schema_version'' = JInt 1 \<and> dget r ''violations'' = JArr (map JStr vs)"
    using violations_report_reported by (simp add: pg_report_def)
  show "[] \<notin> set vs"
    using v pg_verify_manifest_named by (auto simp: pg_verify_def split: option.splits)
next
  fix repo path e
  assume "pg_verify repo path = Inl e"
  then show "\<not> isOK (check_verifier_result (pg_report repo path))" by (simp add: pg_report_def)
qed

section \<open>What accepted evidence shows\<close>

definition writer_bounds :: "int \<Rightarrow> json \<Rightarrow> bool" where
  "writer_bounds n w \<longleftrightarrow>
     get_in w ''mode'' = JStr ''PostgresBatchMode::MultiRowValues'' \<and>
     (\<exists>cols params rps bound batches.
        as_int (get_in w ''columns_per_row'') = Some cols \<and> cols = 7 \<and>
        as_int (get_in w ''max_parameters_per_statement'') = Some params \<and> params = 2000 \<and>
        as_int (get_in w ''rows_per_statement'') = Some rps \<and> rps = 285 \<and>
        as_int (get_in w ''max_bound_params_per_statement'') = Some bound \<and> bound = rps * cols \<and> bound \<le> params \<and>
        params \<le> postgres_max_bind_params \<and>
        as_int (get_in w ''max_sub_batches_per_chunk'') = Some batches \<and> 0 < batches \<and>
        float_ceil_div n rps = Inr batches)"

definition exact_counts :: "int \<Rightarrow> int \<Rightarrow> json \<Rightarrow> bool" where
  "exact_counts rows n artifact \<longleftrightarrow>
     get_in (get_in artifact ''run'') ''job_execution_status'' = JStr ''COMPLETED'' \<and>
     py_eq (get_in (get_in artifact ''run'') ''committed_read'') (JInt rows) \<and>
     py_eq (get_in (get_in artifact ''run'') ''committed_written'') (JInt rows) \<and>
     (\<exists>k. float_ceil_div rows n = Inr k \<and> py_eq (get_in (get_in artifact ''run'') ''chunks_committed'') (JInt k)) \<and>
     as_int (get_in (get_in artifact ''verify'') ''source_rows'') = Some rows \<and>
     py_eq (get_in (get_in artifact ''verify'') ''destination_rows'') (JInt rows) \<and>
     as_int (get_in (get_in artifact ''verify'') ''total_mismatches'') = Some 0 \<and>
     (\<exists>digest. hex_string 64 digest \<and> get_in (get_in artifact ''verify'') ''expected_digest_sha256'' = JStr digest \<and>
        get_in (get_in artifact ''verify'') ''actual_digest_sha256'' = JStr digest)"

lemma positive_value_iff: "positive_value v = Some n \<longleftrightarrow> v = JInt n \<and> 0 < n"
  by (auto simp: positive_value_def positive_int_iff)

lemma positive_check_iff: "list_all fst (positive_check v name f) \<longleftrightarrow> (\<exists>n. v = JInt n \<and> 0 < n \<and> list_all fst (f n))"
  by (cases "positive_value v") (auto simp: positive_check_def positive_value_iff, auto simp: positive_value_def positive_int_iff)

lemma writer_checks_bounds:
  assumes "writer_checks (Some n) w = Inr ws" "list_all fst ws"
  shows "writer_bounds n w"
proof -
  let ?positive = "\<lambda>key. positive_value (get_in w key)"
  have ws: "get_in w ''mode'' = JStr ''PostgresBatchMode::MultiRowValues''"
    "list_all fst (positive_check (get_in w ''columns_per_row'') ''columns_per_row positive''
       (\<lambda>c. [(c = writer_columns_per_row, ''columns_per_row'')]))"
    "list_all fst (positive_check (get_in w ''max_parameters_per_statement'') ''max_parameters positive''
       (\<lambda>m. [(m = default_max_parameters, ''max_parameters''), (m \<le> postgres_max_bind_params, ''max_parameters limit'')]))"
    "list_all fst (positive_check (get_in w ''rows_per_statement'') ''rows_per_statement positive''
       (\<lambda>r. when_both (?positive ''columns_per_row'') (?positive ''max_parameters_per_statement'')
          (\<lambda>c m. [(r = max (m div c) 1, ''rows_per_statement'')])))"
    "list_all fst (positive_check (get_in w ''max_bound_params_per_statement'') ''max_bound_params positive''
       (\<lambda>b. when_both (?positive ''columns_per_row'') (?positive ''rows_per_statement'') (\<lambda>c r. [(b = r * c, ''max_bound_params''),
          (b \<le> postgres_max_bind_params, ''max_bound_params limit'')])))"
    using assms by (auto simp: writer_checks_def Let_def ebind_Inr_iff split: if_splits)
  have cols: "get_in w ''columns_per_row'' = JInt 7" "?positive ''columns_per_row'' = Some 7"
    using ws(2) by (auto simp: positive_check_iff positive_value_iff writer_columns_per_row_def)
  have params: "get_in w ''max_parameters_per_statement'' = JInt 2000" "?positive ''max_parameters_per_statement'' = Some 2000"
    using ws(3) by (auto simp: positive_check_iff positive_value_iff default_max_parameters_def)
  have rps: "get_in w ''rows_per_statement'' = JInt 285" "?positive ''rows_per_statement'' = Some 285"
    using ws(4) by (auto simp: positive_check_iff positive_value_iff cols(2) params(2) when_both_def)
  have bound: "get_in w ''max_bound_params_per_statement'' = JInt 1995"
    using ws(5) by (auto simp: positive_check_iff cols(2) rps(2) when_both_def)
  obtain s where "?positive ''max_sub_batches_per_chunk'' = Some s" "float_ceil_div n 285 = Inr s"
    using assms by (auto simp: writer_checks_def Let_def ebind_Inr_iff rps(2) split: if_splits option.splits)
  then show ?thesis
    by (auto simp: writer_bounds_def ws(1) cols(1) params(1) rps(1) bound positive_value_iff postgres_max_bind_params_def)
qed

lemma row_counts_match_iff:
  "row_counts_match v \<longleftrightarrow> (\<exists>n. get_in v ''source_rows'' = JInt n \<and> py_eq (JInt n) (get_in v ''destination_rows''))"
  by (cases "get_in v ''source_rows''") (auto simp: row_counts_match_def)

lemma is_sha256_hex_iff: "is_sha256_hex v \<longleftrightarrow> (\<exists>s. v = JStr s \<and> hex_string 64 s)"
  by (cases v) (auto simp: is_sha256_hex_def)

lemma scenario_counts:
  assumes "pg_scenario e (name, artifact) = Inr []" "pg_rows e = Some rows" "pg_chunk_size e = Some n"
  shows "exact_counts rows n artifact \<and> writer_bounds n (get_in artifact ''writer_config'')"
proof -
  let ?run = "get_in artifact ''run''" and ?v = "get_in artifact ''verify''"
  obtain rs ws where r: "run_checks (Some rows) (Some n) ?run = Inr rs" "list_all fst rs"
    and v: "list_all fst (verify_checks (Some rows) ?v)"
    and w: "writer_checks (Some n) (get_in artifact ''writer_config'') = Inr ws" "list_all fst ws"
    using assms by (auto simp: pg_scenario_def Let_def ebind_Inr_iff split: if_splits)
  have "get_in ?run ''job_execution_status'' = JStr ''COMPLETED''" "py_eq (get_in ?run ''committed_read'') (JInt rows)"
    "py_eq (get_in ?run ''committed_written'') (JInt rows)"
    "\<exists>k. float_ceil_div rows n = Inr k \<and> py_eq (get_in ?run ''chunks_committed'') (JInt k)"
    using r by (auto simp: run_checks_def ebind_Inr_iff)
  moreover obtain m where m: "get_in ?v ''source_rows'' = JInt m" "py_eq (JInt m) (get_in ?v ''destination_rows'')"
    using v by (auto simp: verify_checks_def row_counts_match_iff)
  moreover have "m = rows" using v m(1) by (simp add: verify_checks_def num_eq.simps)
  moreover have "py_eq (get_in ?v ''destination_rows'') (JInt m)"
    using m(2) by (cases "get_in ?v ''destination_rows''") (auto simp: num_eq.simps elim: float_eq.elims)
  moreover have "as_int (get_in ?v ''total_mismatches'') = Some 0"
    using v by (auto simp: verify_checks_def split: option.splits)
  moreover have "digests_match ?v" using v by (simp add: verify_checks_def)
  ultimately show ?thesis
    using writer_checks_bounds [OF w] by (auto simp: exact_counts_def digests_match_def is_sha256_hex_iff)
qed

definition pg_facts :: "pg_runs \<Rightarrow> int \<Rightarrow> int \<Rightarrow> bool" where
  "pg_facts e rows n \<longleftrightarrow>
     pg_rows e = Some rows \<and> min_material_rows \<le> rows \<and> pg_chunk_size e = Some n \<and> 0 < n \<and>
     get_in (cursor_run e) ''reader_mode'' = JStr ''cursor'' \<and> get_in (paging_run e) ''reader_mode'' = JStr ''paging'' \<and>
     (\<forall>artifact \<in> {cursor_run e, paging_run e}.
        exact_counts rows n artifact \<and> writer_bounds n (get_in artifact ''writer_config''))"

lemma pg_checks_facts:
  assumes "pg_checks e = Inr []"
  shows "\<exists>rows n. pg_facts e rows n"
proof -
  have c: "pg_identity e = []" "pg_sizes e = []" "pg_scenario e (cursor_scenario, cursor_run e) = Inr []"
    "pg_scenario e (paging_scenario, paging_run e) = Inr []"
    using assms by (auto simp: pg_checks_def ebind_Inr_iff)
  obtain rows where rows: "pg_rows e = Some rows" "min_material_rows \<le> rows"
    using c(2) by (auto simp: pg_sizes_def split: option.splits)
  obtain n where n: "pg_chunk_size e = Some n"
    using c(2) by (auto simp: pg_sizes_def split: option.splits)
  then have "0 < n" by (auto simp: pg_chunk_size_def positive_value_iff)
  moreover have "get_in (cursor_run e) ''reader_mode'' = JStr ''cursor''" "get_in (paging_run e) ''reader_mode'' = JStr ''paging''"
    using c(1) by (simp_all add: pg_identity_def Let_def)
  ultimately show ?thesis
    using scenario_counts [OF c(3) rows(1) n] scenario_counts [OF c(4) rows(1) n] rows n
    by (auto simp: pg_facts_def)
qed

lemma pg_verify_Nil:
  "pg_verify_manifest repo dir manifest = Inr [] \<longleftrightarrow> (\<exists>e. pg_load repo dir manifest = Inr e \<and> pg_checks e = Inr [])"
  using pg_load_Inl by (auto simp: pg_verify_manifest_def split: sum.splits)

text \<open>Below \<open>2\<^sup>5\<^sup>3\<close> the double is wide enough: the committed chunks cover the rows, and the last one is not empty.\<close>

definition chunks_cover :: "int \<Rightarrow> int \<Rightarrow> json \<Rightarrow> bool" where
  "chunks_cover rows n artifact \<longleftrightarrow>
     (rows < 2 ^ 53 \<and> n < 2 ^ 53 \<longrightarrow>
       (\<exists>k. py_eq (get_in (get_in artifact ''run'') ''chunks_committed'') (JInt k) \<and> (k - 1) * n < rows \<and> rows \<le> k * n))"

lemma facts_cover: "pg_facts e rows n \<Longrightarrow> chunks_cover rows n (cursor_run e) \<and> chunks_cover rows n (paging_run e)"
  using float_ceil_div_small [of rows n] ceil_div_bounds [of n rows]
  by (auto simp: pg_facts_def chunks_cover_def exact_counts_def min_material_rows_def)

section \<open>A concrete evidence tree\<close>

definition toy_pg_record :: "string \<Rightarrow> int \<Rightarrow> int \<Rightarrow> obj \<Rightarrow> json" where
  "toy_pg_record scenario rows n mode = JObj
     [(''scenario'', JStr scenario), (''artifact'', JObj [(''path'', JStr (''v/'' @ take 1 scenario))]),
      (''input'', JObj [(''identity'', JObj [(''sha256'', JStr toy_digest)]),
         (''reproduction'', JObj [(''rows'', JInt rows), (''seed'', JInt 1), (''id_offset'', JInt 0)])]),
      (''parameters'', JObj ([(''chunk_size'', JInt n), (''import_name'', JStr ''i'')] @ mode))]"

definition toy_pg_run :: "string \<Rightarrow> int \<Rightarrow> int \<Rightarrow> obj \<Rightarrow> string \<Rightarrow> json" where
  "toy_pg_run scenario rows n mode reader = JObj
     ([(''scenario'', JStr scenario), (''reader_mode'', JStr reader), (''chunk_size'', JInt n), (''import_name'', JStr ''i''),
       (''dataset'', JObj [(''rows'', JInt rows), (''seed'', JInt 1), (''id_offset'', JInt 0), (''source_digest_sha256'', JStr toy_digest)]),
       (''run'', JObj [(''job_execution_status'', JStr ''COMPLETED''), (''committed_read'', JInt rows), (''committed_written'', JInt rows),
          (''chunks_committed'', JInt (ceil_div rows n)), (''peak_rss_kib'', JInt 1)]),
       (''verify'', JObj [(''source_rows'', JInt rows), (''destination_rows'', JInt rows), (''row_counts_match'', JBool True),
          (''total_mismatches'', JInt 0), (''mismatches_truncated'', JBool False), (''expected_digest_sha256'', JStr toy_digest),
          (''actual_digest_sha256'', JStr toy_digest), (''digests_match'', JBool True), (''process_exit_code'', JInt 0),
          (''peak_rss_kib'', JInt 1)]),
       (''writer_config'', JObj [(''mode'', JStr ''PostgresBatchMode::MultiRowValues''), (''columns_per_row'', JInt 7),
          (''max_parameters_per_statement'', JInt 2000), (''rows_per_statement'', JInt 285),
          (''max_bound_params_per_statement'', JInt 1995), (''max_sub_batches_per_chunk'', JInt (ceil_div n 285))])] @ mode)"

definition toy_pg :: "int \<Rightarrow> int \<Rightarrow> node" where
  "toy_pg rows n = NDir [(''v'', NDir
     [(''m'', NFile (json_file (JObj [(''records'', JArr
         [toy_pg_record cursor_scenario rows n [(''fetch_size'', JInt 5)],
          toy_pg_record paging_scenario rows n [(''page_size'', JInt 5)]])]))),
      (''c'', NFile (json_file (toy_pg_run cursor_scenario rows n [(''fetch_size'', JInt 5)] ''cursor''))),
      (''p'', NFile (json_file (toy_pg_run paging_scenario rows n [(''page_size'', JInt 5)] ''paging'')))])]"

lemma toy_pg_accepted: "isOK (check_verifier_result (pg_report (toy_pg 50001 1000) [''v'', ''m'']))"
  by code_simp

section \<open>Properties\<close>

text \<open>
  C28. Evidence of \<open>postgres-postgres\<close> that passes its verifier stays within its bounds: at least 50000
  rows, every one of them read, written and found at the destination by both readers with equal
  content digests; a writer whose statements bind at most 1995 parameters, below PostgreSQL's 65535;
  and, below \<open>2\<^sup>5\<^sup>3\<close>, where the division through a double is exact, a number of chunks that is the rows
  over the chunk size rounded up.
\<close>

theorem pg_evidence_bounds:
  assumes "isOK (check_verifier_result (pg_report repo path))"
  shows "\<exists>manifest e rows n. load_dict repo path = Some manifest \<and>
    pg_load repo (workload_dir path) manifest = Inr e \<and> pg_facts e rows n \<and>
    chunks_cover rows n (cursor_run e) \<and> chunks_cover rows n (paging_run e)"
proof -
  have "pg_verify repo path = Inr []" using assms pg.accepted_iff by simp
  then obtain manifest e rows n where "load_dict repo path = Some manifest" "pg_load repo (workload_dir path) manifest = Inr e"
    "pg_facts e rows n"
    using pg_checks_facts by (fastforce simp: pg_verify_def pg_verify_Nil split: option.splits)
  then show ?thesis using facts_cover by blast
qed

theorem pg_evidence_bounds_witness:
  "\<exists>manifest e rows n. load_dict (toy_pg 50001 1000) [''v'', ''m''] = Some manifest \<and>
    pg_load (toy_pg 50001 1000) (workload_dir [''v'', ''m'']) manifest = Inr e \<and> pg_facts e rows n \<and>
    chunks_cover rows n (cursor_run e) \<and> chunks_cover rows n (paging_run e)"
  by (rule pg_evidence_bounds [OF toy_pg_accepted])

text \<open>
  \<open>math.ceil(a / b)\<close> through a double is the exact quotient rounded up for positive integers below
  \<open>2\<^sup>5\<^sup>3\<close>, whatever the rounding of the quotient, and no longer for \<open>2\<^sup>5\<^sup>3 + 1\<close> rows in chunks of one.
\<close>

theorem float_ceil_div_exact:
  "(0 < a \<and> a < 2 ^ 53 \<and> 0 < b \<and> b < 2 ^ 53 \<longrightarrow> float_ceil_div a b = Inr (ceil_div a b)) \<and>
   float_ceil_div (2 ^ 53 + 1) 1 = Inr (2 ^ 53)"
proof
  show "0 < a \<and> a < 2 ^ 53 \<and> 0 < b \<and> b < 2 ^ 53 \<longrightarrow> float_ceil_div a b = Inr (ceil_div a b)"
    using float_ceil_div_small by blast
  show "float_ceil_div (2 ^ 53 + 1) 1 = Inr (2 ^ 53)" by code_simp
qed

theorem float_ceil_div_exact_witness: "float_ceil_div 50001 1000 = Inr 51"
proof -
  have "ceil_div 50001 1000 = 51" by (simp add: ceil_div_def)
  then show ?thesis using float_ceil_div_exact [of 50001 1000] by simp
qed

end
