(* ===== verification/Track_F.thy ===== *)
theory Track_F
  imports Pg_Evidence
begin

text \<open>
  Model of \<open>postgres-postgres/validation/verify-track-f-retained-evidence.py\<close>: the two bounded-resource
  records go to the pinned canonical verifier, whose SHA-256 is checked first, and three records of
  process observations are checked for the identities and primitive values the campaign binds.
  The pinned digest is the one of the file that \<open>Pg_Evidence\<close> models, so running the loaded module
  is \<open>pg_verify_manifest\<close>; the temporary manifest between the two is left out, as JSON survives being
  written and read back. \<open>sha256\<close> stands for SHA-256. The set of the three scenarios has no fixed
  order in Python; its order here is the one of the source.
\<close>

section \<open>The bound identities\<close>

definition campaign_issue :: int where
  "campaign_issue = 98"

definition producer_sha :: string where
  "producer_sha = ''3df532e66cc28a1ed350901f06cf80b9de6c92f5''"

definition producer_run_id :: int where
  "producer_run_id = 34394363154"

definition upstream_gap :: string where
  "upstream_gap = ''luceat-lux-vestra/oxide-batch#269''"

definition legacy_verifier :: string where
  "legacy_verifier = ''verify-retained-evidence.py''"

definition legacy_verifier_sha256 :: string where
  "legacy_verifier_sha256 = ''810131c062905a20d806b3038278881d508477e0b47c1ee7d3408c1c600afcd0''"

definition track_interop :: string where
  "track_interop = ''track_f_process_interop''"

definition track_closure :: string where
  "track_closure = ''track_f_process_interop_closure''"

definition track_identity :: string where
  "track_identity = ''track_f_process_identity''"

definition legacy_scenarios :: "string list" where
  "legacy_scenarios = [cursor_scenario, paging_scenario]"

definition track_scenarios :: "string list" where
  "track_scenarios = [track_interop, track_closure, track_identity]"

section \<open>Reading a primitive\<close>

text \<open>\<open>value.get(key) or {}\<close>, of which \<open>get\<close> is called: a truthy value that is no dict has no such method.\<close>

definition opt_dict :: "obj \<Rightarrow> string \<Rightarrow> pg_error + obj" where
  "opt_dict value key =
     (let v = dget value key
      in if truthy v then (case as_obj v of Some d \<Rightarrow> Inr d | None \<Rightarrow> Inl NoGetMethod) else Inr [])"

definition num_is :: "obj \<Rightarrow> string \<Rightarrow> int \<Rightarrow> bool" where
  "num_is d key n \<longleftrightarrow> py_eq (dget d key) (JInt n)"

definition str_is :: "obj \<Rightarrow> string \<Rightarrow> string \<Rightarrow> bool" where
  "str_is d key s \<longleftrightarrow> dget d key = JStr s"

definition flag_is :: "obj \<Rightarrow> string \<Rightarrow> bool \<Rightarrow> bool" where
  "flag_is d key b \<longleftrightarrow> dget d key = JBool b"

definition pid_in :: "obj \<Rightarrow> string \<Rightarrow> bool" where
  "pid_in d key \<longleftrightarrow> positive_int (dget d key)"

definition classified :: "obj \<Rightarrow> string \<Rightarrow> string \<Rightarrow> bool" where
  "classified d key text \<longleftrightarrow> (case as_str (dget d key) of Some s \<Rightarrow> startswith s text | None \<Rightarrow> False)"

text \<open>\<open>isinstance(v, int) and v != 0\<close>, for which a boolean is an integer.\<close>

definition nonzero_code :: "json \<Rightarrow> bool" where
  "nonzero_code v \<longleftrightarrow> (case v of JInt n \<Rightarrow> n \<noteq> 0 | JBool b \<Rightarrow> b | _ \<Rightarrow> False)"

definition track_header :: "string \<Rightarrow> obj \<Rightarrow> (bool \<times> string) list" where
  "track_header schema value =
     [(str_is value ''schema'' (''oxide-batch-workloads.'' @ schema) \<and> num_is value ''schema_version'' 1, ''schema identity''),
      (num_is value ''campaign_issue'' campaign_issue, ''campaign_issue''),
      (str_is value ''producer_checkout'' producer_sha, ''producer_checkout'')]"

section \<open>The process-interop record\<close>

definition subject_060 :: json where
  "subject_060 = JObj [(''crate'', JStr ''oxide-batch''), (''source'', JStr ''crates.io''), (''version'', JStr ''0.6.0'')]"

definition duplicate_ok :: "obj \<Rightarrow> bool" where
  "duplicate_ok d \<longleftrightarrow>
     num_is d ''duplicate_process_exit_code'' 1 \<and> num_is d ''job_instances_after_retry'' 1 \<and>
     num_is d ''job_executions_after_retry'' 1 \<and> num_is d ''durable_business_rows_after_retry'' 200 \<and>
     flag_is d ''different_identity_completed'' True \<and> pid_in d ''primary_pid'' \<and> pid_in d ''different_identity_pid'' \<and>
     \<not> py_eq (dget d ''primary_pid'') (dget d ''different_identity_pid'')"

text \<open>What the \<open>SIGKILL\<close> and the \<open>SIGTERM\<close> recovery have in common.\<close>

definition signal_ok :: "int \<Rightarrow> obj \<Rightarrow> bool" where
  "signal_ok n d \<longleftrightarrow>
     num_is d ''signal'' n \<and> str_is d ''durable_status_before_recovery'' ''STARTED'' \<and>
     num_is d ''durable_commits_before_recovery'' 2 \<and> num_is d ''durable_position_before_recovery'' 200 \<and>
     str_is d ''final_exit_code'' ''COMPLETED'' \<and> str_is d ''final_status'' ''COMPLETED'' \<and>
     pid_in d ''old_pid'' \<and> pid_in d ''new_process_pid'' \<and> \<not> py_eq (dget d ''old_pid'') (dget d ''new_process_pid'')"

definition verify_process_interop :: "obj \<Rightarrow> pg_error + string list" where
  "verify_process_interop value =
     ebind (opt_dict value ''validation_rejection'') (\<lambda>validation.
     ebind (opt_dict value ''infrastructure_failure'') (\<lambda>infrastructure.
     ebind (opt_dict value ''typed_failure'') (\<lambda>typed.
     ebind (opt_dict value ''active_duplicate_lost_response_retry'') (\<lambda>duplicate.
     ebind (opt_dict value ''completed_redelivery'') (\<lambda>completed.
     ebind (opt_dict value ''sigkill'') (\<lambda>sigkill.
     ebind (opt_dict value ''sigterm'') (\<lambda>sigterm.
     ebind (opt_dict value ''verifier_negative_control'') (\<lambda>control.
     ebind (opt_dict value ''capability_gaps'') (\<lambda>gaps.
       Inr (checks (track_header ''process-interop-observation'' value @
         [(py_eq (dget value ''validation_subject'') subject_060, ''validation subject''),
          (num_is validation ''process_exit_code'' 2 \<and> flag_is validation ''durable_execution_created'' False, ''validation rejection''),
          (nonzero_code (dget infrastructure ''process_exit_code'') \<and>
             flag_is infrastructure ''durable_execution_observable_in_target_repository'' False, ''infrastructure failure''),
          (num_is typed ''process_exit_code'' 1 \<and> str_is typed ''durable_status'' ''FAILED'' \<and> num_is typed ''durable_commits'' 2 \<and>
             num_is typed ''durable_position'' 200 \<and> flag_is typed ''plain_restart_supported'' True, ''typed failure''),
          (duplicate_ok duplicate, ''duplicate''),
          (num_is completed ''process_exit_code'' 1 \<and> flag_is completed ''new_execution_created'' False, ''completed redelivery''),
          (signal_ok 9 sigkill \<and> flag_is sigkill ''clean_recovered_content_digest_equal'' True, ''SIGKILL recovery''),
          (signal_ok 15 sigterm \<and> flag_is sigterm ''graceful_signal_contract_observed'' False, ''SIGTERM recovery''),
          (flag_is control ''deliberate_corruption_detected'' True \<and> flag_is control ''restored_state_verified'' True, ''negative control''),
          (classified gaps ''graceful_sigterm'' ''UNSUPPORTED/GAP:'', ''graceful SIGTERM''),
          (classified gaps ''stop_cancel_process_contract'' ''UNSUPPORTED/GAP:'', ''stop and cancel''),
          (classified gaps ''dedicated_external_correlation_identity'' ''NOT_PROVEN:'', ''correlation identity''),
          (classified gaps ''machine_readable_launch_result'' ''NOT_PROVEN:'', ''launch result'')])))))))))))"

section \<open>The closure record\<close>

definition closure_sigterm_ok :: "obj \<Rightarrow> obj \<Rightarrow> bool" where
  "closure_sigterm_ok value d \<longleftrightarrow>
     num_is d ''signal'' 15 \<and> dget d ''numeric_exit_code'' = JNull \<and> flag_is d ''launcher_is_direct_parent'' True \<and>
     str_is d ''durable_status_before_recovery'' ''STARTED'' \<and> num_is d ''committed_chunks_before_recovery'' 1 \<and>
     num_is d ''checkpoint_position_before_recovery'' 100 \<and> pid_in d ''shutdown_latency_micros'' \<and>
     pid_in value ''launcher_pid'' \<and> pid_in d ''workload_pid''"

definition closure_recovery_ok :: "obj \<Rightarrow> bool" where
  "closure_recovery_ok d \<longleftrightarrow>
     num_is d ''process_exit_code'' 0 \<and> str_is d ''recovered_status'' ''FAILED'' \<and>
     num_is d ''active_job_executions_after_recovery'' 0 \<and> num_is d ''active_step_executions_after_recovery'' 1 \<and>
     str_is d ''step_lifecycle_closure'' ''UNSUPPORTED/GAP'' \<and> str_is d ''upstream_issue'' upstream_gap"

definition closure_continuation_ok :: "obj \<Rightarrow> obj \<Rightarrow> bool" where
  "closure_continuation_ok d sigterm \<longleftrightarrow>
     num_is d ''process_exit_code'' 0 \<and> str_is d ''status'' ''COMPLETED'' \<and> str_is d ''attempt'' ''2'' \<and>
     num_is d ''active_job_executions_final'' 0 \<and> num_is d ''active_step_executions_final'' 1 \<and>
     pid_in d ''workload_pid'' \<and> \<not> py_eq (dget d ''workload_pid'') (dget sigterm ''workload_pid'')"

text \<open>Two step executions of four fields each, the first ended by the recovery, the second the continuation's.\<close>

definition history_ok :: "json \<Rightarrow> obj \<Rightarrow> obj \<Rightarrow> bool" where
  "history_ok history recovery continuation \<longleftrightarrow>
     (case history of
        JArr [JArr [e1, s1, c1, p1], JArr [e2, s2, c2, p2]] \<Rightarrow>
          py_eq_list [s1, c1, p1] [JStr ''STARTED'', JInt 1, JInt 100] \<and>
          py_eq_list [s2, c2, p2] [JStr ''COMPLETED'', JInt 4, JInt 350] \<and>
          py_eq e1 (dget recovery ''recovered_job_execution_id'') \<and> py_eq e2 (dget continuation ''job_execution_id'') \<and>
          \<not> py_eq e1 e2
      | _ \<Rightarrow> False)"

definition verify_process_closure :: "obj \<Rightarrow> pg_error + string list" where
  "verify_process_closure value =
     ebind (opt_dict value ''sigterm'') (\<lambda>sigterm.
     ebind (opt_dict value ''public_recovery'') (\<lambda>recovery.
     ebind (opt_dict value ''continuation'') (\<lambda>continuation.
     ebind (opt_dict value ''capability_gaps'') (\<lambda>gaps.
       Inr (checks (track_header ''process-interop-closure-observation'' value @
         [(closure_sigterm_ok value sigterm, ''SIGTERM shutdown''), (closure_recovery_ok recovery, ''public recovery''),
          (closure_continuation_ok continuation sigterm, ''continuation''),
          (history_ok (dget value ''step_execution_history'') recovery continuation, ''StepExecution history''),
          (classified gaps ''recovery_step_lifecycle_closure'' ''UNSUPPORTED/GAP:'' \<and>
             (case as_str (dget gaps ''recovery_step_lifecycle_closure'') of Some s \<Rightarrow> contains ''oxide-batch#269'' s | None \<Rightarrow> False),
           ''lifecycle closure'')]))))))"

section \<open>The identity record\<close>

definition initial_ok :: "obj \<Rightarrow> bool" where
  "initial_ok d \<longleftrightarrow>
     str_is d ''attempt'' ''1'' \<and> num_is d ''termination_signal'' 9 \<and> str_is d ''durable_status_before_kill'' ''STARTED'' \<and>
     str_is d ''durable_status_after_kill'' ''STARTED'' \<and> pid_in d ''workload_pid''"

definition continuation_ok :: "obj \<Rightarrow> obj \<Rightarrow> bool" where
  "continuation_ok d initial \<longleftrightarrow>
     str_is d ''attempt'' ''2'' \<and> num_is d ''process_exit_code'' 0 \<and> str_is d ''durable_status'' ''COMPLETED'' \<and>
     pid_in d ''workload_pid'' \<and> \<not> py_eq (dget d ''workload_pid'') (dget initial ''workload_pid'') \<and>
     py_eq (dget d ''job_instance_id'') (dget initial ''job_instance_id'') \<and>
     \<not> py_eq (dget d ''job_execution_id'') (dget initial ''job_execution_id'')"

text \<open>\<open>value.get("launcher", {}).get("pid")\<close> is evaluated only if the primitives before it are right.\<close>

definition launcher_pid_ok :: "obj \<Rightarrow> pg_error + bool" where
  "launcher_pid_ok value =
     (case get_default value ''launcher'' (JObj []) of
        JObj launcher \<Rightarrow> Inr (pid_in launcher ''pid'')
      | _ \<Rightarrow> Inl NoGetMethod)"

definition verify_process_identity :: "obj \<Rightarrow> pg_error + string list" where
  "verify_process_identity value =
     ebind (opt_dict value ''initial_execution'') (\<lambda>initial.
     ebind (if initial_ok initial then launcher_pid_ok value else Inr False) (\<lambda>initial_right.
     ebind (opt_dict value ''recovery_continuation'') (\<lambda>continuation.
       Inr (checks (track_header ''process-interop-identity-observation'' value @
         [(initial_right, ''initial execution''), (continuation_ok continuation initial, ''recovery continuation'')])))))"

section \<open>The manifest\<close>

definition expected_ref :: string where
  "expected_ref = ''https://github.com/luceat-lux-vestra/oxide-batch-workloads/commit/'' @ producer_sha"

definition expected_targets :: "(string \<times> string) list" where
  "expected_targets = [(track_interop, ''process_interop''), (track_closure, ''process_interop_closure''),
     (track_identity, ''process_interop_identity'')]"

definition record_binding :: "string \<Rightarrow> json \<Rightarrow> (bool \<times> string) list" where
  "record_binding target rec =
     [(field rec [''input'', ''identity'', ''reference''] = JStr expected_ref, ''input identity''),
      (field rec [''input'', ''reproduction'', ''test_target''] = JStr target, ''test_target''),
      (py_eq (field rec [''parameters'', ''campaign_issue'']) (JInt campaign_issue), ''parameters.campaign_issue''),
      (py_eq (field rec [''parameters'', ''github_actions_run_id'']) (JInt producer_run_id), ''parameters.github_actions_run_id'')]"

definition verify_manifest_binding :: "obj \<Rightarrow> (string \<times> json) list \<Rightarrow> string list" where
  "verify_manifest_binding manifest by_scenario =
     checks
       [(field (JObj manifest) [''producer'', ''base_revision''] = JStr producer_sha, ''producer.base_revision''),
        ((case as_str (field (JObj manifest) [''producer'', ''run'', ''identity'']) of
            Some s \<Rightarrow> contains (''/actions/runs/'' @ show_int producer_run_id) s | None \<Rightarrow> False), ''producer.run.identity'')] @
     concat (map (\<lambda>(scenario, target).
       map (\<lambda>m. scenario @ '': '' @ m) (checks (record_binding target (the (map_of by_scenario scenario))))) expected_targets)"

text \<open>\<open>item.get("scenario") in LEGACY_SCENARIOS\<close> hashes the scenario.\<close>

fun legacy_records :: "json list \<Rightarrow> pg_error + json list" where
  "legacy_records [] = Inr []"
| "legacy_records (item # items) =
     ebind (if \<not> is_dict item then Inr []
            else if \<not> hashable (get_in item ''scenario'') then Inl UnhashableScenario
            else Inr (if get_in item ''scenario'' \<in> set (map JStr legacy_scenarios) then [item] else [])) (\<lambda>found.
     ebind (legacy_records items) (\<lambda>rest. Inr (found @ rest)))"

text \<open>\<open>Inl\<close> is an exception; the \<open>ValueError\<close> of the pinned verifier's identity is a \<open>None\<close>.\<close>

definition verify_legacy_subset ::
    "(string \<Rightarrow> string) \<Rightarrow> node \<Rightarrow> string list \<Rightarrow> json list \<Rightarrow> pg_error + string list option" where
  "verify_legacy_subset sha256 repo path records =
     ebind (legacy_records records) (\<lambda>legacy.
       case get_file repo (butlast path @ [legacy_verifier]) of
         None \<Rightarrow> Inr None
       | Some f \<Rightarrow>
           if sha256 (raw f) \<noteq> legacy_verifier_sha256 then Inr None
           else ebind (pg_verify_manifest repo (workload_dir path) [(''records'', JArr legacy)]) (\<lambda>vs. Inr (Some vs)))"

definition track_artifacts :: "(string \<times> obj) list \<Rightarrow> pg_error + string list" where
  "track_artifacts loaded =
     (let art = (\<lambda>s. the (map_of loaded s)) in
      ebind (verify_process_interop (art track_interop)) (\<lambda>a.
      ebind (verify_process_closure (art track_closure)) (\<lambda>b.
      ebind (verify_process_identity (art track_identity)) (\<lambda>c.
        Inr (map (\<lambda>m. track_interop @ '': '' @ m) a @ map (\<lambda>m. track_closure @ '': '' @ m) b @
             map (\<lambda>m. track_identity @ '': '' @ m) c)))))"

definition track_verify_manifest :: "(string \<Rightarrow> string) \<Rightarrow> node \<Rightarrow> string list \<Rightarrow> obj \<Rightarrow> pg_error + string list" where
  "track_verify_manifest sha256 repo path manifest =
     (case as_arr (dget manifest ''records'') of
        None \<Rightarrow> Inr [''manifest records'']
      | Some records \<Rightarrow>
          let by_scenario = record_by_scenario records;
              loads = map (\<lambda>s. load_artifact repo (workload_dir path) (s, the (map_of by_scenario s))) track_scenarios
          in if set (map fst by_scenario) \<noteq> set (legacy_scenarios @ track_scenarios) then Inr [''scenarios'']
             else
               ebind (verify_legacy_subset sha256 repo path records) (\<lambda>legacy.
                 case legacy of
                   None \<Rightarrow> Inr [''pinned legacy verifier'']
                 | Some vs \<Rightarrow>
                     ebind (if lefts loads \<noteq> [] then Inr (lefts loads) else track_artifacts (rights loads)) (\<lambda>ws.
                       Inr (vs @ verify_manifest_binding manifest by_scenario @ ws))))"

definition track_verify :: "(string \<Rightarrow> string) \<Rightarrow> node \<Rightarrow> string list \<Rightarrow> pg_error + string list" where
  "track_verify sha256 repo path =
     (case load_dict repo path of
        None \<Rightarrow> Inr [''cannot read manifest'']
      | Some manifest \<Rightarrow> track_verify_manifest sha256 repo path manifest)"

definition track_report :: "(string \<Rightarrow> string) \<Rightarrow> node \<Rightarrow> string list \<Rightarrow> int \<times> json option" where
  "track_report sha256 repo path =
     (case track_verify sha256 repo path of Inl _ \<Rightarrow> (1, None) | Inr vs \<Rightarrow> violations_report vs)"

section \<open>The contract\<close>

lemma prefixed_named [simp]: "[] \<notin> set (map (\<lambda>m. scenario @ '': '' @ m) ms)"
  by auto

lemma track_artifacts_named: "track_artifacts loaded = Inr vs \<Longrightarrow> [] \<notin> set vs"
  by (auto simp: track_artifacts_def Let_def ebind_Inr_iff)

lemma verify_manifest_binding_named: "[] \<notin> set (verify_manifest_binding manifest by_scenario)"
  by (auto simp: verify_manifest_binding_def)

lemma track_loads_named [simp]: "[] \<notin> set (lefts (map (\<lambda>s. load_artifact repo dir (s, f s)) ss))"
  using load_artifact_named by force

lemma track_verify_manifest_named:
  assumes "track_verify_manifest sha256 repo path manifest = Inr vs"
  shows "[] \<notin> set vs"
proof (cases "as_arr (dget manifest ''records'')")
  case None
  then show ?thesis using assms by (auto simp: track_verify_manifest_def)
next
  case (Some records)
  let ?b = "record_by_scenario records"
  let ?loads = "map (\<lambda>s. load_artifact repo (workload_dir path) (s, the (map_of ?b s))) track_scenarios"
  have named: "[] \<notin> set ws"
    if "(if lefts ?loads \<noteq> [] then Inr (lefts ?loads) else track_artifacts (rights ?loads)) = Inr ws" for ws
    using that track_artifacts_named track_loads_named by (auto simp del: in_lefts split: if_splits)
  have "[] \<notin> set ls" if "verify_legacy_subset sha256 repo path records = Inr (Some ls)" for ls
    using that pg_verify_manifest_named
    by (auto simp: verify_legacy_subset_def ebind_Inr_iff split: option.splits if_splits)
  then show ?thesis
    using assms Some named verify_manifest_binding_named
    by (fastforce simp: track_verify_manifest_def Let_def ebind_Inr_iff simp del: in_lefts split: if_splits option.splits)
qed

interpretation track: violations_verifier "track_verify sha256" "track_report sha256" for sha256
proof
  fix repo path vs
  assume v: "track_verify sha256 repo path = Inr vs"
  then show "\<exists>r. track_report sha256 repo path = (if vs = [] then 0 else 1, Some (JObj r)) \<and>
      dget r ''schema_version'' = JInt 1 \<and> dget r ''violations'' = JArr (map JStr vs)"
    using violations_report_reported by (simp add: track_report_def)
  show "[] \<notin> set vs"
    using v track_verify_manifest_named by (auto simp: track_verify_def split: option.splits)
next
  fix repo path e
  assume "track_verify sha256 repo path = Inl e"
  then show "\<not> isOK (check_verifier_result (track_report sha256 repo path))" by (simp add: track_report_def)
qed

section \<open>What accepted evidence shows\<close>

definition optional_dict :: "json \<Rightarrow> bool" where
  "optional_dict v \<longleftrightarrow> truthy v \<longrightarrow> is_dict v"

definition part :: "obj \<Rightarrow> string \<Rightarrow> obj" where
  "part value key = (case dget value key of JObj d \<Rightarrow> d | _ \<Rightarrow> [])"

lemma opt_dict_Inr: "ebind (opt_dict value key) f = Inr y \<longleftrightarrow> optional_dict (dget value key) \<and> f (part value key) = Inr y"
  by (cases "dget value key") (auto simp: opt_dict_def optional_dict_def part_def Let_def)

lemma ebind_if_Inr: "ebind (if c then x else Inr b) f = Inr y \<longleftrightarrow> (if c then ebind x f = Inr y else f b = Inr y)"
  by simp

text \<open>
  Both signals were recovered by a new process from the durable state, a duplicate and a redelivery
  started nothing, and a clean and a recovered run had the same content.
\<close>

definition interop_right :: "obj \<Rightarrow> bool" where
  "interop_right a \<longleftrightarrow>
     list_all fst (track_header ''process-interop-observation'' a) \<and> py_eq (dget a ''validation_subject'') subject_060 \<and>
     list_all (\<lambda>k. optional_dict (dget a k))
       [''validation_rejection'', ''infrastructure_failure'', ''typed_failure'', ''active_duplicate_lost_response_retry'',
        ''completed_redelivery'', ''sigkill'', ''sigterm'', ''verifier_negative_control'', ''capability_gaps''] \<and>
     num_is (part a ''validation_rejection'') ''process_exit_code'' 2 \<and>
     flag_is (part a ''validation_rejection'') ''durable_execution_created'' False \<and>
     nonzero_code (dget (part a ''infrastructure_failure'') ''process_exit_code'') \<and>
     flag_is (part a ''infrastructure_failure'') ''durable_execution_observable_in_target_repository'' False \<and>
     num_is (part a ''typed_failure'') ''process_exit_code'' 1 \<and> str_is (part a ''typed_failure'') ''durable_status'' ''FAILED'' \<and>
     num_is (part a ''typed_failure'') ''durable_commits'' 2 \<and> num_is (part a ''typed_failure'') ''durable_position'' 200 \<and>
     flag_is (part a ''typed_failure'') ''plain_restart_supported'' True \<and>
     duplicate_ok (part a ''active_duplicate_lost_response_retry'') \<and>
     num_is (part a ''completed_redelivery'') ''process_exit_code'' 1 \<and>
     flag_is (part a ''completed_redelivery'') ''new_execution_created'' False \<and>
     signal_ok 9 (part a ''sigkill'') \<and> flag_is (part a ''sigkill'') ''clean_recovered_content_digest_equal'' True \<and>
     signal_ok 15 (part a ''sigterm'') \<and> flag_is (part a ''sigterm'') ''graceful_signal_contract_observed'' False \<and>
     flag_is (part a ''verifier_negative_control'') ''deliberate_corruption_detected'' True \<and>
     flag_is (part a ''verifier_negative_control'') ''restored_state_verified'' True \<and>
     (\<forall>key \<in> {''graceful_sigterm'', ''stop_cancel_process_contract''}. classified (part a ''capability_gaps'') key ''UNSUPPORTED/GAP:'') \<and>
     (\<forall>key \<in> {''dedicated_external_correlation_identity'', ''machine_readable_launch_result''}.
        classified (part a ''capability_gaps'') key ''NOT_PROVEN:'')"

lemma verify_process_interop_Nil: "verify_process_interop a = Inr [] \<longleftrightarrow> interop_right a"
  unfolding verify_process_interop_def opt_dict_Inr sum.inject checks_Nil_iff list_all_append interop_right_def
  by (simp only: list.pred_inject fst_conv conj_assoc ball_simps simp_thms) blast

definition closure_right :: "obj \<Rightarrow> bool" where
  "closure_right b \<longleftrightarrow>
     list_all fst (track_header ''process-interop-closure-observation'' b) \<and>
     list_all (\<lambda>k. optional_dict (dget b k)) [''sigterm'', ''public_recovery'', ''continuation'', ''capability_gaps''] \<and>
     closure_sigterm_ok b (part b ''sigterm'') \<and> closure_recovery_ok (part b ''public_recovery'') \<and>
     closure_continuation_ok (part b ''continuation'') (part b ''sigterm'') \<and>
     history_ok (dget b ''step_execution_history'') (part b ''public_recovery'') (part b ''continuation'') \<and>
     (\<exists>gap. dget (part b ''capability_gaps'') ''recovery_step_lifecycle_closure'' = JStr gap \<and>
        startswith gap ''UNSUPPORTED/GAP:'' \<and> contains ''oxide-batch#269'' gap)"

lemma as_str_iff: "as_str v = Some s \<longleftrightarrow> v = JStr s"
  by (cases v) auto

lemma verify_process_closure_Nil: "verify_process_closure b = Inr [] \<longleftrightarrow> closure_right b"
  unfolding verify_process_closure_def opt_dict_Inr closure_right_def
  by (auto simp: classified_def as_str_iff split: option.splits)

definition identity_right :: "obj \<Rightarrow> bool" where
  "identity_right c \<longleftrightarrow>
     list_all fst (track_header ''process-interop-identity-observation'' c) \<and>
     list_all (\<lambda>k. optional_dict (dget c k)) [''initial_execution'', ''recovery_continuation''] \<and>
     initial_ok (part c ''initial_execution'') \<and> pid_in (part c ''launcher'') ''pid'' \<and>
     continuation_ok (part c ''recovery_continuation'') (part c ''initial_execution'')"

lemma launcher_pid_ok_iff: "launcher_pid_ok value = Inr True \<longleftrightarrow> pid_in (part value ''launcher'') ''pid''"
  by (auto simp: launcher_pid_ok_def part_def get_default_def dget_def pid_in_def positive_int_iff split: option.splits json.splits)

lemma verify_process_identity_Nil: "verify_process_identity c = Inr [] \<longleftrightarrow> identity_right c"
proof -
  have "verify_process_identity c = Inr [] \<longleftrightarrow>
      optional_dict (dget c ''initial_execution'') \<and> optional_dict (dget c ''recovery_continuation'') \<and>
      initial_ok (part c ''initial_execution'') \<and> launcher_pid_ok c = Inr True \<and>
      list_all fst (track_header ''process-interop-identity-observation'' c) \<and>
      continuation_ok (part c ''recovery_continuation'') (part c ''initial_execution'')"
    unfolding verify_process_identity_def opt_dict_Inr ebind_if_Inr
    by (cases "launcher_pid_ok c") (auto simp: opt_dict_Inr)
  then show ?thesis by (auto simp: identity_right_def launcher_pid_ok_iff)
qed

definition legacy_record :: "json \<Rightarrow> bool" where
  "legacy_record item \<longleftrightarrow> is_dict item \<and> get_in item ''scenario'' \<in> set (map JStr legacy_scenarios)"

definition unhashable_record :: "json \<Rightarrow> bool" where
  "unhashable_record item \<longleftrightarrow> is_dict item \<and> \<not> hashable (get_in item ''scenario'')"

lemma legacy_record_hashable: "legacy_record item \<Longrightarrow> \<not> unhashable_record item"
  by (auto simp: legacy_record_def unhashable_record_def)

lemma legacy_records_eq:
  "legacy_records items = (if list_ex unhashable_record items then Inl UnhashableScenario else Inr (filter legacy_record items))"
  by (induction items) (auto simp: legacy_record_def [abs_def] unhashable_record_def [abs_def])

text \<open>An accepted manifest, its two bounded-resource runs and its three process observations.\<close>

definition track_accepts :: "(string \<Rightarrow> string) \<Rightarrow> node \<Rightarrow> string list \<Rightarrow> obj \<Rightarrow> pg_runs \<Rightarrow> obj \<Rightarrow> obj \<Rightarrow> obj \<Rightarrow> bool" where
  "track_accepts sha256 repo path manifest e a b c \<longleftrightarrow>
     (\<exists>records f. dget manifest ''records'' = JArr records \<and> \<not> list_ex unhashable_record records \<and>
        set (map fst (record_by_scenario records)) = set (legacy_scenarios @ track_scenarios) \<and>
        get_file repo (butlast path @ [legacy_verifier]) = Some f \<and> sha256 (raw f) = legacy_verifier_sha256 \<and>
        pg_load repo (workload_dir path) [(''records'', JArr (filter legacy_record records))] = Inr e \<and>
        pg_checks e = Inr [] \<and>
        verify_manifest_binding manifest (record_by_scenario records) = [] \<and>
        (\<forall>(s, d) \<in> {(track_interop, a), (track_closure, b), (track_identity, c)}.
           load_artifact repo (workload_dir path) (s, the (map_of (record_by_scenario records) s)) = Inr (s, d)) \<and>
        interop_right a \<and> closure_right b \<and> identity_right c)"

lemma load_artifact_scenario: "load_artifact repo dir (s, r) = Inr x \<Longrightarrow> fst x = s"
  by (auto simp: load_artifact_def ebind_Inr_iff)

lemma track_artifacts_Nil:
  "track_artifacts [(track_interop, a), (track_closure, b), (track_identity, c)] = Inr [] \<longleftrightarrow>
     interop_right a \<and> closure_right b \<and> identity_right c"
proof -
  have "track_interop \<noteq> track_closure" "track_interop \<noteq> track_identity" "track_closure \<noteq> track_identity"
    by (simp_all add: track_interop_def track_closure_def track_identity_def)
  then show ?thesis
    by (auto simp: track_artifacts_def ebind_Inr_iff simp flip: verify_process_interop_Nil verify_process_closure_Nil
        verify_process_identity_Nil)
qed

lemma track_loads_Nil:
  "(if lefts (map (\<lambda>s. load_artifact repo dir (s, f s)) track_scenarios) \<noteq> []
    then Inr (lefts (map (\<lambda>s. load_artifact repo dir (s, f s)) track_scenarios))
    else track_artifacts (rights (map (\<lambda>s. load_artifact repo dir (s, f s)) track_scenarios))) = Inr [] \<longleftrightarrow>
   (\<exists>a b c. (\<forall>(s, d) \<in> {(track_interop, a), (track_closure, b), (track_identity, c)}. load_artifact repo dir (s, f s) = Inr (s, d)) \<and>
      interop_right a \<and> closure_right b \<and> identity_right c)" (is "?l \<longleftrightarrow> ?r")
proof (cases "\<exists>a b c. load_artifact repo dir (track_interop, f track_interop) = Inr (track_interop, a) \<and>
    load_artifact repo dir (track_closure, f track_closure) = Inr (track_closure, b) \<and>
    load_artifact repo dir (track_identity, f track_identity) = Inr (track_identity, c)")
  case True
  then show ?thesis using track_artifacts_Nil by (auto simp: track_scenarios_def)
next
  case False
  have "lefts (map (\<lambda>s. load_artifact repo dir (s, f s)) track_scenarios) \<noteq> []"
  proof
    assume none: "lefts (map (\<lambda>s. load_artifact repo dir (s, f s)) track_scenarios) = []"
    have "\<exists>d. load_artifact repo dir (s, f s) = Inr (s, d)" if "s \<in> set track_scenarios" for s
    proof (cases "load_artifact repo dir (s, f s)")
      case (Inl m)
      then have "m \<in> set (lefts (map (\<lambda>s. load_artifact repo dir (s, f s)) track_scenarios))"
        using that by (force simp: image_iff)
      with none show ?thesis by simp
    next
      case (Inr x)
      then show ?thesis using load_artifact_scenario [OF Inr] by (cases x) auto
    qed
    with False show False by (simp add: track_scenarios_def)
  qed
  with False show ?thesis by (auto simp del: in_lefts)
qed

lemma verify_legacy_subset_Some:
  "verify_legacy_subset sha256 repo path records = Inr (Some vs) \<longleftrightarrow>
     \<not> list_ex unhashable_record records \<and>
     (\<exists>f. get_file repo (butlast path @ [legacy_verifier]) = Some f \<and> sha256 (raw f) = legacy_verifier_sha256 \<and>
        pg_verify_manifest repo (workload_dir path) [(''records'', JArr (filter legacy_record records))] = Inr vs)"
  by (auto simp: verify_legacy_subset_def legacy_records_eq ebind_Inr_iff split: option.splits)

lemma track_verify_manifest_Nil:
  "track_verify_manifest sha256 repo path manifest = Inr [] \<longleftrightarrow> (\<exists>e a b c. track_accepts sha256 repo path manifest e a b c)"
proof (cases "as_arr (dget manifest ''records'')")
  case None
  then show ?thesis by (auto simp: track_verify_manifest_def track_accepts_def)
next
  case (Some records)
  then have r: "dget manifest ''records'' = JArr records" by (cases "dget manifest ''records''") auto
  let ?b = "record_by_scenario records"
  let ?loads = "map (\<lambda>s. load_artifact repo (workload_dir path) (s, the (map_of ?b s))) track_scenarios"
  have "track_verify_manifest sha256 repo path manifest = Inr [] \<longleftrightarrow>
      set (map fst ?b) = set (legacy_scenarios @ track_scenarios) \<and>
      verify_legacy_subset sha256 repo path records = Inr (Some []) \<and> verify_manifest_binding manifest ?b = [] \<and>
      (if lefts ?loads \<noteq> [] then Inr (lefts ?loads) else track_artifacts (rights ?loads)) = Inr []"
    using Some by (auto simp: track_verify_manifest_def Let_def ebind_Inr_iff simp del: in_lefts split: option.splits)
  then show ?thesis
    unfolding track_loads_Nil verify_legacy_subset_Some pg_verify_Nil track_accepts_def r json.inject by blast
qed

lemma track_verify_Nil:
  "track_verify sha256 repo path = Inr [] \<longleftrightarrow>
     (\<exists>manifest e a b c. load_dict repo path = Some manifest \<and> track_accepts sha256 repo path manifest e a b c)"
  by (auto simp: track_verify_def track_verify_manifest_Nil split: option.splits)

section \<open>A concrete evidence tree\<close>

definition toy_header :: "string \<Rightarrow> obj" where
  "toy_header schema = [(''schema'', JStr (''oxide-batch-workloads.'' @ schema)), (''schema_version'', JInt 1),
     (''campaign_issue'', JInt 98), (''producer_checkout'', JStr producer_sha)]"

definition toy_signal :: "int \<Rightarrow> obj" where
  "toy_signal n = [(''signal'', JInt n), (''durable_status_before_recovery'', JStr ''STARTED''),
     (''durable_commits_before_recovery'', JInt 2), (''durable_position_before_recovery'', JInt 200),
     (''final_exit_code'', JStr ''COMPLETED''), (''final_status'', JStr ''COMPLETED''), (''old_pid'', JInt 7), (''new_process_pid'', JInt 8),
     (''clean_recovered_content_digest_equal'', JBool True), (''graceful_signal_contract_observed'', JBool False)]"

definition toy_interop :: json where
  "toy_interop = JObj (toy_header ''process-interop-observation'' @
     [(''validation_subject'', subject_060),
      (''validation_rejection'', JObj [(''process_exit_code'', JInt 2), (''durable_execution_created'', JBool False)]),
      (''infrastructure_failure'', JObj [(''process_exit_code'', JInt 1), (''durable_execution_observable_in_target_repository'', JBool False)]),
      (''typed_failure'', JObj [(''process_exit_code'', JInt 1), (''durable_status'', JStr ''FAILED''), (''durable_commits'', JInt 2),
         (''durable_position'', JInt 200), (''plain_restart_supported'', JBool True)]),
      (''active_duplicate_lost_response_retry'', JObj [(''duplicate_process_exit_code'', JInt 1), (''job_instances_after_retry'', JInt 1),
         (''job_executions_after_retry'', JInt 1), (''durable_business_rows_after_retry'', JInt 200),
         (''different_identity_completed'', JBool True), (''primary_pid'', JInt 3), (''different_identity_pid'', JInt 4)]),
      (''completed_redelivery'', JObj [(''process_exit_code'', JInt 1), (''new_execution_created'', JBool False)]),
      (''sigkill'', JObj (toy_signal 9)), (''sigterm'', JObj (toy_signal 15)),
      (''verifier_negative_control'', JObj [(''deliberate_corruption_detected'', JBool True), (''restored_state_verified'', JBool True)]),
      (''capability_gaps'', JObj [(''graceful_sigterm'', JStr ''UNSUPPORTED/GAP:''), (''stop_cancel_process_contract'', JStr ''UNSUPPORTED/GAP:''),
         (''dedicated_external_correlation_identity'', JStr ''NOT_PROVEN:''), (''machine_readable_launch_result'', JStr ''NOT_PROVEN:'')])])"

definition toy_closure :: json where
  "toy_closure = JObj (toy_header ''process-interop-closure-observation'' @
     [(''launcher_pid'', JInt 2),
      (''sigterm'', JObj [(''signal'', JInt 15), (''launcher_is_direct_parent'', JBool True), (''durable_status_before_recovery'', JStr ''STARTED''),
         (''committed_chunks_before_recovery'', JInt 1), (''checkpoint_position_before_recovery'', JInt 100),
         (''shutdown_latency_micros'', JInt 9), (''workload_pid'', JInt 3)]),
      (''public_recovery'', JObj [(''process_exit_code'', JInt 0), (''recovered_status'', JStr ''FAILED''),
         (''active_job_executions_after_recovery'', JInt 0), (''active_step_executions_after_recovery'', JInt 1),
         (''step_lifecycle_closure'', JStr ''UNSUPPORTED/GAP''), (''upstream_issue'', JStr upstream_gap), (''recovered_job_execution_id'', JInt 1)]),
      (''continuation'', JObj [(''process_exit_code'', JInt 0), (''status'', JStr ''COMPLETED''), (''attempt'', JStr ''2''),
         (''active_job_executions_final'', JInt 0), (''active_step_executions_final'', JInt 1), (''workload_pid'', JInt 4),
         (''job_execution_id'', JInt 2)]),
      (''step_execution_history'', JArr [JArr [JInt 1, JStr ''STARTED'', JInt 1, JInt 100], JArr [JInt 2, JStr ''COMPLETED'', JInt 4, JInt 350]]),
      (''capability_gaps'', JObj [(''recovery_step_lifecycle_closure'', JStr ''UNSUPPORTED/GAP: oxide-batch#269'')])])"

definition toy_identity :: json where
  "toy_identity = JObj (toy_header ''process-interop-identity-observation'' @
     [(''launcher'', JObj [(''pid'', JInt 1)]),
      (''initial_execution'', JObj [(''attempt'', JStr ''1''), (''termination_signal'', JInt 9), (''durable_status_before_kill'', JStr ''STARTED''),
         (''durable_status_after_kill'', JStr ''STARTED''), (''workload_pid'', JInt 2), (''job_instance_id'', JInt 5), (''job_execution_id'', JInt 6)]),
      (''recovery_continuation'', JObj [(''attempt'', JStr ''2''), (''process_exit_code'', JInt 0), (''durable_status'', JStr ''COMPLETED''),
         (''workload_pid'', JInt 3), (''job_instance_id'', JInt 5), (''job_execution_id'', JInt 7)])])"

definition toy_track_record :: "string \<Rightarrow> string \<Rightarrow> string \<Rightarrow> json" where
  "toy_track_record scenario target path = JObj
     [(''scenario'', JStr scenario), (''artifact'', JObj [(''path'', JStr path)]),
      (''input'', JObj [(''identity'', JObj [(''reference'', JStr expected_ref)]), (''reproduction'', JObj [(''test_target'', JStr target)])]),
      (''parameters'', JObj [(''campaign_issue'', JInt 98), (''github_actions_run_id'', JInt producer_run_id)])]"

text \<open>The tree of the two bounded-resource runs and the three observations.\<close>

definition toy_track_records :: "json list" where
  "toy_track_records =
     [toy_pg_record cursor_scenario 50001 1000 [(''fetch_size'', JInt 5)],
      toy_pg_record paging_scenario 50001 1000 [(''page_size'', JInt 5)],
      toy_track_record track_interop ''process_interop'' ''v/1'', toy_track_record track_closure ''process_interop_closure'' ''v/2'',
      toy_track_record track_identity ''process_interop_identity'' ''v/3'']"

definition toy_track_manifest :: "json list \<Rightarrow> obj" where
  "toy_track_manifest records =
     [(''producer'', JObj [(''base_revision'', JStr producer_sha), (''run'', JObj [(''identity'', JStr (''/actions/runs/'' @ show_int producer_run_id))])]),
      (''records'', JArr records)]"

definition toy_track :: "json list \<Rightarrow> node" where
  "toy_track records = NDir [(''v'', NDir
     [(''m'', NFile (json_file (JObj (toy_track_manifest records)))), (legacy_verifier, NFile (text_file [])),
      (''c'', NFile (json_file (toy_pg_run cursor_scenario 50001 1000 [(''fetch_size'', JInt 5)] ''cursor''))),
      (''p'', NFile (json_file (toy_pg_run paging_scenario 50001 1000 [(''page_size'', JInt 5)] ''paging''))),
      (''1'', NFile (json_file toy_interop)), (''2'', NFile (json_file toy_closure)), (''3'', NFile (json_file toy_identity))])]"

definition toy_pinned :: "string \<Rightarrow> string" where
  "toy_pinned s = legacy_verifier_sha256"

lemma toy_track_accepted: "isOK (check_verifier_result (track_report toy_pinned (toy_track toy_track_records) [''v'', ''m'']))"
  by code_simp

section \<open>Properties\<close>


text \<open>
  A record whose scenario is a list or an object makes the Track F verifier end with an uncaught
  \<open>TypeError\<close> and no output, although the records of the five scenarios are all there; its evidence is rejected.
\<close>

theorem track_f_unhashable:
  assumes "load_dict repo path = Some manifest" "dget manifest ''records'' = JArr records"
    and "set (map fst (record_by_scenario records)) = set (legacy_scenarios @ track_scenarios)"
    and "list_ex unhashable_record records"
  shows "track_report sha256 repo path = (1, None) \<and> \<not> isOK (check_verifier_result (track_report sha256 repo path))"
proof -
  have "verify_legacy_subset sha256 repo path records = Inl UnhashableScenario"
    using assms(4) by (simp add: verify_legacy_subset_def legacy_records_eq)
  then have "track_verify sha256 repo path = Inl UnhashableScenario"
    using assms by (simp add: track_verify_def track_verify_manifest_def Let_def)
  then show ?thesis by (simp add: track_report_def)
qed

definition toy_unhashable :: "json list" where
  "toy_unhashable = toy_track_records @ [JObj [(''scenario'', JArr [])]]"

lemma toy_unhashable_manifest:
  "load_dict (toy_track toy_unhashable) [''v'', ''m''] = Some (toy_track_manifest toy_unhashable)"
  by (simp add: load_dict_def toy_track_def get_file_def resolve_def child_def json_file_def)

theorem track_f_unhashable_witness:
  "track_report toy_pinned (toy_track toy_unhashable) [''v'', ''m''] = (1, None) \<and>
   \<not> isOK (check_verifier_result (track_report toy_pinned (toy_track toy_unhashable) [''v'', ''m'']))"
proof (rule track_f_unhashable [OF toy_unhashable_manifest])
  show "dget (toy_track_manifest toy_unhashable) ''records'' = JArr toy_unhashable"
    by (simp add: toy_track_manifest_def)
  show "set (map fst (record_by_scenario toy_unhashable)) = set (legacy_scenarios @ track_scenarios)" by code_simp
  show "list_ex unhashable_record toy_unhashable" by code_simp
qed

end
