(* ===== verification/Programs.thy ===== *)
theory Programs
  imports Actions Json "HOL-Library.Sublist"
begin

text \<open>
  Programs with waiting loops: a program takes the history of its requests, latest first, and
  returns its result or exception and the history after it, or \<open>None\<close> if it never returns. The one
  loop is \<open>poll\<close>: look at something until it is there, a deadline passes, or the look raises, with a
  nap in between. \<open>poll_ends\<close> shows that it returns on a clock that advances with every nap.
\<close>

type_synonym ('ev, 'e, 'a) program = "'ev list \<Rightarrow> (('e + 'a) \<times> 'ev list) option"

definition preturn :: "'a \<Rightarrow> ('ev, 'e, 'a) program" where
  "preturn x h = Some (Inr x, h)"

definition plift :: "'e + 'a \<Rightarrow> ('ev, 'e, 'a) program" where
  "plift m h = Some (m, h)"

text \<open>An action that always returns.\<close>

definition pdo :: "('ev, 'e, 'a) interaction \<Rightarrow> ('ev, 'e, 'a) program" where
  "pdo m h = Some (m h)"

definition pbind :: "('ev, 'e, 'a) program \<Rightarrow> ('a \<Rightarrow> ('ev, 'e, 'b) program) \<Rightarrow> ('ev, 'e, 'b) program" where
  "pbind m f h =
     (case m h of
        None \<Rightarrow> None
      | Some (r, h') \<Rightarrow> (case r of Inl e \<Rightarrow> Some (Inl e, h') | Inr x \<Rightarrow> f x h'))"

declare pbind_def [code_unfold]

fun pmap :: "('a \<Rightarrow> ('ev, 'e, 'b) program) \<Rightarrow> 'a list \<Rightarrow> ('ev, 'e, 'b list) program" where
  "pmap f [] = preturn []"
| "pmap f (x # xs) = pbind (f x) (\<lambda>y. pbind (pmap f xs) (\<lambda>ys. preturn (y # ys)))"

section \<open>Waiting\<close>

text \<open>
  \<open>while clock < deadline: look; nap\<close>, and the timeout's exception after it. \<open>tick\<close> and \<open>nap\<close> are the
  requests that read the clock and sleep.
\<close>

partial_function (option) poll ::
  "('ev list \<Rightarrow> rat) \<Rightarrow> 'ev \<Rightarrow> 'ev \<Rightarrow> ('ev, 'e, 'a option) interaction \<Rightarrow> 'e \<Rightarrow> rat \<Rightarrow> ('ev, 'e, 'a) program" where
  "poll clock tick nap look late deadline h =
     (if clock h < deadline
      then
        (case look (tick # h) of (r, h') \<Rightarrow>
           (case r of
              Inl e \<Rightarrow> Some (Inl e, h')
            | Inr found \<Rightarrow>
                (case found of
                   Some x \<Rightarrow> Some (Inr x, h')
                 | None \<Rightarrow> poll clock tick nap look late deadline (nap # h'))))
      else Some (Inl late, tick # h))"

declare poll.simps [code]

definition poll_for ::
  "('ev list \<Rightarrow> rat) \<Rightarrow> 'ev \<Rightarrow> 'ev \<Rightarrow> ('ev, 'e, 'a option) interaction \<Rightarrow> 'e \<Rightarrow> rat \<Rightarrow> ('ev, 'e, 'a) program" where
  "poll_for clock tick nap look late timeout h = poll clock tick nap look late (clock h + timeout) (tick # h)"

section \<open>Inversion\<close>

named_theorems program_simps \<open>inversion rules of programs that return\<close>

lemma preturn_Inr [simp, program_simps]: "preturn x h = Some (Inr y, h') \<longleftrightarrow> y = x \<and> h' = h"
  by (auto simp: preturn_def)

lemma plift_Inr [simp, program_simps]: "plift m h = Some (Inr y, h') \<longleftrightarrow> m = Inr y \<and> h' = h"
  by (auto simp: plift_def)

lemma pdo_Inr [simp, program_simps]: "pdo m h = Some (r, h') \<longleftrightarrow> m h = (r, h')"
  by (simp add: pdo_def)

lemma pbind_Inr [program_simps]:
  "pbind m f h = Some (Inr y, h2) \<longleftrightarrow> (\<exists>x h1. m h = Some (Inr x, h1) \<and> f x h1 = Some (Inr y, h2))"
  by (auto simp: pbind_def split: option.splits sum.splits)

lemma pbind_steps:
  assumes "pbind m f h = Some (r, h2)"
  obtains (raised) e where "m h = Some (Inl e, h2)" "r = Inl e"
    | (returned) x h1 where "m h = Some (Inr x, h1)" "f x h1 = Some (r, h2)"
  using assms by (auto simp: pbind_def split: option.splits sum.splits)

lemma pmap_each:
  "pmap f xs h = Some (Inr ys, h') \<Longrightarrow> x \<in> set xs \<Longrightarrow> \<exists>y h1 h2. f x h1 = Some (Inr y, h2) \<and> y \<in> set ys"
proof (induction xs arbitrary: ys h)
  case Nil
  then show ?case by simp
next
  case (Cons a xs)
  then obtain y h1 zs where "f a h = Some (Inr y, h1)" "pmap f xs h1 = Some (Inr zs, h')" "ys = y # zs"
    by (auto simp: pbind_Inr)
  with Cons show ?case by fastforce
qed

lemma pmap_length: "pmap f xs h = Some (Inr ys, h') \<Longrightarrow> length ys = length xs"
  by (induction xs arbitrary: ys h) (auto simp: pbind_Inr)

section \<open>Requests\<close>

text \<open>Every request of the program satisfies \<open>P\<close>, whatever it ends with.\<close>

definition requests :: "('ev \<Rightarrow> bool) \<Rightarrow> ('ev, 'e, 'a) program \<Rightarrow> bool" where
  "requests P m \<longleftrightarrow> (\<forall>h r h'. m h = Some (r, h') \<longrightarrow> (\<exists>es. h' = es @ h \<and> list_all P es))"

named_theorems request_intros \<open>rules that bound the requests of a program\<close>

lemma requestsD: "requests P m \<Longrightarrow> m h = Some (r, h') \<Longrightarrow> \<exists>es. h' = es @ h \<and> list_all P es"
  unfolding requests_def by blast

lemma requests_preturn [request_intros]: "requests P (preturn x)"
  by (simp add: requests_def preturn_def)

lemma requests_plift [request_intros]: "requests P (plift m)"
  by (simp add: requests_def plift_def)

lemma requests_pdo [request_intros]: "grows P m \<Longrightarrow> requests P (pdo m)"
  unfolding requests_def by (auto dest: growsD)

lemma requests_pbind [request_intros]:
  assumes "requests P m" "\<And>x. requests P (f x)"
  shows "requests P (pbind m f)"
  unfolding requests_def
proof (intro allI impI)
  fix h r h'
  assume "pbind m f h = Some (r, h')"
  then show "\<exists>es. h' = es @ h \<and> list_all P es"
  proof (cases rule: pbind_steps)
    case (raised e)
    then show ?thesis using requestsD [OF assms(1)] by blast
  next
    case (returned x h1)
    then show ?thesis using requestsD [OF assms(1) returned(1)] requestsD [OF assms(2) returned(2)] by auto
  qed
qed

lemma requests_pmap [request_intros]: "(\<And>x. requests P (f x)) \<Longrightarrow> requests P (pmap f xs)"
  by (induction xs) (auto intro!: request_intros)

lemma poll_requests:
  "poll clock tick nap look late deadline h = Some y \<Longrightarrow> grows P look \<Longrightarrow> P tick \<Longrightarrow> P nap \<Longrightarrow>
     \<exists>es. snd y = es @ h \<and> list_all P es"
proof (induction clock tick nap look late deadline h y rule: poll.raw_induct [rotated, consumes 1, case_names step])
  case (step poll clock tick nap look late deadline h y)
  obtain r h1 where look: "look (tick # h) = (r, h1)" by fastforce
  then obtain es where es: "h1 = es @ tick # h" "list_all P es"
    using growsD [OF step.prems(1)] by blast
  show ?case
  proof (cases "clock h < deadline \<and> r = Inr None")
    case True
    then have "poll clock tick nap look late deadline (nap # h1) = Some y" using step.hyps look by simp
    from step.IH [OF this step.prems] es show ?thesis using step.prems by auto
  next
    case False
    then have "snd y = h1 \<or> snd y = tick # h"
      using step.hyps look by (auto split: if_splits sum.splits option.splits)
    with es step.prems show ?thesis by auto
  qed
qed

lemma requests_poll_for [request_intros]:
  assumes "grows P look" "P tick" "P nap"
  shows "requests P (poll_for clock tick nap look late timeout)"
  unfolding requests_def
proof (intro allI impI)
  fix h r h'
  assume "poll_for clock tick nap look late timeout h = Some (r, h')"
  from poll_requests [OF this [unfolded poll_for_def] assms] show "\<exists>es. h' = es @ h \<and> list_all P es"
    using assms by auto
qed

section \<open>What a wait returns, and when\<close>

text \<open>The value that ends a wait is the answer of a look.\<close>

lemma poll_found:
  "poll clock tick nap look late deadline h = Some y \<Longrightarrow> fst y = Inr x \<Longrightarrow> grows P look \<Longrightarrow>
     \<exists>h0. look h0 = (Inr (Some x), snd y) \<and> suffix h h0"
proof (induction clock tick nap look late deadline h y rule: poll.raw_induct [rotated, consumes 1, case_names step])
  case (step poll clock tick nap look late deadline h y)
  obtain r h1 where look: "look (tick # h) = (r, h1)" by fastforce
  show ?case
  proof (cases "clock h < deadline \<and> r = Inr None")
    case True
    then have "poll clock tick nap look late deadline (nap # h1) = Some y" using step.hyps look by simp
    from step.IH [OF this step.prems] obtain h0 where h0: "look h0 = (Inr (Some x), snd y)" "suffix (nap # h1) h0" by blast
    obtain es where "h1 = es @ tick # h" using growsD [OF step.prems(2) look] by blast
    then have "suffix h (nap # h1)" by (simp add: suffix_def)
    then have "suffix h h0" using h0(2) suffix_order.trans by blast
    with h0(1) show ?thesis by blast
  next
    case False
    then have "r = Inr (Some x) \<and> snd y = h1"
      using step.hyps step.prems look by (cases r) (auto split: if_splits option.splits)
    then have "look (tick # h) = (Inr (Some x), snd y)" using look by simp
    moreover have "suffix h (tick # h)" by (simp add: suffix_ConsI)
    ultimately show ?thesis by blast
  qed
qed

lemma poll_for_found:
  assumes "poll_for clock tick nap look late timeout h = Some (Inr x, h')" "grows P look"
  shows "\<exists>h0. look h0 = (Inr (Some x), h') \<and> suffix h h0"
proof -
  have "\<exists>h0. look h0 = (Inr (Some x), h') \<and> suffix (tick # h) h0"
    using poll_found [OF assms(1) [unfolded poll_for_def], of x P] assms(2) by simp
  then show ?thesis by (auto dest: suffix_ConsD)
qed

text \<open>The documented behaviour of a monotonic clock: it never goes back, and a nap takes at least \<open>\<delta>\<close>.\<close>

definition napping_clock :: "('ev list \<Rightarrow> rat) \<Rightarrow> 'ev \<Rightarrow> rat \<Rightarrow> bool" where
  "napping_clock clock nap \<delta> \<longleftrightarrow>
     0 < \<delta> \<and> (\<forall>h es. clock h \<le> clock (es @ h)) \<and> (\<forall>h. clock h + \<delta> \<le> clock (nap # h))"

lemma poll_ends:
  assumes "napping_clock clock nap \<delta>" "grows (\<lambda>_. True) look"
  shows "deadline - clock h \<le> of_nat n * \<delta> \<Longrightarrow> poll clock tick nap look late deadline h \<noteq> None"
proof (induction n arbitrary: h)
  case 0
  then show ?case by (subst poll.simps) auto
next
  case (Suc n)
  obtain r h1 where look: "look (tick # h) = (r, h1)" by fastforce
  then obtain es where "h1 = (es @ [tick]) @ h" using growsD [OF assms(2)] by fastforce
  then have "clock h \<le> clock h1" using assms(1) unfolding napping_clock_def by blast
  moreover have "clock h1 + \<delta> \<le> clock (nap # h1)" using assms(1) unfolding napping_clock_def by blast
  ultimately have "deadline - clock (nap # h1) \<le> of_nat n * \<delta>" using Suc.prems by (simp add: algebra_simps)
  from Suc.IH [OF this] show ?case
    by (subst poll.simps) (use look in \<open>auto split: sum.splits option.splits\<close>)
qed

text \<open>A program that returns from every history.\<close>

definition returns :: "('ev, 'e, 'a) program \<Rightarrow> bool" where
  "returns m \<longleftrightarrow> (\<forall>h. m h \<noteq> None)"

named_theorems returns_intros \<open>programs that return\<close>

lemma returns_preturn [returns_intros]: "returns (preturn x)"
  by (simp add: returns_def preturn_def)

lemma returns_plift [returns_intros]: "returns (plift m)"
  by (simp add: returns_def plift_def)

lemma returns_pdo [returns_intros]: "returns (pdo m)"
  by (simp add: returns_def pdo_def)

lemma returns_pbind [returns_intros]: "returns m \<Longrightarrow> (\<And>x. returns (f x)) \<Longrightarrow> returns (pbind m f)"
  by (auto simp: returns_def pbind_def split: option.splits sum.splits)

lemma returns_pmap [returns_intros]: "(\<And>x. returns (f x)) \<Longrightarrow> returns (pmap f xs)"
  by (induction xs) (auto intro!: returns_intros)

lemma returns_poll_for [returns_intros]:
  assumes "napping_clock clock nap \<delta>" "grows (\<lambda>_. True) look"
  shows "returns (poll_for clock tick nap look late timeout)"
  unfolding returns_def poll_for_def
proof
  fix h
  have "0 < \<delta>" using assms(1) by (simp add: napping_clock_def)
  then obtain n where "(clock h + timeout - clock (tick # h)) / \<delta> \<le> of_nat n"
    using reals_Archimedean2 less_imp_le by blast
  then have "clock h + timeout - clock (tick # h) \<le> of_nat n * \<delta>" using \<open>0 < \<delta>\<close> by (simp add: field_simps)
  then show "poll clock tick nap look late (clock h + timeout) (tick # h) \<noteq> None" by (rule poll_ends [OF assms])
qed

lemma requests_suffix: "requests P m \<Longrightarrow> m h = Some (r, h') \<Longrightarrow> suffix h h'"
  by (auto simp: suffix_def dest: requestsD)

lemma pmap_run:
  assumes "\<And>x. requests P (f x)"
  shows "pmap f xs h = Some (Inr ys, h') \<Longrightarrow> x \<in> set xs \<Longrightarrow> \<exists>y h1 h2. f x h1 = Some (Inr y, h2) \<and> suffix h2 h'"
proof (induction xs arbitrary: ys h)
  case Nil
  then show ?case by simp
next
  case (Cons a xs)
  then obtain y h1 zs where *: "f a h = Some (Inr y, h1)" "pmap f xs h1 = Some (Inr zs, h')" "ys = y # zs"
    by (auto simp: pbind_Inr)
  have "suffix h1 h'" using requests_suffix [OF requests_pmap [OF assms] *(2)] .
  with * Cons show ?case by (metis set_ConsD)
qed

section \<open>Triples\<close>

text \<open>
  From a history with \<open>I\<close>, whatever the program ends with leaves a history with \<open>G\<close>, and a returned
  value one with \<open>J\<close>.
\<close>

definition triple :: "('ev list \<Rightarrow> bool) \<Rightarrow> ('ev list \<Rightarrow> bool) \<Rightarrow> ('ev, 'e, 'a) program \<Rightarrow> ('a \<Rightarrow> 'ev list \<Rightarrow> bool) \<Rightarrow> bool" where
  "triple G I m J \<longleftrightarrow> (\<forall>h r h'. m h = Some (r, h') \<longrightarrow> I h \<longrightarrow> G h' \<and> (\<forall>x. r = Inr x \<longrightarrow> J x h'))"

lemma triple_pbind:
  assumes "triple G I m J" "\<And>x. triple G (J x) (f x) K"
  shows "triple G I (pbind m f) K"
  unfolding triple_def
proof (intro allI impI)
  fix h r h'
  assume "pbind m f h = Some (r, h')" "I h"
  then show "G h' \<and> (\<forall>x. r = Inr x \<longrightarrow> K x h')"
    using assms by (cases rule: pbind_steps) (fastforce simp: triple_def)+
qed

lemma triple_pmap:
  assumes "\<And>x. triple G G (f x) (\<lambda>_. G)"
  shows "triple G G (pmap f xs) (\<lambda>_. G)"
proof (induction xs)
  case Nil
  then show ?case by (simp add: triple_def preturn_def)
next
  case (Cons x xs)
  have "triple G G (preturn (y # ys)) (\<lambda>_. G)" for y ys by (simp add: triple_def preturn_def)
  then show ?case using assms Cons.IH by (auto intro!: triple_pbind)
qed

text \<open>A program whose requests satisfy \<open>P\<close> keeps what such requests keep.\<close>

lemma triple_requests:
  assumes "requests P m" "\<And>h es. I h \<Longrightarrow> list_all P es \<Longrightarrow> I (es @ h)" "\<And>h. I h \<Longrightarrow> G h"
  shows "triple G I m (\<lambda>_. I)"
  unfolding triple_def using assms by (blast dest: requestsD)

end
