(* ===== verification/Recovery.thy ===== *)
theory Recovery
  imports Programs Csv_Evidence
begin

text \<open>
  Model of \<open>postgres-local-partition/ci/validate-recovery.py\<close>: the qualification that kills a run of the
  partitioned workload from outside, recovers it, continues it in a new process and compares the
  durable state before and after. The programs it starts, their processes, the marker files and the
  clock are parameters (\<open>machine\<close>), whose answers depend on the history of requests. Assertion
  failures carry a short text; \<open>subprocess.run\<close> without a timeout is taken to return; a status is compared after \<open>str(...).upper()\<close>, which only a string can
  satisfy.
\<close>

section \<open>The machine\<close>

datatype binary = MainBinary | RecoveryBinary

text \<open>A finished process: its exit code, its standard output as JSON if it is any, its error output.\<close>

record finished =
  returncode :: int
  stdout_json :: "json option"
  stderr_text :: string

datatype marker_look = NoMarker | UnreadableMarker | UndecodableMarker | MarkerValue json

datatype recovery_event =
    RunTool binary "string list"
  | SpawnRun "string list" "(string \<times> string) list"
  | TempDirectory string
  | LookAt string
  | ReadClock
  | Nap
  | SigKill int
  | ProbePid int
  | Communicate int rat
  | WriteStop string

type_synonym recovery_history = "recovery_event list"

record machine =
  environ :: "(string \<times> string) list"
  database_url :: string
  built :: "binary \<Rightarrow> bool"
  tool :: "recovery_history \<Rightarrow> binary \<Rightarrow> string list \<Rightarrow> finished"
  spawned :: "recovery_history \<Rightarrow> string list \<Rightarrow> (string \<times> string) list \<Rightarrow> int"
  directory :: "recovery_history \<Rightarrow> string"
  marker :: "recovery_history \<Rightarrow> string \<Rightarrow> marker_look"
  seconds :: "recovery_history \<Rightarrow> rat"
  alive :: "recovery_history \<Rightarrow> int \<Rightarrow> bool"
  communicated :: "recovery_history \<Rightarrow> int \<Rightarrow> rat \<Rightarrow> finished option"

text \<open>\<open>Broken\<close> is a built-in exception of an unchecked access; \<open>TimedOut\<close> is \<open>subprocess.TimeoutExpired\<close>.\<close>

datatype recovery_error = Refused string | Broken py_error | BadValue | TimedOut

type_synonym 'a recovery = "(recovery_event, recovery_error, 'a) program"

definition check_that :: "bool \<Rightarrow> string \<Rightarrow> unit recovery" where
  "check_that c msg = plift (eguard c (Refused msg))"

definition unbroken :: "py_error + 'a \<Rightarrow> 'a recovery" where
  "unbroken m = plift (map_err Broken m)"

section \<open>Constants\<close>

definition recovery_rows :: int where
  "recovery_rows = 1024"

definition recovery_partitions :: int where
  "recovery_partitions = 128"

definition rows_per_partition :: int where
  "rows_per_partition = recovery_rows div recovery_partitions"

definition recovery_seed :: int where
  "recovery_seed = 20260908"

definition worker_points :: "int list" where
  "worker_points = [1, 8, 64]"

definition wait_seconds :: rat where
  "wait_seconds = 30"

definition cancel_timeout :: rat where
  "cancel_timeout = 20"

definition control_env :: "string list" where
  "control_env =
     [''OXIDEBATCH_WORKLOAD_CRASH_PARTITION'', ''OXIDEBATCH_WORKLOAD_CRASH_BOUNDARY'', ''OXIDEBATCH_WORKLOAD_CRASH_MARKER'',
      ''OXIDEBATCH_WORKLOAD_READY_MARKER'', ''OXIDEBATCH_WORKLOAD_DRAIN_MARKER'', ''OXIDEBATCH_WORKLOAD_WORKER_HOLD_MS'',
      ''OXIDEBATCH_WORKLOAD_STOP_FILE'']"

section \<open>Running the programs\<close>

definition clean_env :: "machine \<Rightarrow> (string \<times> string) list" where
  "clean_env m = filter (\<lambda>(name, value). name \<notin> set control_env) (environ m)"

definition env_update :: "(string \<times> string) list \<Rightarrow> (string \<times> string) list \<Rightarrow> (string \<times> string) list" where
  "env_update env controls = foldl (\<lambda>e (name, value). assoc_set e name value) env controls"

definition tool_command :: "machine \<Rightarrow> string list \<Rightarrow> string list" where
  "tool_command m args = [''--database-url'', database_url m] @ args"

definition run_tool :: "machine \<Rightarrow> binary \<Rightarrow> string list \<Rightarrow> bool \<Rightarrow> finished recovery" where
  "run_tool m b args check =
     pbind (pdo (ask (RunTool b (tool_command m args)) (\<lambda>h. Inr (tool m h b (tool_command m args))))) (\<lambda>out.
     pbind (check_that (\<not> (check \<and> returncode out \<noteq> 0)) ''command failed'') (\<lambda>_. preturn out))"

definition json_stdout :: "finished \<Rightarrow> recovery_error + obj" where
  "json_stdout out =
     ebind (want_some (stdout_json out) (Refused ''stdout was not one JSON object'')) (\<lambda>v.
       want_obj v (Refused ''expected JSON object output''))"

definition run_args :: "string \<Rightarrow> string list" where
  "run_args run_name =
     [''--run-name'', run_name, ''--rows'', show_int recovery_rows, ''--partitions'', show_int recovery_partitions]"

definition seed_source :: "machine \<Rightarrow> unit recovery" where
  "seed_source m =
     pbind (run_tool m MainBinary [''seed'', ''--rows'', show_int recovery_rows, ''--seed'', show_int recovery_seed] True)
       (\<lambda>_. preturn ())"

definition inspect :: "machine \<Rightarrow> string \<Rightarrow> obj recovery" where
  "inspect m run_name =
     pbind (run_tool m RecoveryBinary [''inspect'', ''--run-name'', run_name] True) (\<lambda>out. plift (json_stdout out))"

definition recover :: "machine \<Rightarrow> string \<Rightarrow> bool \<Rightarrow> finished recovery" where
  "recover m run_name check = run_tool m RecoveryBinary (''recover'' # run_args run_name) check"

definition verify_run :: "machine \<Rightarrow> string \<Rightarrow> obj recovery" where
  "verify_run m run_name =
     pbind (run_tool m MainBinary (''verify'' # run_args run_name) True) (\<lambda>out. plift (json_stdout out))"

definition spawn_run :: "machine \<Rightarrow> string \<Rightarrow> int \<Rightarrow> (string \<times> string) list \<Rightarrow> int recovery" where
  "spawn_run m run_name workers env =
     (let argv = tool_command m (''run'' # run_args run_name @ [''--workers'', show_int workers])
      in pdo (ask (SpawnRun argv env) (\<lambda>h. Inr (spawned m h argv env))))"

definition communicate :: "machine \<Rightarrow> int \<Rightarrow> rat \<Rightarrow> finished recovery" where
  "communicate m pid timeout =
     pdo (ask (Communicate pid timeout) (\<lambda>h. want_some (communicated m h pid timeout) TimedOut))"

definition sig_kill :: "int \<Rightarrow> unit recovery" where
  "sig_kill pid = pdo (ask (SigKill pid) (\<lambda>h. Inr ()))"

definition temp_directory :: "machine \<Rightarrow> string \<Rightarrow> string recovery" where
  "temp_directory m name = pdo (ask (TempDirectory name) (\<lambda>h. Inr (directory m h)))"

section \<open>Waiting\<close>

text \<open>One look at a marker file: only a readable JSON object is an answer.\<close>

definition look_marker :: "machine \<Rightarrow> string \<Rightarrow> (recovery_event, recovery_error, obj option) interaction" where
  "look_marker m path = ask (LookAt path) (\<lambda>h.
     case marker m h path of
       MarkerValue v \<Rightarrow> Inr (as_obj v)
     | UndecodableMarker \<Rightarrow> Inl BadValue
     | _ \<Rightarrow> Inr None)"

definition wait_json_marker :: "machine \<Rightarrow> string \<Rightarrow> obj recovery" where
  "wait_json_marker m path =
     poll_for (seconds m) ReadClock Nap (look_marker m path) (Refused ''marker was not readable before timeout'') wait_seconds"

definition probe_pid :: "machine \<Rightarrow> int \<Rightarrow> (recovery_event, recovery_error, unit option) interaction" where
  "probe_pid m pid = ask (ProbePid pid) (\<lambda>h. Inr (if alive m h pid then None else Some ()))"

definition assert_pid_gone :: "machine \<Rightarrow> int \<Rightarrow> unit recovery" where
  "assert_pid_gone m pid =
     poll_for (seconds m) ReadClock Nap (probe_pid m pid) (Refused ''old process still exists'') 5"

section \<open>Observations\<close>

definition status_is :: "json \<Rightarrow> string \<Rightarrow> bool" where
  "status_is v s \<longleftrightarrow> (case as_str v of Some t \<Rightarrow> upper t = s | None \<Rightarrow> False)"

fun add_partition :: "(string \<times> obj) list \<Rightarrow> json \<Rightarrow> recovery_error + (string \<times> obj) list" where
  "add_partition seen (JObj d) =
     (case dget d ''key'' of
        JStr key \<Rightarrow> ebind (eguard (key \<notin> set (map fst seen)) (Refused ''duplicate partition observation'')) (\<lambda>_. Inr (seen @ [(key, d)]))
      | _ \<Rightarrow> Inl (Refused ''malformed partition observation''))"
| "add_partition seen v = Inl (Refused ''malformed partition observation'')"

definition partition_map :: "obj \<Rightarrow> recovery_error + (string \<times> obj) list" where
  "partition_map observation =
     ebind (want_arr (dget observation ''partitions'') (Refused ''inspection omitted partition list'')) (\<lambda>ps. efold add_partition [] ps)"

text \<open>\<open>len\<close> of a decoded value.\<close>

fun py_len :: "json \<Rightarrow> py_error + int" where
  "py_len (JArr xs) = Inr (int (length xs))"
| "py_len (JObj d) = Inr (int (length d))"
| "py_len (JStr s) = Inr (int (length s))"
| "py_len _ = Inl TypeErr"

definition worker_of :: "obj \<Rightarrow> json" where
  "worker_of p = dget p ''worker_step_execution_id''"

definition partition_completed :: "obj \<Rightarrow> bool" where
  "partition_completed p \<longleftrightarrow> status_is (dget p ''status'') ''COMPLETED''"

section \<open>The state after a recovery\<close>

text \<open>\<open>v.get(key)\<close> on a value that may be no dict.\<close>

definition method_get :: "json \<Rightarrow> string \<Rightarrow> recovery_error + json" where
  "method_get v key = map_err Broken (getattr_get v key JNull)"

definition demand :: "bool \<Rightarrow> string \<Rightarrow> recovery_error + unit" where
  "demand c msg = eguard c (Refused msg)"

definition check_verified :: "obj \<Rightarrow> recovery_error + json" where
  "check_verified final_verify =
     (let framework = get_default final_verify ''framework'' (JObj []); business = get_default final_verify ''business'' (JObj []) in
      ebind (method_get framework ''terminal_state_consistent'') (\<lambda>terminal.
      ebind (demand (truthy terminal) ''framework state'') (\<lambda>_.
      ebind (method_get business ''destination_rows'') (\<lambda>rows.
      ebind (demand (py_eq rows (JInt recovery_rows)) ''destination row count'') (\<lambda>_.
      ebind (method_get business ''expected_destination_digest'') (\<lambda>expected.
      ebind (method_get business ''actual_destination_digest'') (\<lambda>actual.
      ebind (demand (py_eq expected actual) ''destination digest'') (\<lambda>_.
      ebind (method_get business ''range_ownership_complete'') (\<lambda>owned.
      ebind (demand (truthy owned) ''range ownership'') (\<lambda>_. Inr actual))))))))))"

definition check_continued :: "obj \<Rightarrow> obj \<Rightarrow> recovery_error + unit" where
  "check_continued before final =
     ebind (demand (status_is (dget final ''latest_execution_status'') ''COMPLETED'') ''continuation did not finish'') (\<lambda>_.
     ebind (demand (py_eq (dget final ''nonterminal_execution_count'') (JInt 0)) ''nonterminal execution'') (\<lambda>_.
     ebind (map_err Broken (py_len (get_default final ''executions'' (JArr [])))) (\<lambda>n.
     ebind (map_err Broken (py_len (get_default before ''executions'' (JArr [])))) (\<lambda>k.
       demand (n = k + 1) ''exactly one continuation''))))"

text \<open>Partitions completed before the crash, with the worker that completed them.\<close>

definition completed_before :: "(string \<times> obj) list \<Rightarrow> (string \<times> json) list" where
  "completed_before bps = map (\<lambda>(key, p). (key, worker_of p)) (filter (\<lambda>(key, p). partition_completed p) bps)"

definition check_partitions :: "(string \<times> obj) list \<Rightarrow> (string \<times> obj) list \<Rightarrow> string \<Rightarrow> recovery_error + json \<times> json" where
  "check_partitions bps fps target_key =
     ebind (demand (set (map fst bps) = set (map fst fps) \<and> int (length fps) = recovery_partitions) ''partition key set'') (\<lambda>_.
     ebind (demand (list_all (\<lambda>(key, p). partition_completed p) fps) ''not every partition is COMPLETED'') (\<lambda>_.
     ebind (demand (completed_before bps \<noteq> []) ''crash before any completed partition'') (\<lambda>_.
     ebind (demand (list_all (\<lambda>(key, w). w \<noteq> JNull) (completed_before bps)) ''worker identity'') (\<lambda>_.
     ebind (emap (\<lambda>(key, w).
        ebind (want_some (map_of fps key) (Broken (KeyErr key))) (\<lambda>p.
          demand (py_eq (worker_of p) w) ''completed partition was re-executed'')) (completed_before bps)) (\<lambda>_.
     ebind (want_some (map_of bps target_key) (Broken (KeyErr target_key))) (\<lambda>before.
     ebind (want_some (map_of fps target_key) (Broken (KeyErr target_key))) (\<lambda>after.
     ebind (demand (worker_of before \<noteq> JNull \<and> worker_of after \<noteq> JNull \<and> \<not> py_eq (worker_of before) (worker_of after))
        ''target not executed by a new worker'') (\<lambda>_. Inr (worker_of before, worker_of after)))))))))"

definition compare_recovery :: "obj \<Rightarrow> obj \<Rightarrow> string \<Rightarrow> json \<Rightarrow> int \<Rightarrow> recovery_error + obj" where
  "compare_recovery before final target_key digest continuation_pid =
     ebind (check_continued before final) (\<lambda>_.
     ebind (partition_map before) (\<lambda>bps.
     ebind (partition_map final) (\<lambda>fps.
     ebind (check_partitions bps fps target_key) (\<lambda>(old_worker, new_worker).
       Inr [(''completed_partitions_reused'', JInt (int (length (completed_before bps)))),
            (''target_old_worker_step_execution_id'', old_worker), (''target_new_worker_step_execution_id'', new_worker),
            (''final_destination_digest_sha256'', digest), (''continuation_pid'', JInt continuation_pid)]))))"

definition assert_final_recovery :: "machine \<Rightarrow> string \<Rightarrow> obj \<Rightarrow> string \<Rightarrow> int \<Rightarrow> int \<Rightarrow> obj recovery" where
  "assert_final_recovery m run_name before target_key old_pid continuation_pid =
     pbind (check_that (continuation_pid \<noteq> old_pid) ''continuation reused the killed PID'') (\<lambda>_.
     pbind (verify_run m run_name) (\<lambda>final_verify.
     pbind (plift (check_verified final_verify)) (\<lambda>digest.
     pbind (inspect m run_name) (\<lambda>final.
       plift (compare_recovery before final target_key digest continuation_pid)))))"

section \<open>A crash\<close>

definition pad4 :: "int \<Rightarrow> string" where
  "pad4 n = (let s = show_int n in replicate (4 - length s) (CHR ''0'') @ s)"

definition target_partition :: "int \<Rightarrow> string" where
  "target_partition workers = ''partition-'' @ pad4 workers"

definition crash_controls :: "string \<Rightarrow> string \<Rightarrow> string \<Rightarrow> (string \<times> string) list" where
  "crash_controls target_key boundary marker_path =
     [(''OXIDEBATCH_WORKLOAD_CRASH_PARTITION'', target_key), (''OXIDEBATCH_WORKLOAD_CRASH_BOUNDARY'', boundary),
      (''OXIDEBATCH_WORKLOAD_CRASH_MARKER'', marker_path)]"

text \<open>Kill a process and wait until it is gone.\<close>

definition kill_run :: "machine \<Rightarrow> int \<Rightarrow> unit recovery" where
  "kill_run m pid =
     pbind (sig_kill pid) (\<lambda>_.
     pbind (communicate m pid 10) (\<lambda>crashed.
     pbind (check_that (returncode crashed = - 9) ''expected external SIGKILL'') (\<lambda>_.
       assert_pid_gone m pid)))"

definition check_crashed :: "obj \<Rightarrow> string \<Rightarrow> string \<Rightarrow> recovery_error + unit" where
  "check_crashed before target_key boundary =
     (let status = dget before ''latest_execution_status'' in
      ebind (demand (list_ex (status_is status) [''STARTING'', ''STARTED'', ''STOPPING'', ''UNKNOWN'']) ''not durably nonterminal'') (\<lambda>_.
      ebind (partition_map before) (\<lambda>bps.
      ebind (want_some (map_of bps target_key) (Broken (KeyErr target_key))) (\<lambda>target.
      ebind (demand (\<not> partition_completed target) ''target completed before SIGKILL'') (\<lambda>_.
        demand (py_eq (dget target ''business_rows'')
          (JInt (if boundary = ''before-write'' then 0 else rows_per_partition))) ''target business rows'')))))"

text \<open>The continuation in a new process, without any control variable.\<close>

definition continue_run :: "machine \<Rightarrow> string \<Rightarrow> int \<Rightarrow> int recovery" where
  "continue_run m run_name workers =
     pbind (spawn_run m run_name workers (clean_env m)) (\<lambda>pid.
     pbind (communicate m pid wait_seconds) (\<lambda>out.
     pbind (check_that (returncode out = 0) ''continuation failed'') (\<lambda>_. preturn pid)))"

definition start_crash :: "machine \<Rightarrow> string \<Rightarrow> int \<Rightarrow> string \<Rightarrow> string \<Rightarrow> (int \<times> obj) recovery" where
  "start_crash m run_name workers boundary tmp_name =
     pbind (temp_directory m tmp_name) (\<lambda>dir.
     let path = dir @ ''/crash.json'';
         env = env_update (clean_env m) (crash_controls (target_partition workers) boundary path) in
     pbind (spawn_run m run_name workers env) (\<lambda>pid.
     pbind (wait_json_marker m path) (\<lambda>mark.
     pbind (check_that (py_eq (dget mark ''pid'') (JInt pid)) ''crash marker PID'') (\<lambda>_. preturn (pid, mark)))))"

definition crash_name :: "string \<Rightarrow> int \<Rightarrow> string \<Rightarrow> string" where
  "crash_name case_id workers boundary = case_id @ ''-w'' @ show_int workers @ ''-'' @ boundary"

definition crash_case :: "machine \<Rightarrow> int \<Rightarrow> string \<Rightarrow> string \<Rightarrow> obj recovery" where
  "crash_case m workers boundary case_id =
     pbind (seed_source m) (\<lambda>_.
     let run_name = crash_name case_id workers boundary; target_key = target_partition workers in
     pbind (start_crash m run_name workers boundary ''campaign93-crash-'') (\<lambda>(pid, mark).
     pbind (check_that (dget mark ''partition_key'' = JStr target_key \<and> dget mark ''boundary'' = JStr boundary)
        ''crash marker semantic boundary'') (\<lambda>_.
     pbind (kill_run m pid) (\<lambda>_.
     pbind (inspect m run_name) (\<lambda>before.
     pbind (plift (check_crashed before target_key boundary)) (\<lambda>_.
     pbind (recover m run_name True) (\<lambda>_.
     pbind (continue_run m run_name workers) (\<lambda>continuation_pid.
     pbind (assert_final_recovery m run_name before target_key pid continuation_pid) (\<lambda>final.
       preturn ([(''workers'', JInt workers), (''boundary'', JStr boundary), (''killed_pid'', JInt pid),
          (''pre_crash_target_business_rows'', JInt (if boundary = ''before-write'' then 0 else rows_per_partition)),
          (''replayed_target_partition'', JBool (boundary = ''after-business-write''))] @ final))))))))))"

section \<open>A changed source\<close>

definition mutate_source :: "machine \<Rightarrow> int \<Rightarrow> unit recovery" where
  "mutate_source m delta =
     pbind (run_tool m RecoveryBinary [''mutate-source'', ''--source-id'', ''1'', ''--delta'', show_int delta] True) (\<lambda>_. preturn ())"

definition mutation_name :: "string \<Rightarrow> string" where
  "mutation_name case_id = case_id @ ''-source-mutation''"

definition source_mutation_case :: "machine \<Rightarrow> string \<Rightarrow> obj recovery" where
  "source_mutation_case m case_id =
     pbind (seed_source m) (\<lambda>_.
     let workers = 8; run_name = mutation_name case_id; target_key = target_partition workers in
     pbind (start_crash m run_name workers ''before-write'' ''campaign93-mutation-'') (\<lambda>(pid, mark).
     pbind (kill_run m pid) (\<lambda>_.
     pbind (inspect m run_name) (\<lambda>before.
     pbind (mutate_source m 1) (\<lambda>_.
     pbind (recover m run_name False) (\<lambda>refused.
     pbind (check_that (returncode refused \<noteq> 0) ''recovery accepted a mutated source'') (\<lambda>_.
     pbind (check_that (contains ''recovery refused'' (stderr_text refused)) ''unexpected recovery failure'') (\<lambda>_.
     pbind (inspect m run_name) (\<lambda>changed.
     pbind (check_that (\<not> py_eq (dget changed ''live_source_digest'') (dget before ''live_source_digest'')) ''live source digest unchanged'') (\<lambda>_.
     pbind (mutate_source m (- 1)) (\<lambda>_.
     pbind (inspect m run_name) (\<lambda>restored.
     pbind (check_that (py_eq (dget restored ''live_source_digest'') (dget before ''live_source_digest'')) ''source not restored'') (\<lambda>_.
     pbind (recover m run_name True) (\<lambda>_.
     pbind (continue_run m run_name workers) (\<lambda>continuation_pid.
     pbind (assert_final_recovery m run_name before target_key pid continuation_pid) (\<lambda>final.
       preturn ([(''workers'', JInt workers), (''killed_pid'', JInt pid), (''mutated_source_recovery_refused'', JBool True),
          (''original_source_digest_sha256'', dget before ''live_source_digest'')] @ final)))))))))))))))))"

section \<open>A cancellation\<close>

definition cancel_controls :: "string \<Rightarrow> string \<Rightarrow> (string \<times> string) list" where
  "cancel_controls ready_path stop_path =
     [(''OXIDEBATCH_WORKLOAD_READY_MARKER'', ready_path), (''OXIDEBATCH_WORKLOAD_WORKER_HOLD_MS'', ''5000''),
      (''OXIDEBATCH_WORKLOAD_STOP_FILE'', stop_path)]"

text \<open>\<open>int(v)\<close> of a decoded value; a string is parsed, a float truncated.\<close>

fun int_of_value :: "json \<Rightarrow> recovery_error + int" where
  "int_of_value (JInt n) = Inr n"
| "int_of_value (JBool b) = Inr (if b then 1 else 0)"
| "int_of_value (JFloat (Fin q)) = Inr (if 0 \<le> q then \<lfloor>q\<rfloor> else \<lceil>q\<rceil>)"
| "int_of_value (JFloat _) = Inl BadValue"
| "int_of_value (JStr s) = want_some (int_of_str s) BadValue"
| "int_of_value _ = Inl (Broken TypeErr)"

definition business_rows :: "obj \<Rightarrow> recovery_error + int" where
  "business_rows durable =
     ebind (partition_map durable) (\<lambda>ps.
     ebind (emap (\<lambda>(key, p). int_of_value (get_default p ''business_rows'' (JInt 0))) ps) (\<lambda>ns. Inr (sum_list ns)))"

definition check_cancelled_run :: "json \<Rightarrow> int \<Rightarrow> recovery_error + json" where
  "check_cancelled_run observation workers =
     ebind (method_get observation ''peak_active_workers'') (\<lambda>peak.
     ebind (demand (py_eq peak (JInt workers)) ''peak worker occupancy'') (\<lambda>_.
     ebind (method_get observation ''active_workers_after_join'') (\<lambda>active.
     ebind (demand (py_eq active (JInt 0)) ''workers active after join'') (\<lambda>_.
     ebind (method_get observation ''launch_completed'') (\<lambda>completed.
     ebind (demand (completed = JBool False) ''launch misclassified'') (\<lambda>_. Inr active))))))"

definition check_cancelled :: "obj \<Rightarrow> recovery_error + int" where
  "check_cancelled durable =
     ebind (demand (status_is (dget durable ''latest_execution_status'') ''STOPPED'') ''job not STOPPED'') (\<lambda>_.
     ebind (demand (status_is (dget durable ''latest_parent_status'') ''STOPPED'') ''parent not STOPPED'') (\<lambda>_.
     ebind (demand (py_eq (dget durable ''nonterminal_execution_count'') (JInt 0)) ''nonterminal execution'') (\<lambda>_.
     ebind (business_rows durable) (\<lambda>rows.
     ebind (demand (rows = 0) ''business writes before the stop'') (\<lambda>_. Inr rows)))))"

definition read_clock :: "machine \<Rightarrow> rat recovery" where
  "read_clock m = pdo (ask ReadClock (\<lambda>h. Inr (seconds m h)))"

text \<open>\<open>round((t1 - t0) * 1000.0, 3)\<close>: every step rounds to a double, and the decimal one ties to even.\<close>

definition float_map :: "(rat \<Rightarrow> rat) \<Rightarrow> pyfloat \<Rightarrow> pyfloat" where
  "float_map f x = (case x of Fin q \<Rightarrow> to_double (f q) | _ \<Rightarrow> x)"

definition round_thousandths :: "rat \<Rightarrow> rat" where
  "round_thousandths q = (case quotient_of (q * 1000) of (n, d) \<Rightarrow> of_int (round_div n d) / 1000)"

definition latency_ms :: "rat \<Rightarrow> rat \<Rightarrow> pyfloat" where
  "latency_ms t0 t1 = float_map round_thousandths (float_map (\<lambda>q. q * 1000) (to_double (t1 - t0)))"

definition cancel_name :: "string \<Rightarrow> int \<Rightarrow> string" where
  "cancel_name case_id workers = case_id @ ''-cancel-w'' @ show_int workers"

definition cancellation_case :: "machine \<Rightarrow> string \<Rightarrow> obj recovery" where
  "cancellation_case m case_id =
     pbind (seed_source m) (\<lambda>_.
     let workers = 64; run_name = cancel_name case_id workers in
     pbind (temp_directory m ''campaign93-cancel-'') (\<lambda>dir.
     let ready_path = dir @ ''/ready.json''; stop_path = dir @ ''/stop.request'' in
     pbind (spawn_run m run_name workers (env_update (clean_env m) (cancel_controls ready_path stop_path))) (\<lambda>pid.
     pbind (wait_json_marker m ready_path) (\<lambda>ready.
     pbind (check_that (py_eq (dget ready ''pid'') (JInt pid)) ''cancellation ready marker PID'') (\<lambda>_.
     pbind (check_that (py_eq (dget ready ''active_workers'') (JInt workers) \<and> py_eq (dget ready ''peak_workers'') (JInt workers))
        ''full worker occupancy'') (\<lambda>_.
     pbind (read_clock m) (\<lambda>requested_at.
     pbind (pdo (ask (WriteStop stop_path) (\<lambda>h. Inr ()))) (\<lambda>_.
     pbind (communicate m pid cancel_timeout) (\<lambda>out.
     pbind (read_clock m) (\<lambda>ended_at.
     pbind (check_that (returncode out \<noteq> 0) ''cancelled run satisfied verification'') (\<lambda>_.
     pbind (plift (want_some (stdout_json out) (Refused ''no final-state observation''))) (\<lambda>observation.
     pbind (plift (check_cancelled_run observation workers)) (\<lambda>active.
     pbind (inspect m run_name) (\<lambda>durable.
     pbind (plift (check_cancelled durable)) (\<lambda>rows.
       preturn [(''workers'', JInt workers), (''pid'', JInt pid),
          (''external_stop_to_process_terminal_ms'', JFloat (latency_ms requested_at ended_at)),
          (''peak_active_workers'', get_in observation ''peak_active_workers''), (''active_workers_after_join'', active),
          (''durable_job_status'', dget durable ''latest_execution_status''),
          (''durable_parent_status'', dget durable ''latest_parent_status''), (''business_rows_before_terminal'', JInt rows),
          (''timeout_is_harness_liveness_guard_not_product_sla'', JFloat (Fin cancel_timeout))])))))))))))))))"

section \<open>The qualification\<close>

definition boundaries :: "string list" where
  "boundaries = [''before-write'', ''after-business-write'']"

definition crash_points :: "(int \<times> string) list" where
  "crash_points = concat (map (\<lambda>w. map (Pair w) boundaries) worker_points)"

definition recovery_main :: "machine \<Rightarrow> string \<Rightarrow> obj recovery" where
  "recovery_main m identity =
     pbind (check_that (built m MainBinary \<and> built m RecoveryBinary) ''expected debug binaries are missing'') (\<lambda>_.
     pbind (pmap (\<lambda>(workers, boundary). crash_case m workers boundary identity) crash_points) (\<lambda>crashes.
     pbind (source_mutation_case m identity) (\<lambda>mutation.
     pbind (cancellation_case m identity) (\<lambda>cancellation.
       preturn [(''campaign'', JInt 93), (''validation_subject'', JStr ''oxide-batch =0.6.0''),
          (''classification'', JStr ''recovery/cancellation qualification; no performance claim''),
          (''rows'', JInt recovery_rows), (''partitions'', JInt recovery_partitions), (''rows_per_partition'', JInt rows_per_partition),
          (''crash_cases'', JArr (map JObj crashes)), (''source_mutation'', JObj mutation), (''cancellation'', JObj cancellation)]))))"

section \<open>What a step shows\<close>

text \<open>A tool that was run at a history, exited with 0 and printed an object.\<close>

definition tool_ok :: "machine \<Rightarrow> recovery_history \<Rightarrow> binary \<Rightarrow> string list \<Rightarrow> bool" where
  "tool_ok m h b args \<longleftrightarrow> returncode (tool m h b (tool_command m args)) = 0"

definition observed :: "machine \<Rightarrow> recovery_history \<Rightarrow> binary \<Rightarrow> string list \<Rightarrow> obj \<Rightarrow> bool" where
  "observed m h b args d \<longleftrightarrow> tool_ok m h b args \<and> stdout_json (tool m h b (tool_command m args)) = Some (JObj d)"

lemma check_that_Inr [program_simps]: "check_that c msg h = Some (Inr u, h') \<longleftrightarrow> c \<and> h' = h"
  by (auto simp: check_that_def)

lemma run_tool_Inr:
  "run_tool m b args True h = Some (Inr out, h') \<longleftrightarrow>
     tool_ok m h b args \<and> out = tool m h b (tool_command m args) \<and> h' = RunTool b (tool_command m args) # h"
  by (auto simp: run_tool_def program_simps tool_ok_def ask_Inr)

lemma json_stdout_Inr: "json_stdout out = Inr d \<longleftrightarrow> stdout_json out = Some (JObj d)"
  by (auto simp: json_stdout_def ebind_Inr_iff want_some_Inr want_Inr)

lemma inspect_Inr:
  "inspect m run_name h = Some (Inr d, h') \<longleftrightarrow>
     observed m h RecoveryBinary [''inspect'', ''--run-name'', run_name] d \<and>
     h' = RunTool RecoveryBinary (tool_command m [''inspect'', ''--run-name'', run_name]) # h"
  by (auto simp: inspect_def pbind_Inr run_tool_Inr json_stdout_Inr observed_def)

lemma verify_run_Inr:
  "verify_run m run_name h = Some (Inr d, h') \<longleftrightarrow>
     observed m h MainBinary (''verify'' # run_args run_name) d \<and>
     h' = RunTool MainBinary (tool_command m (''verify'' # run_args run_name)) # h"
  by (auto simp: verify_run_def pbind_Inr run_tool_Inr json_stdout_Inr observed_def)

lemma recover_Inr:
  "recover m run_name True h = Some (Inr out, h') \<longleftrightarrow>
     tool_ok m h RecoveryBinary (''recover'' # run_args run_name) \<and>
     out = tool m h RecoveryBinary (tool_command m (''recover'' # run_args run_name)) \<and>
     h' = RunTool RecoveryBinary (tool_command m (''recover'' # run_args run_name)) # h"
  by (simp add: recover_def run_tool_Inr)

text \<open>Requests other than a kill.\<close>

definition calm :: "recovery_event \<Rightarrow> bool" where
  "calm ev \<longleftrightarrow> (\<forall>pid. ev \<noteq> SigKill pid)"

lemma calm_simps [simp]: "calm (RunTool b args)" "calm (SpawnRun argv env)" "calm (TempDirectory n)" "calm (LookAt path)"
  "calm ReadClock" "calm Nap" "calm (ProbePid pid)" "calm (Communicate pid t)" "calm (WriteStop path)" "\<not> calm (SigKill pid)"
  by (simp_all add: calm_def)

lemma calm_look [grows_intros]: "grows calm (look_marker m path)"
  by (simp add: look_marker_def grows_ask)

lemma calm_probe [grows_intros]: "grows calm (probe_pid m pid)"
  by (simp add: probe_pid_def grows_ask)

lemma wait_json_marker_Inr:
  assumes "wait_json_marker m path h = Some (Inr d, h')"
  shows "\<exists>h0. marker m h0 path = MarkerValue (JObj d) \<and> h' = LookAt path # h0 \<and> suffix h h0"
proof -
  obtain h0 where "look_marker m path h0 = (Inr (Some d), h')" "suffix h h0"
    using poll_for_found [OF assms [unfolded wait_json_marker_def] calm_look] by blast
  then show ?thesis by (auto simp: look_marker_def ask_Inr split: marker_look.splits)
qed

lemma assert_pid_gone_Inr:
  assumes "assert_pid_gone m pid h = Some (Inr u, h')"
  shows "\<exists>h0. \<not> alive m h0 pid \<and> h' = ProbePid pid # h0 \<and> suffix h h0"
proof -
  obtain h0 where "probe_pid m pid h0 = (Inr (Some u), h')" "suffix h h0"
    using poll_for_found [OF assms [unfolded assert_pid_gone_def] calm_probe] by blast
  then show ?thesis by (auto simp: probe_pid_def ask_Inr split: if_splits)
qed

lemma spawn_run_Inr:
  "spawn_run m run_name workers env h = Some (Inr pid, h') \<longleftrightarrow>
     (let argv = tool_command m (''run'' # run_args run_name @ [''--workers'', show_int workers])
      in pid = spawned m h argv env \<and> h' = SpawnRun argv env # h)"
  by (auto simp: spawn_run_def Let_def ask_Inr)

lemma communicate_Inr:
  "communicate m pid timeout h = Some (Inr out, h') \<longleftrightarrow> communicated m h pid timeout = Some out \<and> h' = Communicate pid timeout # h"
  by (auto simp: communicate_def ask_Inr want_some_Inr)

lemma kill_run_Inr:
  assumes "kill_run m pid h = Some (Inr u, h')"
  shows "\<exists>hg. \<not> alive m hg pid \<and> h' = ProbePid pid # hg \<and> suffix (SigKill pid # h) hg"
proof -
  obtain h1 where "assert_pid_gone m pid h1 = Some (Inr u, h')" "h1 = Communicate pid 10 # SigKill pid # h"
    using assms by (auto simp: kill_run_def pbind_Inr check_that_Inr communicate_Inr sig_kill_def ask_Inr)
  from assert_pid_gone_Inr [OF this(1)] this(2) show ?thesis by (auto dest: suffix_ConsD)
qed

section \<open>What the comparison shows\<close>

text \<open>
  The durable state before and after: every partition completed before keeps the worker execution
  that completed it, the target is completed by another one, and nothing is missing.
\<close>

definition resumed_once :: "obj \<Rightarrow> obj \<Rightarrow> string \<Rightarrow> bool" where
  "resumed_once before final target_key \<longleftrightarrow>
     (\<exists>bps fps target target'. partition_map before = Inr bps \<and> partition_map final = Inr fps \<and>
        int (length fps) = recovery_partitions \<and> set (map fst bps) = set (map fst fps) \<and>
        (\<forall>key p. (key, p) \<in> set fps \<longrightarrow> partition_completed p) \<and>
        (\<exists>key p. (key, p) \<in> set bps \<and> partition_completed p) \<and>
        (\<forall>key p. (key, p) \<in> set bps \<longrightarrow> partition_completed p \<longrightarrow>
           worker_of p \<noteq> JNull \<and> (\<exists>q. map_of fps key = Some q \<and> py_eq (worker_of q) (worker_of p))) \<and>
        map_of bps target_key = Some target \<and> map_of fps target_key = Some target' \<and>
        worker_of target' \<noteq> JNull \<and> \<not> py_eq (worker_of target) (worker_of target'))"

lemma demand_Inr: "demand c msg = Inr u \<longleftrightarrow> c"
  by (simp add: demand_def)

lemma compare_recovery_Inr:
  assumes "compare_recovery before final target_key digest pid = Inr d"
  shows "resumed_once before final target_key \<and> status_is (dget final ''latest_execution_status'') ''COMPLETED'' \<and>
    py_eq (dget final ''nonterminal_execution_count'') (JInt 0)"
proof -
  obtain bps fps old new where c: "check_continued before final = Inr ()" "partition_map before = Inr bps"
    "partition_map final = Inr fps" "check_partitions bps fps target_key = Inr (old, new)"
    using assms by (auto simp: compare_recovery_def ebind_Inr_iff)
  from c(4) obtain target target' us where p: "set (map fst bps) = set (map fst fps)" "int (length fps) = recovery_partitions"
    "list_all (\<lambda>(key, p). partition_completed p) fps" "completed_before bps \<noteq> []" "list_all (\<lambda>(key, w). w \<noteq> JNull) (completed_before bps)"
    "emap (\<lambda>(key, w). ebind (want_some (map_of fps key) (Broken (KeyErr key))) (\<lambda>p.
        demand (py_eq (worker_of p) w) ''completed partition was re-executed'')) (completed_before bps) = Inr us"
    "map_of bps target_key = Some target" "map_of fps target_key = Some target'"
    "worker_of target' \<noteq> JNull" "\<not> py_eq (worker_of target) (worker_of target')"
    unfolding check_partitions_def ebind_Inr_iff demand_Inr want_some_Inr by blast
  have kept: "worker_of p \<noteq> JNull \<and> (\<exists>q. map_of fps key = Some q \<and> py_eq (worker_of q) (worker_of p))"
    if "(key, p) \<in> set bps" "partition_completed p" for key p
  proof -
    have mem: "(key, worker_of p) \<in> set (completed_before bps)" using that by (force simp: completed_before_def)
    have "isOK (Inr us :: recovery_error + unit list)" by simp
    note this [folded p(6), unfolded isOK_emap, rule_format, OF mem, unfolded split]
    then show ?thesis using mem p(5) by (auto simp: isOK_iff ebind_Inr_iff want_some_Inr demand_Inr list_all_iff)
  qed
  have "\<exists>key p. (key, p) \<in> set bps \<and> partition_completed p"
    using p(4) by (auto simp: completed_before_def filter_empty_conv)
  moreover have "partition_completed p" if "(key, p) \<in> set fps" for key p
    using p(3) that by (auto simp: list_all_iff)
  ultimately have "resumed_once before final target_key"
    unfolding resumed_once_def using c(2,3) p kept by blast
  moreover have "status_is (dget final ''latest_execution_status'') ''COMPLETED''" "py_eq (dget final ''nonterminal_execution_count'') (JInt 0)"
    using c(1) by (auto simp: check_continued_def ebind_Inr_iff demand_Inr)
  ultimately show ?thesis by blast
qed

section \<open>What a crash case shows\<close>

lemma calm_steps [request_intros]:
  "requests calm (check_that c msg)" "requests calm (run_tool m b args check)" "requests calm (communicate m pid timeout)"
  "requests calm (temp_directory m name)" "requests calm (spawn_run m run_name workers env)" "requests calm (read_clock m)"
  "requests calm (wait_json_marker m path)" "requests calm (assert_pid_gone m pid)" "requests calm (pdo (ask (WriteStop path) f))"
  by (auto simp: check_that_def run_tool_def communicate_def temp_directory_def spawn_run_def read_clock_def Let_def
      wait_json_marker_def assert_pid_gone_def intro!: request_intros grows_intros)

lemma calm_tools [request_intros]:
  "requests calm (seed_source m)" "requests calm (inspect m run_name)" "requests calm (recover m run_name check)"
  "requests calm (verify_run m run_name)" "requests calm (mutate_source m delta)"
  by (auto simp: seed_source_def inspect_def recover_def verify_run_def mutate_source_def intro!: request_intros)

lemma calm_runs [request_intros]:
  "requests calm (continue_run m run_name workers)" "requests calm (start_crash m run_name workers boundary tmp_name)"
  "requests calm (assert_final_recovery m run_name before target_key old_pid pid)"
  by (auto simp: continue_run_def start_crash_def assert_final_recovery_def Let_def intro!: request_intros)

lemma calm_cancellation [request_intros]: "requests calm (cancellation_case m case_id)"
  unfolding cancellation_case_def Let_def by (intro request_intros)

lemma start_crash_Inr:
  assumes "start_crash m run_name workers boundary tmp_name h = Some (Inr (pid, mark), h')"
  shows "\<exists>hs argv env. spawned m hs argv env = pid \<and> suffix (SpawnRun argv env # hs) h' \<and> suffix h hs"
proof -
  obtain dir h1 h2 where d: "temp_directory m tmp_name h = Some (Inr dir, h1)"
    "spawn_run m run_name workers (env_update (clean_env m)
       (crash_controls (target_partition workers) boundary (dir @ ''/crash.json''))) h1 = Some (Inr pid, h2)"
    "wait_json_marker m (dir @ ''/crash.json'') h2 = Some (Inr mark, h')"
    using assms by (auto simp: start_crash_def pbind_Inr check_that_Inr Let_def)
  then have "suffix h h1" "suffix h2 h'"
    using wait_json_marker_Inr [OF d(3)] by (auto simp: temp_directory_def ask_Inr suffix_ConsI)
  then show ?thesis using d(2) by (auto simp: spawn_run_Inr Let_def)
qed

lemma assert_final_recovery_Inr:
  assumes "assert_final_recovery m run_name before target_key old_pid pid h = Some (Inr d, h')"
  shows "\<exists>hf final. observed m hf RecoveryBinary [''inspect'', ''--run-name'', run_name] final \<and> suffix h hf \<and> suffix hf h' \<and>
    resumed_once before final target_key \<and> status_is (dget final ''latest_execution_status'') ''COMPLETED'' \<and>
    py_eq (dget final ''nonterminal_execution_count'') (JInt 0) \<and> pid \<noteq> old_pid"
proof -
  obtain h1 final digest where "observed m h1 RecoveryBinary [''inspect'', ''--run-name'', run_name] final"
    "suffix h h1" "suffix h1 h'" "compare_recovery before final target_key digest pid = Inr d" "pid \<noteq> old_pid"
    using assms by (auto simp: assert_final_recovery_def pbind_Inr check_that_Inr verify_run_Inr inspect_Inr suffix_ConsI)
  then show ?thesis using compare_recovery_Inr by blast
qed

definition recover_args :: "string \<Rightarrow> string list" where
  "recover_args run_name = ''recover'' # run_args run_name"

text \<open>
  A recovery seen from its requests: the process was killed and seen gone, then the state was
  inspected, then the recovery ran, then a new process was spawned without control variables, and
  the state inspected after it completes the work of the first.
\<close>

definition recovered :: "machine \<Rightarrow> string \<Rightarrow> string \<Rightarrow> int \<Rightarrow> recovery_history \<Rightarrow> bool" where
  "recovered m run_name target_key pid h' \<longleftrightarrow>
     (\<exists>hk hg hb before hr argv hs hf final.
        suffix (SigKill pid # hk) hg \<and> \<not> alive m hg pid \<and>
        suffix (ProbePid pid # hg) hb \<and> observed m hb RecoveryBinary [''inspect'', ''--run-name'', run_name] before \<and>
        suffix hb hr \<and> tool_ok m hr RecoveryBinary (recover_args run_name) \<and>
        suffix (RunTool RecoveryBinary (tool_command m (recover_args run_name)) # hr) hs \<and> spawned m hs argv (clean_env m) \<noteq> pid \<and>
        suffix (SpawnRun argv (clean_env m) # hs) hf \<and>
        observed m hf RecoveryBinary [''inspect'', ''--run-name'', run_name] final \<and> suffix hf h' \<and>
        resumed_once before final target_key \<and> status_is (dget final ''latest_execution_status'') ''COMPLETED'' \<and>
        py_eq (dget final ''nonterminal_execution_count'') (JInt 0))"

lemma continue_run_Inr:
  "continue_run m run_name workers h = Some (Inr pid, h') \<Longrightarrow>
     \<exists>argv. pid = spawned m h argv (clean_env m) \<and> suffix (SpawnRun argv (clean_env m) # h) h'"
  by (auto simp: continue_run_def pbind_Inr spawn_run_Inr communicate_Inr check_that_Inr Let_def suffix_ConsI)

lemma recovered_steps:
  assumes "kill_run m pid h0 = Some (Inr u, h1)" "inspect m run_name h1 = Some (Inr before, h2)" "suffix h2 h3"
    "recover m run_name True h3 = Some (Inr out, h4)" "continue_run m run_name workers h4 = Some (Inr pid', h5)"
    "assert_final_recovery m run_name before target_key pid pid' h5 = Some (Inr d, h6)"
  shows "recovered m run_name target_key pid h6"
proof -
  obtain hg where g: "\<not> alive m hg pid" "h1 = ProbePid pid # hg" "suffix (SigKill pid # h0) hg"
    using kill_run_Inr [OF assms(1)] by blast
  have b: "observed m h1 RecoveryBinary [''inspect'', ''--run-name'', run_name] before" "suffix h1 h2"
    using assms(2) by (auto simp: inspect_Inr suffix_ConsI)
  have r: "tool_ok m h3 RecoveryBinary (recover_args run_name)"
    "h4 = RunTool RecoveryBinary (tool_command m (recover_args run_name)) # h3"
    using assms(4) by (auto simp: recover_Inr recover_args_def)
  obtain argv where s: "pid' = spawned m h4 argv (clean_env m)" "suffix (SpawnRun argv (clean_env m) # h4) h5"
    using continue_run_Inr [OF assms(5)] by blast
  obtain hf final where f: "observed m hf RecoveryBinary [''inspect'', ''--run-name'', run_name] final" "suffix h5 hf" "suffix hf h6"
    "resumed_once before final target_key" "status_is (dget final ''latest_execution_status'') ''COMPLETED''"
    "py_eq (dget final ''nonterminal_execution_count'') (JInt 0)" "pid' \<noteq> pid"
    using assert_final_recovery_Inr [OF assms(6)] by blast
  have "suffix h1 h3" using b(2) assms(3) suffix_order.trans by blast
  moreover have "suffix (SpawnRun argv (clean_env m) # h4) hf" using s(2) f(2) suffix_order.trans by blast
  ultimately show ?thesis unfolding recovered_def using g b(1) r s(1) f by blast
qed

lemma crash_case_Inr:
  assumes "crash_case m workers boundary case_id h = Some (Inr d, h')"
  shows "\<exists>pid. recovered m (crash_name case_id workers boundary) (target_partition workers) pid h'"
proof -
  let ?run = "crash_name case_id workers boundary"
  obtain pid h0 h1 before h2 out h3 pid' h4 final where "kill_run m pid h0 = Some (Inr (), h1)"
    "inspect m ?run h1 = Some (Inr before, h2)" "recover m ?run True h2 = Some (Inr out, h3)"
    "continue_run m ?run workers h3 = Some (Inr pid', h4)"
    "assert_final_recovery m ?run before (target_partition workers) pid pid' h4 = Some (Inr final, h')"
    using assms unfolding crash_case_def Let_def pbind_Inr
    by (elim exE conjE) (auto simp: program_simps check_that_Inr split: prod.splits)
  from recovered_steps [OF this(1,2) _ this(3-5)] show ?thesis by blast
qed

text \<open>Between the inspection and the accepted recovery of the mutation case, a first recovery was refused.\<close>

lemma source_mutation_case_Inr:
  assumes "source_mutation_case m case_id h = Some (Inr d, h')"
  shows "\<exists>pid hr. recovered m (mutation_name case_id) (target_partition 8) pid h' \<and> suffix hr h' \<and>
    returncode (tool m hr RecoveryBinary (tool_command m (recover_args (mutation_name case_id)))) \<noteq> 0"
proof -
  let ?run = "mutation_name case_id"
  obtain pid h0 h1 before h2 h3 refused h4 h5 changed h6 h7 restored h8 out h9 pid' h10 final where
    k: "kill_run m pid h0 = Some (Inr (), h1)" "inspect m ?run h1 = Some (Inr before, h2)"
    "mutate_source m 1 h2 = Some (Inr (), h3)" "recover m ?run False h3 = Some (Inr refused, h4)" "returncode refused \<noteq> 0"
    "inspect m ?run h4 = Some (Inr changed, h5)" "mutate_source m (- 1) h5 = Some (Inr (), h6)"
    "inspect m ?run h6 = Some (Inr restored, h7)" "recover m ?run True h7 = Some (Inr out, h8)"
    "continue_run m ?run 8 h8 = Some (Inr pid', h9)"
    "assert_final_recovery m ?run before (target_partition 8) pid pid' h9 = Some (Inr final, h')"
    using assms unfolding source_mutation_case_def Let_def pbind_Inr
    by (elim exE conjE) (auto simp: program_simps check_that_Inr split: prod.splits)
  note suf = requests_suffix [OF calm_tools(2)] requests_suffix [OF calm_tools(3)] requests_suffix [OF calm_tools(5)]
    requests_suffix [OF calm_runs(1)] requests_suffix [OF calm_runs(3)]
  have "suffix h2 h7" "suffix h3 h'"
    using suf(3) [OF k(3)] suf(2) [OF k(4)] suf(1) [OF k(6)] suf(3) [OF k(7)] suf(1) [OF k(8)] suf(2) [OF k(9)]
      suf(4) [OF k(10)] suf(5) [OF k(11)] by (meson suffix_order.trans)+
  moreover have "refused = tool m h3 RecoveryBinary (tool_command m (recover_args ?run))"
    using k(4) by (auto simp: recover_def run_tool_def program_simps ask_Inr check_that_Inr recover_args_def)
  ultimately show ?thesis using recovered_steps [OF k(1,2) _ k(9-11)] k(5) by blast
qed

section \<open>The whole qualification\<close>

lemma cancellation_case_Inr:
  assumes "cancellation_case m case_id h = Some (Inr d, h')"
  shows "\<exists>hi durable. observed m hi RecoveryBinary [''inspect'', ''--run-name'', cancel_name case_id 64] durable \<and> suffix hi h' \<and>
    status_is (dget durable ''latest_execution_status'') ''STOPPED'' \<and> status_is (dget durable ''latest_parent_status'') ''STOPPED'' \<and>
    py_eq (dget durable ''nonterminal_execution_count'') (JInt 0) \<and> business_rows durable = Inr 0"
proof -
  obtain hi durable rows where i: "inspect m (cancel_name case_id 64) hi = Some (Inr durable, h')" "check_cancelled durable = Inr rows"
    using assms unfolding cancellation_case_def Let_def pbind_Inr by (elim exE conjE) (simp add: program_simps)
  then have "observed m hi RecoveryBinary [''inspect'', ''--run-name'', cancel_name case_id 64] durable" "suffix hi h'"
    by (auto simp: inspect_Inr suffix_ConsI)
  with i(2) show ?thesis by (auto simp: check_cancelled_def ebind_Inr_iff demand_Inr)
qed

definition recovery_facts :: "machine \<Rightarrow> string \<Rightarrow> recovery_history \<Rightarrow> bool" where
  "recovery_facts m identity h' \<longleftrightarrow>
     (\<forall>workers \<in> {1, 8, 64}. \<forall>boundary \<in> {''before-write'', ''after-business-write''}. \<exists>pid hc.
        recovered m (crash_name identity workers boundary) (target_partition workers) pid hc \<and> suffix hc h') \<and>
     (\<exists>pid hc hr. recovered m (mutation_name identity) (target_partition 8) pid hc \<and> suffix hc h' \<and> suffix hr hc \<and>
        returncode (tool m hr RecoveryBinary (tool_command m (recover_args (mutation_name identity)))) \<noteq> 0) \<and>
     (\<exists>hi durable. observed m hi RecoveryBinary [''inspect'', ''--run-name'', cancel_name identity 64] durable \<and> suffix hi h' \<and>
        status_is (dget durable ''latest_execution_status'') ''STOPPED'' \<and> status_is (dget durable ''latest_parent_status'') ''STOPPED'' \<and>
        py_eq (dget durable ''nonterminal_execution_count'') (JInt 0) \<and> business_rows durable = Inr 0)"

lemma any_kill [request_intros]: "requests (\<lambda>_. True) (kill_run m pid)"
  by (auto simp: kill_run_def sig_kill_def check_that_def communicate_def assert_pid_gone_def probe_pid_def
      intro!: request_intros grows_intros)

lemma requests_mono: "requests P m \<Longrightarrow> (\<And>ev. P ev \<Longrightarrow> Q ev) \<Longrightarrow> requests Q m"
  unfolding requests_def by (metis list.pred_mono_strong)

lemma any_case: "requests (\<lambda>_. True) (crash_case m workers boundary case_id)" "requests (\<lambda>_. True) (source_mutation_case m case_id)"
  unfolding crash_case_def source_mutation_case_def Let_def split_beta
  by (auto intro!: request_intros intro: requests_mono [where P = calm])

lemma recovery_main_Inr:
  assumes "recovery_main m identity h = Some (Inr report, h')"
  shows "recovery_facts m identity h'"
proof -
  obtain h1 crashes h2 mutation h3 cancellation where r:
    "pmap (\<lambda>(workers, boundary). crash_case m workers boundary identity) crash_points h1 = Some (Inr crashes, h2)"
    "source_mutation_case m identity h2 = Some (Inr mutation, h3)" "cancellation_case m identity h3 = Some (Inr cancellation, h')"
    using assms by (auto simp: recovery_main_def pbind_Inr check_that_Inr)
  have suf: "suffix h2 h3" "suffix h3 h'"
    using requests_suffix [OF any_case(2) r(2)] requests_suffix [OF calm_cancellation r(3)] .
  then have "suffix h2 h'" using suffix_order.trans by blast
  have "\<exists>pid hc. recovered m (crash_name identity workers boundary) (target_partition workers) pid hc \<and> suffix hc h'"
    if "(workers, boundary) \<in> set crash_points" for workers boundary
  proof -
    have "requests (\<lambda>_. True) (case p of (workers, boundary) \<Rightarrow> crash_case m workers boundary identity)" for p
      using any_case by (cases p) simp
    from pmap_run [OF this r(1) that] obtain y h4 h5 where "crash_case m workers boundary identity h4 = Some (Inr y, h5)" "suffix h5 h2"
      by auto
    then show ?thesis using crash_case_Inr suffix_order.trans \<open>suffix h2 h'\<close> by blast
  qed
  then have crash: "\<forall>workers \<in> {1, 8, 64}. \<forall>boundary \<in> {''before-write'', ''after-business-write''}. \<exists>pid hc.
      recovered m (crash_name identity workers boundary) (target_partition workers) pid hc \<and> suffix hc h'"
    by (simp add: crash_points_def worker_points_def boundaries_def)
  with source_mutation_case_Inr [OF r(2)] cancellation_case_Inr [OF r(3)] suf(2) show ?thesis
    unfolding recovery_facts_def by blast
qed

section \<open>The qualification returns\<close>

lemma returns_steps [returns_intros]:
  assumes "napping_clock (seconds m) Nap \<delta>"
  shows "returns (wait_json_marker m path)" "returns (assert_pid_gone m pid)"
  unfolding wait_json_marker_def assert_pid_gone_def look_marker_def probe_pid_def
  by (auto intro!: returns_poll_for [OF assms] grows_intros)

lemma returns_calls [returns_intros]:
  "returns (check_that c msg)" "returns (run_tool m b args check)" "returns (communicate m pid timeout)" "returns (sig_kill pid)"
  "returns (temp_directory m name)" "returns (spawn_run m run_name workers env)" "returns (read_clock m)"
  by (auto simp: check_that_def run_tool_def communicate_def sig_kill_def temp_directory_def spawn_run_def read_clock_def Let_def
      intro!: returns_intros)

lemma returns_tools [returns_intros]:
  "returns (seed_source m)" "returns (inspect m run_name)" "returns (recover m run_name check)"
  "returns (verify_run m run_name)" "returns (mutate_source m delta)" "returns (continue_run m run_name workers)"
  "returns (assert_final_recovery m run_name before target_key old_pid pid)"
  by (auto simp: seed_source_def inspect_def recover_def verify_run_def mutate_source_def continue_run_def assert_final_recovery_def
      intro!: returns_intros)

lemma returns_main:
  assumes "napping_clock (seconds m) Nap \<delta>"
  shows "returns (recovery_main m identity)"
proof -
  note steps = returns_steps [OF assms] returns_intros
  have k: "returns (kill_run m pid)" for pid
    unfolding kill_run_def by (intro steps)
  have s: "returns (start_crash m run_name workers boundary tmp_name)" for run_name workers boundary tmp_name
    unfolding start_crash_def Let_def by (intro steps)
  have c: "returns (crash_case m workers boundary identity)" for workers boundary
    unfolding crash_case_def Let_def split_beta by (intro steps k s)
  moreover have "returns (source_mutation_case m identity)"
    unfolding source_mutation_case_def Let_def split_beta by (intro steps k s)
  moreover have "returns (cancellation_case m identity)"
    unfolding cancellation_case_def Let_def by (intro steps)
  ultimately show ?thesis unfolding recovery_main_def split_beta by (intro steps)
qed

section \<open>Whom it kills\<close>

text \<open>Every kill is sent to a process that was spawned before.\<close>

definition started :: "machine \<Rightarrow> int \<Rightarrow> recovery_history \<Rightarrow> bool" where
  "started m pid h \<longleftrightarrow> (\<exists>hs argv env. spawned m hs argv env = pid \<and> suffix (SpawnRun argv env # hs) h)"

definition own_kills :: "machine \<Rightarrow> recovery_history \<Rightarrow> bool" where
  "own_kills m h \<longleftrightarrow> (\<forall>pid hk. suffix (SigKill pid # hk) h \<longrightarrow> started m pid hk)"

lemma own_kills_calm: "own_kills m h \<Longrightarrow> list_all calm es \<Longrightarrow> own_kills m (es @ h)"
  by (induction es) (auto simp: own_kills_def suffix_Cons)

lemma started_append: "started m pid h \<Longrightarrow> started m pid (es @ h)"
  unfolding started_def using suffix_appendI by blast

abbreviation guarded :: "machine \<Rightarrow> (recovery_history \<Rightarrow> bool) \<Rightarrow> 'a recovery \<Rightarrow> ('a \<Rightarrow> recovery_history \<Rightarrow> bool) \<Rightarrow> bool" where
  "guarded m \<equiv> triple (own_kills m)"

lemma guarded_calm: "requests calm p \<Longrightarrow> guarded m (own_kills m) p (\<lambda>_. own_kills m)"
  by (rule triple_requests) (auto intro: own_kills_calm)

lemma guarded_started:
  "requests calm p \<Longrightarrow> guarded m (\<lambda>h. own_kills m h \<and> started m pid h) p (\<lambda>_ h. own_kills m h \<and> started m pid h)"
  by (rule triple_requests) (auto intro: own_kills_calm started_append)

lemma guarded_start:
  "guarded m (own_kills m) (start_crash m run_name workers boundary tmp_name) (\<lambda>p h. own_kills m h \<and> started m (fst p) h)"
  unfolding triple_def
proof (intro allI impI)
  fix h r h'
  assume *: "start_crash m run_name workers boundary tmp_name h = Some (r, h')" "own_kills m h"
  then have "own_kills m h'" using requestsD [OF calm_runs(2)] own_kills_calm by blast
  with * show "own_kills m h' \<and> (\<forall>p. r = Inr p \<longrightarrow> own_kills m h' \<and> started m (fst p) h')"
    using start_crash_Inr unfolding started_def by fastforce
qed

lemma guarded_kill: "guarded m (\<lambda>h. own_kills m h \<and> started m pid h) (kill_run m pid) (\<lambda>_. own_kills m)"
proof -
  have "guarded m (\<lambda>h. own_kills m h \<and> started m pid h) (sig_kill pid) (\<lambda>_. own_kills m)"
    by (auto simp: triple_def sig_kill_def pdo_def ask_def own_kills_def suffix_Cons)
  then show ?thesis unfolding kill_run_def
    by (rule triple_pbind) (intro guarded_calm request_intros)
qed

lemma guarded_crash: "guarded m (own_kills m) (crash_case m workers boundary case_id) (\<lambda>_. own_kills m)"
  unfolding crash_case_def Let_def split_beta
  by (rule triple_pbind [OF guarded_calm], intro request_intros, rule triple_pbind [OF guarded_start],
      rule triple_pbind [OF guarded_started], intro request_intros, rule triple_pbind [OF guarded_kill], intro guarded_calm request_intros)

lemma guarded_mutation: "guarded m (own_kills m) (source_mutation_case m case_id) (\<lambda>_. own_kills m)"
  unfolding source_mutation_case_def Let_def split_beta
  by (rule triple_pbind [OF guarded_calm], intro request_intros, rule triple_pbind [OF guarded_start],
      rule triple_pbind [OF guarded_kill], intro guarded_calm request_intros)

lemma guarded_main: "guarded m (own_kills m) (recovery_main m identity) (\<lambda>_. own_kills m)"
proof -
  have "guarded m (own_kills m) (case p of (workers, boundary) \<Rightarrow> crash_case m workers boundary identity) (\<lambda>_. own_kills m)" for p
    using guarded_crash by (cases p) simp
  note crashes = triple_pmap [OF this]
  show ?thesis unfolding recovery_main_def
    by (rule triple_pbind [OF guarded_calm], intro request_intros, rule triple_pbind [OF crashes],
        rule triple_pbind [OF guarded_mutation], intro guarded_calm request_intros)
qed

section \<open>A concrete machine\<close>

text \<open>
  A machine that behaves: a crash leaves the target partition unfinished, a continuation completes it
  with a new worker, a recovery is refused while the source is changed. Its answers depend on the
  environment of the last run that was spawned and on the last change of the source after it.
\<close>

definition crash_partition :: "(string \<times> string) list \<Rightarrow> string option" where
  "crash_partition env = map_of env ''OXIDEBATCH_WORKLOAD_CRASH_PARTITION''"

fun last_env :: "recovery_history \<Rightarrow> (string \<times> string) list" where
  "last_env [] = []"
| "last_env (ev # h) = (case ev of SpawnRun argv env \<Rightarrow> env | _ \<Rightarrow> last_env h)"

fun last_target :: "recovery_history \<Rightarrow> string" where
  "last_target [] = []"
| "last_target (ev # h) =
     (case ev of
        SpawnRun argv env \<Rightarrow> (case crash_partition env of Some t \<Rightarrow> t | None \<Rightarrow> last_target h)
      | _ \<Rightarrow> last_target h)"

fun source_changed :: "recovery_history \<Rightarrow> bool" where
  "source_changed [] = False"
| "source_changed (ev # h) =
     (case ev of
        SpawnRun argv env \<Rightarrow> False
      | RunTool b argv \<Rightarrow> if argv ! 2 = ''mutate-source'' then last argv = ''1'' else source_changed h
      | _ \<Rightarrow> source_changed h)"

text \<open>Beside the targets there are 125 partitions, with keys of one character.\<close>

definition toy_keys :: "string list" where
  "toy_keys = map target_partition worker_points @ map (\<lambda>n. [char_of n]) [0..<125 :: nat]"

definition toy_partition :: "bool \<Rightarrow> int \<Rightarrow> int \<Rightarrow> string \<Rightarrow> obj" where
  "toy_partition completed rows worker key =
     [(''key'', JStr key), (''status'', JStr (if completed then ''Completed'' else ''Started'')),
      (''worker_step_execution_id'', JInt worker), (''business_rows'', JInt rows)]"

definition toy_state :: "string \<Rightarrow> json list \<Rightarrow> string \<Rightarrow> (string \<Rightarrow> obj) \<Rightarrow> obj" where
  "toy_state status executions digest f =
     [(''latest_execution_status'', JStr status), (''latest_parent_status'', JStr status), (''nonterminal_execution_count'', JInt 0),
      (''executions'', JArr executions), (''live_source_digest'', JStr digest), (''partitions'', JArr (map (\<lambda>k. JObj (f k)) toy_keys))]"

definition toy_crashed :: "string \<Rightarrow> string \<Rightarrow> bool \<Rightarrow> obj" where
  "toy_crashed target boundary changed =
     toy_state ''Started'' [JNull] (if changed then ''y'' else ''x'')
       (\<lambda>k. toy_partition (k \<noteq> target) (if boundary = ''before-write'' then 0 else 8) 1 k)"

definition toy_continued :: "string \<Rightarrow> obj" where
  "toy_continued target =
     toy_state ''Completed'' [JNull, JNull] ''x'' (\<lambda>k. toy_partition True 8 (if k = target then 2 else 1) k)"

definition toy_stopped :: obj where
  "toy_stopped = toy_state ''Stopped'' [JNull] ''x'' (toy_partition False 0 1)"

definition toy_inspection :: "recovery_history \<Rightarrow> obj" where
  "toy_inspection h =
     (let env = last_env h in
      if env = [] then toy_continued (last_target h)
      else if crash_partition env = None then toy_stopped
      else toy_crashed (last_target h) (the (map_of env ''OXIDEBATCH_WORKLOAD_CRASH_BOUNDARY'')) (source_changed h))"

definition toy_done :: "int \<Rightarrow> obj \<Rightarrow> string \<Rightarrow> finished" where
  "toy_done code d err = \<lparr>returncode = code, stdout_json = Some (JObj d), stderr_text = err\<rparr>"

definition toy_tool :: "recovery_history \<Rightarrow> binary \<Rightarrow> string list \<Rightarrow> finished" where
  "toy_tool h b argv =
     (if argv ! 2 = ''inspect'' then toy_done 0 (toy_inspection h) []
      else if argv ! 2 = ''verify''
      then toy_done 0 [(''framework'', JObj [(''terminal_state_consistent'', JBool True)]),
             (''business'', JObj [(''destination_rows'', JInt 1024), (''expected_destination_digest'', JStr ''d''),
                (''actual_destination_digest'', JStr ''d''), (''range_ownership_complete'', JBool True)])] []
      else if argv ! 2 = ''recover'' \<and> source_changed h then toy_done 1 [] ''recovery refused''
      else toy_done 0 [] [])"

definition toy_mark :: "recovery_history \<Rightarrow> obj" where
  "toy_mark h =
     (case crash_partition (last_env h) of
        None \<Rightarrow> [(''pid'', JInt 1), (''active_workers'', JInt 64), (''peak_workers'', JInt 64)]
      | Some t \<Rightarrow> [(''pid'', JInt 1), (''partition_key'', JStr t),
          (''boundary'', JStr (the (map_of (last_env h) ''OXIDEBATCH_WORKLOAD_CRASH_BOUNDARY'')))])"

definition toy_communicated :: "recovery_history \<Rightarrow> int \<Rightarrow> rat \<Rightarrow> finished option" where
  "toy_communicated h pid timeout =
     (if last_env h = [] then Some (toy_done 0 [] [])
      else if crash_partition (last_env h) = None
      then Some (toy_done 1 [(''peak_active_workers'', JInt 64), (''active_workers_after_join'', JInt 0), (''launch_completed'', JBool False)] [])
      else Some (toy_done (- 9) [] []))"

text \<open>The clock counts the naps.\<close>

definition toy_machine :: machine where
  "toy_machine = \<lparr>environ = [(''OXIDEBATCH_WORKLOAD_STOP_FILE'', ''f'')], database_url = ''u'', built = (\<lambda>b. True), tool = toy_tool,
     spawned = (\<lambda>h argv env. if env = [] then 2 else 1), directory = (\<lambda>h. ''t''), marker = (\<lambda>h path. MarkerValue (JObj (toy_mark h))),
     seconds = (\<lambda>h. of_nat (length (filter (\<lambda>ev. ev = Nap) h))), alive = (\<lambda>h pid. False), communicated = toy_communicated\<rparr>"

lemma toy_keys_distinct: "distinct toy_keys"
proof -
  have "inj_on (\<lambda>n. [char_of n :: char]) (set [0..<125 :: nat])"
  proof (rule inj_onI)
    fix a b :: nat
    assume *: "a \<in> set [0..<125]" "b \<in> set [0..<125]" "[char_of a :: char] = [char_of b]"
    then have "of_char (char_of a :: char) = (of_char (char_of b :: char) :: nat)" by simp
    with * show "a = b" by simp
  qed
  then have "distinct (map (\<lambda>n. [char_of n :: char]) [0..<125 :: nat])" by (simp only: distinct_map distinct_upt simp_thms)
  moreover have "distinct (map target_partition worker_points)" by code_simp
  moreover have "set (map target_partition worker_points) \<inter> set (map (\<lambda>n. [char_of n]) [0..<125 :: nat]) = {}"
    by (auto simp: target_partition_def)
  ultimately show ?thesis unfolding toy_keys_def distinct_append by blast
qed

lemma toy_targets: "target_partition workers \<in> set toy_keys" if "workers \<in> {1, 8, 64}"
  using that by (auto simp: toy_keys_def worker_points_def)

lemma efold_partitions:
  assumes "\<And>k. dget (f k) ''key'' = JStr k"
  shows "distinct (map fst acc @ ks) \<Longrightarrow> efold add_partition acc (map (\<lambda>k. JObj (f k)) ks) = Inr (acc @ map (\<lambda>k. (k, f k)) ks)"
proof (induction ks arbitrary: acc)
  case Nil
  then show ?case by simp
next
  case (Cons k ks)
  then have "efold add_partition (acc @ [(k, f k)]) (map (\<lambda>k. JObj (f k)) ks) = Inr ((acc @ [(k, f k)]) @ map (\<lambda>k. (k, f k)) ks)"
    by (intro Cons.IH) auto
  with Cons.prems assms show ?case by simp
qed

lemma toy_partition_map:
  assumes "\<And>k. dget (f k) ''key'' = JStr k"
  shows "partition_map (toy_state status executions digest f) = Inr (map (\<lambda>k. (k, f k)) toy_keys)"
  using efold_partitions [of f "[]" toy_keys, OF assms] toy_keys_distinct
  by (simp add: partition_map_def toy_state_def)

lemma map_of_graph: "map_of (map (\<lambda>k. (k, f k)) ks) key = (if key \<in> set ks then Some (f key) else None)"
  by (induction ks) auto

lemma toy_status [simp]: "status_is (JStr ''Completed'') ''COMPLETED''" "\<not> status_is (JStr ''Started'') ''COMPLETED''"
  "status_is (JStr ''Started'') ''STARTED''" "status_is (JStr ''Stopped'') ''STOPPED''"
  by code_simp+

lemma toy_partition_fields [simp]: "dget (toy_partition c rows w k) ''key'' = JStr k" "worker_of (toy_partition c rows w k) = JInt w"
  "partition_completed (toy_partition c rows w k) = c" "dget (toy_partition c rows w k) ''business_rows'' = JInt rows"
  "get_default (toy_partition c rows w k) ''business_rows'' v = JInt rows"
  by (simp_all add: toy_partition_def worker_of_def partition_completed_def)

lemma toy_state_fields [simp]: "dget (toy_state status executions digest f) ''latest_execution_status'' = JStr status"
  "dget (toy_state status executions digest f) ''latest_parent_status'' = JStr status"
  "dget (toy_state status executions digest f) ''nonterminal_execution_count'' = JInt 0"
  "get_default (toy_state status executions digest f) ''executions'' v = JArr executions"
  "dget (toy_state status executions digest f) ''live_source_digest'' = JStr digest"
  by (simp_all add: toy_state_def)

lemma toy_keys_length: "length toy_keys = 128"
  by (simp add: toy_keys_def worker_points_def)

lemma toy_check_crashed:
  assumes "workers \<in> {1, 8, 64}"
  shows "check_crashed (toy_crashed (target_partition workers) boundary changed) (target_partition workers) boundary = Inr ()"
  using toy_targets [OF assms]
  by (simp add: check_crashed_def toy_crashed_def toy_partition_map map_of_graph demand_def rows_per_partition_def
      recovery_rows_def recovery_partitions_def num_eq.simps)

definition toy_result :: "string \<Rightarrow> json \<Rightarrow> int \<Rightarrow> obj" where
  "toy_result target digest pid =
     [(''completed_partitions_reused'', JInt (int (length (filter (\<lambda>k. k \<noteq> target) toy_keys)))),
      (''target_old_worker_step_execution_id'', JInt 1), (''target_new_worker_step_execution_id'', JInt 2),
      (''final_destination_digest_sha256'', digest), (''continuation_pid'', JInt pid)]"

lemma toy_completed_before:
  "completed_before (map (\<lambda>k. (k, toy_partition (k \<noteq> target) rows 1 k)) toy_keys) =
     map (\<lambda>k. (k, JInt 1)) (filter (\<lambda>k. k \<noteq> target) toy_keys)"
  by (simp add: completed_before_def filter_map comp_def)

lemma toy_compare:
  assumes "workers \<in> {1, 8, 64}"
  shows "compare_recovery (toy_crashed (target_partition workers) boundary changed) (toy_continued (target_partition workers))
    (target_partition workers) digest pid = Inr (toy_result (target_partition workers) digest pid)"
proof -
  let ?t = "target_partition workers"
  let ?b = "map (\<lambda>k. (k, toy_partition (k \<noteq> ?t) (if boundary = ''before-write'' then 0 else 8) 1 k)) toy_keys"
  let ?f = "map (\<lambda>k. (k, toy_partition True 8 (if k = ?t then 2 else 1) k)) toy_keys"
  have c: "check_continued (toy_crashed ?t boundary changed) (toy_continued ?t) = Inr ()"
    by (simp add: check_continued_def toy_crashed_def toy_continued_def demand_def num_eq.simps)
  have b: "partition_map (toy_crashed ?t boundary changed) = Inr ?b"
    unfolding toy_crashed_def by (rule toy_partition_map) simp
  have f: "partition_map (toy_continued ?t) = Inr ?f"
    unfolding toy_continued_def by (rule toy_partition_map) simp
  have some: "filter (\<lambda>k. k \<noteq> ?t) toy_keys \<noteq> []"
  proof
    assume "filter (\<lambda>k. k \<noteq> ?t) toy_keys = []"
    then have "set toy_keys \<subseteq> {?t}" by (auto simp: filter_empty_conv)
    then have "card (set toy_keys) \<le> 1" using card_mono [of "{?t}" "set toy_keys"] by simp
    then show False using distinct_card [OF toy_keys_distinct] toy_keys_length by simp
  qed
  have "emap (\<lambda>(key, w). ebind (want_some (map_of ?f key) (Broken (KeyErr key))) (\<lambda>p.
      demand (py_eq (worker_of p) w) ''completed partition was re-executed'')) (map (\<lambda>k. (k, JInt 1)) (filter (\<lambda>k. k \<noteq> ?t) toy_keys)) =
    Inr (map (\<lambda>_. ()) (map (\<lambda>k. (k, JInt 1)) (filter (\<lambda>k. k \<noteq> ?t) toy_keys)))"
    by (rule emap_pure) (auto simp: map_of_graph demand_def num_eq.simps)
  then have "check_partitions ?b ?f ?t = Inr (JInt 1, JInt 2)"
    using some toy_targets [OF assms]
    by (simp add: check_partitions_def toy_completed_before demand_def map_of_graph list_all_iff toy_keys_length
        recovery_partitions_def num_eq.simps image_image comp_def)
  then show ?thesis using c b f by (simp add: compare_recovery_def toy_completed_before toy_result_def)
qed

lemma toy_machine_fields [simp]: "database_url toy_machine = ''u''" "built toy_machine b" "tool toy_machine = toy_tool"
  "spawned toy_machine h argv env = (if env = [] then 2 else 1)" "directory toy_machine h = ''t''" "marker toy_machine h path = MarkerValue (JObj (toy_mark h))"
  "alive toy_machine h pid = False" "communicated toy_machine = toy_communicated" "clean_env toy_machine = []"
  by (simp_all add: toy_machine_def clean_env_def control_env_def)

lemma toy_wait:
  "wait_json_marker toy_machine path h = Some (Inr (toy_mark h), LookAt path # ReadClock # ReadClock # h)"
proof -
  have "toy_mark (ReadClock # ReadClock # h) = toy_mark h" by (simp add: toy_mark_def cong: option.case_cong)
  then show ?thesis
    unfolding wait_json_marker_def poll_for_def wait_seconds_def
    by (subst poll.simps) (simp add: look_marker_def ask_def toy_machine_def)
qed

lemma toy_gone: "assert_pid_gone toy_machine pid h = Some (Inr (), ProbePid pid # ReadClock # ReadClock # h)"
  unfolding assert_pid_gone_def poll_for_def
  by (subst poll.simps) (simp add: probe_pid_def ask_def toy_machine_def)

lemma toy_run_tool:
  "run_tool toy_machine b args check h =
     (let argv = ''--database-url'' # ''u'' # args; out = toy_tool h b argv
      in Some (if check \<and> returncode out \<noteq> 0 then Inl (Refused ''command failed'') else Inr out, RunTool b argv # h))"
  by (auto simp: run_tool_def pbind_def pdo_def ask_def check_that_def plift_def eguard_def tool_command_def Let_def preturn_def)

lemma toy_calls:
  "spawn_run toy_machine run_name workers env h =
     Some (Inr (if env = [] then 2 else 1),
       SpawnRun (''--database-url'' # ''u'' # ''run'' # run_args run_name @ [''--workers'', show_int workers]) env # h)"
  "communicate toy_machine pid timeout h = Some (want_some (toy_communicated h pid timeout) TimedOut, Communicate pid timeout # h)"
  "temp_directory toy_machine name h = Some (Inr ''t'', TempDirectory name # h)"
  "sig_kill pid h = Some (Inr (), SigKill pid # h)"
  "check_that c msg h = Some (if c then Inr () else Inl (Refused msg), h)"
  by (simp_all add: spawn_run_def communicate_def temp_directory_def sig_kill_def check_that_def pdo_def ask_def plift_def
      eguard_def tool_command_def Let_def)

lemma toy_tools:
  "inspect toy_machine run_name h =
     Some (Inr (toy_inspection h), RunTool RecoveryBinary [''--database-url'', ''u'', ''inspect'', ''--run-name'', run_name] # h)"
  "recover toy_machine run_name check h =
     Some (if check \<and> source_changed h then Inl (Refused ''command failed'')
           else Inr (if source_changed h then toy_done 1 [] ''recovery refused'' else toy_done 0 [] []),
       RunTool RecoveryBinary (''--database-url'' # ''u'' # ''recover'' # run_args run_name) # h)"
  "seed_source toy_machine h = Some (Inr (), RunTool MainBinary
     [''--database-url'', ''u'', ''seed'', ''--rows'', show_int recovery_rows, ''--seed'', show_int recovery_seed] # h)"
  "mutate_source toy_machine delta h = Some (Inr (), RunTool RecoveryBinary
     [''--database-url'', ''u'', ''mutate-source'', ''--source-id'', ''1'', ''--delta'', show_int delta] # h)"
  by (simp_all add: inspect_def recover_def seed_source_def mutate_source_def toy_run_tool pbind_def plift_def preturn_def Let_def
      toy_tool_def toy_done_def json_stdout_def)

lemma toy_final:
  assumes "workers \<in> {1, 8, 64}" "pid \<noteq> old_pid" "last_env h = []" "last_target h = target_partition workers"
  shows "assert_final_recovery toy_machine run_name (toy_crashed (target_partition workers) boundary changed)
    (target_partition workers) old_pid pid h = Some (Inr (toy_result (target_partition workers) (JStr ''d'') pid),
      RunTool RecoveryBinary [''--database-url'', ''u'', ''inspect'', ''--run-name'', run_name] #
      RunTool MainBinary (''--database-url'' # ''u'' # ''verify'' # run_args run_name) # h)"
  using assms(2-4) toy_compare [OF assms(1)]
  by (simp add: assert_final_recovery_def verify_run_def toy_run_tool pbind_def plift_def Let_def toy_tool_def toy_done_def
      json_stdout_def toy_calls toy_tools check_verified_def method_get_def demand_def toy_inspection_def recovery_rows_def num_eq.simps)

lemmas toy_steps = pbind_def plift_def preturn_def Let_def toy_wait toy_gone toy_calls toy_tools toy_inspection_def toy_communicated_def
  toy_done_def toy_mark_def crash_partition_def num_eq.simps

lemma toy_crash:
  assumes "workers \<in> {1, 8, 64}" "boundary \<in> {''before-write'', ''after-business-write''}"
  shows "\<exists>r h'. crash_case toy_machine workers boundary case_id h = Some (Inr r, h')"
proof -
  let ?t = "target_partition workers"
  have c: "check_crashed (toy_crashed ?t boundary changed) ?t boundary = Inr ()" for changed
    by (rule toy_check_crashed [OF assms(1)])
  show ?thesis
    using assms(2) by (auto simp: crash_case_def start_crash_def kill_run_def continue_run_def toy_steps env_update_def
        crash_controls_def c toy_final [OF assms(1)])
qed

lemma toy_mutation: "\<exists>r h'. source_mutation_case toy_machine case_id h = Some (Inr r, h')"
proof -
  have "(8 :: int) \<in> {1, 8, 64}" by simp
  note final = toy_final [OF this]
  have "show_int 1 = ''1''" "show_int (- 1) = ''-1''" by code_simp+
  moreover have "contains ''recovery refused'' ''recovery refused''" by code_simp
  moreover have "dget (toy_crashed t b changed) ''live_source_digest'' = JStr (if changed then ''y'' else ''x'')" for t b changed
    by (simp add: toy_crashed_def)
  ultimately show ?thesis
    by (simp add: source_mutation_case_def start_crash_def kill_run_def continue_run_def toy_steps env_update_def
        crash_controls_def final)
qed

lemma toy_check_cancelled: "check_cancelled toy_stopped = Inr 0"
proof -
  have "partition_map toy_stopped = Inr (map (\<lambda>k. (k, toy_partition False 0 1 k)) toy_keys)"
    unfolding toy_stopped_def by (rule toy_partition_map) simp
  moreover have "emap (\<lambda>(key, p). int_of_value (get_default p ''business_rows'' (JInt 0))) (map (\<lambda>k. (k, toy_partition False 0 1 k)) toy_keys) =
      Inr (map (\<lambda>_. 0) (map (\<lambda>k. (k, toy_partition False 0 1 k)) toy_keys))"
    by (rule emap_pure) auto
  ultimately have "business_rows toy_stopped = Inr 0" by (simp add: business_rows_def comp_def)
  then show ?thesis by (simp add: check_cancelled_def demand_def) (simp add: toy_stopped_def num_eq.simps)
qed

lemma toy_cancellation: "\<exists>r h'. cancellation_case toy_machine case_id h = Some (Inr r, h')"
  by (simp add: cancellation_case_def toy_steps env_update_def cancel_controls_def read_clock_def pdo_def ask_def
      check_cancelled_run_def method_get_def demand_def toy_check_cancelled)

lemma toy_qualification: "\<exists>r h'. recovery_main toy_machine identity [] = Some (Inr r, h')"
proof -
  have "\<exists>ys h'. pmap (\<lambda>(workers, boundary). crash_case toy_machine workers boundary identity) xs h = Some (Inr ys, h')"
    if "set xs \<subseteq> {1, 8, 64} \<times> {''before-write'', ''after-business-write''}" for xs h
    using that
  proof (induction xs arbitrary: h)
    case Nil
    then show ?case by (simp add: preturn_def)
  next
    case (Cons x xs)
    obtain workers boundary where x: "x = (workers, boundary)" by (cases x)
    obtain r h1 where c: "crash_case toy_machine workers boundary identity h = Some (Inr r, h1)"
      using toy_crash [of workers boundary identity h] Cons.prems x by auto
    obtain ys h2 where "pmap (\<lambda>(workers, boundary). crash_case toy_machine workers boundary identity) xs h1 = Some (Inr ys, h2)"
      using Cons.IH [of h1] Cons.prems by auto
    with c x show ?case by (simp add: pbind_def preturn_def)
  qed
  from this [of crash_points "[]"] obtain ys h1
    where "pmap (\<lambda>(workers, boundary). crash_case toy_machine workers boundary identity) crash_points [] = Some (Inr ys, h1)"
    by (auto simp: crash_points_def worker_points_def boundaries_def)
  moreover obtain mutation h2 where "source_mutation_case toy_machine identity h1 = Some (Inr mutation, h2)"
    using toy_mutation by blast
  moreover obtain cancellation h3 where "cancellation_case toy_machine identity h2 = Some (Inr cancellation, h3)"
    using toy_cancellation by blast
  ultimately show ?thesis by (simp add: recovery_main_def pbind_def toy_calls preturn_def)
qed

text \<open>The digests are compared with each other only: an output of \<open>verify\<close> with neither of them passes.\<close>

lemma missing_digests_accepted:
  "check_verified [(''framework'', JObj [(''terminal_state_consistent'', JBool True)]),
     (''business'', JObj [(''destination_rows'', JInt 1024), (''range_ownership_complete'', JBool True)])] = Inr JNull"
  by (simp add: check_verified_def method_get_def demand_def recovery_rows_def num_eq.simps)

lemma toy_clock: "napping_clock (seconds toy_machine) Nap 1"
  by (simp add: napping_clock_def toy_machine_def)

section \<open>Properties\<close>



text \<open>
  C31. Whatever the machine answers and however the qualification ends, every SIGKILL it sends goes to
  a process that it spawned itself before.
\<close>

theorem recovery_kills_own:
  assumes "recovery_main m identity [] = Some (r, h')"
  shows "own_kills m h'"
proof -
  have "own_kills m []" by (simp add: own_kills_def)
  with guarded_main [of m identity] assms show ?thesis by (simp add: triple_def)
qed

theorem recovery_kills_own_witness: "\<exists>h'. own_kills toy_machine h' \<and> recovery_facts toy_machine ''ci-1-1-1'' h'"
proof -
  obtain r h' where r: "recovery_main toy_machine ''ci-1-1-1'' [] = Some (Inr r, h')" using toy_qualification by blast
  from recovery_kills_own [OF r] recovery_main_Inr [OF r] show ?thesis by blast
qed

text \<open>
  C32. The qualification always ends: if the clock never goes back and a nap takes some time, every wait
  for a marker or for a process to disappear reaches its answer or its deadline.
\<close>

theorem recovery_ends:
  assumes "napping_clock (seconds m) Nap \<delta>"
  shows "\<exists>r h'. recovery_main m identity h = Some (r, h')"
  using returns_main [OF assms] unfolding returns_def by fastforce

theorem recovery_ends_witness: "\<exists>r h'. recovery_main toy_machine ''ci-1-1-1'' [] = Some (r, h')"
  by (rule recovery_ends [OF toy_clock])

end
