(* ===== verification/Rounding.thy ===== *)
theory Rounding
  imports Floats
begin

text \<open>
  \<open>to_double\<close> as the nearest double: it never changes an order, it leaves doubles alone, and what it
  returns is a double. \<open>is_double\<close> is the set of finite IEEE doubles.
\<close>

section \<open>Floats in order\<close>

text \<open>
  The order of the floats without NaN, which Python's \<open><\<close> and hence \<open>sorted\<close>, \<open>min\<close> and \<open>max\<close> use;
  NaN, which has no place in it, comes last here.
\<close>

instantiation pyfloat :: linorder
begin

definition less_eq_pyfloat :: "pyfloat \<Rightarrow> pyfloat \<Rightarrow> bool" where
  "x \<le> y \<longleftrightarrow>
     (case x of
        NInf \<Rightarrow> True
      | Fin a \<Rightarrow> (case y of Fin b \<Rightarrow> a \<le> b | NInf \<Rightarrow> False | _ \<Rightarrow> True)
      | PInf \<Rightarrow> y = PInf \<or> y = NaN
      | NaN \<Rightarrow> y = NaN)"

definition less_pyfloat :: "pyfloat \<Rightarrow> pyfloat \<Rightarrow> bool" where
  "x < y \<longleftrightarrow> x \<le> y \<and> \<not> y \<le> (x :: pyfloat)"

instance
  by standard (auto simp: less_eq_pyfloat_def less_pyfloat_def split: pyfloat.splits)

end

lemma Fin_le [simp]: "Fin a \<le> Fin b \<longleftrightarrow> a \<le> b"
  by (simp add: less_eq_pyfloat_def)

lemma Fin_less [simp]: "Fin a < Fin b \<longleftrightarrow> a < b"
  by (auto simp: less_pyfloat_def)

lemma le_PInf [simp]: "Fin a \<le> PInf" "\<not> PInf \<le> Fin a" "NInf \<le> x" "\<not> Fin a \<le> NInf"
  by (simp_all add: less_eq_pyfloat_def)

lemma float_le_iff: "float_le x y \<longleftrightarrow> x \<le> y \<and> x \<noteq> NaN \<and> y \<noteq> NaN"
  by (cases x; cases y) (simp_all add: less_eq_pyfloat_def)

lemma neg_float_le: "x \<noteq> NaN \<Longrightarrow> y \<noteq> NaN \<Longrightarrow> neg_float x \<le> neg_float y \<longleftrightarrow> y \<le> x"
  by (cases x; cases y) (simp_all add: less_eq_pyfloat_def)

section \<open>The nearest integer\<close>

definition nearest :: "rat \<Rightarrow> int" where
  "nearest q =
     (let l = \<lfloor>q\<rfloor>; r = q - of_int l
      in if r < 1 / 2 then l else if 1 / 2 < r then l + 1 else if even l then l else l + 1)"

lemma round_div_nearest:
  assumes "0 < d"
  shows "round_div n d = nearest (of_int n / of_int d)"
proof -
  have "(of_int n :: rat) = of_int (n div d * d + n mod d)" by simp
  then have "(of_int n / of_int d :: rat) - of_int (n div d) = of_int (n mod d) / of_int d"
    using assms by (simp only: of_int_add of_int_mult) (simp add: field_simps)
  moreover have "\<lfloor>(of_int n / of_int d :: rat)\<rfloor> = n div d" by (rule floor_divide_of_int_eq)
  moreover have "(of_int r / of_int d < (1 / 2 :: rat)) \<longleftrightarrow> 2 * r < d" "(1 / 2 < (of_int r / of_int d :: rat)) \<longleftrightarrow> d < 2 * r" for r
  proof -
    have "(of_int r / of_int d < (1 / 2 :: rat)) \<longleftrightarrow> of_int (2 * r) < (of_int d :: rat)"
      using assms by (simp add: field_simps)
    then show "(of_int r / of_int d < (1 / 2 :: rat)) \<longleftrightarrow> 2 * r < d" by (simp only: of_int_less_iff)
    have "(1 / 2 < (of_int r / of_int d :: rat)) \<longleftrightarrow> of_int d < (of_int (2 * r) :: rat)"
      using assms by (simp add: field_simps)
    then show "(1 / 2 < (of_int r / of_int d :: rat)) \<longleftrightarrow> d < 2 * r" by (simp only: of_int_less_iff)
  qed
  ultimately show ?thesis by (simp only: round_div_def nearest_def Let_def)
qed

lemma nearest_bounds: "\<lfloor>q\<rfloor> \<le> nearest q" "nearest q \<le> \<lfloor>q\<rfloor> + 1"
  by (simp_all add: nearest_def Let_def)

lemma nearest_int [simp]: "nearest (of_int k) = k"
  by (simp add: nearest_def)

lemma nearest_mono: "x \<le> y \<Longrightarrow> nearest x \<le> nearest y"
proof (cases "\<lfloor>x\<rfloor> = \<lfloor>y\<rfloor>")
  case True
  then show "x \<le> y \<Longrightarrow> nearest x \<le> nearest y" by (auto simp: nearest_def Let_def)
next
  case False
  assume "x \<le> y"
  then have "\<lfloor>x\<rfloor> \<le> \<lfloor>y\<rfloor>" by (rule floor_mono)
  with False have "\<lfloor>x\<rfloor> + 1 \<le> \<lfloor>y\<rfloor>" by simp
  then show "nearest x \<le> nearest y" using nearest_bounds [of x] nearest_bounds [of y] by linarith
qed

section \<open>Positive numbers\<close>

definition binade :: "rat \<Rightarrow> int" where
  "binade x = (case quotient_of x of (a, b) \<Rightarrow> leading_exponent a b)"

definition unit_exponent :: "rat \<Rightarrow> int" where
  "unit_exponent x = max (binade x - 52) (- 1074)"

definition rounded :: "rat \<Rightarrow> rat" where
  "rounded x = of_int (nearest (x / 2 powi unit_exponent x)) * 2 powi unit_exponent x"

lemma leading_exponent_less:
  assumes "0 < a" "0 < b"
  shows "(of_int a / of_int b :: rat) < 2 powi (leading_exponent a b + 1)"
proof -
  let ?e = "bit_length a - bit_length b"
  have a: "a < 2 ^ nat (bit_length a)" "1 \<le> bit_length a" using bit_length_bounds [OF assms(1)] by auto
  have b: "2 ^ nat (bit_length b - 1) \<le> b" "1 \<le> bit_length b" using bit_length_bounds [OF assms(2)] by auto
  have "(of_int a :: rat) < 2 ^ nat (bit_length a)"
    using a(1) by (metis of_int_less_iff of_int_numeral of_int_power)
  moreover have "(2 ^ nat (bit_length b - 1) :: rat) \<le> of_int b"
    using b(1) by (metis of_int_le_iff of_int_numeral of_int_power)
  ultimately have "(of_int a / of_int b :: rat) < 2 ^ nat (bit_length a) / 2 ^ nat (bit_length b - 1)"
    using assms by (intro frac_less) auto
  moreover have "(2 ^ nat (bit_length a) / 2 ^ nat (bit_length b - 1) :: rat) = 2 powi (?e + 1)"
  proof -
    have "(2 :: rat) powi (?e + 1) = 2 powi (bit_length a) / 2 powi (bit_length b - 1)"
      by (simp add: power_int_diff [symmetric] algebra_simps)
    then show ?thesis using a b by (simp add: power_int_def)
  qed
  ultimately show ?thesis
    using scaled_le [OF assms(2), of a ?e] by (auto simp: leading_exponent_def Let_def split: prod.splits)
qed

lemma binade_bounds:
  assumes "0 < x"
  shows "2 powi binade x \<le> x" "x < 2 powi (binade x + 1)"
proof -
  obtain a b where q: "quotient_of x = (a, b)" by fastforce
  have x: "x = of_int a / of_int b" "0 < b" using quotient_of_div [OF q] quotient_of_denom_pos [OF q] by auto
  with assms have "0 < a" by (simp add: zero_less_divide_iff)
  moreover have "binade x = leading_exponent a b" by (simp add: binade_def q)
  ultimately show "2 powi binade x \<le> x" "x < 2 powi (binade x + 1)"
    using leading_exponent_le [of a b] leading_exponent_less [of a b] x by simp_all
qed

lemma powi_less_iff: "(2 :: rat) powi a < 2 powi b \<longleftrightarrow> a < b"
proof
  assume "(2 :: rat) powi a < 2 powi b"
  then show "a < b" using power_int_increasing [of b a "2 :: rat"] by (meson not_le one_le_numeral)
qed (simp add: power_int_strict_increasing)

lemma powi_le_iff: "(2 :: rat) powi a \<le> 2 powi b \<longleftrightarrow> a \<le> b"
  using powi_less_iff [of b a] by (simp add: not_less [symmetric])

lemma binade_mono:
  assumes "0 < x" "x \<le> y"
  shows "binade x \<le> binade y"
proof -
  have "2 powi binade x < (2 :: rat) powi (binade y + 1)"
    using binade_bounds [OF assms(1)] binade_bounds [of y] assms by linarith
  then show ?thesis by (simp add: powi_less_iff)
qed

lemma binade_unique: "2 powi l \<le> x \<Longrightarrow> x < 2 powi (l + 1) \<Longrightarrow> binade x = l"
proof -
  assume l: "2 powi l \<le> x" "x < 2 powi (l + 1)"
  have "(0 :: rat) < 2 powi l" by simp
  with l(1) have "0 < x" by linarith
  from binade_bounds [OF this] l have "(2 :: rat) powi l < 2 powi (binade x + 1)" "(2 :: rat) powi binade x < 2 powi (l + 1)"
    by linarith+
  then show "binade x = l" by (simp add: powi_less_iff)
qed

lemma unit_mono: "0 < x \<Longrightarrow> x \<le> y \<Longrightarrow> unit_exponent x \<le> unit_exponent y"
  using binade_mono [of x y] by (simp add: unit_exponent_def)

lemma unit_ratio: "(2 :: rat) powi a / 2 powi b = 2 powi (a - b)"
  by (simp add: power_int_diff)

lemma powi_add: "(2 :: rat) powi a * 2 powi b = 2 powi (a + b)"
  by (simp add: power_int_add)

text \<open>At most 53 binary digits, and exactly 53 above the smallest exponent.\<close>

lemma nearest_unit_le:
  assumes "0 < x"
  shows "0 \<le> nearest (x / 2 powi unit_exponent x)" "nearest (x / 2 powi unit_exponent x) \<le> 2 ^ 53"
proof -
  let ?e = "unit_exponent x"
  have "x / 2 powi ?e \<le> 2 powi (binade x + 1) / 2 powi ?e"
    using binade_bounds [OF assms] by (intro divide_right_mono) auto
  also have "\<dots> = 2 powi (binade x + 1 - ?e)" by (rule unit_ratio)
  also have "\<dots> \<le> 2 powi 53" by (intro power_int_increasing) (auto simp: unit_exponent_def)
  finally have "x / 2 powi ?e \<le> of_int (2 ^ 53)" by simp
  from nearest_mono [OF this] show "nearest (x / 2 powi ?e) \<le> 2 ^ 53" by (simp only: nearest_int)
  have "of_int 0 \<le> x / 2 powi ?e" using assms by simp
  from nearest_mono [OF this] show "0 \<le> nearest (x / 2 powi ?e)" by (simp only: nearest_int)
qed

lemma nearest_unit_ge:
  assumes "0 < x" "unit_exponent x \<noteq> - 1074"
  shows "2 ^ 52 \<le> nearest (x / 2 powi unit_exponent x)"
proof -
  let ?e = "unit_exponent x"
  have "?e = binade x - 52" using assms(2) by (auto simp: unit_exponent_def)
  then have "(of_int (2 ^ 52) :: rat) = 2 powi binade x / 2 powi ?e" by (simp only: unit_ratio) simp
  also have "\<dots> \<le> x / 2 powi ?e" using binade_bounds [OF assms(1)] by (intro divide_right_mono) auto
  finally show ?thesis using nearest_mono [of "of_int (2 ^ 52)"] by (metis nearest_int)
qed

lemma rounded_mono:
  assumes "0 < x" "x \<le> y"
  shows "rounded x \<le> rounded y"
proof (cases "unit_exponent x = unit_exponent y")
  case True
  have "nearest (x / 2 powi unit_exponent y) \<le> nearest (y / 2 powi unit_exponent y)"
    using assms by (intro nearest_mono divide_right_mono) auto
  then show ?thesis by (simp add: rounded_def True)
next
  case False
  with unit_mono [OF assms] have e: "unit_exponent x + 1 \<le> unit_exponent y" by simp
  have "- 1074 \<le> unit_exponent x" by (simp add: unit_exponent_def)
  with e have "2 ^ 52 \<le> nearest (y / 2 powi unit_exponent y)" using assms by (intro nearest_unit_ge) auto
  then have y: "of_int (2 ^ 52) * 2 powi unit_exponent y \<le> rounded y"
    unfolding rounded_def by (intro mult_right_mono) (simp_all only: of_int_le_iff, simp)
  have "rounded x \<le> of_int (2 ^ 53) * 2 powi unit_exponent x"
    unfolding rounded_def using nearest_unit_le(2) [OF assms(1)] by (intro mult_right_mono) (simp_all only: of_int_le_iff, simp)
  also have "\<dots> = of_int (2 ^ 52) * 2 powi (unit_exponent x + 1)" by (simp add: power_int_add)
  also have "\<dots> \<le> of_int (2 ^ 52) * 2 powi unit_exponent y"
    using e by (intro mult_left_mono) (auto simp: powi_le_iff)
  also note y
  finally show ?thesis .
qed

section \<open>The nearest double\<close>

definition double_limit :: rat where
  "double_limit = 2 powi 1024"

lemma scaled_quotient:
  assumes "0 < b" "scaled a b e = (n, d)"
  shows "0 < d \<and> of_int n / of_int d = (of_int a / of_int b) / (2 powi e :: rat)"
  using assms by (auto simp: scaled_def powi_cases split: if_splits)

lemma bit_length_ge: "0 < n \<Longrightarrow> k < bit_length n \<longleftrightarrow> 2 powi k \<le> (of_int n :: rat)"
proof (cases "0 \<le> k")
  case True
  assume n: "0 < n"
  have "k < bit_length n \<longleftrightarrow> 2 ^ nat k \<le> n"
  proof
    assume "k < bit_length n"
    then have "(2 :: int) ^ nat k \<le> 2 ^ nat (bit_length n - 1)" using True by (intro power_increasing) auto
    then show "2 ^ nat k \<le> n" using bit_length_bounds [OF n] by linarith
  next
    assume "2 ^ nat k \<le> n"
    also have "n < 2 ^ nat (bit_length n)" using bit_length_bounds [OF n] by blast
    finally have "nat k < nat (bit_length n)" by simp
    then show "k < bit_length n" using True by simp
  qed
  also have "\<dots> \<longleftrightarrow> (of_int (2 ^ nat k) :: rat) \<le> of_int n" by (simp only: of_int_le_iff)
  finally show ?thesis using True by (simp add: power_int_def)
next
  case False
  assume n: "0 < n"
  then have "1 \<le> (of_int n :: rat)" by simp
  moreover have "2 powi k \<le> (1 :: rat)" using False power_int_increasing [of k 0 "2 :: rat"] by simp
  ultimately show ?thesis using False bit_length_bounds [OF n] by auto
qed

lemma to_double_pos:
  assumes "0 < x"
  shows "to_double x = (if double_limit \<le> rounded x then PInf else Fin (rounded x))"
proof -
  obtain a b where q: "quotient_of x = (a, b)" by fastforce
  have x: "x = of_int a / of_int b" "0 < b" using quotient_of_div [OF q] quotient_of_denom_pos [OF q] by auto
  with assms have a: "0 < a" by (simp add: zero_less_divide_iff)
  let ?e = "unit_exponent x"
  have e: "last_exponent a b = ?e" by (simp add: last_exponent_def unit_exponent_def binade_def q)
  obtain n d where nd: "scaled a b ?e = (n, d)" by fastforce
  let ?m = "nearest (x / 2 powi ?e)"
  have m: "round_div n d = ?m" using scaled_quotient [OF x(2) nd] x(1) by (simp add: round_div_nearest)
  have "1024 < ?e + bit_length ?m \<longleftrightarrow> double_limit \<le> rounded x"
  proof (cases "0 < ?m")
    case True
    have "1024 < ?e + bit_length ?m \<longleftrightarrow> 1024 - ?e < bit_length ?m" by linarith
    also have "\<dots> \<longleftrightarrow> 2 powi (1024 - ?e) \<le> (of_int ?m :: rat)" by (rule bit_length_ge [OF True])
    also have "\<dots> \<longleftrightarrow> 2 powi (1024 - ?e) * 2 powi ?e \<le> rounded x"
      unfolding rounded_def by (intro mult_le_cancel_right_pos [symmetric]) simp
    also have "2 powi (1024 - ?e) * 2 powi ?e = double_limit"
      unfolding double_limit_def by (simp only: powi_add diff_add_cancel)
    finally show ?thesis .
  next
    case False
    then have "?m = 0" using nearest_unit_le(1) [OF assms] by simp
    moreover from this have "?e = - 1074" using nearest_unit_ge [OF assms] by fastforce
    moreover have "0 < double_limit" by (simp only: double_limit_def zero_less_power_int zero_less_numeral)
    ultimately show ?thesis by (simp add: rounded_def)
  qed
  moreover have "(if 0 \<le> ?e then of_int (?m * 2 ^ nat ?e) else of_int ?m / of_int (2 ^ nat (- ?e))) = rounded x"
    by (simp add: rounded_def powi_cases)
  ultimately have "round_positive a b = (if double_limit \<le> rounded x then PInf else Fin (rounded x))"
    by (simp only: round_positive_def e nd m Let_def split)
  then show ?thesis using a by (simp only: to_double_def q split) simp
qed

lemma to_double_neg: "to_double (- x) = neg_float (to_double x)"
proof -
  obtain a b where q: "quotient_of x = (a, b)" by fastforce
  have "quotient_of (- x) = (- a, b)" using q by (simp add: rat_uminus_code)
  then show ?thesis using q by (cases "round_positive (- a) b") (auto simp: to_double_def)
qed

lemma to_double_0 [simp]: "to_double 0 = Fin 0"
  by (simp add: to_double_def)

lemma to_double_mono:
  assumes "x \<le> y"
  shows "to_double x \<le> to_double y"
proof -
  have pos: "to_double u \<le> to_double v" if "0 < u" "u \<le> v" for u v
  proof -
    have "0 < v" using that by simp
    with rounded_mono [OF that] show ?thesis by (auto simp: to_double_pos [OF that(1)] to_double_pos)
  qed
  have nonneg: "Fin 0 \<le> to_double u" "to_double u \<noteq> NaN" if "0 < u" for u
    using that nearest_unit_le(1) [OF that] by (auto simp: to_double_pos rounded_def)
  have neg: "to_double u = neg_float (to_double (- u))" for u using to_double_neg [of "- u"] by simp
  consider "0 < x" | "x \<le> 0" "0 \<le> y" | "y < 0" using assms by linarith
  then show ?thesis
  proof cases
    case 1
    then show ?thesis using pos assms by blast
  next
    case 2
    have "to_double x \<le> Fin 0"
    proof (cases "x = 0")
      case False
      then have "0 < - x" using 2 by simp
      then show ?thesis using nonneg [of "- x"] neg [of x] neg_float_le [of "to_double (- x)" "Fin 0"] by simp
    qed simp
    moreover have "Fin 0 \<le> to_double y" using 2 nonneg [of y] by (cases "y = 0") auto
    ultimately show ?thesis by (rule order_trans)
  next
    case 3
    then have "0 < - y" "- y \<le> - x" "0 < - x" using assms by simp_all
    then show ?thesis
      using pos [of "- y" "- x"] nonneg(2) [of "- x"] nonneg(2) [of "- y"] neg_float_le [of "to_double (- x)" "to_double (- y)"]
        neg [of x] neg [of y] by simp
  qed
qed

section \<open>Doubles\<close>

definition is_double :: "rat \<Rightarrow> bool" where
  "is_double q \<longleftrightarrow> (\<exists>m e. q = of_int m * 2 powi e \<and> \<bar>m\<bar> \<le> 2 ^ 53 \<and> - 1074 \<le> e) \<and> \<bar>q\<bar> < double_limit"

lemma is_double_neg: "is_double q \<Longrightarrow> is_double (- q)"
proof -
  assume "is_double q"
  then obtain m e where "q = of_int m * 2 powi e" "\<bar>m\<bar> \<le> 2 ^ 53" "- 1074 \<le> e" "\<bar>q\<bar> < double_limit"
    by (auto simp: is_double_def)
  then have "- q = of_int (- m) * 2 powi e" "\<bar>- m\<bar> \<le> 2 ^ 53" "\<bar>- q\<bar> < double_limit" by simp_all
  with \<open>- 1074 \<le> e\<close> show "is_double (- q)" unfolding is_double_def by blast
qed

lemma is_double_twice:
  assumes "is_double q" "2 * \<bar>q\<bar> < double_limit"
  shows "is_double (2 * q)"
proof -
  obtain m e where q: "q = of_int m * 2 powi e" "\<bar>m\<bar> \<le> 2 ^ 53" "- 1074 \<le> e"
    using assms(1) by (auto simp: is_double_def)
  then have "2 * q = of_int m * 2 powi (e + 1)" by (simp add: power_int_add)
  moreover have "- 1074 \<le> e + 1" "\<bar>2 * q\<bar> < double_limit" using q(3) assms(2) by (auto simp: abs_mult)
  ultimately show ?thesis using q(2) unfolding is_double_def by blast
qed

lemma rounded_double:
  assumes "0 < q" "is_double q"
  shows "rounded q = q"
proof -
  obtain m e where q: "q = of_int m * 2 powi e" "\<bar>m\<bar> \<le> 2 ^ 53" "- 1074 \<le> e"
    using assms(2) by (auto simp: is_double_def)
  let ?u = "unit_exponent q"
  have "\<exists>k. q = of_int k * 2 powi ?u"
  proof (cases "?u \<le> e")
    case True
    then have "(2 :: rat) powi e = of_int (2 ^ nat (e - ?u)) * 2 powi ?u"
      using powi_add [of "e - ?u" ?u] by (simp add: power_int_def)
    then have "q = of_int (m * 2 ^ nat (e - ?u)) * 2 powi ?u" using q(1) by simp
    then show ?thesis by blast
  next
    case False
    have "q \<le> of_int (2 ^ 53) * 2 powi e" unfolding q(1) using q(2) by (intro mult_right_mono) (simp_all only: of_int_le_iff, auto)
    also have "\<dots> = 2 powi (53 + e)" by (simp add: power_int_add)
    finally have le: "q \<le> 2 powi (53 + e)" .
    have "2 powi binade q \<le> q" using binade_bounds [OF assms(1)] by blast
    with le have "(2 :: rat) powi binade q \<le> 2 powi (53 + e)" by linarith
    then have b: "binade q \<le> 53 + e" by (simp add: powi_le_iff)
    moreover have "?u = binade q - 52" using False q(3) by (auto simp: unit_exponent_def)
    ultimately have "binade q = 53 + e" using False by linarith
    with le \<open>2 powi binade q \<le> q\<close> have "q = 2 powi (53 + e)" by simp
    moreover have "?u = e + 1" using \<open>?u = binade q - 52\<close> \<open>binade q = 53 + e\<close> by simp
    moreover have "(2 :: rat) powi (53 + e) = of_int (2 ^ 52) * 2 powi (e + 1)" by (simp add: power_int_add)
    ultimately have "q = of_int (2 ^ 52) * 2 powi ?u" by (simp only:)
    then show ?thesis by blast
  qed
  then obtain k where k: "q = of_int k * 2 powi ?u" by blast
  then have "q / 2 powi ?u = of_int k" by (metis nonzero_mult_div_cancel_right power_int_eq_0_iff zero_neq_numeral)
  then have "rounded q = of_int k * 2 powi ?u" by (simp only: rounded_def nearest_int)
  then show ?thesis using k by simp
qed

text \<open>A double stays as it is.\<close>

lemma to_double_exact:
  assumes "is_double q"
  shows "to_double q = Fin q"
proof -
  have pos: "to_double u = Fin u" if "0 < u" "is_double u" for u
    using that rounded_double [OF that] by (auto simp: to_double_pos is_double_def)
  consider "0 < q" | "q = 0" | "0 < - q" by linarith
  then show ?thesis
    using pos [of q] pos [of "- q"] assms is_double_neg [OF assms] to_double_neg [of "- q"] by cases auto
qed

lemma to_double_double:
  assumes "to_double x = Fin v"
  shows "is_double v"
proof -
  have pos: "is_double v" if "0 < u" "to_double u = Fin v" for u v
  proof -
    have v: "v = rounded u" "rounded u < double_limit" using that by (auto simp: to_double_pos split: if_splits)
    have m: "0 \<le> nearest (u / 2 powi unit_exponent u)" "nearest (u / 2 powi unit_exponent u) \<le> 2 ^ 53"
      using nearest_unit_le [OF that(1)] .
    have "0 \<le> v" unfolding v rounded_def using m by simp
    moreover have "- 1074 \<le> unit_exponent u" by (simp add: unit_exponent_def)
    moreover have "\<bar>nearest (u / 2 powi unit_exponent u)\<bar> \<le> 2 ^ 53" using m by linarith
    ultimately show ?thesis using v unfolding is_double_def rounded_def by (metis abs_of_nonneg)
  qed
  have zero: "is_double 0"
    unfolding is_double_def by (rule conjI, rule exI [of _ 0], rule exI [of _ 0]) (simp_all add: double_limit_def)
  consider "0 < x" | "x = 0" | "0 < - x" by linarith
  then show ?thesis
  proof cases
    case 3
    have "to_double (- x) = Fin (- v)" using assms to_double_neg [of x] by simp
    from is_double_neg [OF pos [OF 3 this]] show ?thesis by simp
  qed (use assms pos zero in auto)
qed

end
