(* ===== verification/Statistics.thy ===== *)
theory Statistics
  imports Rounding
begin

text \<open>
  The arithmetic and the summary statistics of the benchmark harnesses: Python's float operators on
  doubles (a negative zero is the rational zero), \<open>statistics.median\<close>, and \<open>percentile\<close> and
  \<open>distribution\<close> of \<open>postgres-postgres/benchmark/paired.py\<close> and of
  \<open>postgres-local-partition/benchmark/scale.py\<close>. \<open>distribution_ordered\<close> shows that the summary of
  finite values exists and is ordered; \<open>p95_exceeds_max\<close> that the 95th percentile is not.
\<close>

text \<open>
  The exceptions of the harnesses: a deliberate refusal with a short text, an unchecked access, a number
  that cannot be converted, a division by zero, and an index out of range. \<open>NanOrder\<close> is no exception:
  the place of a NaN in a sorted list depends on the comparisons of the sort and is not modelled.
\<close>

datatype (plugins only: code) bench_error =
  Failed string | Unchecked py_error | Unconvertible | DivisionByZero | OutOfRange | NanOrder

section \<open>Float operators\<close>

fun fl_add :: "pyfloat \<Rightarrow> pyfloat \<Rightarrow> pyfloat" where
  "fl_add (Fin a) (Fin b) = to_double (a + b)"
| "fl_add NaN _ = NaN"
| "fl_add _ NaN = NaN"
| "fl_add PInf NInf = NaN"
| "fl_add NInf PInf = NaN"
| "fl_add PInf _ = PInf"
| "fl_add _ PInf = PInf"
| "fl_add NInf _ = NInf"
| "fl_add _ NInf = NInf"

definition fl_sub :: "pyfloat \<Rightarrow> pyfloat \<Rightarrow> pyfloat" where
  "fl_sub x y = fl_add x (neg_float y)"

text \<open>The sign of a float: \<open>1\<close>, \<open>0\<close> or \<open>-1\<close>.\<close>

fun fl_sign :: "pyfloat \<Rightarrow> rat" where
  "fl_sign (Fin a) = sgn a"
| "fl_sign PInf = 1"
| "fl_sign NInf = - 1"
| "fl_sign NaN = 0"

definition infinity_of_sign :: "rat \<Rightarrow> pyfloat" where
  "infinity_of_sign s = (if s = 0 then NaN else if 0 < s then PInf else NInf)"

fun fl_mul :: "pyfloat \<Rightarrow> pyfloat \<Rightarrow> pyfloat" where
  "fl_mul (Fin a) (Fin b) = to_double (a * b)"
| "fl_mul NaN _ = NaN"
| "fl_mul _ NaN = NaN"
| "fl_mul x y = infinity_of_sign (fl_sign x * fl_sign y)"

text \<open>\<open>x / y\<close> raises \<open>ZeroDivisionError\<close> whatever \<open>x\<close> is.\<close>

fun fl_quotient :: "pyfloat \<Rightarrow> pyfloat \<Rightarrow> pyfloat" where
  "fl_quotient (Fin a) (Fin b) = to_double (a / b)"
| "fl_quotient NaN _ = NaN"
| "fl_quotient _ NaN = NaN"
| "fl_quotient (Fin a) _ = Fin 0"
| "fl_quotient x (Fin b) = infinity_of_sign (fl_sign x * (if b < 0 then - 1 else 1))"
| "fl_quotient _ _ = NaN"

definition fl_div :: "pyfloat \<Rightarrow> pyfloat \<Rightarrow> bench_error + pyfloat" where
  "fl_div x y = (if y = Fin 0 then Inl DivisionByZero else Inr (fl_quotient x y))"

text \<open>\<open>float(v)\<close> of a value and of an integer.\<close>

definition float_value :: "json \<Rightarrow> bench_error + pyfloat" where
  "float_value v = want_some (py_float v) Unconvertible"

definition float_of_int :: "int \<Rightarrow> bench_error + pyfloat" where
  "float_of_int i = want_some (finite_float (to_double (of_int i))) Unconvertible"

text \<open>\<open>a / b\<close> of integers: the nearest double of the quotient.\<close>

definition int_div :: "int \<Rightarrow> int \<Rightarrow> bench_error + pyfloat" where
  "int_div a b =
     (if b = 0 then Inl DivisionByZero
      else want_some (finite_float (to_double (of_int a / of_int b))) Unconvertible)"

section \<open>Summaries\<close>

text \<open>\<open>xs[i]\<close>, counting from the end for a negative index.\<close>

definition item :: "'a list \<Rightarrow> int \<Rightarrow> bench_error + 'a" where
  "item xs i =
     (let n = int (length xs); k = (if i < 0 then n + i else i)
      in if 0 \<le> k \<and> k < n then Inr (xs ! nat k) else Inl OutOfRange)"

text \<open>\<open>statistics.median\<close> of a sorted list.\<close>

definition median :: "pyfloat list \<Rightarrow> bench_error + pyfloat" where
  "median ordered =
     (let n = length ordered in
      if n = 0 then Inl (Failed ''no median for empty data'')
      else if odd n then Inr (ordered ! (n div 2))
      else fl_div (fl_add (ordered ! (n div 2 - 1)) (ordered ! (n div 2))) (Fin 2))"

definition percentile :: "pyfloat list \<Rightarrow> pyfloat \<Rightarrow> bench_error + pyfloat" where
  "percentile sorted_values p =
     (if sorted_values = [] then Inl (Failed ''cannot compute percentile of empty list'')
      else if length sorted_values = 1 then Inr (hd sorted_values)
      else
        ebind (float_of_int (int (length sorted_values) - 1)) (\<lambda>n.
          case fl_mul n p of
            Fin rank \<Rightarrow>
              (let lower = \<lfloor>rank\<rfloor>; upper = \<lceil>rank\<rceil> in
               if lower = upper then item sorted_values lower
               else
                 ebind (float_of_int lower) (\<lambda>l.
                 let weight = fl_sub (Fin rank) l in
                 ebind (item sorted_values lower) (\<lambda>a.
                 ebind (item sorted_values upper) (\<lambda>b.
                   Inr (fl_add (fl_mul a (fl_sub (Fin 1) weight)) (fl_mul b weight))))))
          | _ \<Rightarrow> Inl Unconvertible))"

definition p95 :: pyfloat where
  "p95 = to_double (95 / 100)"

text \<open>\<open>sorted\<close> of floats.\<close>

definition sorted_floats :: "pyfloat list \<Rightarrow> bench_error + pyfloat list" where
  "sorted_floats xs = (if NaN \<in> set xs then Inl NanOrder else Inr (sort xs))"

definition distribution :: "json list \<Rightarrow> bench_error + obj" where
  "distribution vals =
     ebind (eguard (vals \<noteq> []) (Failed ''cannot summarize empty values'')) (\<lambda>_.
     ebind (emap float_value vals) (\<lambda>xs.
     ebind (sorted_floats xs) (\<lambda>ordered.
     ebind (median ordered) (\<lambda>m.
     ebind (percentile ordered p95) (\<lambda>p.
       Inr [(''min'', JFloat (Min (set ordered))), (''median'', JFloat m),
            (''max'', JFloat (Max (set ordered))), (''p95'', JFloat p)])))))"

text \<open>The functions of \<open>scale.py\<close> take unsorted values, and sort them once more.\<close>

definition scale_percentile :: "json list \<Rightarrow> pyfloat \<Rightarrow> bench_error + pyfloat" where
  "scale_percentile vals p =
     ebind (emap float_value vals) (\<lambda>xs. ebind (sorted_floats xs) (\<lambda>ordered. percentile ordered p))"

definition scale_distribution :: "json list \<Rightarrow> bench_error + obj" where
  "scale_distribution vals =
     ebind (emap float_value vals) (\<lambda>xs.
     ebind (eguard (xs \<noteq> []) (Failed ''cannot summarize empty values'')) (\<lambda>_.
     ebind (sorted_floats xs) (\<lambda>ordered.
     ebind (median ordered) (\<lambda>m.
     ebind (scale_percentile (map JFloat xs) p95) (\<lambda>p.
       Inr [(''min'', JFloat (Min (set xs))), (''median'', JFloat m), (''p95'', JFloat p),
            (''max'', JFloat (Max (set xs)))])))))"

section \<open>Ranges\<close>

lemma is_double_int: "\<bar>i\<bar> \<le> 2 ^ 53 \<Longrightarrow> is_double (of_int i)"
proof -
  assume i: "\<bar>i\<bar> \<le> 2 ^ 53"
  have "\<bar>of_int i\<bar> \<le> (of_int (2 ^ 53) :: rat)" using i by (simp only: of_int_abs [symmetric] of_int_le_iff)
  also have "\<dots> = 2 powi 53" by simp
  also have "\<dots> < double_limit" unfolding double_limit_def by (simp only: powi_less_iff)
  finally have "\<bar>of_int i\<bar> < double_limit" .
  moreover have "(of_int i :: rat) = of_int i * 2 powi 0" by simp
  ultimately show "is_double (of_int i)" using i unfolding is_double_def by (metis neg_le_0_iff_le zero_le_numeral)
qed

lemma to_double_int: "\<bar>i\<bar> \<le> 2 ^ 53 \<Longrightarrow> to_double (of_int i) = Fin (of_int i)"
  by (rule to_double_exact [OF is_double_int])

lemma float_of_int_small: "\<bar>i\<bar> \<le> 2 ^ 53 \<Longrightarrow> float_of_int i = Inr (Fin (of_int i))"
  by (simp add: float_of_int_def to_double_int finite_float_def)

text \<open>A number between two doubles is rounded to one between them.\<close>

lemma to_double_between:
  assumes "is_double a" "is_double b" "a \<le> x" "x \<le> b"
  obtains v where "to_double x = Fin v" "a \<le> v" "v \<le> b" "is_double v"
proof -
  have "Fin a \<le> to_double x" "to_double x \<le> Fin b"
    using to_double_mono [OF assms(3)] to_double_mono [OF assms(4)] to_double_exact assms(1,2) by auto
  then obtain v where "to_double x = Fin v" by (cases "to_double x") (auto simp: less_eq_pyfloat_def)
  with \<open>Fin a \<le> to_double x\<close> \<open>to_double x \<le> Fin b\<close> show ?thesis
    using that to_double_double by auto
qed

lemma is_double_0 [simp]: "is_double 0"
  using is_double_int [of 0] by simp

lemma is_double_1 [simp]: "is_double 1"
  using is_double_int [of 1] by simp

text \<open>Finite doubles whose sums cannot overflow.\<close>

definition moderate :: "pyfloat \<Rightarrow> bool" where
  "moderate x \<longleftrightarrow> (case x of Fin a \<Rightarrow> is_double a \<and> 2 * \<bar>a\<bar> < double_limit | _ \<Rightarrow> False)"

lemma moderateE:
  assumes "moderate x"
  obtains a where "x = Fin a" "is_double a" "is_double (2 * a)"
  using assms is_double_twice by (cases x) (auto simp: moderate_def)

text \<open>The mean of two values lies between them.\<close>

lemma mean_between:
  assumes "moderate x" "moderate y" "x \<le> y"
  shows "\<exists>v. fl_div (fl_add x y) (Fin 2) = Inr (Fin v) \<and> x \<le> Fin v \<and> Fin v \<le> y"
proof -
  obtain a b where a: "x = Fin a" "is_double a" "is_double (2 * a)" and b: "y = Fin b" "is_double b" "is_double (2 * b)"
    using assms by (meson moderateE)
  have le: "2 * a \<le> a + b" "a + b \<le> 2 * b" using assms(3) a b by simp_all
  obtain s where s: "to_double (a + b) = Fin s" "2 * a \<le> s" "s \<le> 2 * b"
    by (rule to_double_between [OF a(3) b(3) le])
  then have "a \<le> s / 2" "s / 2 \<le> b" by simp_all
  then obtain v where "to_double (s / 2) = Fin v" "a \<le> v" "v \<le> b"
    by (rule to_double_between [OF a(2) b(2)])
  then show ?thesis using a b s by (simp add: fl_div_def)
qed

lemma sorted_sort_nth: "i \<le> j \<Longrightarrow> j < length xs \<Longrightarrow> sort xs ! i \<le> sort xs ! j"
  by (rule sorted_nth_mono) simp_all

lemma median_between:
  assumes "xs \<noteq> []" "\<And>x. x \<in> set xs \<Longrightarrow> moderate x"
  shows "\<exists>m. median (sort xs) = Inr m \<and> Min (set xs) \<le> m \<and> m \<le> Max (set xs)"
proof -
  let ?o = "sort xs"
  let ?n = "length xs"
  have mem: "?o ! i \<in> set xs" if "i < ?n" for i using that by (metis length_sort nth_mem set_sort)
  then have bounds: "Min (set xs) \<le> ?o ! i" "?o ! i \<le> Max (set xs)" if "i < ?n" for i using that by auto
  have n: "0 < ?n" using assms(1) by simp
  show ?thesis
  proof (cases "odd ?n")
    case True
    then show ?thesis using bounds [of "?n div 2"] n by (auto simp: median_def Let_def)
  next
    case False
    with n have i: "?n div 2 - 1 < ?n" "?n div 2 < ?n" by linarith+
    have "?o ! (?n div 2 - 1) \<le> ?o ! (?n div 2)" using i by (intro sorted_sort_nth) auto
    with mean_between [of "?o ! (?n div 2 - 1)" "?o ! (?n div 2)"] assms(2) [OF mem [OF i(1)]] assms(2) [OF mem [OF i(2)]]
    obtain v where "fl_div (fl_add (?o ! (?n div 2 - 1)) (?o ! (?n div 2))) (Fin 2) = Inr (Fin v)"
      "?o ! (?n div 2 - 1) \<le> Fin v" "Fin v \<le> ?o ! (?n div 2)" by blast
    then show ?thesis using False n bounds [OF i(1)] bounds [OF i(2)]
      by (auto simp: median_def Let_def intro: order_trans)
  qed
qed

section \<open>The percentile exists\<close>

lemma moderate_product:
  assumes "moderate x" "is_double w" "0 \<le> w" "w \<le> 1"
  shows "moderate (fl_mul x (Fin w))"
proof -
  obtain a where a: "x = Fin a" "is_double a" "2 * \<bar>a\<bar> < double_limit"
    using assms(1) by (cases x) (auto simp: moderate_def)
  have "\<bar>a * w\<bar> \<le> \<bar>a\<bar>" using assms(3,4) mult_left_le [of w "\<bar>a\<bar>"] by (simp add: abs_mult)
  then have "- \<bar>a\<bar> \<le> a * w" "a * w \<le> \<bar>a\<bar>" by linarith+
  moreover have "is_double \<bar>a\<bar>" "is_double (- \<bar>a\<bar>)" using a(2) is_double_neg [OF a(2)] by (cases "0 \<le> a"; simp)+
  ultimately obtain v where "to_double (a * w) = Fin v" "- \<bar>a\<bar> \<le> v" "v \<le> \<bar>a\<bar>" "is_double v"
    by (meson to_double_between)
  then show ?thesis using a by (auto simp: moderate_def)
qed

lemma percentile_exists:
  assumes "xs \<noteq> []" "length xs \<le> 2 ^ 53" "\<And>x. x \<in> set xs \<Longrightarrow> moderate x"
    and p: "p = Fin q" "0 \<le> q" "q \<le> 1"
  shows "\<exists>y. percentile xs p = Inr y"
proof (cases "length xs = 1")
  case True
  then show ?thesis using assms(1) by (simp add: percentile_def)
next
  case False
  let ?k = "int (length xs) - 1"
  have "length xs \<noteq> 0" using assms(1) by simp
  with False have k: "1 \<le> ?k" by linarith
  have "int (length xs) \<le> int (2 ^ 53)" using assms(2) by (simp only: of_nat_le_iff)
  with k have k2: "\<bar>?k\<bar> \<le> 2 ^ 53" by simp
  have "(0 :: rat) \<le> of_int ?k" using k by (simp only: of_int_0_le_iff)
  then have "0 \<le> of_int ?k * q" "of_int ?k * q \<le> of_int ?k"
    using p by (simp_all only: mult_nonneg_nonneg mult_left_le)
  then obtain r where r: "to_double (of_int ?k * q) = Fin r" "0 \<le> r" "r \<le> of_int ?k"
    using to_double_between [OF is_double_0 is_double_int [OF k2]] by metis
  let ?l = "\<lfloor>r\<rfloor>"
  let ?u = "\<lceil>r\<rceil>"
  have l: "0 \<le> ?l" "?l \<le> ?k" "\<bar>?l\<bar> \<le> 2 ^ 53" "0 \<le> ?u" "?u \<le> ?k"
  proof -
    show "0 \<le> ?l" "0 \<le> ?u" using r(2) by (simp_all add: le_ceiling_iff)
    show u: "?u \<le> ?k" using r(3) by (simp only: ceiling_le_iff)
    then show "?l \<le> ?k" using floor_le_ceiling [of r] by linarith
    with \<open>0 \<le> ?l\<close> show "\<bar>?l\<bar> \<le> 2 ^ 53" using k2 by linarith
  qed
  have item: "item xs i = Inr (xs ! nat i)" "xs ! nat i \<in> set xs" if "0 \<le> i" "i \<le> ?k" for i
    using that by (auto simp: item_def Let_def)
  have "float_of_int ?k = Inr (Fin (of_int ?k))" "float_of_int ?l = Inr (Fin (of_int ?l))"
    by (fact float_of_int_small [OF k2] float_of_int_small [OF l(3)])+
  moreover have "fl_mul (Fin (of_int ?k)) p = Fin r" using r(1) p(1) by simp
  moreover note item(1) [OF l(1,2)] item(1) [OF l(4,5)]
  ultimately show ?thesis
    using assms(1) False by (cases "?l = ?u") (simp_all only: percentile_def Let_def ebind_simps pyfloat.case if_False if_True, auto)
qed

lemma p95_value: "p95 = Fin (4278419646001971 / 4503599627370496)"
  by code_simp

text \<open>The summary of the floats of a list of values.\<close>

lemma distribution_of_floats:
  assumes "emap float_value vals = Inr xs" "xs \<noteq> []" "length xs \<le> 2 ^ 53" "\<And>x. x \<in> set xs \<Longrightarrow> moderate x"
  shows "\<exists>m p. distribution vals =
      Inr [(''min'', JFloat (Min (set xs))), (''median'', JFloat m), (''max'', JFloat (Max (set xs))), (''p95'', JFloat p)] \<and>
    Min (set xs) \<le> m \<and> m \<le> Max (set xs)"
proof -
  have "vals \<noteq> []" using assms(1,2) by auto
  moreover have "\<not> moderate NaN" by (simp add: moderate_def)
  then have "NaN \<notin> set xs" using assms(4) by blast
  moreover obtain m where "median (sort xs) = Inr m" "Min (set xs) \<le> m" "m \<le> Max (set xs)"
    using median_between [OF assms(2,4)] by blast
  moreover have "sort xs \<noteq> []" using assms(2) by (metis length_0_conv length_sort)
  then have "\<exists>p. percentile (sort xs) p95 = Inr p"
    using assms by (intro percentile_exists [OF _ _ _ p95_value]) auto
  ultimately show ?thesis using assms(1) by (auto simp: distribution_def sorted_floats_def)
qed

section \<open>Properties\<close>

definition moderate_value :: "json \<Rightarrow> bool" where
  "moderate_value v \<longleftrightarrow> (case py_float v of Some x \<Rightarrow> moderate x | None \<Rightarrow> False)"

definition ordered_summary :: "json list \<Rightarrow> obj \<Rightarrow> bool" where
  "ordered_summary vals d \<longleftrightarrow>
     (\<exists>low m high p. d = [(''min'', JFloat low), (''median'', JFloat m), (''max'', JFloat high), (''p95'', JFloat p)] \<and>
        low \<le> m \<and> m \<le> high \<and> (\<exists>v \<in> set vals. py_float v = Some low) \<and> (\<exists>v \<in> set vals. py_float v = Some high) \<and>
        (\<forall>v \<in> set vals. \<exists>x. py_float v = Some x \<and> low \<le> x \<and> x \<le> high))"

text \<open>
  C34. The summary of a benchmark's values never raises and is ordered: for a nonempty list of finite
  values whose sums cannot overflow, the minimum and the maximum are values of the list that bound all
  of them, and the median, computed through a rounded sum and a rounded quotient, lies between them.
\<close>

theorem distribution_ordered:
  assumes "vals \<noteq> []" "length vals \<le> 2 ^ 53" "list_all moderate_value vals"
  shows "\<exists>d. distribution vals = Inr d \<and> ordered_summary vals d"
proof -
  define xs where "xs = map (\<lambda>v. the (py_float v)) vals"
  have fl: "py_float v = Some (the (py_float v))" "moderate (the (py_float v))" if "v \<in> set vals" for v
    using that assms(3) by (auto simp: list_all_iff moderate_value_def split: option.splits)
  have "emap float_value vals = Inr xs"
    unfolding xs_def by (rule emap_pure) (metis fl(1) float_value_def want_some_simps(2))
  moreover have "xs \<noteq> []" "length xs \<le> 2 ^ 53" using assms by (simp_all add: xs_def)
  moreover have "moderate x" if "x \<in> set xs" for x using that fl by (auto simp: xs_def)
  ultimately obtain m p where d: "distribution vals =
      Inr [(''min'', JFloat (Min (set xs))), (''median'', JFloat m), (''max'', JFloat (Max (set xs))), (''p95'', JFloat p)]"
    "Min (set xs) \<le> m" "m \<le> Max (set xs)" using distribution_of_floats by blast
  have "Min (set xs) \<in> set xs" "Max (set xs) \<in> set xs" using \<open>xs \<noteq> []\<close> by simp_all
  then have "\<exists>v \<in> set vals. py_float v = Some (Min (set xs))" "\<exists>v \<in> set vals. py_float v = Some (Max (set xs))"
    using fl(1) by (auto simp: xs_def)
  moreover have "\<exists>x. py_float v = Some x \<and> Min (set xs) \<le> x \<and> x \<le> Max (set xs)" if "v \<in> set vals" for v
  proof -
    have "the (py_float v) \<in> set xs" using that by (simp add: xs_def)
    then show ?thesis using fl(1) [OF that] by auto
  qed
  ultimately show ?thesis using d unfolding ordered_summary_def by blast
qed

lemma moderate_int:
  assumes "\<bar>i\<bar> \<le> 2 ^ 53"
  shows "moderate_value (JInt i)"
proof -
  have "\<bar>of_int i\<bar> \<le> (of_int (2 ^ 53) :: rat)" using assms by (simp only: of_int_abs [symmetric] of_int_le_iff)
  then have "2 * \<bar>of_int i\<bar> \<le> (2 powi 54 :: rat)" by simp
  also have "\<dots> < double_limit" unfolding double_limit_def by (simp only: powi_less_iff)
  finally show ?thesis
    using is_double_int [OF assms] by (simp add: moderate_value_def moderate_def to_double_int [OF assms] finite_float_def)
qed

theorem distribution_ordered_witness:
  "\<exists>d. distribution [JInt 3, JInt 1, JInt 4, JInt 2] = Inr d \<and> ordered_summary [JInt 3, JInt 1, JInt 4, JInt 2] d"
  by (rule distribution_ordered) (simp_all add: moderate_int)

text \<open>
  Seven equal measurements of 0.21 seconds have a 95th percentile above their maximum: both
  weighted terms are rounded, and their sum is the next double.
\<close>

theorem p95_exceeds_max:
  "(case distribution (replicate 7 (JStr ''0.21'')) of
      Inr d \<Rightarrow> (case (dget d ''p95'', dget d ''max'') of (JFloat p, JFloat m) \<Rightarrow> m < p | _ \<Rightarrow> False)
    | Inl _ \<Rightarrow> False)"
  by code_simp

end
