(* ===== verification/Harness.thy ===== *)
theory Harness
  imports Programs Statistics Csv_Evidence
begin

text \<open>
  What the benchmark harnesses share: the host they run on (\<open>host\<close>: processes, files, clocks, whose
  answers depend on the history of requests), \<open>try ... finally\<close>, the conversions \<open>int(v)\<close> and
  \<open>float(v)\<close>, and the parsers of GNU \<open>time\<close> output, of crash markers and of verifier reports that
  \<open>postgres-postgres/benchmark/paired.py\<close> defines and \<open>four_way.py\<close> reuses.
\<close>

section \<open>The host\<close>

text \<open>A finished process: its exit code, its output as text and, where it is valid JSON, as a value, and its error output.\<close>

record exit =
  exit_code :: int
  out_text :: string
  out_json :: "json option"
  err_text :: string

datatype (plugins only: code) host_event =
    Execute "string list"
  | Launch "string list"
  | Await int
  | AwaitFor int rat
  | PollProcess int
  | KillProcess int
  | Signal int
  | Probe int
  | Scratch string
  | LookFile string
  | ReadText string
  | Remove string
  | WallTime
  | PerfTime
  | MonoTime
  | Doze
  | WriteReport obj

type_synonym host_history = "host_event list"

record host =
  executed :: "host_history \<Rightarrow> string list \<Rightarrow> exit"
  launched :: "host_history \<Rightarrow> string list \<Rightarrow> int"
  awaited :: "host_history \<Rightarrow> int \<Rightarrow> exit"
  awaited_for :: "host_history \<Rightarrow> int \<Rightarrow> rat \<Rightarrow> exit option"
  polled :: "host_history \<Rightarrow> int \<Rightarrow> int option"
  process_alive :: "host_history \<Rightarrow> int \<Rightarrow> bool"
  scratch_path :: "host_history \<Rightarrow> string \<Rightarrow> string"
  file_text :: "host_history \<Rightarrow> string \<Rightarrow> string option"
  wall_time :: "host_history \<Rightarrow> rat"
  perf_time :: "host_history \<Rightarrow> rat"
  mono_time :: "host_history \<Rightarrow> rat"
  file_exists :: "string \<Rightarrow> bool"
  environment :: "string \<Rightarrow> string option"
  platform_facts :: obj
  lock_document :: "obj option"
  file_digest :: "string \<Rightarrow> string option"

type_synonym 'a harness = "(host_event, bench_error, 'a) program"

definition refuse :: "bool \<Rightarrow> string \<Rightarrow> unit harness" where
  "refuse b msg = plift (eguard (\<not> b) (Failed msg))"

definition py_builtin :: "py_error + 'a \<Rightarrow> bench_error + 'a" where
  "py_builtin m = map_err Unchecked m"

text \<open>\<open>subprocess.run\<close>, and with \<open>check=True\<close>.\<close>

definition execute :: "host \<Rightarrow> string list \<Rightarrow> exit harness" where
  "execute m argv = pdo (ask (Execute argv) (\<lambda>h. Inr (executed m h argv)))"

definition run_checked :: "host \<Rightarrow> string list \<Rightarrow> exit harness" where
  "run_checked m argv =
     pbind (execute m argv) (\<lambda>out. pbind (refuse (exit_code out \<noteq> 0) ''command failed'') (\<lambda>_. preturn out))"

definition launch :: "host \<Rightarrow> string list \<Rightarrow> int harness" where
  "launch m argv = pdo (ask (Launch argv) (\<lambda>h. Inr (launched m h argv)))"

definition await :: "host \<Rightarrow> int \<Rightarrow> exit harness" where
  "await m pid = pdo (ask (Await pid) (\<lambda>h. Inr (awaited m h pid)))"

definition await_for :: "host \<Rightarrow> int \<Rightarrow> rat \<Rightarrow> exit harness" where
  "await_for m pid timeout = pdo (ask (AwaitFor pid timeout) (\<lambda>h. want_some (awaited_for m h pid timeout) (Failed ''timeout'')))"

definition poll_process :: "host \<Rightarrow> int \<Rightarrow> int option harness" where
  "poll_process m pid = pdo (ask (PollProcess pid) (\<lambda>h. Inr (polled m h pid)))"

text \<open>\<open>os.kill\<close> with \<open>SIGKILL\<close> or 0 raises \<open>ProcessLookupError\<close> for a process that is gone.\<close>

definition signal_kill :: "host \<Rightarrow> int \<Rightarrow> unit harness" where
  "signal_kill m pid = pdo (ask (Signal pid) (\<lambda>h. eguard (process_alive m h pid) (Failed ''no such process'')))"

definition probe_alive :: "host \<Rightarrow> int \<Rightarrow> bool harness" where
  "probe_alive m pid = pdo (ask (Probe pid) (\<lambda>h. Inr (process_alive m h pid)))"

definition kill_process :: "int \<Rightarrow> unit harness" where
  "kill_process pid = pdo (ask (KillProcess pid) (\<lambda>h. Inr ()))"

definition scratch_file :: "host \<Rightarrow> string \<Rightarrow> string harness" where
  "scratch_file m name = pdo (ask (Scratch name) (\<lambda>h. Inr (scratch_path m h name)))"

definition remove_file :: "string \<Rightarrow> unit harness" where
  "remove_file path = pdo (ask (Remove path) (\<lambda>h. Inr ()))"

definition read_text :: "host \<Rightarrow> string \<Rightarrow> string harness" where
  "read_text m path = pdo (ask (ReadText path) (\<lambda>h. want_some (file_text m h path) (Failed ''unreadable file'')))"

definition wall_clock :: "host \<Rightarrow> rat harness" where
  "wall_clock m = pdo (ask WallTime (\<lambda>h. Inr (wall_time m h)))"

definition perf_clock :: "host \<Rightarrow> rat harness" where
  "perf_clock m = pdo (ask PerfTime (\<lambda>h. Inr (perf_time m h)))"

section \<open>try ... finally\<close>

text \<open>The clean-up runs however the body ends, and its own exception replaces the outcome.\<close>

definition pfinally :: "('ev, 'e, 'a) program \<Rightarrow> ('ev, 'e, unit) program \<Rightarrow> ('ev, 'e, 'a) program" where
  "pfinally m cleanup h =
     (case m h of
        None \<Rightarrow> None
      | Some (r, h1) \<Rightarrow>
          (case cleanup h1 of
             None \<Rightarrow> None
           | Some (c, h2) \<Rightarrow> (case c of Inl e \<Rightarrow> Some (Inl e, h2) | Inr _ \<Rightarrow> Some (r, h2))))"

text \<open>\<open>try: m except Exception as exc\<close>: the outcome as a value.\<close>

definition ptry :: "('ev, 'e, 'a) program \<Rightarrow> ('ev, 'e, 'e + 'a) program" where
  "ptry m h = (case m h of None \<Rightarrow> None | Some (r, h') \<Rightarrow> Some (Inr r, h'))"

lemma pfinally_Inr: "pfinally m cleanup h = Some (Inr x, h2) \<longleftrightarrow> (\<exists>h1 u. m h = Some (Inr x, h1) \<and> cleanup h1 = Some (Inr u, h2))"
  by (auto simp: pfinally_def split: option.splits sum.splits)

lemma pfinally_steps:
  assumes "pfinally m cleanup h = Some (r, h2)"
  obtains r1 h1 c where "m h = Some (r1, h1)" "cleanup h1 = Some (c, h2)" "r = (case c of Inl e \<Rightarrow> Inl e | Inr _ \<Rightarrow> r1)"
  using assms by (auto simp: pfinally_def split: option.splits sum.splits)

lemma requests_pfinally [request_intros]:
  assumes "requests P m" "requests P cleanup"
  shows "requests P (pfinally m cleanup)"
  unfolding requests_def
proof (intro allI impI)
  fix h r h'
  assume "pfinally m cleanup h = Some (r, h')"
  then obtain r1 h1 c where s: "m h = Some (r1, h1)" "cleanup h1 = Some (c, h')" by (rule pfinally_steps)
  show "\<exists>es. h' = es @ h \<and> list_all P es"
    using requestsD [OF assms(1) s(1)] requestsD [OF assms(2) s(2)] by auto
qed

lemma requests_ptry [request_intros]: "requests P m \<Longrightarrow> requests P (ptry m)"
  by (auto simp: requests_def ptry_def split: option.splits)

lemma returns_pfinally [returns_intros]: "returns m \<Longrightarrow> returns cleanup \<Longrightarrow> returns (pfinally m cleanup)"
  by (auto simp: returns_def pfinally_def split: option.splits sum.splits) (metis option.distinct(1))

lemma returns_ptry [returns_intros]: "returns m \<Longrightarrow> returns (ptry m)"
  by (auto simp: returns_def ptry_def split: option.splits)

text \<open>
  Outcomes: from a history with \<open>I\<close> the program raises at a history with \<open>G\<close> or returns a value at one
  with \<open>J\<close>.
\<close>

definition ends :: "('ev list \<Rightarrow> bool) \<Rightarrow> ('ev list \<Rightarrow> bool) \<Rightarrow> ('ev, 'e, 'a) program \<Rightarrow> ('a \<Rightarrow> 'ev list \<Rightarrow> bool) \<Rightarrow> bool" where
  "ends G I m J \<longleftrightarrow> (\<forall>h r h'. m h = Some (r, h') \<longrightarrow> I h \<longrightarrow> (case r of Inl e \<Rightarrow> G h' | Inr x \<Rightarrow> J x h'))"

lemma endsD: "ends G I m J \<Longrightarrow> m h = Some (r, h') \<Longrightarrow> I h \<Longrightarrow> (case r of Inl e \<Rightarrow> G h' | Inr x \<Rightarrow> J x h')"
  unfolding ends_def by blast

lemma ends_pbind:
  assumes "ends G I m J" "\<And>x. ends G (J x) (f x) K"
  shows "ends G I (pbind m f) K"
  unfolding ends_def
proof (intro allI impI)
  fix h r h'
  assume "pbind m f h = Some (r, h')" "I h"
  then show "case r of Inl e \<Rightarrow> G h' | Inr x \<Rightarrow> K x h'"
  proof (cases rule: pbind_steps)
    case (raised e)
    then show ?thesis using assms(1) \<open>I h\<close> by (force simp: ends_def)
  next
    case (returned x h1)
    then have "J x h1" using assms(1) \<open>I h\<close> by (force simp: ends_def)
    with returned(2) assms(2) show ?thesis by (force simp: ends_def)
  qed
qed

lemma ends_weaken:
  assumes "ends G I m J" "\<And>h. I' h \<Longrightarrow> I h" "\<And>h. G h \<Longrightarrow> G' h" "\<And>x h. J x h \<Longrightarrow> J' x h"
  shows "ends G' I' m J'"
  unfolding ends_def
proof (intro allI impI)
  fix h r h'
  assume "m h = Some (r, h')" "I' h"
  then have "case r of Inl e \<Rightarrow> G h' | Inr x \<Rightarrow> J x h'" using assms(1,2) unfolding ends_def by blast
  with assms(3,4) show "case r of Inl e \<Rightarrow> G' h' | Inr x \<Rightarrow> J' x h'" by (auto split: sum.splits)
qed

lemma ends_preturn: "(\<And>h. I h \<Longrightarrow> J x h) \<Longrightarrow> ends G I (preturn x) J"
  by (simp add: ends_def preturn_def)

lemma ends_plift: "(\<And>h. I h \<Longrightarrow> G h) \<Longrightarrow> ends G I (plift p) (\<lambda>x h. p = Inr x \<and> I h)"
  by (auto simp: ends_def plift_def split: sum.splits)

lemma ends_plift_ok: "p = Inr x \<Longrightarrow> ends G I (plift p) (\<lambda>y h. y = x \<and> I h)"
  by (auto simp: ends_def plift_def)

lemma ends_ask: "(\<And>h. I h \<Longrightarrow> J (f h) (ev # h)) \<Longrightarrow> ends G I (pdo (ask ev (\<lambda>h. Inr (f h)))) J"
  by (auto simp: ends_def pdo_def ask_def)

lemma ends_pure: "(P \<Longrightarrow> ends G I m J) \<Longrightarrow> ends G (\<lambda>h. P \<and> I h) m J"
  by (auto simp: ends_def)

lemma ends_requests:
  assumes "requests P m" "\<And>h es. I h \<Longrightarrow> list_all P es \<Longrightarrow> I (es @ h)"
  shows "ends I I m (\<lambda>_. I)"
  unfolding ends_def using assms by (auto dest: requestsD split: sum.splits)

lemma ends_pmap:
  assumes "\<And>x. x \<in> set xs \<Longrightarrow> ends G I (f x) (\<lambda>_. I)"
  shows "ends G I (pmap f xs) (\<lambda>_. I)"
  using assms
proof (induction xs)
  case Nil
  show ?case unfolding pmap.simps by (rule ends_preturn)
next
  case (Cons x xs)
  have head: "ends G I (f x) (\<lambda>_. I)" using Cons.prems by simp
  have tail: "ends G I (pmap f xs) (\<lambda>_. I)" using Cons by simp
  show ?case unfolding pmap.simps by (rule ends_pbind [OF head ends_pbind [OF tail ends_preturn]])
qed

lemma ends_pfinally:
  assumes "ends H I m (\<lambda>_. H)" "ends G H cleanup (\<lambda>_. G)"
  shows "ends G I (pfinally m cleanup) (\<lambda>_. G)"
  unfolding ends_def
proof (intro allI impI)
  fix h r h'
  assume "pfinally m cleanup h = Some (r, h')" "I h"
  then obtain r1 h1 c where s: "m h = Some (r1, h1)" "cleanup h1 = Some (c, h')" "r = (case c of Inl e \<Rightarrow> Inl e | Inr _ \<Rightarrow> r1)"
    by (elim pfinally_steps) blast
  have "H h1" using assms(1) s(1) \<open>I h\<close> by (cases r1) (force simp: ends_def)+
  then have "G h'" using assms(2) s(2) by (cases c) (force simp: ends_def)+
  then show "case r of Inl e \<Rightarrow> G h' | Inr x \<Rightarrow> G h'" by (cases r) simp_all
qed

text \<open>A handled program never raises.\<close>

lemma ends_ptry: "ends G I m (\<lambda>_. G) \<Longrightarrow> ends K I (ptry m) (\<lambda>_. G)"
  by (force simp: ends_def ptry_def split: option.splits sum.splits)

section \<open>Values\<close>

text \<open>\<open>int(v)\<close>: a string is parsed, a float truncated.\<close>

fun to_int :: "json \<Rightarrow> bench_error + int" where
  "to_int (JInt n) = Inr n"
| "to_int (JBool b) = Inr (if b then 1 else 0)"
| "to_int (JFloat (Fin q)) = Inr (if 0 \<le> q then \<lfloor>q\<rfloor> else \<lceil>q\<rceil>)"
| "to_int (JFloat _) = Inl Unconvertible"
| "to_int (JStr s) = want_some (int_of_str s) Unconvertible"
| "to_int _ = Inl (Unchecked TypeErr)"

text \<open>\<open>d[k]\<close>, \<open>int(d[k])\<close> and \<open>float(d[k])\<close>.\<close>

definition item_of :: "json \<Rightarrow> string \<Rightarrow> bench_error + json" where
  "item_of v k = py_builtin (getitem v k)"

definition int_item :: "json \<Rightarrow> string \<Rightarrow> bench_error + int" where
  "int_item v k = ebind (item_of v k) to_int"

definition float_item :: "json \<Rightarrow> string \<Rightarrow> bench_error + pyfloat" where
  "float_item v k = ebind (item_of v k) float_value"

text \<open>Python's \<open>max(x, y)\<close>: the second argument only if it is greater.\<close>

definition py_max :: "pyfloat \<Rightarrow> pyfloat \<Rightarrow> pyfloat" where
  "py_max x y = (if float_lt x y then y else x)"

text \<open>\<open>distribution([... path of item ...])\<close> over the pairs.\<close>

fun path_of :: "json \<Rightarrow> string list \<Rightarrow> bench_error + json" where
  "path_of v [] = Inr v"
| "path_of v (k # ks) = ebind (item_of v k) (\<lambda>w. path_of w ks)"

definition distribution_at :: "json list \<Rightarrow> string list \<Rightarrow> bench_error + json" where
  "distribution_at vals ks =
     ebind (emap (\<lambda>v. path_of v ks) vals) (\<lambda>xs. ebind (distribution xs) (\<lambda>d. Inr (JObj d)))"

text \<open>\<open>xs[n:] + xs[:n]\<close>: the rotations in which the harnesses run their candidates.\<close>

definition rotated :: "nat \<Rightarrow> 'a list \<Rightarrow> 'a list" where
  "rotated n xs = drop n xs @ take n xs"

lemma rotated_rotate: "rotated (n mod length xs) xs = rotate n xs"
  by (simp add: rotated_def rotate_drop_take)

lemma set_rotated [simp]: "set (rotated n xs) = set xs"
  by (metis append_take_drop_id rotated_def set_append sup_commute)

lemma distinct_rotated [simp]: "distinct (rotated n xs) \<longleftrightarrow> distinct xs"
  by (metis append_take_drop_id distinct_append inf_commute rotated_def)

lemma length_rotated [simp]: "length (rotated n xs) = length xs"
  by (simp add: rotated_def)

text \<open>Over the rotations every element stands once at every position.\<close>

lemma rotate_positions:
  assumes "distinct xs" "x \<in> set xs" "i < length xs"
  shows "\<exists>!n. n < length xs \<and> rotate n xs ! i = x"
proof -
  let ?k = "length xs"
  obtain j where j: "j < ?k" "xs ! j = x" using assms(2) by (auto simp: in_set_conv_nth)
  have m: "(n + i) mod ?k = (if n + i < ?k then n + i else n + i - ?k)" if "n < ?k" for n
    using that assms(3) by (simp add: le_mod_geq)
  have eq: "rotate n xs ! i = x \<longleftrightarrow> (n + i) mod ?k = j" for n
  proof -
    have "(n + i) mod ?k < ?k" using assms(3) by (intro mod_less_divisor) linarith
    then show ?thesis
      using j nth_eq_iff_index_eq [OF assms(1), of "(n + i) mod ?k" j] nth_rotate [OF assms(3), of n]
      by (simp add: add.commute)
  qed
  show ?thesis
  proof (rule ex1I [of _ "if i \<le> j then j - i else j + ?k - i"])
    show "(if i \<le> j then j - i else j + ?k - i) < ?k \<and> rotate (if i \<le> j then j - i else j + ?k - i) xs ! i = x"
      unfolding eq using j(1) assms(3) by (auto simp: m)
    fix n
    assume "n < ?k \<and> rotate n xs ! i = x"
    then show "n = (if i \<le> j then j - i else j + ?k - i)"
      using assms(3) j(1) m [of n] unfolding eq by (auto split: if_splits)
  qed
qed

section \<open>Parsers\<close>

text \<open>\<open>line.split("=", 1)\<close> into two parts.\<close>

definition split_once :: "char \<Rightarrow> string \<Rightarrow> bench_error + string \<times> string" where
  "split_once c s =
     (case dropWhile (\<lambda>x. x \<noteq> c) s of
        [] \<Rightarrow> Inl Unconvertible
      | _ # r \<Rightarrow> Inr (takeWhile (\<lambda>x. x \<noteq> c) s, r))"

definition add_time_line :: "obj \<Rightarrow> string \<Rightarrow> bench_error + obj" where
  "add_time_line vals line =
     (if line = [] then Inr vals
      else
        ebind (split_once (CHR ''='') line) (\<lambda>(key, value).
        ebind (if key = ''max_rss_kib'' then ebind (want_some (int_of_str value) Unconvertible) (\<lambda>n. Inr (JInt n))
               else ebind (want_some (float_of_str value) Unconvertible) (\<lambda>x. Inr (JFloat x))) (\<lambda>v.
          Inr (assoc_set vals key v))))"

definition time_keys :: "string list" where
  "time_keys = [''elapsed'', ''user'', ''system'', ''max_rss_kib'']"

definition parse_time_file :: "string \<Rightarrow> bench_error + obj" where
  "parse_time_file text =
     ebind (efold add_time_line [] (splitlines text)) (\<lambda>vals.
     ebind (eguard (exact_keys vals time_keys) (Failed ''unexpected /usr/bin/time output keys'')) (\<lambda>_. Inr vals))"

text \<open>
  The process id of a crash marker: the first line, or the digits after \<open>pid=\<close> where it has the form
  \<open>pid=([0-9]+)(?: .*)?\<close>.
\<close>

definition marker_digits :: "string \<Rightarrow> string" where
  "marker_digits line =
     (if startswith line ''pid='' then
        (let r = drop 4 line; digits = takeWhile is_digit r; tail = dropWhile is_digit r
         in if digits \<noteq> [] \<and> (tail = [] \<or> (hd tail = CHR '' '' \<and> list_all (\<lambda>c. c \<noteq> line_feed) (tl tail))) then digits
            else line)
      else line)"

definition parse_marker :: "string \<Rightarrow> bench_error + int" where
  "parse_marker text =
     ebind (item (splitlines text) 0) (\<lambda>first.
     let digits = marker_digits (strip first) in
     ebind (eguard (digits \<noteq> [] \<and> list_all is_digit digits) (Failed ''invalid crash marker pid line'')) (\<lambda>_.
       want_some (int_of_str digits) Unconvertible))"

definition report_keys :: "string list" where
  "report_keys =
     [''source_digest'', ''source_rows'', ''destination_rows'', ''row_counts_match'', ''expected_digest_sha256'',
      ''actual_digest_sha256'', ''digests_match'', ''total_mismatches'']"

definition parse_verify_report :: "json option \<Rightarrow> int \<Rightarrow> bench_error + obj" where
  "parse_verify_report stdout expected_rows =
     ebind (want_some stdout (Failed ''verifier did not emit valid JSON'')) (\<lambda>v.
     ebind (want_obj v (Failed ''unexpected verifier report keys'')) (\<lambda>report.
     ebind (eguard (list_all (has_key report) report_keys) (Failed ''unexpected verifier report keys'')) (\<lambda>_.
     ebind (int_item v ''source_rows'') (\<lambda>source.
     ebind (eguard (source = expected_rows) (Failed ''verifier row counts'')) (\<lambda>_.
     ebind (int_item v ''destination_rows'') (\<lambda>destination.
     ebind (eguard (destination = expected_rows) (Failed ''verifier row counts'')) (\<lambda>_.
     ebind (eguard (truthy (dget report ''row_counts_match'') \<and> truthy (dget report ''digests_match''))
        (Failed ''final-state verifier mismatch'')) (\<lambda>_.
     ebind (int_item v ''total_mismatches'') (\<lambda>mismatches.
     ebind (eguard (mismatches = 0) (Failed ''verifier reported mismatches'')) (\<lambda>_.
     ebind (eguard (py_eq (dget report ''expected_digest_sha256'') (dget report ''actual_digest_sha256''))
        (Failed ''digest booleans contradict digest values'')) (\<lambda>_. Inr report)))))))))))"

section \<open>The types of parsed resources\<close>

text \<open>The values a line of GNU \<open>time\<close> output may add.\<close>

definition time_field :: "string \<times> json \<Rightarrow> bool" where
  "time_field kv \<longleftrightarrow> (if fst kv = ''max_rss_kib'' then \<exists>n. snd kv = JInt n else \<exists>x. snd kv = JFloat x)"

lemma assoc_set_keys: "set (map fst (assoc_set d k v)) = insert k (set (map fst d))"
  by (induction d k v rule: assoc_set.induct) auto

lemma assoc_set_sub: "set (assoc_set d k v) \<subseteq> insert (k, v) (set d)"
  by (induction d k v rule: assoc_set.induct) auto

lemma add_time_line_typed:
  assumes "add_time_line d line = Inr d'" "list_all time_field d" "distinct (map fst d)"
  shows "list_all time_field d' \<and> distinct (map fst d')"
proof (cases "line = []")
  case False
  then obtain k u v where "d' = assoc_set d k v"
    "(if k = ''max_rss_kib'' then ebind (want_some (int_of_str u) Unconvertible) (\<lambda>n. Inr (JInt n))
      else ebind (want_some (float_of_str u) Unconvertible) (\<lambda>x. Inr (JFloat x))) = Inr v"
    using assms(1) by (auto simp: add_time_line_def ebind_Inr_iff split: prod.splits)
  moreover from this(2) have "time_field (k, v)" by (auto simp: time_field_def ebind_Inr_iff split: if_splits)
  ultimately show ?thesis
    using assms(2,3) assoc_set_sub [of d k v] distinct_keys_assoc_set [of d k v] by (auto simp: list_all_iff)
qed (use assms in \<open>simp add: add_time_line_def\<close>)

lemma time_lines_typed:
  "efold add_time_line d lines = Inr d' \<Longrightarrow> list_all time_field d \<Longrightarrow> distinct (map fst d) \<Longrightarrow>
     list_all time_field d' \<and> distinct (map fst d')"
  by (induction lines arbitrary: d) (auto simp: ebind_Inr_iff dest!: add_time_line_typed)

lemma distinct_dget: "distinct (map fst d) \<Longrightarrow> (k, v) \<in> set d \<Longrightarrow> dget d k = v"
  by (simp add: dget_def)

text \<open>The report of GNU \<open>time\<close> as the harnesses use it: each conversion of a field succeeds.\<close>

definition usable_times :: "obj \<Rightarrow> bool" where
  "usable_times d \<longleftrightarrow> wf_json (JObj d) \<and> keys d = set time_keys \<and>
     (\<exists>elapsed user system n. float_item (JObj d) ''elapsed'' = Inr elapsed \<and> float_item (JObj d) ''user'' = Inr user \<and>
        float_item (JObj d) ''system'' = Inr system \<and> int_item (JObj d) ''max_rss_kib'' = Inr n)"


definition toy_time_text :: string where
  "toy_time_text = ''elapsed=1.50'' @ [line_feed] @ ''user=0.75'' @ [line_feed] @ ''system=0.25'' @ [line_feed] @
     ''max_rss_kib=4096'' @ [line_feed]"


end
