(* ===== verification/Paired.thy ===== *)
theory Paired
  imports Harness Pg_Evidence
begin

text \<open>
  Model of \<open>postgres-postgres/benchmark/paired.py\<close>: the paired benchmark of OxideBatch against raw
  sqlx. Every sample runs on a fresh clone of a template database; a recovery sample kills its process
  in the middle and measures the continuation. The host and its programs are the parameter of
  \<open>Harness\<close>; the base database URL is given by the parts \<open>urlsplit\<close> finds in it, and the fixed texts
  of the final report are left out.
\<close>

section \<open>Constants\<close>

definition paired_candidates :: "string list" where
  "paired_candidates = [''oxide'', ''raw'']"

definition reader_modes :: "string list" where
  "reader_modes = [''cursor'', ''paging'']"

definition columns_per_row :: int where
  "columns_per_row = 7"

definition max_parameters_per_statement :: int where
  "max_parameters_per_statement = 2000"

definition rows_per_statement :: int where
  "rows_per_statement = max_parameters_per_statement div columns_per_row"

definition max_bound_parameters :: int where
  "max_bound_parameters = rows_per_statement * columns_per_row"

definition max_rows :: int where
  "max_rows = 10000000"

definition max_chunk_size :: int where
  "max_chunk_size = 1000000"

definition max_read_batch_size :: int where
  "max_read_batch_size = 1000000"

definition max_warmups :: int where
  "max_warmups = 10"

definition max_measured_runs :: int where
  "max_measured_runs = 20"

definition max_u64 :: int where
  "max_u64 = 2 ^ 64 - 1"

definition marker_timeout :: rat where
  "marker_timeout = 300"

text \<open>\<open>re.fullmatch\<close> of \<open>[a-z][a-z0-9_]{0,n}\<close>.\<close>

definition safe_name :: "nat \<Rightarrow> string \<Rightarrow> bool" where
  "safe_name n s \<longleftrightarrow>
     (case s of
        [] \<Rightarrow> False
      | c # r \<Rightarrow> is_lower_letter c \<and> length r \<le> n \<and> list_all (\<lambda>x. is_lower_letter x \<or> is_digit x \<or> x = CHR ''_'') r)"

definition database_name_ok :: "string \<Rightarrow> bool" where
  "database_name_ok s \<longleftrightarrow> safe_name 62 s"

definition import_name_ok :: "string \<Rightarrow> bool" where
  "import_name_ok s \<longleftrightarrow> safe_name 127 s"

section \<open>Arithmetic\<close>

text \<open>\<open>math.ceil(a / b)\<close>.\<close>

definition ceil_quotient :: "int \<Rightarrow> int \<Rightarrow> bench_error + int" where
  "ceil_quotient a b =
     ebind (int_div a b) (\<lambda>q. case q of Fin r \<Rightarrow> Inr \<lceil>r\<rceil> | _ \<Rightarrow> Inl Unconvertible)"

definition candidate_order :: "nat \<Rightarrow> string list" where
  "candidate_order ordinal = (if ordinal mod 2 = 0 then paired_candidates else rev paired_candidates)"

definition recovery_kill_chunk :: "int \<Rightarrow> int \<Rightarrow> bench_error + int" where
  "recovery_kill_chunk rows chunk_size =
     ebind (ceil_quotient rows chunk_size) (\<lambda>chunks.
     ebind (eguard (4 \<le> chunks) (Failed ''recovery benchmark requires at least four chunks'')) (\<lambda>_.
       Inr (chunks div 2 + 1)))"

text \<open>
  The loop over the chunks; its caller has checked that \<open>rows\<close> is not negative and \<open>chunk_size\<close> is
  positive, so that \<open>remaining\<close> never is negative.
\<close>

function writer_statements :: "int \<Rightarrow> int \<Rightarrow> int \<Rightarrow> bench_error + int" where
  "writer_statements chunk_size remaining statements =
     (if remaining \<le> 0 \<or> chunk_size \<le> 0 then Inr statements
      else
        let chunk_rows = min chunk_size remaining in
        ebind (ceil_quotient chunk_rows rows_per_statement) (\<lambda>n.
          writer_statements chunk_size (remaining - chunk_rows) (statements + n)))"
  by pat_completeness auto
termination
  by (relation "measure (\<lambda>(chunk_size, remaining, statements). nat remaining)") auto

declare writer_statements.simps [simp del]

definition writer_metrics :: "int \<Rightarrow> int \<Rightarrow> bench_error + obj" where
  "writer_metrics rows chunk_size =
     ebind (eguard (0 \<le> rows \<and> 0 < chunk_size) (Failed ''invalid writer metric input'')) (\<lambda>_.
     ebind (writer_statements chunk_size rows 0) (\<lambda>statements.
     ebind (if rows \<noteq> 0 then ceil_quotient rows chunk_size else Inr 0) (\<lambda>chunks.
       Inr [(''committed_rows'', JInt rows), (''committed_chunks'', JInt chunks), (''writer_statements'', JInt statements),
            (''bound_parameters_total'', JInt (rows * columns_per_row)),
            (''max_parameters_per_statement'', JInt max_parameters_per_statement),
            (''rows_per_full_statement'', JInt rows_per_statement),
            (''max_bound_parameters_per_full_statement'', JInt max_bound_parameters)])))"

text \<open>\<open>float(left[k]) / float(right[k])\<close>, and with the divisor at least \<open>1e-12\<close>.\<close>

definition ratio_of :: "json \<Rightarrow> json \<Rightarrow> string \<Rightarrow> bench_error + json" where
  "ratio_of left right k =
     ebind (float_item left k) (\<lambda>x. ebind (float_item right k) (\<lambda>y. ebind (fl_div x y) (\<lambda>q. Inr (JFloat q))))"

definition cpu_ratio :: "json \<Rightarrow> json \<Rightarrow> string \<Rightarrow> bench_error + json" where
  "cpu_ratio left right k =
     ebind (float_item left k) (\<lambda>x. ebind (float_item right k) (\<lambda>y.
     ebind (fl_div x (py_max y (to_double (1 / 10 ^ 12)))) (\<lambda>q. Inr (JFloat q))))"

definition paired_ratios :: "json \<Rightarrow> json \<Rightarrow> bench_error + obj" where
  "paired_ratios oxide plain =
     ebind (ratio_of plain oxide ''elapsed_seconds'') (\<lambda>elapsed.
     ebind (ratio_of plain oxide ''rows_per_second'') (\<lambda>throughput.
     ebind (ratio_of plain oxide ''max_rss_kib'') (\<lambda>rss.
     ebind (cpu_ratio plain oxide ''user_cpu_seconds'') (\<lambda>user.
     ebind (cpu_ratio plain oxide ''system_cpu_seconds'') (\<lambda>system.
       Inr [(''elapsed_raw_to_oxide'', elapsed), (''throughput_raw_to_oxide'', throughput), (''max_rss_raw_to_oxide'', rss),
            (''user_cpu_raw_to_oxide'', user), (''system_cpu_raw_to_oxide'', system)])))))"

definition paired_metrics :: "string list" where
  "paired_metrics = [''elapsed_seconds'', ''rows_per_second'', ''max_rss_kib'', ''user_cpu_seconds'', ''system_cpu_seconds'']"

definition summarize_pairs :: "json list \<Rightarrow> bench_error + obj" where
  "summarize_pairs pairs =
     ebind (eguard (pairs \<noteq> []) (Failed ''cannot summarize empty pair set'')) (\<lambda>_.
     ebind (emap (\<lambda>candidate.
        ebind (emap (\<lambda>pair. path_of pair [''candidates'', candidate]) pairs) (\<lambda>samples.
        ebind (emap (\<lambda>metric. ebind (distribution_at samples [metric]) (\<lambda>d. Inr (metric, d))) paired_metrics) (\<lambda>ds.
          Inr (candidate, JObj ds)))) paired_candidates) (\<lambda>candidates.
     ebind (item_of (hd pairs) ''ratios'') (\<lambda>ratios.
     ebind (py_builtin (iterate ratios)) (\<lambda>ratio_keys.
     ebind (emap (\<lambda>key. ebind (distribution_at pairs [''ratios'', key]) (\<lambda>d. Inr (key, d))) (sort (strings_of ratio_keys))) (\<lambda>ratio_summary.
       Inr [(''measured_pairs'', JInt (int (length pairs))), (''candidates'', JObj candidates),
            (''paired_ratios'', JObj ratio_summary)])))))"

section \<open>The lock file\<close>

text \<open>The parsed lock file; its \<open>package\<close> entries are tables.\<close>

definition lock_matches :: "json list \<Rightarrow> string \<Rightarrow> string \<Rightarrow> bench_error + obj list" where
  "lock_matches packages name release =
     ebind (emap (\<lambda>p. want_obj p (Unchecked AttrErr)) packages) (\<lambda>ps.
       Inr (filter (\<lambda>p. dget p ''name'' = JStr name \<and> dget p ''version'' = JStr release) ps))"

definition lock_package :: "obj \<Rightarrow> string \<Rightarrow> string \<Rightarrow> bench_error + obj" where
  "lock_package lock name release =
     ebind (py_builtin (iterate (get_default lock ''package'' (JArr [])))) (\<lambda>packages.
     ebind (lock_matches packages name release) (\<lambda>matches.
     ebind (eguard (length matches = 1) (Failed ''expected exactly one Cargo.lock package'')) (\<lambda>_.
     let package = hd matches in
       Inr [(''name'', dget package ''name''), (''version'', dget package ''version''),
            (''source'', dget package ''source''), (''checksum'', dget package ''checksum'')])))"

section \<open>Databases\<close>

text \<open>What \<open>urlsplit\<close> finds in the base URL.\<close>

record url_parts =
  url_scheme :: string
  url_netloc :: string
  url_query :: string
  url_fragment :: string

definition unsplit_url :: "url_parts \<Rightarrow> string \<Rightarrow> string" where
  "unsplit_url u path =
     url_scheme u @ ''://'' @ url_netloc u @ path @
     (if url_query u = [] then [] else ''?'' @ url_query u) @
     (if url_fragment u = [] then [] else ''#'' @ url_fragment u)"

definition url_ok :: "url_parts \<Rightarrow> bool" where
  "url_ok u \<longleftrightarrow> url_scheme u \<in> {''postgresql'', ''postgres''} \<and> url_netloc u \<noteq> []"

definition database_url_of :: "url_parts \<Rightarrow> string \<Rightarrow> bench_error + string" where
  "database_url_of base database =
     ebind (eguard (database_name_ok database) (Failed ''unsafe PostgreSQL database name'')) (\<lambda>_.
     ebind (eguard (url_ok base) (Failed ''base database URL must be a PostgreSQL URL'')) (\<lambda>_.
       Inr (unsplit_url base (''/'' @ database))))"

definition compose_exec :: "string list" where
  "compose_exec = [''docker'', ''compose'', ''exec'', ''-T'', ''postgres'']"

definition compose_args :: "string \<Rightarrow> string \<Rightarrow> string option \<Rightarrow> string list" where
  "compose_args command database template =
     compose_exec @ [command] @ (if command = ''dropdb'' then [''--if-exists'', ''--force''] else []) @
     [''-U'', ''oxide_batch_workload''] @ (case template of Some t \<Rightarrow> [''-T'', t] | None \<Rightarrow> []) @ [database]"

definition compose_db :: "host \<Rightarrow> string \<Rightarrow> string \<Rightarrow> string option \<Rightarrow> unit harness" where
  "compose_db m command database template =
     pbind (refuse (command \<notin> {''createdb'', ''dropdb''} \<or> \<not> database_name_ok database) ''invalid PostgreSQL database operation'') (\<lambda>_.
     pbind (refuse (\<exists>t \<in> set_option template. command \<noteq> ''createdb'' \<or> \<not> database_name_ok t) ''invalid template database'') (\<lambda>_.
     pbind (run_checked m (compose_args command database template)) (\<lambda>_. preturn ())))"

text \<open>\<open>s[-n:]\<close>.\<close>

definition last_chars :: "nat \<Rightarrow> string \<Rightarrow> string" where
  "last_chars n s = drop (length s - n) s"

definition template_database_name :: "host \<Rightarrow> string" where
  "template_database_name m =
     (let digits = last_chars 12 (filter is_digit (case environment m ''GITHUB_RUN_ID'' of Some s \<Rightarrow> s | None \<Rightarrow> []));
          run_id = (if digits = [] then ''local'' else digits)
      in take 63 (''bench_template_'' @ run_id))"

text \<open>A dict of single letters, and \<open>{ordinal:02d}\<close>.\<close>

definition token :: "(string \<times> string) list \<Rightarrow> string \<Rightarrow> bench_error + string" where
  "token table key = want_some (map_of table key) (Unchecked (KeyErr key))"

definition mode_tokens :: "(string \<times> string) list" where
  "mode_tokens = [(''cursor'', ''c''), (''paging'', ''p'')]"

definition kind_tokens :: "(string \<times> string) list" where
  "kind_tokens = [(''warmup'', ''w''), (''measured'', ''m''), (''recovery'', ''r'')]"

definition pad2 :: "nat \<Rightarrow> string" where
  "pad2 n = (let s = show_int (int n) in replicate (2 - length s) (CHR ''0'') @ s)"

definition sample_database_name :: "string \<Rightarrow> string \<Rightarrow> nat \<Rightarrow> string \<Rightarrow> bench_error + string" where
  "sample_database_name mode kind ordinal candidate =
     ebind (token mode_tokens mode) (\<lambda>c1. ebind (token kind_tokens kind) (\<lambda>c2.
     ebind (token [(''oxide'', ''o''), (''raw'', ''r'')] candidate) (\<lambda>c3.
       Inr (''bench_'' @ c1 @ ''_'' @ c2 @ ''_'' @ pad2 ordinal @ ''_'' @ c3))))"

section \<open>The work of a sample\<close>

text \<open>The rows a killed run leaves behind, the rows its continuation writes again, and the rows the killed run attempted.\<close>

definition durable_rows :: "int \<Rightarrow> int \<Rightarrow> int \<Rightarrow> int" where
  "durable_rows rows chunk_size kill_chunk = min rows ((kill_chunk - 1) * chunk_size)"

definition reprocessed_rows :: "int \<Rightarrow> int \<Rightarrow> int \<Rightarrow> int" where
  "reprocessed_rows rows chunk_size durable = min chunk_size (rows - durable)"

definition attempted_rows :: "int \<Rightarrow> int \<Rightarrow> int \<Rightarrow> int" where
  "attempted_rows rows chunk_size kill_chunk = min rows (kill_chunk * chunk_size)"

section \<open>Lemmas\<close>

lemma ceil_quotient_exact:
  assumes "0 < a" "a < 2 ^ 53" "0 < b" "b < 2 ^ 53"
  shows "ceil_quotient a b = Inr (ceil_div a b)"
proof -
  obtain q where "to_double (of_int a / of_int b) = Fin q" "\<lceil>q\<rceil> = ceil_div a b"
    using float_ceil_div_small [OF assms] by (auto simp: float_ceil_div_def split: pyfloat.splits)
  with assms show ?thesis by (simp add: ceil_quotient_def int_div_def finite_float_def)
qed

lemma rows_per_statement_value: "rows_per_statement = 285"
  by (simp add: rows_per_statement_def max_parameters_per_statement_def columns_per_row_def)

lemma max_bound_parameters_value: "max_bound_parameters = 1995"
  by (simp add: max_bound_parameters_def rows_per_statement_value columns_per_row_def)

lemma ceil_div_0 [simp]: "ceil_div 0 b = 0"
  by (simp add: ceil_div_def)

lemma writer_statements_exact:
  assumes "0 < chunk_size" "chunk_size < 2 ^ 53"
  shows "0 \<le> remaining \<Longrightarrow> writer_statements chunk_size remaining statements =
    Inr (statements + remaining div chunk_size * ceil_div chunk_size rows_per_statement +
      ceil_div (remaining mod chunk_size) rows_per_statement)"
  using assms
proof (induction chunk_size remaining statements rule: writer_statements.induct)
  case (1 chunk_size remaining statements)
  consider "remaining = 0" | "0 < remaining" "remaining < chunk_size" | "chunk_size \<le> remaining" using 1(2) by linarith
  then show ?case
  proof cases
    case 1
    then show ?thesis by (simp add: writer_statements.simps)
  next
    case 2
    have "ceil_quotient remaining rows_per_statement = Inr (ceil_div remaining rows_per_statement)"
      using 2 1(4) by (intro ceil_quotient_exact) (auto simp: rows_per_statement_value)
    then show ?thesis using 2
      by (subst writer_statements.simps) (simp add: writer_statements.simps [of _ 0])
  next
    case 3
    have c: "ceil_quotient chunk_size rows_per_statement = Inr (ceil_div chunk_size rows_per_statement)"
      using 1(3,4) by (intro ceil_quotient_exact) (auto simp: rows_per_statement_value)
    have m: "min chunk_size remaining = chunk_size" using 3 by simp
    have "remaining div chunk_size = (remaining - chunk_size) div chunk_size + 1"
      "remaining mod chunk_size = (remaining - chunk_size) mod chunk_size"
      by (fact div_pos_geq [OF 1(3) 3] mod_pos_geq [OF 1(3) 3])+
    moreover have "\<not> (remaining \<le> 0 \<or> chunk_size \<le> 0)" "0 \<le> remaining - chunk_size" using 3 1(3) by simp_all
    then have "writer_statements chunk_size remaining statements =
      writer_statements chunk_size (remaining - chunk_size) (statements + ceil_div chunk_size rows_per_statement)"
      by (subst writer_statements.simps) (simp only: m c Let_def ebind_simps if_False)
    moreover have "writer_statements chunk_size (remaining - chunk_size) (statements + ceil_div chunk_size rows_per_statement) =
      Inr (statements + ceil_div chunk_size rows_per_statement +
        (remaining - chunk_size) div chunk_size * ceil_div chunk_size rows_per_statement +
        ceil_div ((remaining - chunk_size) mod chunk_size) rows_per_statement)"
      using 1(1) [OF \<open>\<not> (remaining \<le> 0 \<or> chunk_size \<le> 0)\<close> refl] \<open>0 \<le> remaining - chunk_size\<close> 1(3,4) unfolding m by blast
    ultimately show ?thesis by (simp only:) (simp add: algebra_simps)
  qed
qed

text \<open>The count of statements of full chunks and of a last one.\<close>

definition statement_count :: "int \<Rightarrow> int \<Rightarrow> int" where
  "statement_count rows chunk_size =
     rows div chunk_size * ceil_div chunk_size rows_per_statement + ceil_div (rows mod chunk_size) rows_per_statement"

lemma statement_count_bounds:
  assumes "0 \<le> rows" "0 < chunk_size"
  shows "rows * columns_per_row \<le> statement_count rows chunk_size * max_bound_parameters"
    "(statement_count rows chunk_size - ceil_div rows chunk_size) * rows_per_statement \<le> rows"
proof -
  let ?q = "rows div chunk_size" and ?r = "rows mod chunk_size"
  let ?c = "ceil_div chunk_size 285" and ?d = "ceil_div ?r 285"
  have rows: "rows = ?q * chunk_size + ?r" by simp
  have q: "0 \<le> ?q" using assms by (simp add: pos_imp_zdiv_nonneg_iff)
  have c: "(?c - 1) * 285 \<le> chunk_size" "chunk_size \<le> ?c * 285" and d: "(?d - 1) * 285 < ?r" "?r \<le> ?d * 285"
    using ceil_div_bounds [of 285 chunk_size] ceil_div_bounds [of 285 ?r] by auto
  have "?q * chunk_size \<le> ?q * (?c * 285)" using q c by (intro mult_left_mono) auto
  also have "?q * (?c * 285) = ?q * ?c * 285" by simp
  finally have "rows \<le> ?q * ?c * 285 + ?d * 285" using d(2) rows by linarith
  then have "rows \<le> (?q * ?c + ?d) * 285" by (simp only: distrib_right)
  then show "rows * columns_per_row \<le> statement_count rows chunk_size * max_bound_parameters"
    by (simp add: statement_count_def rows_per_statement_value max_bound_parameters_value columns_per_row_def)
  have "?q * ((?c - 1) * 285) \<le> ?q * chunk_size" using q c by (intro mult_left_mono) auto
  moreover have "(?q * ?c + ?d - ceil_div rows chunk_size) * 285 \<le> ?q * ((?c - 1) * 285) + ?r"
  proof (cases "?r = 0")
    case True
    from True have "ceil_div rows chunk_size = ?q" by (simp add: ceil_div_def)
    with True show ?thesis by (simp add: algebra_simps)
  next
    case False
    moreover have "0 \<le> ?r" "?r < chunk_size" using assms by simp_all
    ultimately have r: "0 < ?r" "?r < chunk_size" by linarith+
    let ?k = "ceil_div rows chunk_size"
    have k: "(?k - 1) * chunk_size < rows" "rows \<le> ?k * chunk_size" using ceil_div_bounds [OF assms(2), of rows] by auto
    have "?q * chunk_size < ?k * chunk_size" using k(2) rows r by linarith
    then have "?q + 1 \<le> ?k" using assms(2) by simp
    then show ?thesis using d by (simp add: algebra_simps)
  qed
  ultimately show "(statement_count rows chunk_size - ceil_div rows chunk_size) * rows_per_statement \<le> rows"
    unfolding statement_count_def rows_per_statement_value using rows by linarith
qed

section \<open>Properties\<close>

text \<open>
  C36. The work a writer is credited with is exact for every configuration the harness accepts: the loop
  over the chunks ends with the full chunks' statements and those of the last one, although every
  count is taken through a double; all bound parameters fit into the counted statements, and at most
  one statement per chunk is not full.
\<close>

theorem writer_metrics_exact:
  assumes "0 \<le> rows" "rows \<le> max_rows" "1 \<le> chunk_size" "chunk_size \<le> max_chunk_size"
  shows "\<exists>n k. writer_metrics rows chunk_size =
      Inr [(''committed_rows'', JInt rows), (''committed_chunks'', JInt k), (''writer_statements'', JInt n),
           (''bound_parameters_total'', JInt (rows * 7)), (''max_parameters_per_statement'', JInt 2000),
           (''rows_per_full_statement'', JInt 285), (''max_bound_parameters_per_full_statement'', JInt 1995)] \<and>
    k = ceil_div rows chunk_size \<and> n = statement_count rows chunk_size \<and>
    rows * 7 \<le> n * 1995 \<and> (n - k) * 285 \<le> rows"
proof -
  have small: "rows < 2 ^ 53" "chunk_size < 2 ^ 53" using assms by (simp_all add: max_rows_def max_chunk_size_def)
  have "(if rows \<noteq> 0 then ceil_quotient rows chunk_size else Inr 0) = Inr (ceil_div rows chunk_size)"
    using assms small by (auto intro!: ceil_quotient_exact)
  moreover have "writer_statements chunk_size rows 0 = Inr (statement_count rows chunk_size)"
    using assms small by (simp add: writer_statements_exact statement_count_def)
  moreover have "rows * 7 \<le> statement_count rows chunk_size * 1995" "(statement_count rows chunk_size - ceil_div rows chunk_size) * 285 \<le> rows"
  proof -
    have "0 \<le> rows" "0 < chunk_size" using assms by simp_all
    from statement_count_bounds [OF this] show "rows * 7 \<le> statement_count rows chunk_size * 1995"
      "(statement_count rows chunk_size - ceil_div rows chunk_size) * 285 \<le> rows"
      by (simp_all only: columns_per_row_def max_bound_parameters_value rows_per_statement_value)
  qed
  ultimately show ?thesis
    using assms by (simp add: writer_metrics_def columns_per_row_def max_parameters_per_statement_def rows_per_statement_value max_bound_parameters_value)
qed

theorem writer_metrics_exact_witness:
  "\<exists>n k. writer_metrics 1000000 1000 =
      Inr [(''committed_rows'', JInt 1000000), (''committed_chunks'', JInt k), (''writer_statements'', JInt n),
           (''bound_parameters_total'', JInt (1000000 * 7)), (''max_parameters_per_statement'', JInt 2000),
           (''rows_per_full_statement'', JInt 285), (''max_bound_parameters_per_full_statement'', JInt 1995)] \<and>
    k = ceil_div 1000000 1000 \<and> n = statement_count 1000000 1000 \<and> 1000000 * 7 \<le> n * 1995 \<and> (n - k) * 285 \<le> (1000000 :: int)"
  by (rule writer_metrics_exact) (simp_all add: max_rows_def max_chunk_size_def)

definition recovery_split :: "int \<Rightarrow> int \<Rightarrow> int \<Rightarrow> bool" where
  "recovery_split rows chunk_size kill_chunk \<longleftrightarrow>
     (let durable = durable_rows rows chunk_size kill_chunk; again = reprocessed_rows rows chunk_size durable;
          attempted = attempted_rows rows chunk_size kill_chunk in
      durable = (kill_chunk - 1) * chunk_size \<and> 0 < durable \<and> 2 * rows \<le> 5 * durable \<and> 3 * durable \<le> 2 * rows \<and>
      again = chunk_size \<and> attempted = durable + chunk_size \<and> attempted < rows \<and>
      attempted + (rows - durable) = rows + again)"

text \<open>
  The chunk at which a recovery sample is killed leaves between two fifths and two thirds of the rows
  behind, whole chunks only, and work to do after the killed chunk; exactly that chunk is written
  twice, and the rows of the two attempts add up to the rows and the reprocessed ones.
\<close>

theorem recovery_kill_near_half:
  assumes "recovery_kill_chunk rows chunk_size = Inr kill_chunk"
    "1 \<le> rows" "rows \<le> max_rows" "1 \<le> chunk_size" "chunk_size \<le> max_chunk_size"
  shows "recovery_split rows chunk_size kill_chunk"
proof -
  let ?n = "ceil_div rows chunk_size" and ?h = "ceil_div rows chunk_size div 2"
  have "ceil_quotient rows chunk_size = Inr ?n"
    using assms by (intro ceil_quotient_exact) (simp_all add: max_rows_def max_chunk_size_def)
  with assms(1) have n: "4 \<le> ?n" "kill_chunk = ?h + 1" by (auto simp: recovery_kill_chunk_def ebind_Inr_iff)
  have c: "(?n - 1) * chunk_size < rows" "rows \<le> ?n * chunk_size" using ceil_div_bounds [of chunk_size rows] assms(4) by auto
  have h: "2 * ?h \<le> ?n" "?n \<le> 2 * ?h + 1" by linarith+
  then have i: "2 \<le> ?h" "?h + 1 \<le> ?n - 1" "2 * ?n \<le> 5 * ?h" "3 * ?h \<le> 2 * (?n - 1)" using n(1) by presburger+
  have mono: "a * chunk_size \<le> b * chunk_size" if "a \<le> b" for a b using that assms(4) by (intro mult_right_mono) auto
  define hc where "hc = ?h * chunk_size"
  define nc where "nc = ?n * chunk_size"
  have n1: "(?n - 1) * chunk_size = nc - chunk_size" by (simp add: nc_def algebra_simps)
  have b1: "2 * nc \<le> 5 * hc" using mono [OF i(3)] by (simp only: hc_def nc_def mult.assoc)
  have b2: "3 * hc \<le> 2 * (nc - chunk_size)" using mono [OF i(4)] by (simp only: hc_def mult.assoc n1)
  have b3: "hc + chunk_size \<le> nc - chunk_size" using mono [OF i(2)] by (simp only: hc_def n1 distrib_right mult_1)
  have b4: "2 * chunk_size \<le> hc" using mono [OF i(1)] by (simp only: hc_def)
  have c': "nc - chunk_size < rows" "rows \<le> nc" using c by (simp_all only: n1 nc_def)
  have p: "(kill_chunk - 1) * chunk_size = hc" "kill_chunk * chunk_size = hc + chunk_size"
    by (simp_all add: n(2) hc_def distrib_right)
  have d: "durable_rows rows chunk_size kill_chunk = hc"
    unfolding durable_rows_def p using b3 c' assms(4) by (intro min.absorb2) linarith
  have a: "attempted_rows rows chunk_size kill_chunk = hc + chunk_size"
    unfolding attempted_rows_def p using b3 c' by (intro min.absorb2) linarith
  have r: "reprocessed_rows rows chunk_size hc = chunk_size"
    using b3 c' by (simp add: reprocessed_rows_def min_def)
  have e1: "0 < hc" "2 * rows \<le> 5 * hc" "3 * hc \<le> 2 * rows" "hc + chunk_size < rows"
    subgoal using b4 assms(4) by linarith
    subgoal using b1 c' by linarith
    subgoal using b2 c'(1) by presburger
    subgoal using b3 c'(1) by presburger
    done
  show ?thesis unfolding recovery_split_def d Let_def a r p using e1 by simp
qed

theorem recovery_kill_near_half_witness: "recovery_split 1000000 1000 501"
proof (rule recovery_kill_near_half)
  show "recovery_kill_chunk 1000000 1000 = Inr 501" by code_simp
qed (simp_all add: max_rows_def max_chunk_size_def)

end
