(* ===== verification/Paired_Run.thy ===== *)
theory Paired_Run
  imports Paired
begin

text \<open>
  The runs of \<open>postgres-postgres/benchmark/paired.py\<close>: how a sample is cloned, measured, killed,
  continued, verified and cleaned up, how samples make pairs, and how \<open>main\<close> collects them. Every
  program runs on a \<open>host\<close>, whose answers depend on the history of requests. The environment
  variables of the started programs are left out; an exception in the report is its short text.
\<close>

section \<open>Arguments\<close>

record paired_args =
  oxide_binary :: string
  raw_binary :: string
  base_url :: url_parts
  arg_rows :: int
  arg_seed :: int
  arg_chunk_size :: int
  arg_fetch_size :: int
  arg_page_size :: int
  arg_warmups :: int
  arg_measured_runs :: int

definition bounded_arg :: "int \<Rightarrow> int \<Rightarrow> int \<Rightarrow> string \<Rightarrow> bench_error + unit" where
  "bounded_arg lo hi n msg = eguard (lo \<le> n \<and> n \<le> hi) (Failed msg)"

definition validate_args :: "host \<Rightarrow> paired_args \<Rightarrow> bench_error + unit" where
  "validate_args m a =
     ebind (bounded_arg 1 max_rows (arg_rows a) ''--rows'') (\<lambda>_.
     ebind (bounded_arg 0 max_u64 (arg_seed a) ''--seed'') (\<lambda>_.
     ebind (bounded_arg 1 max_chunk_size (arg_chunk_size a) ''--chunk-size'') (\<lambda>_.
     ebind (bounded_arg 1 max_read_batch_size (arg_fetch_size a) ''--fetch-size'') (\<lambda>_.
     ebind (bounded_arg 1 max_read_batch_size (arg_page_size a) ''--page-size'') (\<lambda>_.
     ebind (bounded_arg 0 max_warmups (arg_warmups a) ''--warmups'') (\<lambda>_.
     ebind (bounded_arg 1 max_measured_runs (arg_measured_runs a) ''--measured-runs'') (\<lambda>_.
     ebind (ceil_quotient (arg_rows a) (arg_chunk_size a)) (\<lambda>chunks.
     ebind (eguard (4 \<le> chunks) (Failed ''at least four chunks'')) (\<lambda>_.
     ebind (eguard (file_exists m (oxide_binary a) \<and> file_exists m (raw_binary a)) (Failed ''release binary not found'')) (\<lambda>_.
     ebind (eguard (file_exists m ''/usr/bin/time'') (Failed ''/usr/bin/time is required'')) (\<lambda>_.
     ebind (database_url_of (base_url a) ''validation_db'') (\<lambda>_. Inr ()))))))))))))"

section \<open>Requests\<close>

definition psql_args :: "string \<Rightarrow> string \<Rightarrow> string list" where
  "psql_args database sql = compose_exec @ [''psql'', ''-U'', ''oxide_batch_workload'', ''-d'', database, ''-Atqc'', sql]"

definition apostrophe :: char where
  "apostrophe = char_of (39 :: nat)"

definition business_sql :: "string \<Rightarrow> string" where
  "business_sql import_name =
     ''SELECT count(*), COALESCE(max(customer_id), 0) FROM app_business.customer_projection WHERE import_name = '' @
     [apostrophe] @ import_name @ [apostrophe]"

text \<open>The rows of an import and its last customer.\<close>

definition parse_business :: "string \<Rightarrow> bench_error + int \<times> int" where
  "parse_business text =
     (case split_on (CHR ''|'') (strip text) of
        [a, b] \<Rightarrow> ebind (want_some (int_of_str a) Unconvertible) (\<lambda>x. ebind (want_some (int_of_str b) Unconvertible) (\<lambda>y. Inr (x, y)))
      | _ \<Rightarrow> Inl (Failed ''unexpected business-state query output''))"

definition query_business_state :: "host \<Rightarrow> string \<Rightarrow> string \<Rightarrow> (int \<times> int) harness" where
  "query_business_state m database import_name =
     pbind (refuse (\<not> database_name_ok database \<or> \<not> import_name_ok import_name) ''unsafe benchmark database/import name'') (\<lambda>_.
     pbind (run_checked m (psql_args database (business_sql import_name))) (\<lambda>out.
       plift (parse_business (out_text out))))"

definition business_json :: "int \<times> int \<Rightarrow> json" where
  "business_json s = JObj [(''committed_rows'', JInt (fst s)), (''last_customer_id'', JInt (snd s))]"

definition reader_args :: "string \<Rightarrow> int \<Rightarrow> int \<Rightarrow> bench_error + string list" where
  "reader_args mode fetch_size page_size =
     (if mode = ''cursor'' then Inr [''--reader'', ''cursor'', ''--fetch-size'', show_int fetch_size]
      else if mode = ''paging'' then Inr [''--reader'', ''paging'', ''--page-size'', show_int page_size]
      else Inl (Failed ''unknown reader mode''))"

definition run_command :: "paired_args \<Rightarrow> string \<Rightarrow> string \<Rightarrow> string \<Rightarrow> string \<Rightarrow> bench_error + string list" where
  "run_command a candidate url import_name mode =
     ebind (reader_args mode (arg_fetch_size a) (arg_page_size a)) (\<lambda>reader.
     let common = [''--import-name'', import_name, ''--chunk-size'', show_int (arg_chunk_size a)] @ reader in
     if candidate = ''oxide'' then Inr ([oxide_binary a, ''run'', ''--database-url'', url] @ common)
     else if candidate = ''raw'' then Inr ([raw_binary a, ''--database-url'', url, ''run''] @ common)
     else Inl (Failed ''unknown candidate''))"

definition verify_final_state :: "host \<Rightarrow> paired_args \<Rightarrow> string \<Rightarrow> string \<Rightarrow> obj harness" where
  "verify_final_state m a url import_name =
     pbind (execute m [oxide_binary a, ''verify'', ''--database-url'', url, ''--import-name'', import_name]) (\<lambda>out.
     pbind (plift (parse_verify_report (out_json out) (arg_rows a))) (\<lambda>report.
     pbind (refuse (exit_code out \<noteq> 0) ''verifier exited'') (\<lambda>_. preturn report)))"

section \<open>Timing\<close>

definition time_format :: string where
  "time_format = ''elapsed=%e'' @ [line_feed] @ ''user=%U'' @ [line_feed] @ ''system=%S'' @ [line_feed] @ ''max_rss_kib=%M'' @ [line_feed]"

definition read_times :: "host \<Rightarrow> string \<Rightarrow> obj harness" where
  "read_times m path = pbind (read_text m path) (\<lambda>text. plift (parse_time_file text))"

text \<open>What a timed process reports: its exit code, process id, interval and GNU \<open>time\<close> values.\<close>

definition timing_fields :: "exit \<Rightarrow> (string \<times> json) list \<Rightarrow> int \<Rightarrow> rat \<Rightarrow> rat \<Rightarrow> pyfloat \<Rightarrow> obj \<Rightarrow> bench_error + obj" where
  "timing_fields out candidate pid started_at finished_at elapsed metrics =
     ebind (float_item (JObj metrics) ''elapsed'') (\<lambda>e.
     ebind (float_item (JObj metrics) ''user'') (\<lambda>u.
     ebind (float_item (JObj metrics) ''system'') (\<lambda>s.
     ebind (int_item (JObj metrics) ''max_rss_kib'') (\<lambda>rss.
       Inr ([(''exit_status'', JInt (exit_code out))] @ candidate @
            [(''time_wrapper_pid'', JInt pid), (''started_at_unix'', JFloat (Fin started_at)),
             (''finished_at_unix'', JFloat (Fin finished_at)), (''elapsed_seconds'', JFloat elapsed),
             (''gnu_time_elapsed_seconds'', JFloat e), (''user_cpu_seconds'', JFloat u), (''system_cpu_seconds'', JFloat s),
             (''max_rss_kib'', JInt rss), (''stdout_tail'', JStr (last_chars 2000 (out_text out))),
             (''stderr_tail'', JStr (last_chars 2000 (err_text out)))])))))"

text \<open>What is left of the interval once the output of the process is awaited: both clocks and the GNU \<open>time\<close> file.\<close>

definition end_interval :: "host \<Rightarrow> string \<Rightarrow> rat \<Rightarrow> exit harness \<Rightarrow> (exit \<times> rat \<times> pyfloat \<times> obj) harness" where
  "end_interval m time_path started_perf output =
     pbind output (\<lambda>out.
     pbind (perf_clock m) (\<lambda>ended_perf.
     pbind (wall_clock m) (\<lambda>finished_at.
     pbind (read_times m time_path) (\<lambda>metrics.
       preturn (out, finished_at, fl_sub (Fin ended_perf) (Fin started_perf), metrics)))))"

definition measured_run :: "host \<Rightarrow> string \<Rightarrow> string list \<Rightarrow> (int \<times> rat \<times> exit \<times> rat \<times> pyfloat \<times> obj) harness" where
  "measured_run m time_path command =
     pbind (wall_clock m) (\<lambda>started_at.
     pbind (perf_clock m) (\<lambda>started_perf.
     pbind (launch m ([''/usr/bin/time'', ''-f'', time_format, ''-o'', time_path] @ command)) (\<lambda>pid.
     pbind (end_interval m time_path started_perf (await m pid)) (\<lambda>ended. preturn (pid, started_at, ended)))))"

definition measured_metrics :: "int \<times> rat \<times> exit \<times> rat \<times> pyfloat \<times> obj \<Rightarrow> obj harness" where
  "measured_metrics run =
     (case run of (pid, started_at, out, finished_at, elapsed, metrics) \<Rightarrow>
        pbind (refuse (exit_code out \<noteq> 0) ''candidate exited'') (\<lambda>_.
        pbind (refuse (float_le elapsed (Fin 0)) ''timed process reported non-positive elapsed time'') (\<lambda>_.
          plift (timing_fields out [] pid started_at finished_at elapsed metrics))))"

definition timed_process :: "host \<Rightarrow> string list \<Rightarrow> obj harness" where
  "timed_process m command =
     pbind (scratch_file m ''pgpg-time-'') (\<lambda>time_path.
     pbind (pfinally (measured_run m time_path command) (remove_file time_path)) measured_metrics)"

text \<open>One look for the crash marker: the process must still run, and a marker that is there must name a process id.\<close>

definition look_for_marker :: "host \<Rightarrow> string \<Rightarrow> int \<Rightarrow> (host_event, bench_error, int option) interaction" where
  "look_for_marker m marker pid =
     abind (ask (PollProcess pid) (\<lambda>h. eguard (polled m h pid = None) (Failed ''candidate exited before crash marker''))) (\<lambda>_.
     ask (LookFile marker) (\<lambda>h.
       (case file_text m h marker of
          None \<Rightarrow> Inr None
        | Some text \<Rightarrow> if text = [] then Inr None else ebind (parse_marker text) (\<lambda>n. Inr (Some n)))))"

definition wait_for_marker :: "host \<Rightarrow> string \<Rightarrow> int \<Rightarrow> int harness" where
  "wait_for_marker m marker pid =
     poll_for (mono_time m) MonoTime Doze (look_for_marker m marker pid) (Failed ''timed out waiting for crash marker'') marker_timeout"

text \<open>The clean-up of a killed run: the wrapper does not outlive it.\<close>

definition reap_wrapper :: "host \<Rightarrow> int \<Rightarrow> string \<Rightarrow> string \<Rightarrow> unit harness" where
  "reap_wrapper m pid time_path marker =
     pbind (poll_process m pid) (\<lambda>status.
     pbind (if status = None then pbind (kill_process pid) (\<lambda>_. pbind (await m pid) (\<lambda>_. preturn ())) else preturn ()) (\<lambda>_.
     pbind (remove_file time_path) (\<lambda>_. remove_file marker)))"

definition crashed_run :: "host \<Rightarrow> string \<Rightarrow> int \<Rightarrow> rat \<Rightarrow> string \<Rightarrow> (int \<times> exit \<times> rat \<times> pyfloat \<times> obj) harness" where
  "crashed_run m marker pid started_perf time_path =
     pbind (wait_for_marker m marker pid) (\<lambda>candidate_pid.
     pbind (signal_kill m candidate_pid) (\<lambda>_.
     pbind (end_interval m time_path started_perf (await_for m pid 30)) (\<lambda>ended. preturn (candidate_pid, ended))))"

definition crashed_metrics :: "int \<Rightarrow> rat \<Rightarrow> int \<times> exit \<times> rat \<times> pyfloat \<times> obj \<Rightarrow> (obj \<times> int) harness" where
  "crashed_metrics pid started_at run =
     (case run of (candidate_pid, out, finished_at, elapsed, metrics) \<Rightarrow>
        pbind (refuse (exit_code out \<noteq> 137) ''crash wrapper exited'') (\<lambda>_.
        pbind (plift (timing_fields out [(''candidate_pid'', JInt candidate_pid)] pid started_at finished_at elapsed metrics)) (\<lambda>d.
          preturn (d, candidate_pid))))"

text \<open>The killed run: its fields, and the process id among them.\<close>

definition timed_crash_process :: "host \<Rightarrow> string list \<Rightarrow> string \<Rightarrow> (obj \<times> int) harness" where
  "timed_crash_process m command marker =
     pbind (scratch_file m ''pgpg-time-crash-'') (\<lambda>time_path.
     pbind (remove_file marker) (\<lambda>_.
     pbind (wall_clock m) (\<lambda>started_at.
     pbind (perf_clock m) (\<lambda>started_perf.
     pbind (launch m ([''/usr/bin/time'', ''-q'', ''-f'', time_format, ''-o'', time_path] @ command)) (\<lambda>pid.
     pbind (pfinally (crashed_run m marker pid started_perf time_path) (reap_wrapper m pid time_path marker))
       (crashed_metrics pid started_at))))))"

section \<open>Samples\<close>

definition clone_sample_database :: "host \<Rightarrow> string \<Rightarrow> string \<Rightarrow> unit harness" where
  "clone_sample_database m template sample =
     pbind (compose_db m ''dropdb'' sample None) (\<lambda>_. compose_db m ''createdb'' sample (Some template))"

definition not_observed :: json where
  "not_observed = JObj [(''status'', JStr ''not-reliably-observed''), (''commits'', JNull), (''rollbacks'', JNull)]"

text \<open>\<open>rows / x\<close> of an integer and a float.\<close>

definition rate_of :: "int \<Rightarrow> pyfloat \<Rightarrow> bench_error + pyfloat" where
  "rate_of rows x = ebind (float_of_int rows) (\<lambda>r. fl_div r x)"

definition clean_import_name :: "string \<Rightarrow> string \<Rightarrow> nat \<Rightarrow> string \<Rightarrow> string" where
  "clean_import_name mode kind ordinal candidate =
     ''bench_'' @ mode @ ''_'' @ kind @ ''_'' @ show_int (int ordinal) @ ''_'' @ candidate"

definition clean_body :: "host \<Rightarrow> paired_args \<Rightarrow> string \<Rightarrow> string \<Rightarrow> string \<Rightarrow> string \<Rightarrow> string \<Rightarrow> obj harness" where
  "clean_body m a candidate mode database import_name url =
     pbind (plift (run_command a candidate url import_name mode)) (\<lambda>command.
     pbind (timed_process m command) (\<lambda>metrics.
     pbind (verify_final_state m a url import_name) (\<lambda>verification.
     pbind (query_business_state m database import_name) (\<lambda>business.
     pbind (refuse (fst business \<noteq> arg_rows a) ''clean sample business row count mismatch'') (\<lambda>_.
     pbind (plift (ebind (float_item (JObj metrics) ''elapsed_seconds'') (rate_of (arg_rows a)))) (\<lambda>rate.
     pbind (plift (writer_metrics (arg_rows a) (arg_chunk_size a))) (\<lambda>work.
       preturn (metrics @
         [(''candidate'', JStr candidate), (''reader_mode'', JStr mode), (''database'', JStr database), (''import_name'', JStr import_name),
          (''rows_per_second'', JFloat rate), (''business_state'', business_json business), (''verification'', JObj verification),
          (''derived_work'', JObj work), (''transaction_counts'', not_observed)]))))))))"

definition clean_sample :: "host \<Rightarrow> paired_args \<Rightarrow> string \<Rightarrow> string \<Rightarrow> nat \<Rightarrow> string \<Rightarrow> string \<Rightarrow> obj harness" where
  "clean_sample m a candidate mode ordinal kind template =
     pbind (plift (sample_database_name mode kind ordinal candidate)) (\<lambda>database.
     let import_name = clean_import_name mode kind ordinal candidate in
     pbind (clone_sample_database m template database) (\<lambda>_.
     pbind (plift (database_url_of (base_url a) database)) (\<lambda>url.
       pfinally (clean_body m a candidate mode database import_name url) (compose_db m ''dropdb'' database None))))"

definition crash_command :: "string \<Rightarrow> string list \<Rightarrow> int \<Rightarrow> string \<Rightarrow> string list" where
  "crash_command candidate base kill_chunk marker =
     base @ (if candidate = ''oxide''
       then [''--fail-at-chunk'', show_int kill_chunk, ''--failure-mode'', ''during-write'', ''--pause-for-kill'', marker]
       else [''--pause-at-chunk'', show_int kill_chunk, ''--pause-phase'', ''before-commit'', ''--pause-marker'', marker])"

definition recover_command :: "paired_args \<Rightarrow> string \<Rightarrow> string \<Rightarrow> string \<Rightarrow> string list" where
  "recover_command a url import_name mode =
     [oxide_binary a, ''recover'', ''--database-url'', url, ''--import-name'', import_name, ''--reader'', mode]"

text \<open>\<open>float(first[k]) + (float(operator[k]) if operator else 0.0) + float(last[k])\<close>.\<close>

definition combined :: "obj \<Rightarrow> obj option \<Rightarrow> obj \<Rightarrow> string \<Rightarrow> bench_error + pyfloat" where
  "combined first operator final k =
     ebind (float_item (JObj first) k) (\<lambda>x.
     ebind (case operator of Some d \<Rightarrow> float_item (JObj d) k | None \<Rightarrow> Inr (Fin 0)) (\<lambda>y.
     ebind (float_item (JObj final) k) (\<lambda>z. Inr (fl_add (fl_add x y) z))))"

definition peak_rss :: "obj \<Rightarrow> obj option \<Rightarrow> obj \<Rightarrow> bench_error + int" where
  "peak_rss first operator final =
     ebind (int_item (JObj first) ''max_rss_kib'') (\<lambda>x.
     ebind (case operator of Some d \<Rightarrow> int_item (JObj d) ''max_rss_kib'' | None \<Rightarrow> Inr 0) (\<lambda>y.
     ebind (int_item (JObj final) ''max_rss_kib'') (\<lambda>z. Inr (max (max x y) z))))"

text \<open>The work the two attempts of a recovery sample are charged with.\<close>

definition recovery_work :: "int \<Rightarrow> int \<Rightarrow> int \<Rightarrow> bench_error + json" where
  "recovery_work rows chunk_size kill_chunk =
     (let durable = durable_rows rows chunk_size kill_chunk; again = reprocessed_rows rows chunk_size durable in
      ebind (writer_metrics (attempted_rows rows chunk_size kill_chunk) chunk_size) (\<lambda>crash.
      ebind (writer_metrics (rows - durable) chunk_size) (\<lambda>resume.
      ebind (int_item (JObj crash) ''writer_statements'') (\<lambda>n1.
      ebind (int_item (JObj resume) ''writer_statements'') (\<lambda>n2.
        Inr (JObj [(''first_phase_attempted'', JObj crash), (''recovery_phase'', JObj resume),
                   (''combined_writer_statements'', JInt (n1 + n2)),
                   (''combined_bound_parameters'', JInt ((rows + again) * columns_per_row))]))))))"

text \<open>The fields of a recovery sample once its phases are known.\<close>

definition recovery_fields ::
  "paired_args \<Rightarrow> string \<Rightarrow> string \<Rightarrow> string \<Rightarrow> string \<Rightarrow> int \<Rightarrow> obj \<Rightarrow> int \<times> int \<Rightarrow> obj option \<Rightarrow> obj \<Rightarrow> int \<times> int \<Rightarrow> obj \<Rightarrow> bench_error + obj" where
  "recovery_fields a candidate mode database import_name kill_chunk first durable operator final business verification =
     (let rows = arg_rows a; expected = durable_rows rows (arg_chunk_size a) kill_chunk in
      ebind (combined first operator final ''elapsed_seconds'') (\<lambda>elapsed.
      ebind (combined first operator final ''user_cpu_seconds'') (\<lambda>user.
      ebind (combined first operator final ''system_cpu_seconds'') (\<lambda>system.
      ebind (peak_rss first operator final) (\<lambda>rss.
      ebind (recovery_work rows (arg_chunk_size a) kill_chunk) (\<lambda>work.
      ebind (int_div expected rows) (\<lambda>fraction.
      ebind (rate_of rows elapsed) (\<lambda>rate.
        Inr [(''candidate'', JStr candidate), (''reader_mode'', JStr mode), (''database'', JStr database), (''import_name'', JStr import_name),
             (''kill_chunk'', JInt kill_chunk), (''target_progress_fraction'', JFloat fraction), (''first_phase'', JObj first),
             (''crashed_process_reaped_before_recovery'', JBool True), (''durable_after_kill'', business_json durable),
             (''operator_recover'', case operator of Some d \<Rightarrow> JObj d | None \<Rightarrow> JNull), (''recovery_phase'', JObj final),
             (''combined_active_elapsed_seconds'', JFloat elapsed), (''combined_user_cpu_seconds'', JFloat user),
             (''combined_system_cpu_seconds'', JFloat system), (''combined_peak_rss_kib'', JInt rss),
             (''rows_per_second_combined_active'', JFloat rate),
             (''reprocessed_rows'', JInt (reprocessed_rows rows (arg_chunk_size a) expected)),
             (''duplicate_rows'', JInt 0), (''skipped_rows'', JInt 0), (''lost_rows'', JInt 0),
             (''final_business_state'', business_json business), (''verification'', JObj verification),
             (''derived_work'', work), (''transaction_counts'', not_observed)]))))))))"

text \<open>The explicit recovery that only OxideBatch needs.\<close>

definition operator_recover :: "host \<Rightarrow> paired_args \<Rightarrow> string \<Rightarrow> string \<Rightarrow> string \<Rightarrow> string \<Rightarrow> obj option harness" where
  "operator_recover m a candidate mode import_name url =
     (if candidate = ''oxide''
      then pbind (timed_process m (recover_command a url import_name mode)) (\<lambda>d. preturn (Some d))
      else preturn None)"

text \<open>What happens after the kill: the process must be gone and exactly the whole chunks before the kill durable.\<close>

definition recovery_continuation ::
  "host \<Rightarrow> paired_args \<Rightarrow> string \<Rightarrow> string \<Rightarrow> string \<Rightarrow> string \<Rightarrow> string \<Rightarrow> int \<Rightarrow> string list \<Rightarrow> obj \<Rightarrow> int \<Rightarrow> obj harness" where
  "recovery_continuation m a candidate mode database import_name url kill_chunk base first killed =
     (let expected = durable_rows (arg_rows a) (arg_chunk_size a) kill_chunk in
      pbind (probe_alive m killed) (\<lambda>alive.
      pbind (refuse alive ''killed candidate PID still exists before recovery invocation'') (\<lambda>_.
      pbind (query_business_state m database import_name) (\<lambda>durable.
      pbind (refuse (durable \<noteq> (expected, expected)) ''unexpected durable prefix after kill'') (\<lambda>_.
      pbind (operator_recover m a candidate mode import_name url) (\<lambda>operator.
      pbind (timed_process m base) (\<lambda>final.
      pbind (verify_final_state m a url import_name) (\<lambda>verification.
      pbind (query_business_state m database import_name) (\<lambda>business.
      pbind (refuse (business \<noteq> (arg_rows a, arg_rows a)) ''recovery final business state mismatch'') (\<lambda>_.
        plift (recovery_fields a candidate mode database import_name kill_chunk first durable operator final business verification)))))))))))"

definition recovery_body ::
  "host \<Rightarrow> paired_args \<Rightarrow> string \<Rightarrow> string \<Rightarrow> string \<Rightarrow> string \<Rightarrow> string \<Rightarrow> int \<Rightarrow> string list \<Rightarrow> string \<Rightarrow> obj harness" where
  "recovery_body m a candidate mode database import_name url kill_chunk base marker =
     pbind (timed_crash_process m (crash_command candidate base kill_chunk marker) marker) (\<lambda>(first, killed).
       recovery_continuation m a candidate mode database import_name url kill_chunk base first killed)"

definition recovery_sample :: "host \<Rightarrow> paired_args \<Rightarrow> string \<Rightarrow> string \<Rightarrow> nat \<Rightarrow> string \<Rightarrow> obj harness" where
  "recovery_sample m a candidate mode ordinal template =
     pbind (plift (sample_database_name mode ''recovery'' ordinal candidate)) (\<lambda>database.
     let import_name = ''bench_'' @ mode @ ''_recovery_'' @ candidate in
     pbind (clone_sample_database m template database) (\<lambda>_.
     pbind (plift (database_url_of (base_url a) database)) (\<lambda>url.
     pbind (plift (recovery_kill_chunk (arg_rows a) (arg_chunk_size a))) (\<lambda>kill_chunk.
     pbind (scratch_file m (''pgpg-'' @ candidate @ ''-'' @ mode @ ''-'')) (\<lambda>marker.
     pbind (remove_file marker) (\<lambda>_.
     pbind (plift (run_command a candidate url import_name mode)) (\<lambda>base.
       pfinally (recovery_body m a candidate mode database import_name url kill_chunk base marker)
         (pbind (remove_file marker) (\<lambda>_. compose_db m ''dropdb'' database None)))))))))"

section \<open>Pairs\<close>

text \<open>The samples of a pair, by candidate, and the digest both must have read.\<close>

definition pair_digest :: "json \<Rightarrow> string \<Rightarrow> bench_error + json" where
  "pair_digest samples msg =
     ebind (path_of samples [''oxide'', ''verification'', ''source_digest'']) (\<lambda>d1.
     ebind (path_of samples [''raw'', ''verification'', ''source_digest'']) (\<lambda>d2.
     ebind (eguard (py_eq d1 d2) (Failed msg)) (\<lambda>_. Inr d1)))"

definition sample_pair :: "(string \<Rightarrow> obj harness) \<Rightarrow> nat \<Rightarrow> json harness" where
  "sample_pair sample order_ordinal =
     pbind (pmap (\<lambda>candidate. pbind (sample candidate) (\<lambda>s. preturn (candidate, JObj s))) (candidate_order order_ordinal)) (\<lambda>ss.
       preturn (JObj ss))"

definition order_json :: "nat \<Rightarrow> json" where
  "order_json order_ordinal = JArr (map JStr (candidate_order order_ordinal))"

definition clean_pair :: "host \<Rightarrow> paired_args \<Rightarrow> string \<Rightarrow> string \<Rightarrow> string \<Rightarrow> nat \<Rightarrow> nat \<Rightarrow> json harness" where
  "clean_pair m a template mode kind ordinal order_ordinal =
     pbind (sample_pair (\<lambda>candidate. clean_sample m a candidate mode ordinal kind template) order_ordinal) (\<lambda>candidates.
     pbind (plift (pair_digest candidates ''paired candidates did not observe identical source identity'')) (\<lambda>digest.
     pbind (plift (ebind (item_of candidates ''oxide'') (\<lambda>oxide. ebind (item_of candidates ''raw'') (paired_ratios oxide)))) (\<lambda>ratios.
       preturn (JObj [(''pair_index'', JInt (int ordinal)), (''order'', order_json order_ordinal), (''source_digest'', digest),
         (''candidates'', candidates), (''ratios'', JObj ratios)]))))"

definition recovery_ratios :: "json \<Rightarrow> bench_error + obj" where
  "recovery_ratios samples =
     ebind (item_of samples ''oxide'') (\<lambda>oxide. ebind (item_of samples ''raw'') (\<lambda>plain.
     ebind (ratio_of plain oxide ''combined_active_elapsed_seconds'') (\<lambda>elapsed.
     ebind (ratio_of plain oxide ''rows_per_second_combined_active'') (\<lambda>throughput.
     ebind (int_item plain ''combined_peak_rss_kib'') (\<lambda>x. ebind (int_item oxide ''combined_peak_rss_kib'') (\<lambda>y.
     ebind (int_div x y) (\<lambda>rss.
       Inr [(''combined_elapsed_raw_to_oxide'', elapsed), (''combined_throughput_raw_to_oxide'', throughput),
            (''combined_peak_rss_raw_to_oxide'', JFloat rss)])))))))"

definition recovery_pair :: "host \<Rightarrow> paired_args \<Rightarrow> string \<Rightarrow> string \<Rightarrow> nat \<Rightarrow> nat \<Rightarrow> json harness" where
  "recovery_pair m a template mode ordinal order_ordinal =
     pbind (sample_pair (\<lambda>candidate. recovery_sample m a candidate mode ordinal template) order_ordinal) (\<lambda>candidates.
     pbind (plift (pair_digest candidates ''recovery pair source identities differ'')) (\<lambda>digest.
     pbind (plift (recovery_ratios candidates)) (\<lambda>ratios.
       preturn (JObj [(''order'', order_json order_ordinal), (''source_digest'', digest), (''candidates'', candidates),
         (''ratios'', JObj ratios)]))))"

section \<open>The campaign\<close>

definition prepare_template :: "host \<Rightarrow> paired_args \<Rightarrow> string \<Rightarrow> unit harness" where
  "prepare_template m a name =
     pbind (compose_db m ''dropdb'' name None) (\<lambda>_.
     pbind (compose_db m ''createdb'' name (Some ''template0'')) (\<lambda>_.
     pbind (plift (database_url_of (base_url a) name)) (\<lambda>url.
     pbind (run_checked m [oxide_binary a, ''migrate'', ''--database-url'', url]) (\<lambda>_.
     pbind (run_checked m [raw_binary a, ''--database-url'', url, ''migrate'']) (\<lambda>_.
     pbind (run_checked m [oxide_binary a, ''seed'', ''--database-url'', url, ''--rows'', show_int (arg_rows a), ''--seed'', show_int (arg_seed a)]) (\<lambda>_.
       preturn ()))))))"

text \<open>A program's output, or nothing if it fails, and the value of the first line with a prefix.\<close>

definition optional_output :: "host \<Rightarrow> string list \<Rightarrow> json harness" where
  "optional_output m command =
     pbind (execute m command) (\<lambda>out. preturn (if exit_code out = 0 then JStr (strip (out_text out)) else JNull))"

definition value_behind_colon :: "string \<Rightarrow> bench_error + json" where
  "value_behind_colon line =
     (case dropWhile (\<lambda>c. c \<noteq> CHR '':'') line of [] \<Rightarrow> Inl OutOfRange | _ # r \<Rightarrow> Inr (JStr (strip r)))"

definition read_first_matching :: "host \<Rightarrow> string \<Rightarrow> string \<Rightarrow> json harness" where
  "read_first_matching m path start =
     pbind (pdo (ask (ReadText path) (\<lambda>h. Inr (file_text m h path)))) (\<lambda>text.
     case text of
       None \<Rightarrow> preturn JNull
     | Some t \<Rightarrow>
         (case find (\<lambda>line. startswith line start) (splitlines t) of
            None \<Rightarrow> preturn JNull
          | Some line \<Rightarrow> plift (value_behind_colon line)))"

definition environment_value :: "host \<Rightarrow> string \<Rightarrow> json" where
  "environment_value m name = (case environment m name of Some s \<Rightarrow> JStr s | None \<Rightarrow> JNull)"

definition lock_subject :: "host \<Rightarrow> string \<Rightarrow> string \<Rightarrow> bench_error + json" where
  "lock_subject m name release =
     ebind (want_some (lock_document m) (Failed ''unreadable lock file'')) (\<lambda>lock. ebind (lock_package lock name release) (\<lambda>p. Inr (JObj p)))"

definition binary_fields :: "host \<Rightarrow> string \<Rightarrow> bench_error + json" where
  "binary_fields m path =
     ebind (want_some (file_digest m path) (Failed ''unreadable binary'')) (\<lambda>d. Inr (JObj [(''path'', JStr path), (''sha256'', JStr d)]))"

definition host_provenance :: "host \<Rightarrow> paired_args \<Rightarrow> obj harness" where
  "host_provenance m a =
     pbind (read_first_matching m ''/proc/cpuinfo'' ''model name'') (\<lambda>cpu.
     pbind (read_first_matching m ''/proc/meminfo'' ''MemTotal'') (\<lambda>mem.
     pbind (optional_output m [''rustc'', ''--version'']) (\<lambda>rustc.
     pbind (optional_output m [''cargo'', ''--version'']) (\<lambda>cargo.
     pbind (optional_output m (compose_exec @ [''postgres'', ''--version''])) (\<lambda>server.
     pbind (optional_output m [''docker'', ''compose'', ''config'', ''--images'']) (\<lambda>images.
     pbind (optional_output m [''docker'', ''compose'', ''images'', ''-q'', ''postgres'']) (\<lambda>image_id.
     pbind (plift (lock_subject m ''oxide-batch'' ''0.6.0'')) (\<lambda>oxide_subject.
     pbind (plift (lock_subject m ''sqlx'' ''0.9.0'')) (\<lambda>sqlx_subject.
     pbind (plift (binary_fields m (oxide_binary a))) (\<lambda>oxide.
     pbind (plift (binary_fields m (raw_binary a))) (\<lambda>plain.
       preturn (platform_facts m @
         [(''cpu_model'', cpu), (''memory_total'', mem), (''rustc'', rustc), (''cargo'', cargo), (''postgres_server'', server),
          (''postgres_configured_images'', JArr (case as_str images of Some s \<Rightarrow> map JStr (splitlines s) | None \<Rightarrow> [])),
          (''postgres_image_id'', image_id), (''oxide_batch_subject'', oxide_subject), (''raw_sqlx_subject'', sqlx_subject),
          (''binaries'', JObj [(''oxide'', oxide), (''raw'', plain)]),
          (''github'', JObj (map (\<lambda>(k, name). (k, environment_value m name))
             [(''repository'', ''GITHUB_REPOSITORY''), (''sha'', ''GITHUB_SHA''), (''run_id'', ''GITHUB_RUN_ID''),
              (''run_attempt'', ''GITHUB_RUN_ATTEMPT''), (''runner_name'', ''RUNNER_NAME''), (''runner_os'', ''RUNNER_OS''),
              (''runner_arch'', ''RUNNER_ARCH'')]))]))))))))))))"

text \<open>The pairs of one reader mode; the order of the candidates alternates over the whole campaign.\<close>

definition clean_mode :: "host \<Rightarrow> paired_args \<Rightarrow> string \<Rightarrow> nat \<Rightarrow> string \<Rightarrow> json harness" where
  "clean_mode m a template offset mode =
     (let warmups = nat (arg_warmups a) in
      pbind (pmap (\<lambda>i. clean_pair m a template mode ''warmup'' (i + 1) (offset + i)) [0..<warmups]) (\<lambda>warmup_pairs.
      pbind (pmap (\<lambda>i. clean_pair m a template mode ''measured'' (i + 1) (offset + warmups + i)) [0..<nat (arg_measured_runs a)]) (\<lambda>measured_pairs.
      pbind (plift (summarize_pairs measured_pairs)) (\<lambda>summary.
        preturn (JObj [(''warmup_pairs'', JArr warmup_pairs), (''measured_pairs'', JArr measured_pairs), (''summary'', JObj summary)])))))"

text \<open>\<open>report[section][mode] = value\<close>.\<close>

definition put_mode :: "obj \<Rightarrow> string \<Rightarrow> string \<Rightarrow> json \<Rightarrow> obj" where
  "put_mode report k mode v =
     assoc_set report k (JObj (assoc_set (case dget report k of JObj d \<Rightarrow> d | _ \<Rightarrow> []) mode v))"

text \<open>
  The steps of the \<open>try\<close> block of \<open>main\<close>. Each of them changes the report only once it has succeeded, so
  that a failure leaves the report of the steps before it.
\<close>

definition campaign_steps :: "host \<Rightarrow> paired_args \<Rightarrow> string \<Rightarrow> (obj \<Rightarrow> obj harness) list" where
  "campaign_steps m a template =
     (let per_mode = nat (arg_warmups a) + nat (arg_measured_runs a) in
      [\<lambda>report. pbind (host_provenance m a) (\<lambda>d. preturn (assoc_set report ''environment'' (JObj d))),
       \<lambda>report. pbind (prepare_template m a template) (\<lambda>_. preturn report)] @
      map (\<lambda>(i, mode) report. pbind (clean_mode m a template (i * per_mode) mode) (\<lambda>v. preturn (put_mode report ''clean'' mode v)))
        (enumerate 0 reader_modes) @
      map (\<lambda>(i, mode) report. pbind (recovery_pair m a template mode 1 (2 * per_mode + i)) (\<lambda>v. preturn (put_mode report ''recovery'' mode v)))
        (enumerate 0 reader_modes))"

fun run_steps :: "(obj \<Rightarrow> obj harness) list \<Rightarrow> obj \<Rightarrow> (obj \<times> bench_error option) harness" where
  "run_steps [] report = preturn (report, None)"
| "run_steps (step # steps) report =
     pbind (ptry (step report)) (\<lambda>r. case r of Inl e \<Rightarrow> preturn (report, Some e) | Inr report' \<Rightarrow> run_steps steps report')"

definition error_note :: "bench_error \<Rightarrow> json" where
  "error_note e = (case e of Failed msg \<Rightarrow> JStr msg | _ \<Rightarrow> JStr ''exception'')"

definition paired_configuration :: "paired_args \<Rightarrow> json" where
  "paired_configuration a = JObj
     [(''rows'', JInt (arg_rows a)), (''seed'', JInt (arg_seed a)), (''chunk_size'', JInt (arg_chunk_size a)),
      (''cursor_fetch_size'', JInt (arg_fetch_size a)), (''paging_page_size'', JInt (arg_page_size a)),
      (''warmups_per_mode_candidate'', JInt (arg_warmups a)), (''measured_runs_per_mode_candidate'', JInt (arg_measured_runs a)),
      (''recovery_scenarios_per_mode_candidate'', JInt 1),
      (''writer_parity'', JObj [(''columns_per_row'', JInt columns_per_row), (''max_parameters_per_statement'', JInt max_parameters_per_statement),
         (''rows_per_full_statement'', JInt rows_per_statement), (''max_bound_parameters_per_full_statement'', JInt max_bound_parameters)]),
      (''database_isolation'', JStr ''fresh-clone-of-one-deterministic-template-per-candidate-sample''),
      (''candidate_order'', JStr ''deterministically alternating within paired samples''),
      (''timed_interval'', JStr ''candidate run only; recovery combines killed run + explicit operator recover when required + resume run'')]"

definition limitations :: json where
  "limitations = JArr (map JStr
     [''Raw metadata intentionally omits OxideBatch'' @ [apostrophe] @ ''s broader lifecycle/history/diagnostic surface.'',
      ''Transaction/commit/rollback counts are not reported because no symmetric, non-perturbing observation was available; fields are explicitly null.'',
      ''GitHub-hosted runner measurements are observational distributions, not merge-blocking performance thresholds.'',
      ''Recovery timing includes external harness reaction latency between marker observation and SIGKILL; the same mechanism is used for both candidates.''])"

definition initial_report :: "paired_args \<Rightarrow> obj" where
  "initial_report a =
     [(''schema_version'', JInt 1), (''campaign'', JStr ''postgres-postgres-raw-vs-oxide-paired''),
      (''comparison_class'', JStr ''semantic-parity-minimal-durability''), (''claim_class'', JStr ''same-host-observational-attribution''),
      (''performance_threshold'', JNull), (''configuration'', paired_configuration a), (''limitations'', limitations),
      (''clean'', JObj []), (''recovery'', JObj [])]"

text \<open>The status after the campaign and after the template has been dropped.\<close>

definition concluded_report :: "obj \<Rightarrow> bench_error option \<Rightarrow> bench_error + unit \<Rightarrow> obj" where
  "concluded_report report failure cleanup =
     (let warned = (case cleanup of Inl e \<Rightarrow> assoc_set report ''cleanup_warnings'' (JArr [error_note e]) | Inr _ \<Rightarrow> report) in
      case (failure, cleanup) of
        (None, Inr _) \<Rightarrow> assoc_set warned ''status'' (JStr ''passed'')
      | (None, Inl e) \<Rightarrow> assoc_set (assoc_set warned ''status'' (JStr ''failed'')) ''failure'' (error_note e)
      | (Some e, _) \<Rightarrow> assoc_set (assoc_set warned ''status'' (JStr ''failed'')) ''failure'' (error_note e))"

definition paired_main :: "host \<Rightarrow> paired_args \<Rightarrow> int harness" where
  "paired_main m a =
     pbind (plift (validate_args m a)) (\<lambda>_.
     let template = template_database_name m in
     pbind (run_steps (campaign_steps m a template) (initial_report a)) (\<lambda>(report, failure).
     pbind (ptry (compose_db m ''dropdb'' template None)) (\<lambda>cleanup.
     pbind (pdo (ask (WriteReport (concluded_report report failure cleanup)) (\<lambda>h. Inr ()))) (\<lambda>_.
       preturn (if failure = None \<and> isOK cleanup then 0 else 1)))))"

section \<open>Databases\<close>

text \<open>What a request does to a database, and the databases that exist because of the history and have not been dropped since.\<close>

definition database_request :: "host_event \<Rightarrow> (string \<times> string) option" where
  "database_request ev =
     (case ev of
        Execute argv \<Rightarrow>
          if take 5 argv = compose_exec \<and> 5 < length argv \<and> argv ! 5 \<in> {''createdb'', ''dropdb''} then Some (argv ! 5, last argv) else None
      | _ \<Rightarrow> None)"

fun undropped :: "host \<Rightarrow> host_history \<Rightarrow> string set" where
  "undropped m [] = {}"
| "undropped m (ev # h) =
     (case database_request ev of
        None \<Rightarrow> undropped m h
      | Some (what, db) \<Rightarrow>
          if what = ''dropdb'' then undropped m h - {db}
          else (case ev of Execute argv \<Rightarrow> if exit_code (executed m h argv) = 0 then insert db (undropped m h) else undropped m h
                | _ \<Rightarrow> undropped m h))"

definition only :: "host \<Rightarrow> string set \<Rightarrow> host_history \<Rightarrow> bool" where
  "only m D h \<longleftrightarrow> undropped m h \<subseteq> D"

text \<open>Requests that create and drop nothing.\<close>

definition no_database :: "host_event \<Rightarrow> bool" where
  "no_database ev \<longleftrightarrow> database_request ev = None"

lemma undropped_quiet: "list_all no_database es \<Longrightarrow> undropped m (es @ h) = undropped m h"
  by (induction es) (simp_all add: no_database_def)

lemma only_quiet: "only m D h \<Longrightarrow> list_all no_database es \<Longrightarrow> only m D (es @ h)"
  by (simp add: only_def undropped_quiet)

lemma no_database_simps [simp]:
  "no_database (Launch argv)" "no_database (Await pid)" "no_database (AwaitFor pid t)" "no_database (PollProcess pid)"
  "no_database (KillProcess pid)" "no_database (Signal pid)" "no_database (Probe pid)" "no_database (Scratch n)"
  "no_database (LookFile p)" "no_database (ReadText p)" "no_database (Remove p)" "no_database WallTime" "no_database PerfTime"
  "no_database MonoTime" "no_database Doze" "no_database (WriteReport r)"
  by (simp_all add: no_database_def database_request_def)

lemma no_database_execute: "\<not> (take 5 argv = compose_exec \<and> 5 < length argv \<and> argv ! 5 \<in> {''createdb'', ''dropdb''}) \<Longrightarrow> no_database (Execute argv)"
  by (auto simp: no_database_def database_request_def)

lemma no_database_other: "second \<noteq> ''compose'' \<Longrightarrow> no_database (Execute (first # second # rest))"
  by (rule no_database_execute) (auto simp: compose_exec_def eval_nat_numeral)

lemma no_database_psql [simp]: "no_database (Execute (psql_args database sql))"
  by (rule no_database_execute) (simp add: psql_args_def compose_exec_def)

lemma database_request_compose:
  assumes "command \<in> {''createdb'', ''dropdb''}"
  shows "database_request (Execute (compose_args command database template)) = Some (command, database)"
  using assms by (auto simp: database_request_def compose_args_def compose_exec_def)

lemma requests_execute: "no_database (Execute argv) \<Longrightarrow> requests no_database (execute m argv)"
  by (simp add: execute_def requests_pdo grows_ask)

lemma requests_refuse [request_intros]: "requests P (refuse b msg)"
  by (simp add: refuse_def requests_plift)

lemma requests_run_checked: "no_database (Execute argv) \<Longrightarrow> requests no_database (run_checked m argv)"
  by (auto simp: run_checked_def intro!: request_intros requests_execute)

lemma quiet_host [request_intros]:
  "requests no_database (launch m argv)" "requests no_database (await m pid)" "requests no_database (await_for m pid t)"
  "requests no_database (poll_process m pid)" "requests no_database (signal_kill m pid)" "requests no_database (probe_alive m pid)"
  "requests no_database (kill_process pid)" "requests no_database (scratch_file m n)" "requests no_database (remove_file p)"
  "requests no_database (read_text m p)" "requests no_database (wall_clock m)" "requests no_database (perf_clock m)"
  by (simp_all add: launch_def await_def await_for_def poll_process_def signal_kill_def probe_alive_def kill_process_def
      scratch_file_def remove_file_def read_text_def wall_clock_def perf_clock_def requests_pdo grows_ask)

lemma quiet_look [grows_intros]: "grows no_database (look_for_marker m marker pid)"
  unfolding look_for_marker_def by (intro grows_intros no_database_simps)

lemma requests_case_prod [request_intros]: "(\<And>x y. requests P (f x y)) \<Longrightarrow> requests P (case p of (x, y) \<Rightarrow> f x y)"
  by (cases p) simp

lemma requests_if [request_intros]: "requests P x \<Longrightarrow> requests P y \<Longrightarrow> requests P (if b then x else y)"
  by simp

lemma requests_let [request_intros]: "requests P (f x) \<Longrightarrow> requests P (let y = x in f y)"
  by (simp add: Let_def)

lemma quiet_wait [request_intros]: "requests no_database (wait_for_marker m marker pid)"
  unfolding wait_for_marker_def by (intro request_intros grows_intros no_database_simps quiet_look)

lemma quiet_times [request_intros]: "requests no_database (read_times m path)"
  unfolding read_times_def by (intro request_intros)

lemma quiet_interval [request_intros]: "requests no_database output \<Longrightarrow> requests no_database (end_interval m path t output)"
  unfolding end_interval_def by (intro request_intros)

lemma quiet_measured [request_intros]: "requests no_database (measured_run m path command)" "requests no_database (measured_metrics run)"
  unfolding measured_run_def measured_metrics_def by (intro request_intros)+

lemma quiet_timed [request_intros]: "requests no_database (timed_process m command)"
  unfolding timed_process_def by (intro request_intros)

lemma quiet_reap [request_intros]: "requests no_database (reap_wrapper m pid time_path marker)"
  unfolding reap_wrapper_def by (intro request_intros)

lemma quiet_crashed [request_intros]:
  "requests no_database (crashed_run m marker pid t path)" "requests no_database (crashed_metrics pid t run)"
  unfolding crashed_run_def crashed_metrics_def by (intro request_intros)+

lemma quiet_crash [request_intros]: "requests no_database (timed_crash_process m command marker)"
  unfolding timed_crash_process_def by (intro request_intros)

lemma quiet_verify [request_intros]: "requests no_database (verify_final_state m a url import_name)"
  unfolding verify_final_state_def
  by (intro request_intros requests_execute no_database_other) simp

lemma quiet_business [request_intros]: "requests no_database (query_business_state m database import_name)"
  unfolding query_business_state_def by (intro request_intros requests_run_checked no_database_psql)

lemma quiet_clean_body [request_intros]: "requests no_database (clean_body m a candidate mode database import_name url)"
  unfolding clean_body_def by (intro request_intros)

lemma quiet_operator [request_intros]: "requests no_database (operator_recover m a candidate mode import_name url)"
  unfolding operator_recover_def by (intro request_intros)

lemma quiet_continuation [request_intros]:
  "requests no_database (recovery_continuation m a candidate mode database import_name url kill_chunk base first killed)"
  unfolding recovery_continuation_def by (intro request_intros)

lemma quiet_recovery_body [request_intros]:
  "requests no_database (recovery_body m a candidate mode database import_name url kill_chunk base marker)"
  unfolding recovery_body_def by (intro request_intros)

text \<open>A quiet program keeps what exists, however it ends.\<close>

lemma only_requests: "requests no_database p \<Longrightarrow> ends (only m D) (only m D) p (\<lambda>_. only m D)"
  by (rule ends_requests) (auto intro: only_quiet)

lemma only_mono: "only m D h \<Longrightarrow> D \<subseteq> E \<Longrightarrow> only m E h"
  by (auto simp: only_def)

text \<open>Dropping a database removes it even where the request fails; it is refused only for an unsafe name.\<close>

lemmas database_steps = compose_db_def refuse_def run_checked_def execute_def pbind_def plift_def pdo_def ask_def preturn_def

lemma drop_database:
  assumes "database_name_ok db"
  shows "ends (only m (D - {db})) (only m D) (compose_db m ''dropdb'' db None) (\<lambda>_. only m (D - {db}))"
proof -
  let ?ev = "Execute (compose_args ''dropdb'' db None)"
  have "h' = ?ev # h" if "compose_db m ''dropdb'' db None h = Some (r, h')" for h r h'
    using that assms by (auto simp: database_steps split: option.splits sum.splits)
  moreover have "only m D h \<Longrightarrow> only m (D - {db}) (?ev # h)" for h
    by (auto simp: only_def database_request_compose)
  ultimately show ?thesis by (auto simp: ends_def split: sum.splits)
qed

lemma drop_sample: "ends (only m D) (only m D) (compose_db m ''dropdb'' db None) (\<lambda>_. only m D)"
proof (cases "database_name_ok db")
  case True
  show ?thesis by (rule ends_weaken [OF drop_database [OF True, of m D]]) (auto elim: only_mono)
next
  case False
  then show ?thesis by (auto simp: database_steps ends_def)
qed

text \<open>A database exists only where its creation succeeded.\<close>

lemma create_database:
  "ends (only m D) (only m D) (compose_db m ''createdb'' db (Some template)) (\<lambda>_ h. database_name_ok db \<and> only m (insert db D) h)"
proof -
  let ?argv = "compose_args ''createdb'' db (Some template)"
  have "only m D (Execute ?argv # h)" if "only m D h" "exit_code (executed m h ?argv) \<noteq> 0" for h
    using that by (auto simp: only_def database_request_compose)
  moreover have "only m (insert db D) (Execute ?argv # h)" if "only m D h" for h
    using that by (auto simp: only_def database_request_compose)
  ultimately show ?thesis
    by (auto simp: ends_def database_steps split: option.splits sum.splits if_splits)
qed

lemma clone_database:
  "ends (only m D) (only m D) (clone_sample_database m template db) (\<lambda>_ h. database_name_ok db \<and> only m (insert db D) h)"
  unfolding clone_sample_database_def by (rule ends_pbind [OF drop_sample create_database])

text \<open>A program between a clone and its removal.\<close>

lemma ends_with_database:
  assumes "requests no_database body" "database_name_ok db"
  shows "ends (only m D) (only m (insert db D)) (pfinally body (compose_db m ''dropdb'' db None)) (\<lambda>_. only m D)"
proof (rule ends_pfinally)
  show "ends (only m (insert db D)) (only m (insert db D)) body (\<lambda>_. only m (insert db D))"
    by (rule only_requests [OF assms(1)])
  show "ends (only m D) (only m (insert db D)) (compose_db m ''dropdb'' db None) (\<lambda>_. only m D)"
    by (rule ends_weaken [OF drop_database [OF assms(2), of m "insert db D"]]) (auto elim!: only_mono)
qed

text \<open>What the checks of the arguments give a sample.\<close>

definition usable_args :: "paired_args \<Rightarrow> bool" where
  "usable_args a \<longleftrightarrow> url_ok (base_url a) \<and> isOK (recovery_kill_chunk (arg_rows a) (arg_chunk_size a))"

lemma usable_url: "usable_args a \<Longrightarrow> database_name_ok db \<Longrightarrow> \<exists>url. database_url_of (base_url a) db = Inr url"
  by (simp add: usable_args_def database_url_of_def)

lemma validate_args_usable:
  assumes "validate_args m a = Inr u"
  shows "usable_args a" "1 \<le> arg_rows a" "arg_rows a \<le> max_rows" "1 \<le> arg_chunk_size a" "arg_chunk_size a \<le> max_chunk_size"
  using assms by (auto simp: validate_args_def bounded_arg_def usable_args_def database_url_of_def recovery_kill_chunk_def monad_simps)

lemma clean_sample_databases:
  assumes "usable_args a"
  shows "ends (only m D) (only m D) (clean_sample m a candidate mode ordinal kind template) (\<lambda>_. only m D)"
  unfolding clean_sample_def Let_def
proof (intro ends_pbind)
  show "ends (only m D) (only m D) (plift (sample_database_name mode kind ordinal candidate)) (\<lambda>_. only m D)"
    by (rule only_requests) (intro request_intros)
next
  fix db
  show "ends (only m D) (only m D) (clone_sample_database m template db) (\<lambda>_ h. database_name_ok db \<and> only m (insert db D) h)"
    by (rule clone_database)
next
  fix db
  show "ends (only m D) (\<lambda>h. database_name_ok db \<and> only m (insert db D) h) (plift (database_url_of (base_url a) db))
      (\<lambda>_ h. database_name_ok db \<and> only m (insert db D) h)"
    using usable_url [OF assms, of db] by (auto simp: ends_def plift_def split: sum.splits)
next
  fix db url
  show "ends (only m D) (\<lambda>h. database_name_ok db \<and> only m (insert db D) h)
      (pfinally (clean_body m a candidate mode db (clean_import_name mode kind ordinal candidate) url) (compose_db m ''dropdb'' db None))
      (\<lambda>_. only m D)"
    by (rule ends_pure) (intro ends_with_database request_intros)
qed

lemma named_sample_command:
  "sample_database_name mode kind ordinal candidate = Inr db \<Longrightarrow> \<exists>base. run_command a candidate url import_name mode = Inr base"
  by (auto simp: sample_database_name_def token_def mode_tokens_def run_command_def reader_args_def Let_def monad_simps split: if_splits)

lemma recovery_sample_databases:
  assumes "usable_args a"
  shows "ends (only m D) (only m D) (recovery_sample m a candidate mode ordinal template) (\<lambda>_. only m D)"
proof -
  let ?name = "sample_database_name mode ''recovery'' ordinal candidate"
  let ?J = "\<lambda>db h. (?name = Inr db \<and> database_name_ok db) \<and> only m (insert db D) h"
  have quiet: "ends (only m D) (?J db) p (\<lambda>_. ?J db)"
    if "requests no_database p" "\<And>h r h'. p h = Some (r, h') \<Longrightarrow> isOK r" for p :: "'c harness" and db
    using only_requests [OF that(1), of m "insert db D"] that(2) by (fastforce simp: ends_def isOK_iff split: sum.splits)
  have lifted: "ends (only m D) (?J db) (plift q) (\<lambda>_. ?J db)" if "?name = Inr db \<Longrightarrow> database_name_ok db \<Longrightarrow> isOK q"
    for q :: "bench_error + 'd" and db
    using that by (auto simp: ends_def plift_def split: sum.splits)
  show ?thesis
    unfolding recovery_sample_def Let_def
  proof (intro ends_pbind)
    show "ends (only m D) (only m D) (plift ?name) (\<lambda>db h. ?name = Inr db \<and> only m D h)" by (rule ends_plift)
  next
    fix db
    show "ends (only m D) (\<lambda>h. ?name = Inr db \<and> only m D h) (clone_sample_database m template db) (\<lambda>_. ?J db)"
      by (rule ends_pure, rule ends_weaken [OF clone_database [of m D template db]]) auto
  next
    fix db
    show "ends (only m D) (?J db) (plift (database_url_of (base_url a) db)) (\<lambda>_. ?J db)"
      by (rule lifted) (use usable_url [OF assms, of db] in \<open>auto simp: isOK_iff\<close>)
  next
    fix db
    show "ends (only m D) (?J db) (plift (recovery_kill_chunk (arg_rows a) (arg_chunk_size a))) (\<lambda>_. ?J db)"
      by (rule lifted) (use assms in \<open>simp add: usable_args_def\<close>)
  next
    fix db
    show "ends (only m D) (?J db) (scratch_file m (''pgpg-'' @ candidate @ ''-'' @ mode @ ''-'')) (\<lambda>_. ?J db)"
      by (rule quiet) (intro request_intros, auto simp: scratch_file_def pdo_def ask_def)
  next
    fix db marker
    show "ends (only m D) (?J db) (remove_file marker) (\<lambda>_. ?J db)"
      by (rule quiet) (intro request_intros, auto simp: remove_file_def pdo_def ask_def)
  next
    fix db url
    show "ends (only m D) (?J db) (plift (run_command a candidate url (''bench_'' @ mode @ ''_recovery_'' @ candidate) mode)) (\<lambda>_. ?J db)"
      by (rule lifted) (use named_sample_command in \<open>fastforce simp: isOK_iff\<close>)
  next
    fix db url kill_chunk marker base
    let ?body = "recovery_body m a candidate mode db (''bench_'' @ mode @ ''_recovery_'' @ candidate) url kill_chunk base marker"
    have "ends (only m D) (only m (insert db D)) (pbind (remove_file marker) (\<lambda>_. compose_db m ''dropdb'' db None)) (\<lambda>_. only m D)"
      if ok: "database_name_ok db"
    proof (rule ends_pbind)
      show "ends (only m D) (only m (insert db D)) (remove_file marker) (\<lambda>_. only m (insert db D))"
        by (auto simp: ends_def remove_file_def pdo_def ask_def only_def database_request_def)
      show "ends (only m D) (only m (insert db D)) (compose_db m ''dropdb'' db None) (\<lambda>_. only m D)"
        by (rule ends_weaken [OF drop_database [OF ok, of m "insert db D"]]) (auto elim!: only_mono)
    qed
    then show "ends (only m D) (?J db) (pfinally ?body (pbind (remove_file marker) (\<lambda>_. compose_db m ''dropdb'' db None))) (\<lambda>_. only m D)"
      by (intro ends_pure, intro ends_pfinally [where H = "only m (insert db D)"] only_requests request_intros) blast
  qed
qed

text \<open>The rest of the campaign.\<close>

lemma quiet_ends: "requests no_database p \<Longrightarrow> (\<And>x. ends (only m D) (only m D) (f x) (\<lambda>_. only m D)) \<Longrightarrow>
    ends (only m D) (only m D) (pbind p f) (\<lambda>_. only m D)"
  by (rule ends_pbind [OF only_requests])

lemma sample_pair_databases:
  assumes "\<And>candidate. ends (only m D) (only m D) (sample candidate) (\<lambda>_. only m D)"
  shows "ends (only m D) (only m D) (sample_pair sample order_ordinal) (\<lambda>_. only m D)"
  unfolding sample_pair_def
  by (intro ends_pbind [OF ends_pmap] ends_pbind [OF assms] ends_preturn) auto

lemma clean_pair_databases:
  assumes "usable_args a"
  shows "ends (only m D) (only m D) (clean_pair m a template mode kind ordinal order_ordinal) (\<lambda>_. only m D)"
  unfolding clean_pair_def
  by (rule ends_pbind [OF sample_pair_databases [OF clean_sample_databases [OF assms]]]) (intro only_requests request_intros)

lemma recovery_pair_databases:
  assumes "usable_args a"
  shows "ends (only m D) (only m D) (recovery_pair m a template mode ordinal order_ordinal) (\<lambda>_. only m D)"
  unfolding recovery_pair_def
  by (rule ends_pbind [OF sample_pair_databases [OF recovery_sample_databases [OF assms]]]) (intro only_requests request_intros)

lemma clean_mode_databases:
  assumes "usable_args a"
  shows "ends (only m D) (only m D) (clean_mode m a template offset mode) (\<lambda>_. only m D)"
  unfolding clean_mode_def Let_def
  by (intro ends_pbind [OF ends_pmap] clean_pair_databases [OF assms] only_requests request_intros)

lemma quiet_optional [request_intros]: "no_database (Execute command) \<Longrightarrow> requests no_database (optional_output m command)"
  unfolding optional_output_def by (intro request_intros requests_execute)

lemma quiet_first_matching [request_intros]: "requests no_database (read_first_matching m path start)"
  unfolding read_first_matching_def
  by (intro request_intros grows_ask no_database_simps) (auto intro!: request_intros split: option.splits)

lemma quiet_provenance: "requests no_database (host_provenance m a)"
  unfolding host_provenance_def
  by (intro request_intros no_database_other no_database_execute) (simp_all add: compose_exec_def)

lemma prepare_template_databases:
  assumes "template \<in> D"
  shows "ends (only m D) (only m D) (prepare_template m a template) (\<lambda>_. only m D)"
proof -
  have "requests no_database (run_checked m [oxide_binary a, ''migrate'', ''--database-url'', url])"
    "requests no_database (run_checked m [raw_binary a, ''--database-url'', url, ''migrate''])"
    "requests no_database (run_checked m [oxide_binary a, ''seed'', ''--database-url'', url, ''--rows'', x, ''--seed'', y])" for url x y
    by (intro requests_run_checked no_database_other, simp)+
  note calls = this
  have created: "ends (only m D) (only m D) (compose_db m ''createdb'' template (Some ''template0'')) (\<lambda>_. only m D)"
    by (rule ends_weaken [OF create_database [of m D]]) (use assms in \<open>auto simp: insert_absorb\<close>)
  show ?thesis
    unfolding prepare_template_def
    by (rule ends_pbind [OF drop_sample], rule ends_pbind [OF created]) (intro only_requests request_intros calls)
qed

lemma run_steps_ends:
  assumes "\<And>step report. step \<in> set steps \<Longrightarrow> ends G G (step report) (\<lambda>_. G)"
  shows "ends K G (run_steps steps report) (\<lambda>_. G)"
  using assms
proof (induction steps arbitrary: report)
  case Nil
  show ?case by (simp add: ends_def preturn_def)
next
  case (Cons step steps)
  have "ends K G (ptry (step report)) (\<lambda>_. G)" using Cons.prems by (intro ends_ptry) simp
  moreover have "ends K G (case r of Inl e \<Rightarrow> preturn (report, Some e) | Inr report' \<Rightarrow> run_steps steps report') (\<lambda>_. G)" for r
  proof (cases r)
    case (Inl e)
    then show ?thesis by (simp add: ends_preturn)
  next
    case (Inr report')
    have "ends K G (run_steps steps report') (\<lambda>_. G)" by (rule Cons.IH) (simp add: Cons.prems)
    with Inr show ?thesis by simp
  qed
  ultimately show ?case unfolding run_steps.simps by (rule ends_pbind)
qed

lemma campaign_steps_databases:
  assumes "usable_args a" "template \<in> D" "step \<in> set (campaign_steps m a template)"
  shows "ends (only m D) (only m D) (step report) (\<lambda>_. only m D)"
  using assms(3)
  by (auto simp: campaign_steps_def Let_def intro!: ends_pbind [OF only_requests [OF quiet_provenance]] ends_preturn
        ends_pbind [OF prepare_template_databases [OF assms(2)]] ends_pbind [OF clean_mode_databases [OF assms(1)]]
        ends_pbind [OF recovery_pair_databases [OF assms(1)]])

lemma last_chars_set: "set (last_chars n s) \<subseteq> set s"
  by (simp add: last_chars_def set_drop_subset)

definition name_char :: "char \<Rightarrow> bool" where
  "name_char c \<longleftrightarrow> is_lower_letter c \<or> is_digit c \<or> c = CHR ''_''"

lemma safe_nameI: "is_lower_letter c \<Longrightarrow> length r \<le> n \<Longrightarrow> list_all name_char r \<Longrightarrow> safe_name n (c # r)"
  by (auto simp: safe_name_def name_char_def list_all_iff)

lemma name_literals: "is_lower_letter (CHR ''b'')" "list_all name_char ''ench_template_''" "list_all name_char ''local''"
  by code_simp+

lemma template_name_ok: "database_name_ok (template_database_name m)"
proof -
  have ok: "safe_name 62 (take 63 (''bench_template_'' @ s))" if "list_all name_char s" for s
  proof -
    have "list_all name_char (take 48 s)" using that by (auto simp: list_all_iff dest: in_set_takeD)
    then have "list_all name_char (''ench_template_'' @ take 48 s)" by (simp only: list_all_append name_literals simp_thms)
    then have "safe_name 62 (CHR ''b'' # ''ench_template_'' @ take 48 s)" by (intro safe_nameI name_literals) simp_all
    moreover have "take 63 (''bench_template_'' @ s) = CHR ''b'' # ''ench_template_'' @ take 48 s" by simp
    ultimately show ?thesis by (simp only:)
  qed
  have "list_all name_char (last_chars 12 (filter is_digit s))" for s
    using last_chars_set [of 12 "filter is_digit s"] by (auto simp: list_all_iff name_char_def)
  with name_literals(3) show ?thesis
    unfolding template_database_name_def database_name_ok_def Let_def by (intro ok) (simp only: if_split simp_thms)
qed

section \<open>The campaign always returns\<close>

lemma returns_refuse [returns_intros]: "returns (refuse b msg)"
  by (simp add: refuse_def returns_plift)

lemma returns_execute [returns_intros]: "returns (execute m argv)"
  by (simp add: execute_def returns_pdo)

lemma returns_run_checked [returns_intros]: "returns (run_checked m argv)"
  unfolding run_checked_def by (intro returns_intros)

lemma returns_host [returns_intros]:
  "returns (launch m argv)" "returns (await m pid)" "returns (await_for m pid t)" "returns (poll_process m pid)" "returns (signal_kill m pid)"
  "returns (probe_alive m pid)" "returns (kill_process pid)" "returns (scratch_file m n)" "returns (remove_file p)" "returns (read_text m p)"
  "returns (wall_clock m)" "returns (perf_clock m)"
  by (simp_all add: launch_def await_def await_for_def poll_process_def signal_kill_def probe_alive_def kill_process_def
      scratch_file_def remove_file_def read_text_def wall_clock_def perf_clock_def returns_pdo)

lemma returns_case_prod [returns_intros]: "(\<And>x y. returns (f x y)) \<Longrightarrow> returns (case p of (x, y) \<Rightarrow> f x y)"
  by (cases p) simp

lemma returns_if [returns_intros]: "returns x \<Longrightarrow> returns y \<Longrightarrow> returns (if b then x else y)"
  by simp

lemma returns_let [returns_intros]: "returns (f x) \<Longrightarrow> returns (let y = x in f y)"
  by (simp add: Let_def)

lemma returns_compose_db [returns_intros]: "returns (compose_db m command database template)"
  unfolding compose_db_def by (intro returns_intros)

lemma returns_wait:
  assumes "napping_clock (mono_time m) Doze \<delta>"
  shows "returns (wait_for_marker m marker pid)"
proof -
  have "grows (\<lambda>_. True) (look_for_marker m marker pid)" unfolding look_for_marker_def by (intro grows_intros TrueI)
  then show ?thesis unfolding wait_for_marker_def by (rule returns_poll_for [OF assms])
qed

lemma calls_return [returns_intros]:
  "returns (read_times m path)" "returns (query_business_state m database import_name)" "returns (verify_final_state m a url import_name)"
  "returns (optional_output m command)" "returns (clone_sample_database m template db)" "returns (reap_wrapper m pid time_path marker)"
  unfolding read_times_def query_business_state_def verify_final_state_def optional_output_def clone_sample_database_def reap_wrapper_def
  by (intro returns_intros)+

lemma returns_timed [returns_intros]: "returns (timed_process m command)"
  unfolding timed_process_def measured_run_def measured_metrics_def end_interval_def by (intro returns_intros)

lemma returns_first_matching [returns_intros]: "returns (read_first_matching m path start)"
  unfolding read_first_matching_def by (intro returns_intros) (auto intro!: returns_intros split: option.splits)

lemma returns_setup [returns_intros]: "returns (host_provenance m a)" "returns (prepare_template m a template)"
  unfolding host_provenance_def prepare_template_def by (intro returns_intros)+

lemma returns_clean_sample [returns_intros]: "returns (clean_sample m a candidate mode ordinal kind template)"
  unfolding clean_sample_def clean_body_def by (intro returns_intros)

lemma returns_recovery_sample:
  assumes "napping_clock (mono_time m) Doze \<delta>"
  shows "returns (recovery_sample m a candidate mode ordinal template)"
  unfolding recovery_sample_def recovery_body_def recovery_continuation_def operator_recover_def timed_crash_process_def crashed_run_def crashed_metrics_def end_interval_def
  by (intro returns_intros returns_wait [OF assms])

lemma returns_sample_pair: "(\<And>candidate. returns (sample candidate)) \<Longrightarrow> returns (sample_pair sample n)"
  unfolding sample_pair_def by (intro returns_intros)

lemma returns_clean_mode [returns_intros]: "returns (clean_mode m a template offset mode)"
  unfolding clean_mode_def clean_pair_def by (intro returns_intros returns_sample_pair)

lemma returns_recovery_pair: "napping_clock (mono_time m) Doze \<delta> \<Longrightarrow> returns (recovery_pair m a template mode ordinal n)"
  unfolding recovery_pair_def by (intro returns_intros returns_sample_pair returns_recovery_sample)

lemma returns_run_steps: "(\<And>step report. step \<in> set steps \<Longrightarrow> returns (step report)) \<Longrightarrow> returns (run_steps steps report)"
proof (induction steps arbitrary: report)
  case Nil
  show ?case by (simp add: returns_preturn)
next
  case (Cons step steps)
  then show ?case by (auto intro!: returns_intros split: sum.splits)
qed

lemma returns_campaign:
  assumes "napping_clock (mono_time m) Doze \<delta>"
  shows "returns (run_steps (campaign_steps m a template) report)"
  by (rule returns_run_steps) (auto simp: campaign_steps_def Let_def intro!: returns_intros returns_recovery_pair [OF assms])

section \<open>A concrete host\<close>

text \<open>Four rows in chunks of one: the process with id 7 is killed in the third chunk, and a second start finishes the import.\<close>

definition toy_launches :: "host_history \<Rightarrow> nat" where
  "toy_launches h = length (filter (\<lambda>ev. case ev of Launch _ \<Rightarrow> True | _ \<Rightarrow> False) h)"

definition toy_verification :: json where
  "toy_verification = JObj
     [(''source_digest'', JStr ''d''), (''source_rows'', JInt 4), (''destination_rows'', JInt 4), (''row_counts_match'', JBool True),
      (''expected_digest_sha256'', JStr ''d''), (''actual_digest_sha256'', JStr ''d''), (''digests_match'', JBool True),
      (''total_mismatches'', JInt 0)]"

definition toy_exit :: "int \<Rightarrow> string \<Rightarrow> json option \<Rightarrow> exit" where
  "toy_exit code text v = \<lparr>exit_code = code, out_text = text, out_json = v, err_text = []\<rparr>"

definition toy_execute :: "host_history \<Rightarrow> string list \<Rightarrow> exit" where
  "toy_execute h argv =
     (if length argv > 5 \<and> argv ! 5 = ''psql'' then toy_exit 0 (if toy_launches h \<le> 1 then ''2|2'' else ''4|4'') None
      else if length argv > 1 \<and> argv ! 1 = ''verify'' then toy_exit 0 [] (Some toy_verification)
      else toy_exit 0 [] None)"

definition toy_file :: "string \<Rightarrow> string" where
  "toy_file path =
     (if path = ''marker'' then ''pid=7''
      else ''elapsed=1'' @ [line_feed] @ ''user=1'' @ [line_feed] @ ''system=0'' @ [line_feed] @ ''max_rss_kib=9'' @ [line_feed])"

definition toy_host :: host where
  "toy_host =
     \<lparr>executed = toy_execute, launched = \<lambda>h argv. 70, awaited = \<lambda>h pid. toy_exit 0 [] None,
      awaited_for = \<lambda>h pid t. Some (toy_exit 137 [] None), polled = \<lambda>h pid. None,
      process_alive = \<lambda>h pid. Signal pid \<notin> set h, scratch_path = \<lambda>h n. if startswith n ''pgpg-time'' then ''times'' else ''marker'',
      file_text = \<lambda>h path. Some (toy_file path), wall_time = \<lambda>h. of_nat (length h), perf_time = \<lambda>h. of_nat (length h),
      mono_time = \<lambda>h. of_nat (length h), file_exists = \<lambda>path. True, environment = \<lambda>name. None, platform_facts = [],
      lock_document = None, file_digest = \<lambda>path. None\<rparr>"

definition toy_args :: paired_args where
  "toy_args =
     \<lparr>oxide_binary = ''oxide'', raw_binary = ''raw'',
      base_url = \<lparr>url_scheme = ''postgresql'', url_netloc = ''db'', url_query = [], url_fragment = []\<rparr>,
      arg_rows = 4, arg_seed = 1, arg_chunk_size = 1, arg_fetch_size = 1, arg_page_size = 1, arg_warmups = 0, arg_measured_runs = 1\<rparr>"

lemma toy_host_naps: "napping_clock (mono_time toy_host) Doze 1"
  by (simp add: napping_clock_def toy_host_def)

lemma toy_args_accepted: "validate_args toy_host toy_args = Inr ()"
  by code_simp



section \<open>What a recovery sample shows\<close>

lemma pbind_returnsE:
  assumes "pbind m f h = Some (Inr y, h2)"
  obtains x h1 where "m h = Some (Inr x, h1)" "f x h1 = Some (Inr y, h2)"
  using assms by (auto simp: pbind_Inr)

lemma pfinally_returnsE:
  assumes "pfinally m cleanup h = Some (Inr x, h2)"
  obtains h1 u where "m h = Some (Inr x, h1)" "cleanup h1 = Some (Inr u, h2)"
  using assms by (auto simp: pfinally_Inr)

lemma refuse_Inr [program_simps]: "refuse b msg h = Some (Inr u, h') \<longleftrightarrow> \<not> b \<and> h' = h"
  by (auto simp: refuse_def)

lemma execute_Inr [program_simps]: "execute m argv h = Some (Inr out, h') \<longleftrightarrow> out = executed m h argv \<and> h' = Execute argv # h"
  by (auto simp: execute_def ask_Inr)

lemma run_checked_Inr [program_simps]:
  "run_checked m argv h = Some (Inr out, h') \<longleftrightarrow> exit_code (executed m h argv) = 0 \<and> out = executed m h argv \<and> h' = Execute argv # h"
  by (auto simp: run_checked_def program_simps)

text \<open>The answer of the database at a history, and the verdict of the verifier.\<close>

definition business_at :: "host \<Rightarrow> host_history \<Rightarrow> string \<Rightarrow> string \<Rightarrow> int \<times> int \<Rightarrow> bool" where
  "business_at m h database import_name s \<longleftrightarrow>
     (let out = executed m h (psql_args database (business_sql import_name)) in exit_code out = 0 \<and> parse_business (out_text out) = Inr s)"

definition verified_at :: "host \<Rightarrow> host_history \<Rightarrow> paired_args \<Rightarrow> string \<Rightarrow> string \<Rightarrow> obj \<Rightarrow> bool" where
  "verified_at m h a url import_name report \<longleftrightarrow>
     (let out = executed m h [oxide_binary a, ''verify'', ''--database-url'', url, ''--import-name'', import_name]
      in exit_code out = 0 \<and> parse_verify_report (out_json out) (arg_rows a) = Inr report)"

definition launched_after :: "host_history \<Rightarrow> string list \<Rightarrow> host_history \<Rightarrow> bool" where
  "launched_after h command h' \<longleftrightarrow> (\<exists>h0 wrapper. suffix h h0 \<and> suffix (Launch (wrapper @ command) # h0) h')"

lemma query_business_Inr:
  "query_business_state m database import_name h = Some (Inr s, h') \<Longrightarrow>
     business_at m h database import_name s \<and> suffix h h'"
  by (auto simp: query_business_state_def program_simps business_at_def Let_def intro: suffix_ConsI)

lemma verify_final_Inr:
  "verify_final_state m a url import_name h = Some (Inr report, h') \<Longrightarrow> verified_at m h a url import_name report \<and> suffix h h'"
  by (auto simp: verify_final_state_def program_simps verified_at_def Let_def intro: suffix_ConsI)

lemma any_request: "requests no_database p \<Longrightarrow> p h = Some (r, h') \<Longrightarrow> suffix h h'"
  by (rule requests_suffix)

lemma launch_Inr [program_simps]: "launch m argv h = Some (Inr pid, h') \<longleftrightarrow> pid = launched m h argv \<and> h' = Launch argv # h"
  by (auto simp: launch_def ask_Inr)

lemma signal_kill_Inr [program_simps]: "signal_kill m pid h = Some (Inr u, h') \<longleftrightarrow> process_alive m h pid \<and> h' = Signal pid # h"
  by (auto simp: signal_kill_def ask_Inr)

lemma probe_alive_Inr [program_simps]: "probe_alive m pid h = Some (Inr b, h') \<longleftrightarrow> b = process_alive m h pid \<and> h' = Probe pid # h"
  by (auto simp: probe_alive_def ask_Inr)

text \<open>Requests that cannot fail.\<close>

lemma total_steps:
  "pbind (wall_clock m) f h = f (wall_time m h) (WallTime # h)" "pbind (perf_clock m) f h = f (perf_time m h) (PerfTime # h)"
  "pbind (launch m argv) g h = g (launched m h argv) (Launch argv # h)"
  "pbind (scratch_file m n) k h = k (scratch_path m h n) (Scratch n # h)" "pbind (remove_file p) l h = l () (Remove p # h)"
  by (simp_all add: wall_clock_def perf_clock_def launch_def scratch_file_def remove_file_def pdo_def ask_def pbind_def)

lemma measured_run_Inr:
  assumes "measured_run m path command h = Some (Inr run, h')"
  shows "launched_after h command h'"
proof -
  define wrapper where "wrapper = [''/usr/bin/time'', ''-f'', time_format, ''-o'', path]"
  define h0 where "h0 = PerfTime # WallTime # h"
  obtain p pid ended where "end_interval m path p (await m pid) (Launch (wrapper @ command) # h0) = Some (Inr ended, h')"
    using assms unfolding measured_run_def total_steps pbind_Inr preturn_Inr h0_def wrapper_def by auto
  from any_request [OF quiet_interval [OF quiet_host(2)] this] have "suffix (Launch (wrapper @ command) # h0) h'" .
  moreover have "suffix h h0" by (simp add: h0_def suffix_ConsI)
  ultimately show ?thesis unfolding launched_after_def by blast
qed

lemma launched_after_mono: "launched_after h command h' \<Longrightarrow> suffix h0 h \<Longrightarrow> suffix h' h2 \<Longrightarrow> launched_after h0 command h2"
  unfolding launched_after_def by (metis suffix_order.trans)

lemma timed_process_Inr:
  assumes "timed_process m command h = Some (Inr d, h')"
  shows "launched_after h command h'"
proof -
  obtain path h0 run h1 u h2 where s: "scratch_file m ''pgpg-time-'' h = Some (Inr path, h0)" "measured_run m path command h0 = Some (Inr run, h1)"
    "remove_file path h1 = Some (Inr u, h2)" "measured_metrics run h2 = Some (Inr d, h')"
    using assms unfolding timed_process_def by (elim pbind_returnsE pfinally_returnsE)
  have "suffix h h0" "suffix h1 h2" "suffix h2 h'"
    using any_request [OF quiet_host(8) s(1)] any_request [OF quiet_host(9) s(3)] any_request [OF quiet_measured(2) s(4)] .
  then show ?thesis using launched_after_mono [OF measured_run_Inr [OF s(2)]] suffix_order.trans by blast
qed

text \<open>A killed run: the marker named a process that ran and was sent \<open>SIGKILL\<close>.\<close>

definition killed_after :: "host \<Rightarrow> host_history \<Rightarrow> string \<Rightarrow> int \<Rightarrow> host_history \<Rightarrow> bool" where
  "killed_after m h marker pid h' \<longleftrightarrow>
     (\<exists>h0 text. suffix h h0 \<and> file_text m h0 marker = Some text \<and> parse_marker text = Inr pid \<and>
        process_alive m (LookFile marker # h0) pid \<and> suffix (Signal pid # LookFile marker # h0) h')"

lemma wait_for_marker_Inr:
  assumes "wait_for_marker m marker pid h = Some (Inr n, h')"
  shows "\<exists>h0 text. suffix h h0 \<and> file_text m h0 marker = Some text \<and> parse_marker text = Inr n \<and> h' = LookFile marker # h0"
proof -
  obtain h0 where h0: "look_for_marker m marker pid h0 = (Inr (Some n), h')" "suffix h h0"
    using poll_for_found [OF assms [unfolded wait_for_marker_def] quiet_look] by blast
  then show ?thesis
    by (auto simp: look_for_marker_def abind_Inr ask_Inr ebind_Inr_iff intro: suffix_ConsI split: option.splits if_splits)
qed

lemma timed_crash_Inr:
  assumes "timed_crash_process m command marker h = Some (Inr (d, pid), h')"
  shows "killed_after m h marker pid h'"
proof -
  obtain path h0 u0 h1 t h2 p h3 wrapper h4 run h5 u1 h6 where s: "scratch_file m ''pgpg-time-crash-'' h = Some (Inr path, h0)"
    "remove_file marker h0 = Some (Inr u0, h1)" "wall_clock m h1 = Some (Inr t, h2)" "perf_clock m h2 = Some (Inr p, h3)"
    "launch m ([''/usr/bin/time'', ''-q'', ''-f'', time_format, ''-o'', path] @ command) h3 = Some (Inr wrapper, h4)"
    "crashed_run m marker wrapper p path h4 = Some (Inr run, h5)" "reap_wrapper m wrapper path marker h5 = Some (Inr u1, h6)"
    "crashed_metrics wrapper t run h6 = Some (Inr (d, pid), h')"
    using assms unfolding timed_crash_process_def by (elim pbind_returnsE pfinally_returnsE)
  obtain n h7 u2 h8 ended where c: "wait_for_marker m marker wrapper h4 = Some (Inr n, h7)" "signal_kill m n h7 = Some (Inr u2, h8)"
    "end_interval m path p (await_for m wrapper 30) h8 = Some (Inr ended, h5)" "run = (n, ended)"
    using s(6) unfolding crashed_run_def pbind_Inr preturn_Inr
    by (elim exE conjE) (rule that, assumption, assumption, simp_all)
  have "suffix h8 h5" by (rule any_request [OF quiet_interval [OF quiet_host(3)] c(3)])
  have "pid = n" using s(8) unfolding c(4) crashed_metrics_def by (cases ended) (auto simp: pbind_Inr)
  moreover have "suffix h h4"
    using any_request [OF quiet_host(8) s(1)] any_request [OF quiet_host(9) s(2)] any_request [OF quiet_host(11) s(3)]
      any_request [OF quiet_host(12) s(4)] any_request [OF quiet_host(1) s(5)] by (meson suffix_order.trans)
  moreover have "suffix h5 h'"
    using any_request [OF quiet_reap s(7)] any_request [OF quiet_crashed(2) s(8)] by (rule suffix_order.trans)
  ultimately show ?thesis
    using wait_for_marker_Inr [OF c(1)] c(2) \<open>suffix h8 h5\<close> unfolding killed_after_def signal_kill_Inr
    by (metis suffix_order.trans)
qed

lemma operator_recover_Inr:
  assumes "operator_recover m a candidate mode import_name url h = Some (Inr operator, h')"
  shows "suffix h h' \<and> (candidate = ''oxide'' \<longrightarrow> launched_after h (recover_command a url import_name mode) h')"
  using assms any_request [OF quiet_operator assms]
  by (auto simp: operator_recover_def pbind_Inr dest: timed_process_Inr split: if_splits)

lemma recovery_continuation_Inr:
  assumes "recovery_continuation m a candidate mode database import_name url kill_chunk base first pid h = Some (Inr s, h')"
  shows "\<exists>h1 h2 h3 report. let d = durable_rows (arg_rows a) (arg_chunk_size a) kill_chunk in
    \<not> process_alive m h pid \<and> business_at m (Probe pid # h) database import_name (d, d) \<and>
    suffix (Probe pid # h) h1 \<and> (candidate = ''oxide'' \<longrightarrow> launched_after (Probe pid # h) (recover_command a url import_name mode) h1) \<and>
    launched_after h1 base h2 \<and> verified_at m h2 a url import_name report \<and> suffix h2 h3 \<and>
    business_at m h3 database import_name (arg_rows a, arg_rows a) \<and> suffix h3 h'"
proof -
  let ?d = "durable_rows (arg_rows a) (arg_chunk_size a) kill_chunk"
  obtain h1 operator h2 final h3 report h4 h5 where s: "\<not> process_alive m h pid"
    "query_business_state m database import_name (Probe pid # h) = Some (Inr (?d, ?d), h1)"
    "operator_recover m a candidate mode import_name url h1 = Some (Inr operator, h2)" "timed_process m base h2 = Some (Inr final, h3)"
    "verify_final_state m a url import_name h3 = Some (Inr report, h4)"
    "query_business_state m database import_name h4 = Some (Inr (arg_rows a, arg_rows a), h5)" "h' = h5"
    using assms unfolding recovery_continuation_def Let_def pbind_Inr refuse_Inr probe_alive_Inr plift_Inr not_not by blast
  note q = query_business_Inr [OF s(2)] query_business_Inr [OF s(6)]
  note o = operator_recover_Inr [OF s(3)]
  have "suffix (Probe pid # h) h2" using q(1) o suffix_order.trans by blast
  moreover have "candidate = ''oxide'' \<longrightarrow> launched_after (Probe pid # h) (recover_command a url import_name mode) h2"
    using q(1) o launched_after_mono suffix_order.refl by blast
  ultimately show ?thesis
    unfolding Let_def using s(1,7) q timed_process_Inr [OF s(4)] verify_final_Inr [OF s(5)] by blast
qed

lemma clone_suffix: "clone_sample_database m template db h = Some (r, h') \<Longrightarrow> suffix h h'"
proof -
  have "requests (\<lambda>_. True) (clone_sample_database m template db)"
    unfolding clone_sample_database_def compose_db_def run_checked_def execute_def
    by (intro request_intros grows_ask TrueI)
  then show "clone_sample_database m template db h = Some (r, h') \<Longrightarrow> suffix h h'" by (rule requests_suffix)
qed

text \<open>
  C38. What a returned recovery sample rests on, with arguments that passed the checks: the benchmark sent
  \<open>SIGKILL\<close> to the process the crash marker named; asked afterwards, that process was gone before anything
  was started again; the database then held exactly the whole chunks before the killed one, between
  two fifths and two thirds of the rows; OxideBatch was recovered explicitly, the same command was
  started once more, the independent verifier accepted its result with exit code 0, and in the end
  the database held exactly all rows.
\<close>

theorem recovery_sample_exact:
  assumes "validate_args m a = Inr ()" "recovery_sample m a candidate mode ordinal template h = Some (Inr s, h')"
  shows "\<exists>db url name base k pid marker h1 h2 h3 h4 report.
    sample_database_name mode ''recovery'' ordinal candidate = Inr db \<and> database_url_of (base_url a) db = Inr url \<and>
    run_command a candidate url name mode = Inr base \<and>
    recovery_kill_chunk (arg_rows a) (arg_chunk_size a) = Inr k \<and> recovery_split (arg_rows a) (arg_chunk_size a) k \<and>
    killed_after m h marker pid h1 \<and> \<not> process_alive m h1 pid \<and>
    business_at m (Probe pid # h1) db name
      (durable_rows (arg_rows a) (arg_chunk_size a) k, durable_rows (arg_rows a) (arg_chunk_size a) k) \<and>
    suffix (Probe pid # h1) h2 \<and> (candidate = ''oxide'' \<longrightarrow> launched_after (Probe pid # h1) (recover_command a url name mode) h2) \<and>
    launched_after h2 base h3 \<and> verified_at m h3 a url name report \<and> suffix h3 h4 \<and>
    business_at m h4 db name (arg_rows a, arg_rows a) \<and> suffix h4 h'"
proof -
  let ?name = "''bench_'' @ mode @ ''_recovery_'' @ candidate"
  obtain db h0 u url k marker base h5 v where s: "sample_database_name mode ''recovery'' ordinal candidate = Inr db"
    "clone_sample_database m template db h = Some (Inr u, h0)" "database_url_of (base_url a) db = Inr url"
    "recovery_kill_chunk (arg_rows a) (arg_chunk_size a) = Inr k" "run_command a candidate url ?name mode = Inr base"
    "recovery_body m a candidate mode db ?name url k base marker (Remove marker # Scratch (''pgpg-'' @ candidate @ ''-'' @ mode @ ''-'') # h0) = Some (Inr s, h5)"
    "pbind (remove_file marker) (\<lambda>_. compose_db m ''dropdb'' db None) h5 = Some (Inr v, h')"
    using assms(2) unfolding recovery_sample_def Let_def pbind_Inr [of "plift _"] plift_Inr pbind_Inr [of "clone_sample_database _ _ _"]
      total_steps pfinally_Inr by blast
  obtain first pid h6 where c: "timed_crash_process m (crash_command candidate base k marker) marker
      (Remove marker # Scratch (''pgpg-'' @ candidate @ ''-'' @ mode @ ''-'') # h0) = Some (Inr (first, pid), h6)"
    "recovery_continuation m a candidate mode db ?name url k base first pid h6 = Some (Inr s, h5)"
    using s(6) unfolding recovery_body_def pbind_Inr by auto
  have "suffix h (Remove marker # Scratch (''pgpg-'' @ candidate @ ''-'' @ mode @ ''-'') # h0)"
    using clone_suffix [OF s(2)] by (simp add: suffix_ConsI)
  then have killed: "killed_after m h marker pid h6"
    using timed_crash_Inr [OF c(1)] unfolding killed_after_def by (meson suffix_order.trans)
  have "requests (\<lambda>_. True) (pbind (remove_file marker) (\<lambda>_. compose_db m ''dropdb'' db None))"
    unfolding remove_file_def compose_db_def run_checked_def execute_def by (intro request_intros grows_ask TrueI)
  then have last: "suffix h5 h'" using s(7) by (rule requests_suffix)
  have "recovery_split (arg_rows a) (arg_chunk_size a) k"
    by (rule recovery_kill_near_half [OF s(4) validate_args_usable(2-5) [OF assms(1)]])
  with s(1,3-5) killed show ?thesis
    using recovery_continuation_Inr [OF c(2)] last unfolding Let_def by (meson suffix_order.trans)
qed

definition toy_run :: "obj \<times> host_history" where
  "toy_run = (case recovery_sample toy_host toy_args ''raw'' ''cursor'' 1 ''t'' [] of Some (Inr s, h') \<Rightarrow> (s, h') | _ \<Rightarrow> ([], []))"

lemma toy_recovers: "dget (fst toy_run) ''kill_chunk'' = JInt 3"
  by code_simp

theorem recovery_sample_exact_witness:
  "\<exists>k pid marker h1. recovery_kill_chunk 4 1 = Inr k \<and> recovery_split 4 1 k \<and> killed_after toy_host [] marker pid h1 \<and>
    \<not> process_alive toy_host h1 pid"
proof -
  have "recovery_sample toy_host toy_args ''raw'' ''cursor'' 1 ''t'' [] = Some (Inr (fst toy_run), snd toy_run)"
    using toy_recovers unfolding toy_run_def by (auto split: option.splits sum.splits)
  from recovery_sample_exact [OF toy_args_accepted this] show ?thesis by (auto simp: toy_args_def)
qed

end
