(* ===== verification/Scale.thy ===== *)
theory Scale
  imports Harness
begin

text \<open>
  Model of the decisions of \<open>postgres-local-partition/benchmark/scale.py\<close>: which worker points a
  campaign may use, in which order its samples run, the configurations it accepts, how a statement and
  a session report are classified, and the summary it publishes. A refusal of the argument parser is a
  \<open>Failed\<close>. Running a sample, the database and the provenance of the host are not modelled.
\<close>

section \<open>Configuration\<close>

definition dense_worker_points :: "int list" where
  "dense_worker_points = [1, 2, 4, 8, 16, 32, 64]"

definition scale_max_rows :: int where
  "scale_max_rows = 10000000"

definition max_partitions :: int where
  "max_partitions = 1024"

definition scale_max_warmups :: int where
  "scale_max_warmups = 3"

definition scale_max_measured_runs :: int where
  "scale_max_measured_runs = 14"

definition parse_worker_points :: "string \<Rightarrow> bench_error + int list" where
  "parse_worker_points text =
     ebind (emap (\<lambda>v. want_some (int_of_str v) (Failed ''worker points must be comma-separated integers''))
       (filter (\<lambda>v. v \<noteq> []) (split_on (CHR '','') text))) (\<lambda>points.
     ebind (eguard (points \<noteq> [] \<and> distinct points) (Failed ''worker points must be nonempty and unique'')) (\<lambda>_.
     ebind (eguard (set points \<subseteq> set dense_worker_points) (Failed ''worker points must be drawn from the dense points'')) (\<lambda>_.
     ebind (eguard (points = sort points \<and> hd points = 1) (Failed ''worker points must be ascending and start at 1'')) (\<lambda>_.
       Inr points))))"

definition cyclic_order :: "int list \<Rightarrow> nat \<Rightarrow> int list" where
  "cyclic_order points round_index = rotated (round_index mod length points) points"

record scale_args =
  scale_rows :: int
  scale_partitions :: int
  scale_points :: "int list"
  scale_warmups :: int
  scale_measured_runs :: int

definition scale_validate_args :: "scale_args \<Rightarrow> bench_error + unit" where
  "scale_validate_args a =
     ebind (eguard (1 \<le> scale_rows a \<and> scale_rows a \<le> scale_max_rows) (Failed ''rows'')) (\<lambda>_.
     ebind (eguard (1 \<le> scale_partitions a \<and> scale_partitions a \<le> max_partitions) (Failed ''partitions'')) (\<lambda>_.
     ebind (eguard (scale_rows a mod scale_partitions a = 0) (Failed ''rows must be exactly divisible by partitions'')) (\<lambda>_.
     ebind (eguard (Max (set (scale_points a)) \<le> scale_partitions a) (Failed ''largest worker point cannot exceed partitions'')) (\<lambda>_.
     ebind (eguard (0 \<le> scale_warmups a \<and> scale_warmups a \<le> scale_max_warmups) (Failed ''warmups'')) (\<lambda>_.
       eguard (1 \<le> scale_measured_runs a \<and> scale_measured_runs a \<le> scale_max_measured_runs) (Failed ''measured runs''))))))"

text \<open>The samples of a campaign in the order in which \<open>main\<close> runs them: kind, ordinal and workers.\<close>

definition campaign_schedule :: "int list \<Rightarrow> nat \<Rightarrow> nat \<Rightarrow> (string \<times> nat \<times> int) list" where
  "campaign_schedule points warmups measured_runs =
     concat (map (\<lambda>n. map (\<lambda>w. (''warmup'', n, w)) (cyclic_order points n)) [0..<warmups]) @
     concat (map (\<lambda>n. map (\<lambda>w. (''measured'', n, w)) (cyclic_order points n)) [0..<measured_runs])"

section \<open>Observations\<close>

text \<open>\<open>" ".join(query.lower().split())\<close>: words separated by white space.\<close>

fun words_from :: "string \<Rightarrow> string \<Rightarrow> string list" where
  "words_from acc [] = (if acc = [] then [] else [rev acc])"
| "words_from acc (c # s) =
     (if is_space c then (if acc = [] then words_from [] s else rev acc # words_from [] s)
      else words_from (c # acc) s)"

definition normalized_query :: "string \<Rightarrow> string" where
  "normalized_query query = join '' '' (words_from [] (lower query))"

definition statement_class :: "string \<Rightarrow> string" where
  "statement_class query =
     (let normalized = normalized_query query in
      if contains ''pg_stat_activity'' normalized \<or> contains ''pg_stat_statements'' normalized then ''observer''
      else if contains ''app_business.local_partition_projection'' normalized \<or>
        contains ''app_source.local_partition_source'' normalized then ''business_or_verifier''
      else ''framework_or_runtime'')"

definition validate_session_report :: "obj \<Rightarrow> bench_error + unit" where
  "validate_session_report report =
     ebind (to_int (get_default report ''samples'' (JInt 0))) (\<lambda>n.
     ebind (eguard (1 \<le> n) (Failed ''session observer emitted no successful samples'')) (\<lambda>_.
     ebind (want_obj (dget report ''peaks'') (Failed ''session observer omitted peak map'')) (\<lambda>peaks.
       eguard (has_key peaks ''oxide-batch'' \<and> has_key peaks ''oxide-batch-workload-local-partition'')
         (Failed ''session observer omitted a bucket''))))"

definition parse_json_stdout :: "json option \<Rightarrow> bench_error + obj" where
  "parse_json_stdout stdout =
     ebind (want_some stdout (Failed ''did not emit one JSON value'')) (\<lambda>v. want_obj v (Failed ''JSON was not an object''))"

text \<open>What a sample keeps of the independent verifier's report.\<close>

definition method_of :: "json \<Rightarrow> string \<Rightarrow> bench_error + json" where
  "method_of v k = py_builtin (getattr_get v k JNull)"

definition check_verify_report :: "obj \<Rightarrow> int \<Rightarrow> bench_error + unit" where
  "check_verify_report report rows =
     (let framework = get_default report ''framework'' (JObj []); business = get_default report ''business'' (JObj []) in
      ebind (method_of framework ''terminal_state_consistent'') (\<lambda>terminal.
      ebind (eguard (truthy terminal) (Failed ''framework terminal state'')) (\<lambda>_.
      ebind (method_of business ''destination_rows'') (\<lambda>destination.
      ebind (eguard (py_eq destination (JInt rows)) (Failed ''row count mismatch'')) (\<lambda>_.
      ebind (method_of business ''expected_destination_digest'') (\<lambda>expected.
      ebind (method_of business ''actual_destination_digest'') (\<lambda>actual.
      ebind (eguard (py_eq expected actual) (Failed ''digest mismatch'')) (\<lambda>_.
      ebind (method_of business ''range_ownership_complete'') (\<lambda>owned.
        eguard (truthy owned) (Failed ''range ownership mismatch''))))))))))"

section \<open>The summary\<close>

definition selected :: "json list \<Rightarrow> string \<Rightarrow> json \<Rightarrow> bench_error + json list" where
  "selected samples k v = ebind (emap (\<lambda>s. ebind (item_of s k) (\<lambda>x. Inr (py_eq x v, s))) samples) (\<lambda>ps.
     Inr (map snd (filter fst ps)))"

definition scale_distribution_at :: "json list \<Rightarrow> string list \<Rightarrow> bench_error + json" where
  "scale_distribution_at samples ks =
     ebind (emap (\<lambda>s. path_of s ks) samples) (\<lambda>vs. ebind (scale_distribution vs) (\<lambda>d. Inr (JObj d)))"

definition worker_summary :: "json list \<Rightarrow> bench_error + json" where
  "worker_summary samples =
     ebind (scale_distribution_at samples [''launch_elapsed_seconds'']) (\<lambda>elapsed.
     ebind (scale_distribution_at samples [''rows_per_second'']) (\<lambda>throughput.
     ebind (scale_distribution_at samples [''process_window'', ''max_rss_kib'']) (\<lambda>rss.
     ebind (emap (\<lambda>s. ebind (path_of s [''durable_timings'', ''worker_duration_seconds'']) (\<lambda>v. py_builtin (iterate v))) samples) (\<lambda>durations.
     ebind (scale_distribution (concat durations)) (\<lambda>worker.
     ebind (scale_distribution_at samples [''durable_timings'', ''aggregation_tail_seconds'']) (\<lambda>tail.
       Inr (JObj [(''launch_elapsed_seconds'', elapsed), (''rows_per_second'', throughput), (''process_max_rss_kib'', rss),
          (''job_worker_duration_seconds'', JObj worker), (''aggregation_tail_seconds'', tail)])))))))"

text \<open>One round: the last sample of every worker point, and its speedup and efficiency against one worker.\<close>

definition by_worker :: "json list \<Rightarrow> bench_error + (json \<times> json) list" where
  "by_worker samples =
     efold (\<lambda>d s. ebind (item_of s ''workers'') (\<lambda>w.
       ebind (eguard (hashable w) (Unchecked TypeErr)) (\<lambda>_. Inr (assoc_set d w s)))) [] samples"

definition round_ratios :: "int list \<Rightarrow> json list \<Rightarrow> bench_error + (int \<times> pyfloat \<times> pyfloat) list" where
  "round_ratios points current =
     ebind (by_worker current) (\<lambda>d.
     ebind (eguard (set (map fst d) = set (map JInt points)) (Failed ''measured round is incomplete'')) (\<lambda>_.
     ebind (want_some (map_of d (JInt 1)) (Unchecked (KeyErr ''1''))) (\<lambda>first.
     ebind (float_item first ''launch_elapsed_seconds'') (\<lambda>baseline.
       emap (\<lambda>w.
         ebind (want_some (map_of d (JInt w)) (Unchecked (KeyErr ''workers''))) (\<lambda>s.
         ebind (float_item s ''launch_elapsed_seconds'') (\<lambda>elapsed.
         ebind (fl_div baseline elapsed) (\<lambda>speedup.
         ebind (float_of_int w) (\<lambda>k.
         ebind (fl_div speedup k) (\<lambda>efficiency. Inr (w, speedup, efficiency))))))) points))))"

definition all_ratios :: "json list \<Rightarrow> int list \<Rightarrow> nat \<Rightarrow> bench_error + (int \<times> pyfloat \<times> pyfloat) list list" where
  "all_ratios measured points measured_runs =
     emap (\<lambda>n. ebind (selected measured ''ordinal'' (JInt (int n))) (\<lambda>current. round_ratios points current)) [0..<measured_runs]"

definition column :: "(int \<times> pyfloat \<times> pyfloat) list list \<Rightarrow> int \<Rightarrow> (pyfloat \<times> pyfloat \<Rightarrow> pyfloat) \<Rightarrow> json list" where
  "column rounds w f = map (\<lambda>r. JFloat (f (the (map_of r w)))) rounds"

definition scale_summarize :: "json list \<Rightarrow> int list \<Rightarrow> nat \<Rightarrow> bench_error + obj" where
  "scale_summarize samples points measured_runs =
     ebind (selected samples ''kind'' (JStr ''measured'')) (\<lambda>measured.
     ebind (eguard (length measured = length points * measured_runs) (Failed ''measured sample count'')) (\<lambda>_.
     ebind (emap (\<lambda>w. ebind (selected measured ''workers'' (JInt w)) (\<lambda>ss.
        ebind (worker_summary ss) (\<lambda>d. Inr (show_int w, d)))) points) (\<lambda>per_worker.
     ebind (all_ratios measured points measured_runs) (\<lambda>rounds.
     ebind (emap (\<lambda>w. ebind (scale_distribution (column rounds w fst)) (\<lambda>d. Inr (show_int w, JObj d))) points) (\<lambda>speedup.
     ebind (emap (\<lambda>w. ebind (scale_distribution (column rounds w snd)) (\<lambda>d. Inr (show_int w, JObj d))) points) (\<lambda>efficiency.
       Inr [(''per_worker'', JObj per_worker), (''paired_speedup'', JObj speedup), (''scaling_efficiency'', JObj efficiency),
            (''rounds'', JArr (map (\<lambda>(n, r). JObj [(''round'', JInt (int n)),
               (''order'', JArr (map JInt (cyclic_order points n))),
               (''paired'', JObj (map (\<lambda>(w, s, x). (show_int w, JObj [(''speedup'', JFloat s), (''efficiency'', JFloat x)])) r))])
               (zip [0..<measured_runs] rounds)))]))))))"

section \<open>Properties\<close>

lemma cyclic_order_rotate: "cyclic_order points n = rotate n points"
  by (simp add: cyclic_order_def rotated_rotate)

text \<open>
  The worker points of an accepted campaign are an ascending selection of the dense points that
  starts at one worker, and over as many rounds as there are points every point runs exactly once at
  every position of the order.
\<close>

theorem worker_points_balanced:
  assumes "parse_worker_points text = Inr points"
  shows "sorted points \<and> distinct points \<and> set points \<subseteq> set dense_worker_points \<and> hd points = 1 \<and>
    (\<forall>w \<in> set points. \<forall>i < length points. \<exists>!n. n < length points \<and> cyclic_order points n ! i = w)"
proof -
  have p: "points = sort points" "distinct points" "set points \<subseteq> set dense_worker_points" "hd points = 1"
    using assms by (auto simp: parse_worker_points_def ebind_Inr_iff)
  then have "sorted points" by (metis sorted_sort)
  with p(2-4) show ?thesis by (simp add: cyclic_order_rotate rotate_positions)
qed

theorem worker_points_balanced_witness:
  "sorted [1, 4, 16 :: int] \<and> distinct [1, 4, 16 :: int] \<and> set [1, 4, 16] \<subseteq> set dense_worker_points \<and> hd [1, 4, 16 :: int] = 1 \<and>
    (\<forall>w \<in> set [1, 4, 16]. \<forall>i < length [1, 4, 16 :: int]. \<exists>!n. n < length [1, 4, 16 :: int] \<and> cyclic_order [1, 4, 16] n ! i = w)"
proof -
  have "parse_worker_points ''1,4,,16'' = Inr [1, 4, 16]" by code_simp
  from worker_points_balanced [OF this] show ?thesis .
qed

end
