(* ===== verification/Partition_Evidence.thy ===== *)
theory Partition_Evidence
  imports Verifiers Scale
begin

text \<open>
  Model of \<open>postgres-local-partition/validation/verify-retained-evidence.py\<close>: the verifier of the dense
  scaling run. It checks the fixed identity of the run, the order in which the 56 samples were taken,
  the throughput of each of them and the medians of the published summary. A violation is a short
  text; an uncaught exception ends the run without a report. A median of values that are neither
  all numbers nor all strings counts as such an exception, and so does one with a NaN among
  them: the evidence has a violation by then, so it is rejected either way.
\<close>

section \<open>Constants\<close>

definition scaling_workers :: "int list" where
  "scaling_workers = [1, 2, 4, 8, 16, 32, 64]"

definition sample_columns :: "string list" where
  "sample_columns =
     [''kind'', ''ordinal'', ''workers'', ''durable_seconds'', ''rows_per_second'', ''worker_execution_count'',
      ''peak_active_workers'', ''active_workers_after_join'']"

definition scaling_run_id :: string where
  "scaling_run_id = ''34183558594''"

definition scaling_artifact_id :: string where
  "scaling_artifact_id = ''10040083979''"

definition scaling_workload_sha :: string where
  "scaling_workload_sha = ''d5ed675859780b3403b3afdf6bc0393c998f77bb''"

definition scaling_source_digest :: string where
  "scaling_source_digest = ''4c40f627ed306157b0a1734ff7d03f5d94e45eb28b76d7158d5ec27c65a81518''"

definition scaling_destination_digest :: string where
  "scaling_destination_digest = ''8d8d62ad0aa2d84578a63ab01cf3c44af6a13618d7e37c759f186dc5bb469ff0''"

definition scaling_raw_digest :: string where
  "scaling_raw_digest = ''05ad4cdb6afbf0c546dc5ec9a544b104c0cc0b768c2835e2d8799fb63d7dd141''"

definition scaling_zip_digest :: string where
  "scaling_zip_digest = ''4132b27cffe2f4bfbfcdb33605af3e2519fb32388e65eb01304d0aac5c93e46b''"

definition scaling_crate_checksum :: string where
  "scaling_crate_checksum = ''eb44a43551fbf5c70d11cc54d4c14ec8a40ebaf917a1d5ff1a158556e1fe093b''"

definition scaling_rows :: int where
  "scaling_rows = 262144"

definition scaling_configuration :: json where
  "scaling_configuration = JObj
     [(''measured_runs'', JInt 7), (''partitions'', JInt 1024), (''rows'', JInt scaling_rows),
      (''sample_isolation'', JStr ''fresh PostgreSQL clone from one migrated/seeded deterministic template per sample''),
      (''seed'', JInt 20260908), (''timed_metric'', JStr ''durable job execution created_at -> ended_at''),
      (''warmups'', JInt 1), (''worker_points'', JArr (map JInt scaling_workers))]"

definition scaling_subject :: json where
  "scaling_subject = JObj
     [(''checksum'', JStr scaling_crate_checksum), (''name'', JStr ''oxide-batch''),
      (''source'', JStr ''registry+https://github.com/rust-lang/crates.io-index''), (''version'', JStr ''0.6.0'')]"

section \<open>Values\<close>

text \<open>\<open>v.get(k, d)\<close>, \<open>v or d\<close>, the elements of \<open>v\<close>, and \<open>v[0]\<close>.\<close>

definition attr_get :: "json \<Rightarrow> string \<Rightarrow> json \<Rightarrow> bench_error + json" where
  "attr_get v k v0 = map_err Unchecked (getattr_get v k v0)"

definition or_else :: "json \<Rightarrow> json \<Rightarrow> json" where
  "or_else v v0 = (if truthy v then v else v0)"

definition attr_or_empty :: "json \<Rightarrow> string \<Rightarrow> bench_error + json" where
  "attr_or_empty v k = ebind (attr_get v k JNull) (\<lambda>w. Inr (or_else w (JObj [])))"

definition elements :: "json \<Rightarrow> bench_error + json list" where
  "elements v = map_err Unchecked (iterate v)"

fun first_item :: "json \<Rightarrow> bench_error + json" where
  "first_item (JArr (x # xs)) = Inr x"
| "first_item (JArr []) = Inl OutOfRange"
| "first_item (JStr (c # cs)) = Inr (JStr [c])"
| "first_item (JStr []) = Inl OutOfRange"
| "first_item (JObj d) = Inl (Unchecked (KeyErr ''0''))"
| "first_item _ = Inl (Unchecked TypeErr)"

text \<open>\<open>s in v\<close> for a string \<open>s\<close>.\<close>

fun str_in :: "string \<Rightarrow> json \<Rightarrow> bench_error + bool" where
  "str_in s (JStr t) = Inr (contains s t)"
| "str_in s (JArr xs) = Inr (JStr s \<in> set xs)"
| "str_in s (JObj d) = Inr (has_key d s)"
| "str_in s _ = Inl (Unchecked TypeErr)"

section \<open>Numbers\<close>

fun int_part :: "json \<Rightarrow> int option" where
  "int_part (JInt i) = Some i"
| "int_part (JBool b) = Some (if b then 1 else 0)"
| "int_part _ = None"

text \<open>\<open>v / w\<close>.\<close>

definition num_div :: "json \<Rightarrow> json \<Rightarrow> bench_error + pyfloat" where
  "num_div v w =
     (if num_val v = None \<or> num_val w = None then Inl (Unchecked TypeErr)
      else
        (case (int_part v, int_part w) of
           (Some a, Some b) \<Rightarrow> int_div a b
         | _ \<Rightarrow> ebind (float_value v) (\<lambda>x. ebind (float_value w) (\<lambda>y. fl_div x y))))"

definition positive_number :: "json \<Rightarrow> bool" where
  "positive_number v \<longleftrightarrow> (case num_val v of Some x \<Rightarrow> float_lt (Fin 0) x | None \<Rightarrow> False)"

text \<open>\<open>math.isclose(x, y, rel_tol=1e-12, abs_tol=1e-9)\<close>.\<close>

fun fl_abs :: "pyfloat \<Rightarrow> pyfloat" where
  "fl_abs (Fin a) = Fin \<bar>a\<bar>"
| "fl_abs NInf = PInf"
| "fl_abs x = x"

definition is_close :: "pyfloat \<Rightarrow> pyfloat \<Rightarrow> bool" where
  "is_close x y =
     (if float_eq x y then True
      else if x \<in> {PInf, NInf} \<or> y \<in> {PInf, NInf} then False
      else
        let diff = fl_abs (fl_sub y x); rel = to_double (1 / 10 ^ 12) in
          float_le diff (fl_abs (fl_mul rel y)) \<or> float_le diff (fl_abs (fl_mul rel x)) \<or>
          float_le diff (to_double (1 / 10 ^ 9)))"

definition values_close :: "json \<Rightarrow> json \<Rightarrow> bench_error + bool" where
  "values_close v w = ebind (float_value v) (\<lambda>x. ebind (float_value w) (\<lambda>y. Inr (is_close x y)))"

text \<open>\<open>statistics.median\<close> of decoded values: numbers by value, strings in their own order.\<close>

definition mean_of :: "json \<Rightarrow> json \<Rightarrow> bench_error + json" where
  "mean_of v w =
     (case (int_part v, int_part w) of
        (Some a, Some b) \<Rightarrow> ebind (int_div (a + b) 2) (\<lambda>x. Inr (JFloat x))
      | _ \<Rightarrow> ebind (float_value v) (\<lambda>x. ebind (float_value w) (\<lambda>y.
               ebind (fl_div (fl_add x y) (Fin 2)) (\<lambda>z. Inr (JFloat z)))))"

definition middle :: "json list \<Rightarrow> bench_error + json" where
  "middle ordered =
     (let n = length ordered in
      if n = 0 then Inl (Failed ''no median for empty data'')
      else if odd n then Inr (ordered ! (n div 2))
      else if list_all is_str ordered then Inl (Unchecked TypeErr)
      else mean_of (ordered ! (n div 2 - 1)) (ordered ! (n div 2)))"

definition value_median :: "json list \<Rightarrow> bench_error + json" where
  "value_median vs =
     (if list_all is_str vs then middle (sort_key (\<lambda>v. the (as_str v)) vs)
      else if list_all (\<lambda>v. num_val v \<noteq> None) vs then
        (if list_ex (\<lambda>v. num_val v = Some NaN) vs then Inl NanOrder
         else middle (sort_key (\<lambda>v. the (num_val v)) vs))
      else Inl (Unchecked TypeErr))"

section \<open>Identity\<close>

text \<open>\<open>load\<close>: the document, or a violation and the empty dict.\<close>

definition load_value :: "node \<Rightarrow> string list \<Rightarrow> json \<times> string list" where
  "load_value repo path =
     (case Option.bind (get_file repo path) json_doc of
        Some v \<Rightarrow> (v, [])
      | None \<Rightarrow> (JObj [], [''cannot read'']))"

definition load_artifact_value :: "node \<Rightarrow> string list \<Rightarrow> json \<Rightarrow> json \<times> string list" where
  "load_artifact_value repo dir v =
     (case v of JStr p \<Rightarrow> load_value repo (dir @ path_parts p) | _ \<Rightarrow> (JObj [], [''cannot read'']))"

text \<open>The one record of the manifest: its violations and the path of its artifact.\<close>

definition manifest_record :: "json \<Rightarrow> bench_error + string list \<times> json" where
  "manifest_record m =
     ebind (attr_get m ''records'' JNull) (\<lambda>records.
     let rs = or_else records (JArr []) in
     ebind (elements rs) (\<lambda>items.
     ebind (if truthy rs then first_item rs else Inr (JObj [])) (\<lambda>r.
     ebind (attr_get r ''scenario'' JNull) (\<lambda>scenario.
     ebind (attr_or_empty r ''artifact'') (\<lambda>artifact.
     ebind (attr_get artifact ''path'' (JStr [])) (\<lambda>path.
       Inr (checks [(length items = 1, ''manifest must retain exactly one record''),
                    (scenario = JStr ''canonical_dense_single_host_scaling'', ''unexpected scenario'')], path)))))))"

definition evidence_identity :: "json \<Rightarrow> bench_error + string list" where
  "evidence_identity e =
     ebind (attr_get e ''schema_version'' JNull) (\<lambda>schema.
     ebind (attr_get e ''campaign'' JNull) (\<lambda>campaign.
     ebind (attr_get e ''classification'' JNull) (\<lambda>classification.
     ebind (attr_or_empty e ''configuration'') (\<lambda>c.
     ebind (attr_or_empty e ''ownership'') (\<lambda>own.
     ebind (attr_get own ''status'' JNull) (\<lambda>status.
     ebind (attr_get own ''optimization_issue_allowed'' JNull) (\<lambda>allowed.
       Inr (checks
         [(py_eq schema (JInt 1) \<and> py_eq campaign (JInt 93), ''wrong evidence identity''),
          (classification = JStr ''observational scaling evidence; no numeric regression threshold'', ''classification drift''),
          (py_eq c scaling_configuration, ''configuration drift''),
          (status = JStr ''UNKNOWN'' \<and> allowed = JBool False, ''ownership overclaim'')]))))))))"

definition evidence_producer :: "json \<Rightarrow> bench_error + string list" where
  "evidence_producer e =
     ebind (attr_or_empty e ''producer'') (\<lambda>p.
     ebind (emap (\<lambda>k. attr_get p k JNull)
        [''run_id'', ''run_attempt'', ''artifact_id'', ''raw_report_sha256'', ''artifact_zip_sha256'']) (\<lambda>vs.
     ebind (attr_or_empty e ''provenance'') (\<lambda>pr.
     ebind (attr_or_empty pr ''oxide_batch_subject'') (\<lambda>sub.
     ebind (attr_get pr ''workload_sha'' JNull) (\<lambda>workload.
     ebind (attr_get pr ''logical_cpu_count'' JNull) (\<lambda>cpus.
     ebind (attr_or_empty e ''correctness'') (\<lambda>cor.
     ebind (attr_get cor ''source_digest_sha256'' JNull) (\<lambda>src.
     ebind (attr_get cor ''destination_digest_sha256'' JNull) (\<lambda>dst.
       Inr (checks
         [(take 3 vs = map JStr [scaling_run_id, ''1'', scaling_artifact_id], ''producer identity drift''),
          (drop 3 vs = map JStr [scaling_raw_digest, scaling_zip_digest], ''producer digest drift''),
          (workload = JStr scaling_workload_sha \<and> py_eq cpus (JInt 4), ''producer provenance drift''),
          (py_eq sub scaling_subject, ''OxideBatch subject drift''),
          (src = JStr scaling_source_digest \<and> dst = JStr scaling_destination_digest, ''correctness digest drift'')]))))))))))"

text \<open>\<open>a in v and b in v\<close>.\<close>

definition both_in :: "string \<Rightarrow> string \<Rightarrow> json \<Rightarrow> bench_error + bool" where
  "both_in a b v = ebind (str_in a v) (\<lambda>x. if x then str_in b v else Inr False)"

definition external_artifacts :: "json \<Rightarrow> bench_error + string list" where
  "external_artifacts m =
     ebind (attr_get m ''external_artifacts'' JNull) (\<lambda>v.
     let ext = or_else v (JArr []) in
     ebind (elements ext) (\<lambda>items.
     ebind (if length items = 1
            then ebind (first_item ext) (\<lambda>x. ebind (attr_get x ''sha256'' JNull) (\<lambda>d. Inr (d = JStr scaling_zip_digest)))
            else Inr False) (\<lambda>one.
     if \<not> truthy ext then Inr (checks [(one, ''raw external artifact drift'')])
     else
       ebind (first_item ext) (\<lambda>x.
       ebind (attr_get x ''reference'' (JStr [])) (\<lambda>reference.
       ebind (both_in scaling_run_id scaling_artifact_id reference) (\<lambda>referenced.
       ebind (attr_get x ''retention_guarantee'' (JStr [])) (\<lambda>retention.
       ebind (str_in ''2026-10-08T03:46:39Z'' retention) (\<lambda>expires.
         Inr (checks [(one, ''raw external artifact drift''), (referenced, ''raw artifact reference drift''),
                      (expires, ''raw artifact expiry missing'')]))))))))) "

section \<open>Samples\<close>

type_synonym sample = "(string \<times> json) list"

text \<open>A row that is a list of eight values, with its violations.\<close>

definition sample_of :: "json \<Rightarrow> sample option" where
  "sample_of row = (case row of JArr vs \<Rightarrow> if length vs = length sample_columns then Some (zip sample_columns vs) else None | _ \<Rightarrow> None)"

definition check_sample :: "sample \<Rightarrow> bench_error + string list" where
  "check_sample s =
     (let w = dget s ''workers''; d = dget s ''durable_seconds'';
          shape = checks
            [(list_ex (\<lambda>x. py_eq w (JInt x)) scaling_workers, ''sample workers''),
             (py_eq (dget s ''worker_execution_count'') (JInt 1024) \<and> py_eq (dget s ''peak_active_workers'') w \<and>
              py_eq (dget s ''active_workers_after_join'') (JInt 0), ''sample worker invariant'')]
      in if positive_number d then
           ebind (float_value (dget s ''rows_per_second'')) (\<lambda>r.
           ebind (num_div (JInt scaling_rows) d) (\<lambda>q.
             Inr (shape @ checks [(is_close r q, ''sample throughput derivation'')])))
         else Inr (shape @ [''sample durable timing'']))"

definition check_row :: "json \<Rightarrow> bench_error + string list" where
  "check_row row = (case sample_of row of None \<Rightarrow> Inr [''sample shape''] | Some s \<Rightarrow> check_sample s)"

definition samples_of :: "json list \<Rightarrow> sample list" where
  "samples_of rows = concat (map (\<lambda>row. case sample_of row of Some s \<Rightarrow> [s] | None \<Rightarrow> []) rows)"

definition check_samples :: "json \<Rightarrow> bench_error + string list \<times> sample list" where
  "check_samples e =
     ebind (attr_get e ''sample_columns'' JNull) (\<lambda>columns.
     ebind (attr_get e ''samples'' JNull) (\<lambda>v.
     ebind (elements (or_else v (JArr []))) (\<lambda>rows.
     ebind (emap check_row rows) (\<lambda>vss.
       Inr (checks [(py_eq columns (JArr (map JStr sample_columns)), ''sample schema drift''),
                    (length rows = 56, ''expected 56 samples'')] @ concat vss, samples_of rows)))))"

section \<open>The schedule\<close>

definition of_kind :: "string \<Rightarrow> sample list \<Rightarrow> sample list" where
  "of_kind kind samples = filter (\<lambda>s. dget s ''kind'' = JStr kind) samples"

definition workers_are :: "sample list \<Rightarrow> int list \<Rightarrow> bool" where
  "workers_are ss ws \<longleftrightarrow> list_all2 (\<lambda>s w. py_eq (dget s ''workers'') (JInt w)) ss ws"

definition check_warmups :: "sample list \<Rightarrow> string list" where
  "check_warmups warm =
     checks [(length warm = 7 \<and> workers_are warm scaling_workers \<and> list_all (\<lambda>s. py_eq (dget s ''ordinal'') (JInt 0)) warm,
       ''warmup schedule'')]"

text \<open>\<open>rounds.setdefault(ordinal, {})[workers] = s\<close> and \<open>byw[workers].append(s)\<close>: the worker point of a sample.\<close>

definition worker_point :: "sample \<Rightarrow> bench_error + int" where
  "worker_point s =
     ebind (eguard (hashable (dget s ''ordinal'') \<and> hashable (dget s ''workers'')) (Unchecked TypeErr)) (\<lambda>_.
       want_some (find (\<lambda>w. py_eq (dget s ''workers'') (JInt w)) scaling_workers) (Unchecked (KeyErr ''workers'')))"

definition place_samples :: "sample list \<Rightarrow> bench_error + (int \<times> sample) list" where
  "place_samples meas = emap (\<lambda>s. ebind (worker_point s) (\<lambda>w. Inr (w, s))) meas"

definition round_samples :: "(int \<times> sample) list \<Rightarrow> nat \<Rightarrow> (int \<times> sample) list" where
  "round_samples placed n = filter (\<lambda>(w, s). py_eq (dget s ''ordinal'') (JInt (int n))) placed"

definition round_covered :: "(int \<times> sample) list \<Rightarrow> nat \<Rightarrow> bool" where
  "round_covered placed n \<longleftrightarrow> set (map fst (round_samples placed n)) = set scaling_workers"

definition check_rounds :: "(int \<times> sample) list \<Rightarrow> string list" where
  "check_rounds placed =
     concat (map (\<lambda>n. checks
       [(round_covered placed n, ''round coverage''),
        (map fst (round_samples placed n) = rotated n scaling_workers, ''round order'')]) [0..<7])"

section \<open>The summary\<close>

text \<open>The sample a round keeps for a worker point: the last one.\<close>

definition kept :: "(int \<times> sample) list \<Rightarrow> nat \<Rightarrow> int \<Rightarrow> bench_error + sample" where
  "kept placed n w = want_some (map_of (rev (round_samples placed n)) w) (Unchecked (KeyErr ''round''))"

definition duration_of :: "sample \<Rightarrow> json" where
  "duration_of s = dget s ''durable_seconds''"

definition speedups :: "(int \<times> sample) list \<Rightarrow> int \<Rightarrow> bench_error + json list" where
  "speedups placed w =
     emap (\<lambda>n. ebind (kept placed n 1) (\<lambda>base. ebind (kept placed n w) (\<lambda>s.
       ebind (num_div (duration_of base) (duration_of s)) (\<lambda>q. Inr (JFloat q))))) [0..<7]"

definition of_worker :: "(int \<times> sample) list \<Rightarrow> int \<Rightarrow> sample list" where
  "of_worker placed w = map snd (filter (\<lambda>(x, s). x = w) placed)"

definition expected_fields :: "(int \<times> sample) list \<Rightarrow> int \<Rightarrow> bench_error + (string \<times> json) list" where
  "expected_fields placed w =
     ebind (speedups placed w) (\<lambda>qs.
     ebind (value_median qs) (\<lambda>sp.
     ebind (value_median (map duration_of (of_worker placed w))) (\<lambda>durable.
     ebind (value_median (map (\<lambda>s. dget s ''rows_per_second'') (of_worker placed w))) (\<lambda>rps.
     ebind (num_div sp (JInt w)) (\<lambda>efficiency.
       Inr [(''durable_seconds_median'', durable), (''rows_per_second_median'', rps),
            (''paired_speedup_median'', sp), (''scaling_efficiency_median'', JFloat efficiency)])))))"

definition expected_summary :: "(int \<times> sample) list \<Rightarrow> bench_error + (string \<times> (string \<times> json) list) list" where
  "expected_summary placed =
     (if list_all (round_covered placed) [0..<7]
      then emap (\<lambda>w. ebind (expected_fields placed w) (\<lambda>fs. Inr (show_int w, fs))) scaling_workers
      else Inr [])"

text \<open>\<open>k in got.get(w, {}) and eq(got[w][k], x)\<close>.\<close>

definition check_field :: "json \<Rightarrow> string \<Rightarrow> string \<times> json \<Rightarrow> bench_error + string list" where
  "check_field got w kx =
     (case kx of (k, x) \<Rightarrow>
        ebind (attr_get got w (JObj [])) (\<lambda>inner.
        ebind (str_in k inner) (\<lambda>there.
        ebind (if there then ebind (map_err Unchecked (getitem inner k)) (\<lambda>y. values_close y x) else Inr False) (\<lambda>ok.
          Inr (checks [(ok, ''summary field'')])))))"

definition check_worker_fields :: "json \<Rightarrow> string \<times> (string \<times> json) list \<Rightarrow> bench_error + string list" where
  "check_worker_fields got entry = ebind (emap (check_field got (fst entry)) (snd entry)) (\<lambda>vss. Inr (concat vss))"

definition check_summary :: "json \<Rightarrow> (string \<times> (string \<times> json) list) list \<Rightarrow> bench_error + string list" where
  "check_summary e calc =
     ebind (attr_or_empty e ''summary'') (\<lambda>summary.
     ebind (attr_or_empty summary ''per_worker'') (\<lambda>got.
     ebind (elements got) (\<lambda>ks.
     ebind (eguard (list_all hashable ks) (Unchecked TypeErr)) (\<lambda>_.
     ebind (emap (check_worker_fields got) calc) (\<lambda>vss.
       Inr (checks [(set ks = set (map (\<lambda>w. JStr (show_int w)) scaling_workers), ''summary worker set'')] @ concat vss))))))"

section \<open>The verifier\<close>

definition partition_verify :: "node \<Rightarrow> string list \<Rightarrow> bench_error + string list" where
  "partition_verify repo path =
     (case load_value repo path of (m, v0) \<Rightarrow>
        ebind (manifest_record m) (\<lambda>(v1, artifact).
        case load_artifact_value repo (workload_dir path) artifact of (e, v2) \<Rightarrow>
        ebind (evidence_identity e) (\<lambda>v3.
        ebind (evidence_producer e) (\<lambda>v4.
        ebind (external_artifacts m) (\<lambda>v5.
        ebind (check_samples e) (\<lambda>(v6, samples).
        let meas = of_kind ''measured'' samples in
        ebind (place_samples meas) (\<lambda>placed.
        ebind (expected_summary placed) (\<lambda>calc.
        ebind (check_summary e calc) (\<lambda>v7.
          Inr (v0 @ v1 @ v2 @ v3 @ v4 @ v5 @ v6 @ check_warmups (of_kind ''warmup'' samples) @
               checks [(length meas = 49, ''measured sample count'')] @ check_rounds placed @ v7))))))))))"

definition partition_report :: "node \<Rightarrow> string list \<Rightarrow> int \<times> json option" where
  "partition_report repo path =
     (case partition_verify repo path of Inl e \<Rightarrow> (1, None) | Inr vs \<Rightarrow> violations_report vs)"

section \<open>A concrete run\<close>

definition toy_row :: "string \<Rightarrow> int \<Rightarrow> int \<Rightarrow> json \<Rightarrow> json \<Rightarrow> json" where
  "toy_row kind ordinal w d r = JArr [JStr kind, JInt ordinal, JInt w, d, r, JInt 1024, JInt w, JInt 0]"

definition toy_sample :: "string \<Rightarrow> int \<Rightarrow> int \<Rightarrow> json \<Rightarrow> json \<Rightarrow> sample" where
  "toy_sample kind ordinal w d r =
     zip sample_columns [JStr kind, JInt ordinal, JInt w, d, r, JInt 1024, JInt w, JInt 0]"

definition toy_placed :: "(nat \<Rightarrow> json) \<Rightarrow> (nat \<Rightarrow> json) \<Rightarrow> (int \<times> sample) list" where
  "toy_placed d r =
     concat (map (\<lambda>n. map (\<lambda>w. (w, toy_sample ''measured'' (int n) w (d n) (r n))) (rotated n scaling_workers)) [0..<7])"

lemma toy_sample_fields [simp]:
  "dget (toy_sample kind n w d r) ''kind'' = JStr kind" "dget (toy_sample kind n w d r) ''ordinal'' = JInt n"
  "dget (toy_sample kind n w d r) ''workers'' = JInt w" "dget (toy_sample kind n w d r) ''durable_seconds'' = d"
  "dget (toy_sample kind n w d r) ''rows_per_second'' = r" "dget (toy_sample kind n w d r) ''worker_execution_count'' = JInt 1024"
  "dget (toy_sample kind n w d r) ''peak_active_workers'' = JInt w" "dget (toy_sample kind n w d r) ''active_workers_after_join'' = JInt 0"
  by (simp_all add: toy_sample_def sample_columns_def)

lemma sample_of_toy_row [simp]: "sample_of (toy_row kind n w d r) = Some (toy_sample kind n w d r)"
  by (simp add: sample_of_def toy_row_def toy_sample_def sample_columns_def)

lemma distinct_scaling_workers [simp]: "distinct scaling_workers"
  by (simp add: scaling_workers_def)

lemma worker_point_toy [simp]: "w \<in> set scaling_workers \<Longrightarrow> worker_point (toy_sample kind n w d r) = Inr w"
  unfolding worker_point_def toy_sample_fields
  by (simp add: num_eq.simps, auto simp: scaling_workers_def)

definition good_throughput :: "json \<Rightarrow> json \<Rightarrow> bool" where
  "good_throughput d r \<longleftrightarrow> positive_number d \<and>
     (\<exists>x q. float_value r = Inr x \<and> num_div (JInt scaling_rows) d = Inr q \<and> is_close x q)"

lemma good_throughput_code [code]:
  "good_throughput d r \<longleftrightarrow> positive_number d \<and>
     (case float_value r of Inl _ \<Rightarrow> False
      | Inr x \<Rightarrow> (case num_div (JInt scaling_rows) d of Inl _ \<Rightarrow> False | Inr q \<Rightarrow> is_close x q))"
  by (auto simp: good_throughput_def split: sum.splits)

lemma check_toy_row:
  assumes "w \<in> set scaling_workers" "good_throughput d r"
  shows "check_row (toy_row kind n w d r) = Inr []"
proof -
  obtain x q where "positive_number d" "float_value r = Inr x" "num_div (JInt scaling_rows) d = Inr q" "is_close x q"
    using assms(2) by (auto simp: good_throughput_def)
  then show ?thesis using assms(1) by (auto simp: check_row_def check_sample_def Let_def list_ex_iff num_eq.simps)
qed

lemma emap_const: "(\<And>x. x \<in> set xs \<Longrightarrow> f x = Inr y) \<Longrightarrow> emap f xs = Inr (map (\<lambda>_. y) xs)"
  by (rule emap_pure)

lemma samples_of_append [simp]: "samples_of (xs @ ys) = samples_of xs @ samples_of ys"
  by (simp add: samples_of_def)

lemma samples_of_rows [simp]: "samples_of (map (\<lambda>w. toy_row kind n w d r) ws) = map (\<lambda>w. toy_sample kind n w d r) ws"
  by (induction ws) (simp_all add: samples_of_def)

lemma samples_of_concat: "samples_of (concat xss) = concat (map samples_of xss)"
  by (induction xss) (simp_all add: samples_of_def)

definition toy_rows :: "(nat \<Rightarrow> json) \<Rightarrow> (nat \<Rightarrow> json) \<Rightarrow> json list" where
  "toy_rows d r = map (\<lambda>w. toy_row ''warmup'' 0 w (d 0) (r 0)) scaling_workers @
     concat (map (\<lambda>n. map (\<lambda>w. toy_row ''measured'' (int n) w (d n) (r n)) (rotated n scaling_workers)) [0..<7])"

lemma of_kind_toy [simp]:
  "of_kind kind (map (\<lambda>w. toy_sample kind' n w d r) ws) = (if kind' = kind then map (\<lambda>w. toy_sample kind' n w d r) ws else [])"
  by (induction ws) (simp_all add: of_kind_def)

lemma of_kind_append [simp]: "of_kind kind (xs @ ys) = of_kind kind xs @ of_kind kind ys"
  by (simp add: of_kind_def)

lemma of_kind_concat: "of_kind kind (concat xss) = concat (map (of_kind kind) xss)"
  by (induction xss) (simp_all add: of_kind_def)

lemma toy_kinds:
  "of_kind ''warmup'' (samples_of (toy_rows d r)) = map (\<lambda>w. toy_sample ''warmup'' 0 w (d 0) (r 0)) scaling_workers"
  "of_kind ''measured'' (samples_of (toy_rows d r)) = map snd (toy_placed d r)"
  by (simp_all add: toy_rows_def toy_placed_def samples_of_concat of_kind_concat comp_def map_concat)

lemma toy_lengths: "length (toy_rows d r) = 56" "length (toy_placed d r) = 49"
  by (simp_all add: toy_rows_def toy_placed_def scaling_workers_def length_concat comp_def map_replicate_const sum_list_replicate
      del: upt.simps upt_Suc)

lemma place_toy: "place_samples (map snd (toy_placed d r)) = Inr (toy_placed d r)"
proof -
  have "emap (\<lambda>s. ebind (worker_point s) (\<lambda>w. Inr (w, s))) (map snd ps) = Inr ps"
    if "\<And>p. p \<in> set ps \<Longrightarrow> worker_point (snd p) = Inr (fst p)" for ps
    using that by (induction ps) simp_all
  moreover have "worker_point (snd p) = Inr (fst p)" if "p \<in> set (toy_placed d r)" for p
    using that by (auto simp: toy_placed_def)
  ultimately show ?thesis unfolding place_samples_def by blast
qed

lemma round_toy:
  assumes "n < 7"
  shows "round_samples (toy_placed d r) n = map (\<lambda>w. (w, toy_sample ''measured'' (int n) w (d n) (r n))) (rotated n scaling_workers)"
proof -
  let ?row = "\<lambda>m. map (\<lambda>w. (w, toy_sample ''measured'' (int m) w (d m) (r m))) (rotated m scaling_workers)"
  have row: "round_samples (?row m) n = (if m = n then ?row m else [])" for m
    by (simp add: round_samples_def filter_map comp_def num_eq.simps)
  have "round_samples (toy_placed d r) n = concat (map (\<lambda>m. round_samples (?row m) n) [0..<7])"
    by (simp add: toy_placed_def round_samples_def filter_concat comp_def)
  also have "\<dots> = concat (map (\<lambda>m. if m = n then ?row m else []) [0..<7])" by (simp only: row)
  also have "\<dots> = ?row n"
  proof -
    have "concat (map (\<lambda>m. if m = n then f m else []) ms) = (if n \<in> set ms then f n else [])" if "distinct ms" for f :: "nat \<Rightarrow> 'a list" and ms
      using that by (induction ms) auto
    from this [of "[0..<7]" ?row] show ?thesis using assms by (simp del: upt.simps upt_Suc)
  qed
  finally show ?thesis .
qed

lemma round_toy_fst: "n < 7 \<Longrightarrow> map fst (round_samples (toy_placed d r) n) = rotated n scaling_workers"
  by (simp add: round_toy comp_def)

lemma rounds_toy: "check_rounds (toy_placed d r) = []" "list_all (round_covered (toy_placed d r)) [0..<7]"
proof -
  have "round_covered (toy_placed d r) n" if "n < 7" for n
    using that unfolding round_covered_def by (simp only: round_toy_fst set_rotated)
  then show "check_rounds (toy_placed d r) = []" "list_all (round_covered (toy_placed d r)) [0..<7]"
    by (auto simp: check_rounds_def round_toy_fst list_all_iff)
qed

lemma kept_toy:
  assumes "n < 7" "w \<in> set scaling_workers"
  shows "kept (toy_placed d r) n w = Inr (toy_sample ''measured'' (int n) w (d n) (r n))"
proof -
  have "map_of (map (\<lambda>w. (w, f w)) ws) w = (if w \<in> set ws then Some (f w) else None)" for f :: "int \<Rightarrow> sample" and ws
    by (induction ws) auto
  then show ?thesis using assms by (simp add: kept_def round_toy rev_map)
qed

lemma speedups_toy:
  assumes "w \<in> set scaling_workers"
  shows "speedups (toy_placed d r) w = emap (\<lambda>n. ebind (num_div (d n) (d n)) (\<lambda>q. Inr (JFloat q))) [0..<7]"
proof -
  have one: "1 \<in> set scaling_workers" by (simp add: scaling_workers_def)
  show ?thesis
    unfolding speedups_def by (intro emap_cong) (use assms one in \<open>simp_all add: kept_toy duration_of_def\<close>)
qed

lemma of_worker_toy:
  assumes "w \<in> set scaling_workers"
  shows "of_worker (toy_placed d r) w = map (\<lambda>n. toy_sample ''measured'' (int n) w (d n) (r n)) [0..<7]"
proof -
  have f: "filter (\<lambda>x. x = w) ws = (if w \<in> set ws then [w] else [])" if "distinct ws" for ws :: "int list"
    using that by (induction ws) auto
  have "map snd (filter (\<lambda>(x, s). x = w) (map (\<lambda>w. (w, toy_sample ''measured'' (int n) w (d n) (r n))) (rotated n scaling_workers))) =
    [toy_sample ''measured'' (int n) w (d n) (r n)]" for n
    using assms by (simp add: filter_map comp_def f)
  then show ?thesis
    by (simp add: of_worker_def toy_placed_def filter_concat map_concat comp_def del: upt.simps upt_Suc)
qed

text \<open>A run whose durations and throughputs depend on the round only.\<close>

definition toy_evidence :: "(nat \<Rightarrow> json) \<Rightarrow> (nat \<Rightarrow> json) \<Rightarrow> json \<Rightarrow> json \<Rightarrow> obj" where
  "toy_evidence d r duration throughput =
     [(''schema_version'', JInt 1), (''campaign'', JInt 93),
      (''classification'', JStr ''observational scaling evidence; no numeric regression threshold''),
      (''configuration'', scaling_configuration),
      (''ownership'', JObj [(''status'', JStr ''UNKNOWN''), (''optimization_issue_allowed'', JBool False)]),
      (''producer'', JObj [(''run_id'', JStr scaling_run_id), (''run_attempt'', JStr ''1''),
         (''artifact_id'', JStr scaling_artifact_id), (''raw_report_sha256'', JStr scaling_raw_digest),
         (''artifact_zip_sha256'', JStr scaling_zip_digest)]),
      (''provenance'', JObj [(''workload_sha'', JStr scaling_workload_sha), (''logical_cpu_count'', JInt 4),
         (''oxide_batch_subject'', scaling_subject)]),
      (''correctness'', JObj [(''source_digest_sha256'', JStr scaling_source_digest),
         (''destination_digest_sha256'', JStr scaling_destination_digest)]),
      (''sample_columns'', JArr (map JStr sample_columns)),
      (''samples'', JArr (toy_rows d r)),
      (''summary'', JObj [(''per_worker'', JObj (map (\<lambda>w. (show_int w, JObj
         [(''durable_seconds_median'', duration), (''rows_per_second_median'', throughput),
          (''paired_speedup_median'', JInt 1), (''scaling_efficiency_median'', JFloat (Fin (1 / of_int w)))])) scaling_workers))])]"

definition toy_scaling :: "(nat \<Rightarrow> json) \<Rightarrow> (nat \<Rightarrow> json) \<Rightarrow> json \<Rightarrow> json \<Rightarrow> node" where
  "toy_scaling d r duration throughput = NDir [(''validation'', NDir
     [(''manifest'', NFile (json_file (JObj
        [(''records'', JArr [JObj [(''scenario'', JStr ''canonical_dense_single_host_scaling''),
            (''artifact'', JObj [(''path'', JStr ''validation/run'')])]]),
         (''external_artifacts'', JArr [JObj [(''sha256'', JStr scaling_zip_digest),
            (''reference'', JStr (scaling_run_id @ ''/'' @ scaling_artifact_id)),
            (''retention_guarantee'', JStr ''until 2026-10-08T03:46:39Z'')]])]))),
      (''run'', NFile (json_file (JObj (toy_evidence d r duration throughput))))])]"

definition toy_path :: "string list" where
  "toy_path = [''validation'', ''manifest'']"

lemma py_eq_self:
  "py_eq scaling_configuration scaling_configuration" "py_eq scaling_subject scaling_subject"
  "py_eq (JArr (map JStr ss)) (JArr (map JStr ss))"
proof -
  show "py_eq scaling_configuration scaling_configuration" by code_simp
  show "py_eq scaling_subject scaling_subject" by code_simp
  show "py_eq (JArr (map JStr ss)) (JArr (map JStr ss))" by (simp add: py_eq_strs)
qed

lemmas attr_simps = attr_get_def or_else_def attr_or_empty_def elements_def getattr_get_def iterate_def

lemma toy_identity:
  "evidence_identity (JObj (toy_evidence d r x y)) = Inr []" "evidence_producer (JObj (toy_evidence d r x y)) = Inr []"
proof -
  have "truthy scaling_configuration" "truthy scaling_subject" by (simp_all add: scaling_configuration_def scaling_subject_def)
  then show "evidence_identity (JObj (toy_evidence d r x y)) = Inr []" "evidence_producer (JObj (toy_evidence d r x y)) = Inr []"
    by (simp_all add: evidence_identity_def evidence_producer_def attr_simps toy_evidence_def py_eq_self num_eq.simps)
qed

lemma toy_check_samples:
  assumes "\<And>n. n < 7 \<Longrightarrow> good_throughput (d n) (r n)"
  shows "check_samples (JObj (toy_evidence d r x y)) = Inr ([], samples_of (toy_rows d r))"
proof -
  have "emap check_row (toy_rows d r) = Inr (map (\<lambda>_. []) (toy_rows d r))"
    by (rule emap_const) (auto simp: toy_rows_def intro!: check_toy_row assms)
  moreover have "toy_rows d r \<noteq> []" using toy_lengths(1) [of d r] by auto
  moreover have "concat (map (\<lambda>_. []) xs) = []" for xs :: "'a list" by (induction xs) simp_all
  ultimately show ?thesis
    by (simp add: check_samples_def attr_simps toy_evidence_def py_eq_strs toy_lengths)
qed

definition toy_calc :: "json \<Rightarrow> json \<Rightarrow> (string \<times> (string \<times> json) list) list" where
  "toy_calc duration throughput = map (\<lambda>w. (show_int w,
     [(''durable_seconds_median'', duration), (''rows_per_second_median'', throughput),
      (''paired_speedup_median'', JFloat (Fin 1)), (''scaling_efficiency_median'', JFloat (Fin (1 / of_int w)))])) scaling_workers"

lemma toy_summary:
  assumes "\<And>n. n < 7 \<Longrightarrow> num_div (d n) (d n) = Inr (Fin 1)"
    "value_median (map d [0..<7]) = Inr x" "value_median (map r [0..<7]) = Inr y"
  shows "expected_summary (toy_placed d r) = Inr (toy_calc x y)"
proof -
  have s: "speedups (toy_placed d r) w = Inr (map (\<lambda>_. JFloat (Fin 1)) [0..<7])" if "w \<in> set scaling_workers" for w
    unfolding speedups_toy [OF that] by (rule emap_const) (use assms(1) in auto)
  have m: "value_median (map (\<lambda>_. JFloat (Fin 1)) [0..<7]) = Inr (JFloat (Fin 1))" by code_simp
  have q: "num_div (JFloat (Fin 1)) (JInt w) = Inr (Fin (1 / of_int w))" if "w \<in> set scaling_workers" for w
  proof -
    have "list_all (\<lambda>w. num_div (JFloat (Fin 1)) (JInt w) = Inr (Fin (1 / of_int w))) scaling_workers" by code_simp
    with that show ?thesis by (simp add: list_all_iff)
  qed
  have "expected_fields (toy_placed d r) w = Inr
      [(''durable_seconds_median'', x), (''rows_per_second_median'', y), (''paired_speedup_median'', JFloat (Fin 1)),
       (''scaling_efficiency_median'', JFloat (Fin (1 / of_int w)))]" if "w \<in> set scaling_workers" for w
    using that assms(2,3) s [OF that] q [OF that] of_worker_toy [OF that, of d r]
    by (simp add: expected_fields_def m comp_def duration_of_def del: upt.simps upt_Suc)
  then show ?thesis
    unfolding expected_summary_def toy_calc_def using rounds_toy(2) [of d r]
    by (simp add: emap_pure del: upt.simps upt_Suc)
qed

lemma toy_checked_summary:
  assumes "values_close x x' = Inr True" "values_close y y' = Inr True"
  shows "check_summary (JObj (toy_evidence d r x y)) (toy_calc x' y') = Inr []"
proof -
  have "values_close (JInt 1) (JFloat (Fin 1)) = Inr True" by code_simp
  moreover have "list_all (\<lambda>w. values_close (JFloat (Fin (1 / of_int w))) (JFloat (Fin (1 / of_int w))) = Inr True) scaling_workers"
    by (simp add: values_close_def is_close_def float_value_def list_all_iff)
  moreover have "map show_int scaling_workers = [''1'', ''2'', ''4'', ''8'', ''16'', ''32'', ''64'']" by code_simp
  ultimately show ?thesis using assms
    by (simp add: check_summary_def attr_simps toy_evidence_def toy_calc_def scaling_workers_def check_worker_fields_def check_field_def)
qed

lemma toy_external: "external_artifacts m = Inr []"
  if "m = JObj [(''records'', x), (''external_artifacts'', JArr [JObj [(''sha256'', JStr scaling_zip_digest),
            (''reference'', JStr (scaling_run_id @ ''/'' @ scaling_artifact_id)),
            (''retention_guarantee'', JStr ''until 2026-10-08T03:46:39Z'')]])]"
proof -
  have "contains scaling_run_id (scaling_run_id @ ''/'' @ scaling_artifact_id)"
    "contains scaling_artifact_id (scaling_run_id @ ''/'' @ scaling_artifact_id)"
    "contains ''2026-10-08T03:46:39Z'' ''until 2026-10-08T03:46:39Z''" by code_simp+
  then show ?thesis by (simp add: that external_artifacts_def attr_simps both_in_def)
qed

lemma toy_verify:
  assumes "\<And>n. n < 7 \<Longrightarrow> good_throughput (d n) (r n)" "\<And>n. n < 7 \<Longrightarrow> num_div (d n) (d n) = Inr (Fin 1)"
    "value_median (map d [0..<7]) = Inr x'" "value_median (map r [0..<7]) = Inr y'"
    "values_close x x' = Inr True" "values_close y y' = Inr True"
  shows "partition_verify (toy_scaling d r x y) toy_path = Inr []"
proof -
  have "path_parts ''validation/run'' = [''validation'', ''run'']" by code_simp
  moreover have "workers_are (map (\<lambda>w. toy_sample ''warmup'' 0 w (d 0) (r 0)) scaling_workers) scaling_workers"
    by (simp add: workers_are_def scaling_workers_def num_eq.simps)
  moreover have "check_warmups (map (\<lambda>w. toy_sample ''warmup'' 0 w (d 0) (r 0)) scaling_workers) = []"
    using calculation by (simp add: check_warmups_def num_eq.simps list_all_iff) (simp add: scaling_workers_def)
  ultimately show ?thesis
    using toy_check_samples [OF assms(1)] toy_summary [OF assms(2-4)] toy_checked_summary [OF assms(5,6)]
    by (simp add: partition_verify_def toy_scaling_def load_value_def load_artifact_value_def toy_path_def get_file_def resolve_def
        child_def json_file_def manifest_record_def attr_simps toy_identity toy_external workload_dir_def Let_def toy_kinds place_toy
        toy_lengths rounds_toy)
qed

lemma toy_scaling_accepted:
  "partition_verify (toy_scaling (\<lambda>n. JInt 1024) (\<lambda>n. JInt 256) (JInt 1024) (JInt 256)) toy_path = Inr []"
proof (rule toy_verify)
  show "good_throughput (JInt 1024) (JInt 256)"
    unfolding good_throughput_def
    by (intro conjI exI [of _ "Fin 256"]) code_simp+
  show "num_div (JInt 1024) (JInt 1024) = Inr (Fin 1)" by code_simp
  show "value_median (map (\<lambda>n. JInt 1024) [0..<7]) = Inr (JInt 1024)" by code_simp
  show "value_median (map (\<lambda>n. JInt 256) [0..<7]) = Inr (JInt 256)" by code_simp
  show "values_close (JInt 1024) (JInt 1024) = Inr True" "values_close (JInt 256) (JInt 256) = Inr True" by code_simp+
qed

section \<open>The contract\<close>

lemma checks_part [simp]: "list_all (\<lambda>c. snd c \<noteq> []) cs \<Longrightarrow> [] \<notin> set (checks cs)"
  by (rule checks_named)

lemma manifest_record_named: "manifest_record m = Inr (vs, p) \<Longrightarrow> [] \<notin> set vs"
  by (auto simp: manifest_record_def Let_def ebind_Inr_iff simp del: checks_Nil_iff)

lemma identity_named: "evidence_identity e = Inr vs \<Longrightarrow> [] \<notin> set vs" "evidence_producer e = Inr vs \<Longrightarrow> [] \<notin> set vs"
  by (auto simp: evidence_identity_def evidence_producer_def ebind_Inr_iff)

lemma external_named: "external_artifacts m = Inr vs \<Longrightarrow> [] \<notin> set vs"
  by (auto simp: external_artifacts_def Let_def ebind_Inr_iff split: if_splits)

lemma check_row_named: "check_row row = Inr vs \<Longrightarrow> [] \<notin> set vs"
  by (auto simp: check_row_def check_sample_def Let_def ebind_Inr_iff split: option.splits if_splits)

lemma concat_named:
  assumes "emap f xs = Inr vss" "\<And>x vs. f x = Inr vs \<Longrightarrow> [] \<notin> set vs"
  shows "[] \<notin> set (concat vss)"
  using assms(1) assms(2) by (induction xs arbitrary: vss) (auto simp: ebind_Inr_iff)

lemma samples_named: "check_samples e = Inr (vs, ss) \<Longrightarrow> [] \<notin> set vs"
  unfolding check_samples_def ebind_Inr_iff using concat_named [OF _ check_row_named] by fastforce

lemma field_named: "check_field got w kx = Inr vs \<Longrightarrow> [] \<notin> set vs"
  by (auto simp: check_field_def ebind_Inr_iff split: prod.splits)

lemma worker_fields_named: "check_worker_fields got entry = Inr vs \<Longrightarrow> [] \<notin> set vs"
  unfolding check_worker_fields_def ebind_Inr_iff using concat_named [OF _ field_named] by fastforce

lemma summary_named: "check_summary e calc = Inr vs \<Longrightarrow> [] \<notin> set vs"
  unfolding check_summary_def ebind_Inr_iff using concat_named [OF _ worker_fields_named] by fastforce

lemma schedule_named [simp]: "[] \<notin> set (check_warmups ss)" "[] \<notin> set (check_rounds ps)"
  by (auto simp: check_warmups_def check_rounds_def)

lemma loads_named:
  "load_value repo path = (v, vs) \<Longrightarrow> [] \<notin> set vs" "load_artifact_value repo dir p = (v, vs) \<Longrightarrow> [] \<notin> set vs"
  by (auto simp: load_value_def load_artifact_value_def split: option.splits json.splits)

text \<open>A run of the verifier that reaches its report, part by part.\<close>

definition verified_parts ::
  "node \<Rightarrow> string list \<Rightarrow> json \<Rightarrow> json \<Rightarrow> sample list \<Rightarrow> (int \<times> sample) list \<Rightarrow> string list list \<Rightarrow> bool" where
  "verified_parts repo path m e samples placed vss \<longleftrightarrow>
     (\<exists>v0 v1 v2 v3 v4 v5 v6 v7 p calc. load_value repo path = (m, v0) \<and> manifest_record m = Inr (v1, p) \<and>
        load_artifact_value repo (workload_dir path) p = (e, v2) \<and> evidence_identity e = Inr v3 \<and> evidence_producer e = Inr v4 \<and>
        external_artifacts m = Inr v5 \<and> check_samples e = Inr (v6, samples) \<and>
        place_samples (of_kind ''measured'' samples) = Inr placed \<and> expected_summary placed = Inr calc \<and>
        check_summary e calc = Inr v7 \<and>
        vss = [v0, v1, v2, v3, v4, v5, v6, check_warmups (of_kind ''warmup'' samples),
          checks [(length (of_kind ''measured'' samples) = 49, ''measured sample count'')], check_rounds placed, v7])"

lemma partition_verify_Inr:
  assumes "partition_verify repo path = Inr vs"
  shows "\<exists>m e samples placed vss. verified_parts repo path m e samples placed vss \<and> vs = concat vss"
proof -
  obtain m v0 where l: "load_value repo path = (m, v0)" by fastforce
  obtain v1 p where r: "manifest_record m = Inr (v1, p)" using assms by (auto simp: partition_verify_def l ebind_Inr_iff)
  obtain e v2 where a: "load_artifact_value repo (workload_dir path) p = (e, v2)" by fastforce
  show ?thesis
    using assms by (auto simp: partition_verify_def verified_parts_def l r a ebind_Inr_iff Let_def)
qed

lemma partition_verify_named: "partition_verify repo path = Inr vs \<Longrightarrow> [] \<notin> set vs"
  by (drule partition_verify_Inr)
    (auto simp: verified_parts_def dest: loads_named manifest_record_named identity_named external_named samples_named summary_named)

interpretation part: violations_verifier partition_verify partition_report
proof
  fix repo path vs
  assume v: "partition_verify repo path = Inr vs"
  then show "\<exists>r. partition_report repo path = (if vs = [] then 0 else 1, Some (JObj r)) \<and>
      dget r ''schema_version'' = JInt 1 \<and> dget r ''violations'' = JArr (map JStr vs)"
    by (simp add: partition_report_def violations_report_def)
  show "[] \<notin> set vs" using partition_verify_named [OF v] .
next
  fix repo path e
  assume "partition_verify repo path = Inl e"
  then show "\<not> isOK (check_verifier_result (partition_report repo path))"
    by (simp add: partition_report_def check_verifier_result_def)
qed

section \<open>What accepted evidence shows\<close>

text \<open>A sample: a dense worker point, all of its workers busy and joined, and a throughput close to rows over seconds.\<close>

definition sound_sample :: "sample \<Rightarrow> bool" where
  "sound_sample s \<longleftrightarrow>
     (\<exists>w \<in> set scaling_workers. py_eq (dget s ''workers'') (JInt w)) \<and>
     py_eq (dget s ''worker_execution_count'') (JInt 1024) \<and>
     py_eq (dget s ''peak_active_workers'') (dget s ''workers'') \<and>
     py_eq (dget s ''active_workers_after_join'') (JInt 0) \<and>
     good_throughput (dget s ''durable_seconds'') (dget s ''rows_per_second'')"

text \<open>The samples ran in the order of the campaign: kind, ordinal and workers of each.\<close>

definition ran_as :: "sample \<Rightarrow> string \<times> nat \<times> int \<Rightarrow> bool" where
  "ran_as s k = (case k of (kind, n, w) \<Rightarrow>
     dget s ''kind'' = JStr kind \<and> py_eq (dget s ''ordinal'') (JInt (int n)) \<and> py_eq (dget s ''workers'') (JInt w))"

definition in_rounds :: "sample list \<Rightarrow> bool" where
  "in_rounds samples \<longleftrightarrow>
     list_all2 ran_as (of_kind ''warmup'' samples) (campaign_schedule dense_worker_points 1 0) \<and>
     length (of_kind ''measured'' samples) = 49 \<and>
     (\<forall>n < 7. list_all2 ran_as
        (filter (\<lambda>s. py_eq (dget s ''ordinal'') (JInt (int n))) (of_kind ''measured'' samples))
        (map (\<lambda>w. (''measured'', n, w)) (cyclic_order dense_worker_points n)))"

text \<open>Every published median is close to the one computed from the samples.\<close>

definition summary_recomputed :: "json \<Rightarrow> (int \<times> sample) list \<Rightarrow> bool" where
  "summary_recomputed e placed \<longleftrightarrow>
     (\<forall>w \<in> set scaling_workers. \<exists>fs. expected_fields placed w = Inr fs \<and>
        (\<forall>(k, x) \<in> set fs.
           values_close (get_in (get_in (get_in (get_in e ''summary'') ''per_worker'') (show_int w)) k) x = Inr True))"

lemma check_row_sound: "check_row row = Inr [] \<Longrightarrow> \<exists>s. sample_of row = Some s \<and> sound_sample s"
  by (auto simp: check_row_def check_sample_def Let_def ebind_Inr_iff sound_sample_def good_throughput_def list_ex_iff
      split: option.splits if_splits)

lemma emap_Nils:
  assumes "emap f xs = Inr vss" "concat vss = []" "x \<in> set xs"
  shows "f x = Inr []"
  using assms by (induction xs arbitrary: vss) (auto simp: ebind_Inr_iff)

lemma check_samples_sound:
  assumes "check_samples e = Inr ([], ss)"
  shows "length ss = 56 \<and> list_all sound_sample ss"
proof -
  obtain rows vss where r: "emap check_row rows = Inr vss" "concat vss = []" "length rows = 56" "ss = samples_of rows"
    using assms by (auto simp: check_samples_def ebind_Inr_iff)
  have "\<exists>s. sample_of row = Some s \<and> sound_sample s" if "row \<in> set rows" for row
    using check_row_sound emap_Nils [OF r(1,2) that] by blast
  then have "samples_of rows = map (\<lambda>row. the (sample_of row)) rows \<and> list_all sound_sample (samples_of rows)"
    by (induction rows) (fastforce simp: samples_of_def)+
  with r(3,4) show ?thesis by (metis length_map)
qed

lemma worker_point_Inr: "worker_point s = Inr w \<Longrightarrow> w \<in> set scaling_workers \<and> py_eq (dget s ''workers'') (JInt w)"
  by (auto simp: worker_point_def ebind_Inr_iff want_some_Inr find_Some_iff in_set_conv_nth)

lemma place_samples_Inr:
  assumes "place_samples meas = Inr placed"
  shows "map snd placed = meas \<and> (\<forall>(w, s) \<in> set placed. w \<in> set scaling_workers \<and> py_eq (dget s ''workers'') (JInt w))"
  using assms unfolding place_samples_def
  by (induction meas arbitrary: placed) (auto simp: ebind_Inr_iff dest: worker_point_Inr)

lemma checks_single [simp]: "checks [(b, t)] = [] \<longleftrightarrow> b"
  by simp

lemma list_all2_pairs: "(\<And>p. p \<in> set ps \<Longrightarrow> P (snd p) (f (fst p))) \<Longrightarrow> list_all2 P (map snd ps) (map f (map fst ps))"
  by (induction ps) auto

lemma check_rounds_sound:
  assumes "check_rounds placed = []" "n < 7"
  shows "map fst (round_samples placed n) = rotated n scaling_workers" "round_covered placed n"
proof -
  have "checks [(round_covered placed n, ''round coverage''),
      (map fst (round_samples placed n) = rotated n scaling_workers, ''round order'')] = []"
    using assms by (auto simp: check_rounds_def simp del: checks_Nil_iff)
  then show "map fst (round_samples placed n) = rotated n scaling_workers" "round_covered placed n" by simp_all
qed

lemma cyclic_dense: "n < 7 \<Longrightarrow> cyclic_order dense_worker_points n = rotated n scaling_workers"
  by (simp add: cyclic_order_def dense_worker_points_def scaling_workers_def)

lemma schedule_sound:
  assumes "place_samples (of_kind ''measured'' samples) = Inr placed" "check_rounds placed = []"
    "check_warmups (of_kind ''warmup'' samples) = []" "length (of_kind ''measured'' samples) = 49"
  shows "in_rounds samples"
  unfolding in_rounds_def
proof (intro conjI allI impI)
  have "list_all2 ran_as ss (map (\<lambda>w. (''warmup'', 0, w)) ws)"
    if "workers_are ss ws" "list_all (\<lambda>s. py_eq (dget s ''ordinal'') (JInt 0) \<and> dget s ''kind'' = JStr ''warmup'') ss" for ss ws
    using that by (induction ss arbitrary: ws) (auto simp: workers_are_def ran_as_def list_all2_Cons1)
  moreover have "list_all (\<lambda>s. dget s ''kind'' = JStr ''warmup'') (of_kind ''warmup'' samples)"
    by (auto simp: of_kind_def list_all_iff)
  moreover have "workers_are (of_kind ''warmup'' samples) scaling_workers"
    "list_all (\<lambda>s. py_eq (dget s ''ordinal'') (JInt 0)) (of_kind ''warmup'' samples)"
    using assms(3) by (simp_all add: check_warmups_def)
  moreover have "campaign_schedule dense_worker_points 1 0 = map (\<lambda>w. (''warmup'', 0, w)) scaling_workers"
    by (simp add: campaign_schedule_def cyclic_dense rotated_def)
  ultimately show "list_all2 ran_as (of_kind ''warmup'' samples) (campaign_schedule dense_worker_points 1 0)"
    by (simp add: list_all_iff)
next
  show "length (of_kind ''measured'' samples) = 49" by (rule assms(4))
next
  fix n :: nat
  assume n: "n < 7"
  let ?ps = "round_samples placed n"
  have meas: "map snd placed = of_kind ''measured'' samples"
    and point: "\<And>w s. (w, s) \<in> set placed \<Longrightarrow> py_eq (dget s ''workers'') (JInt w)"
    using place_samples_Inr [OF assms(1)] by auto
  have "map snd ?ps = filter (\<lambda>s. py_eq (dget s ''ordinal'') (JInt (int n))) (map snd placed)"
    by (simp add: round_samples_def filter_map comp_def case_prod_beta')
  moreover have "list_all2 ran_as (map snd ?ps) (map (\<lambda>w. (''measured'', n, w)) (map fst ?ps))"
  proof (rule list_all2_pairs)
    fix p
    assume "p \<in> set ?ps"
    then have p: "p \<in> set placed" "py_eq (dget (snd p) ''ordinal'') (JInt (int n))" by (auto simp: round_samples_def)
    from p(1) have "snd p \<in> set (of_kind ''measured'' samples)" unfolding meas [symmetric] by simp
    then have "dget (snd p) ''kind'' = JStr ''measured''" by (simp add: of_kind_def)
    then show "ran_as (snd p) (''measured'', n, fst p)" using p point [of "fst p" "snd p"] by (simp add: ran_as_def)
  qed
  ultimately show "list_all2 ran_as (filter (\<lambda>s. py_eq (dget s ''ordinal'') (JInt (int n))) (of_kind ''measured'' samples))
    (map (\<lambda>w. (''measured'', n, w)) (cyclic_order dense_worker_points n))"
    using check_rounds_sound(1) [OF assms(2) n] n by (simp only: meas cyclic_dense)
qed

lemma check_field_sound:
  assumes "check_field got w (k, x) = Inr []"
  shows "values_close (get_in (get_in got w) k) x = Inr True"
proof -
  obtain d inner there ok where i: "got = JObj d" "get_default d w (JObj []) = inner" "str_in k inner = Inr there" "ok"
    "(if there then ebind (map_err Unchecked (getitem inner k)) (\<lambda>y. values_close y x) else Inr False) = Inr ok"
    using assms by (auto simp: check_field_def ebind_Inr_iff attr_get_def getattr_get_Inr)
  then obtain y where y: "getitem inner k = Inr y" "values_close y x = Inr True"
    by (auto simp: ebind_Inr_iff split: if_splits)
  then obtain d' where "inner = JObj d'" "map_of d' k = Some y" by (auto simp: getitem_Inr)
  with i y show ?thesis by (cases "map_of d w") (auto simp: get_default_def dget_def)
qed

lemma get_in_attr:
  assumes "attr_or_empty v k = Inr w"
  shows "get_in w j = get_in (get_in v k) j"
proof -
  obtain d where "v = JObj d" "w = or_else (get_default d k JNull) (JObj [])"
    using assms by (auto simp: attr_or_empty_def attr_get_def ebind_Inr_iff getattr_get_Inr)
  moreover have "get_default d k JNull = dget d k" by (simp add: get_default_def dget_def)
  moreover have "get_in (or_else u (JObj [])) j = get_in u j" for u by (cases u) (auto simp: or_else_def)
  ultimately show ?thesis by simp
qed

lemma summary_sound:
  assumes "expected_summary placed = Inr calc" "check_summary e calc = Inr []" "\<And>n. n < 7 \<Longrightarrow> round_covered placed n"
  shows "summary_recomputed e placed"
  unfolding summary_recomputed_def
proof
  fix w
  assume w: "w \<in> set scaling_workers"
  have "emap (\<lambda>w. ebind (expected_fields placed w) (\<lambda>fs. Inr (show_int w, fs))) scaling_workers = Inr calc"
    using assms(1,3) by (simp add: expected_summary_def list_all_iff)
  then obtain fs where fs: "expected_fields placed w = Inr fs" "(show_int w, fs) \<in> set calc"
    using w list_all2_set1 [of _ scaling_workers calc w] by (fastforce simp: emap_Inr_iff ebind_Inr_iff)
  obtain summary got vss where g: "attr_or_empty e ''summary'' = Inr summary" "attr_or_empty summary ''per_worker'' = Inr got"
    "emap (check_worker_fields got) calc = Inr vss" "concat vss = []"
    using assms(2) by (auto simp: check_summary_def ebind_Inr_iff)
  have "check_worker_fields got (show_int w, fs) = Inr []" by (rule emap_Nils [OF g(3,4) fs(2)])
  then obtain vss' where c: "emap (check_field got (show_int w)) fs = Inr vss'" "concat vss' = []"
    by (auto simp: check_worker_fields_def ebind_Inr_iff)
  have "values_close (get_in (get_in got (show_int w)) k) x = Inr True" if "(k, x) \<in> set fs" for k x
    using check_field_sound emap_Nils [OF c that] by blast
  moreover have "get_in (get_in (get_in (get_in e ''summary'') ''per_worker'') (show_int w)) k = get_in (get_in got (show_int w)) k" for k
  proof -
    have "get_in got k = get_in (get_in (get_in e ''summary'') ''per_worker'') k" for k
      using get_in_attr [OF g(2)] get_in_attr [OF g(1)] by simp
    then show ?thesis by simp
  qed
  ultimately show "\<exists>fs. expected_fields placed w = Inr fs \<and> (\<forall>(k, x) \<in> set fs.
      values_close (get_in (get_in (get_in (get_in e ''summary'') ''per_worker'') (show_int w)) k) x = Inr True)"
    using fs(1) by auto
qed

section \<open>Properties\<close>

text \<open>
  C33. Retained scaling evidence that passes its verifier, as \<open>validate-evidence.py\<close> runs it, shows the
  campaign \<open>scale.py\<close> runs: 56 samples, each with all of its workers busy and joined and a throughput
  of rows over seconds, in the order of the campaign's cyclic rounds, and a summary whose medians are
  those of the samples.
\<close>

theorem scaling_evidence_sound:
  assumes "isOK (check_verifier_result (partition_report repo path))"
  shows "\<exists>m e samples placed. verified_parts repo path m e samples placed (replicate 11 []) \<and> length samples = 56 \<and>
    list_all sound_sample samples \<and> in_rounds samples \<and> summary_recomputed e placed"
proof -
  have "partition_verify repo path = Inr []" using assms part.accepted_iff by simp
  from partition_verify_Inr [OF this]
  obtain m e samples placed vss where v: "verified_parts repo path m e samples placed vss" "concat vss = []" by metis
  from v(1) obtain v0 v1 v2 v3 v4 v5 v6 v7 calc where c: "check_samples e = Inr (v6, samples)"
    "place_samples (of_kind ''measured'' samples) = Inr placed" "expected_summary placed = Inr calc" "check_summary e calc = Inr v7"
    and vs: "vss = [v0, v1, v2, v3, v4, v5, v6, check_warmups (of_kind ''warmup'' samples),
      checks [(length (of_kind ''measured'' samples) = 49, ''measured sample count'')], check_rounds placed, v7]"
    unfolding verified_parts_def by blast
  have len: "length vss = 11" unfolding vs by simp
  have Nil: "vs = []" if "vs \<in> set vss" for vs using v(2) that by simp
  then have vss: "vss = replicate 11 []" using len by (metis replicate_eqI)
  have one: "checks [(length (of_kind ''measured'' samples) = 49, ''measured sample count'')] = []"
    by (rule Nil) (simp add: vs del: checks_Nil_iff)
  have s: "v6 = []" "v7 = []" "check_warmups (of_kind ''warmup'' samples) = []" "check_rounds placed = []"
    by (rule Nil, simp add: vs)+
  have count: "length (of_kind ''measured'' samples) = 49" using one by (simp only: checks_single)
  show ?thesis
    using v(1) check_samples_sound [OF c(1) [unfolded s]] schedule_sound [OF c(2) s(4,3) count]
      summary_sound [OF c(3) c(4) [unfolded s] check_rounds_sound(2) [OF s(4)]]
    unfolding vss by blast
qed

theorem scaling_evidence_sound_witness:
  "\<exists>m e samples placed. verified_parts (toy_scaling (\<lambda>n. JInt 1024) (\<lambda>n. JInt 256) (JInt 1024) (JInt 256)) toy_path m e samples placed
       (replicate 11 []) \<and> length samples = 56 \<and>
    list_all sound_sample samples \<and> in_rounds samples \<and> summary_recomputed e placed"
  by (rule scaling_evidence_sound) (simp add: part.accepted_iff toy_scaling_accepted)

text \<open>The throughputs of a run whose rounds take 32768, 16384 and 8192 seconds, as strings.\<close>

definition toy_durations :: "nat \<Rightarrow> json" where
  "toy_durations n = JInt ([32768, 32768, 32768, 16384, 16384, 16384, 8192] ! n)"

definition toy_throughputs :: "nat \<Rightarrow> json" where
  "toy_throughputs n = JStr ([''8'', ''8'', ''8'', ''16'', ''16'', ''16'', ''32''] ! n)"

text \<open>
  The verifier does not require the throughput of a sample to be a number. Strings pass the check of
  every sample, but their median is taken in the order of strings: a published median of 32 rows per
  second is accepted where the median is 16.
\<close>

theorem string_throughput_accepted:
  "partition_verify (toy_scaling toy_durations toy_throughputs (JInt 16384) (JInt 32)) toy_path = Inr [] \<and>
   emap (\<lambda>n. float_value (toy_throughputs n)) [0..<7] = Inr (map Fin [8, 8, 8, 16, 16, 16, 32])"
proof
  show "partition_verify (toy_scaling toy_durations toy_throughputs (JInt 16384) (JInt 32)) toy_path = Inr []"
  proof (rule toy_verify)
    have "list_all (\<lambda>n. good_throughput (toy_durations n) (toy_throughputs n)) [0..<7]" by code_simp
    then show "good_throughput (toy_durations n) (toy_throughputs n)" if "n < 7" for n
      using that by (simp add: list_all_iff del: upt.simps upt_Suc)
    have "list_all (\<lambda>n. num_div (toy_durations n) (toy_durations n) = Inr (Fin 1)) [0..<7]" by code_simp
    then show "num_div (toy_durations n) (toy_durations n) = Inr (Fin 1)" if "n < 7" for n
      using that by (simp add: list_all_iff del: upt.simps upt_Suc)
    show "value_median (map toy_durations [0..<7]) = Inr (JInt 16384)" by code_simp
    show "value_median (map toy_throughputs [0..<7]) = Inr (JStr ''32'')" by code_simp
    show "values_close (JInt 16384) (JInt 16384) = Inr True" "values_close (JInt 32) (JStr ''32'') = Inr True" by code_simp+
  qed
  show "emap (\<lambda>n. float_value (toy_throughputs n)) [0..<7] = Inr (map Fin [8, 8, 8, 16, 16, 16, 32])" by code_simp
qed

end
