(* ===== verification/Settings_Contract.thy ===== *)
theory Settings_Contract
  imports Drift
begin

text \<open>
  Model of \<open>.github/scripts/test-repository-settings-policy.py\<close>, the contract the repository keeps for
  \<open>.github/repository-settings-policy.json\<close>, the document the hardening audit of \<open>Drift\<close> reads. Each
  test of the suite is a function of the decoded policy (and of \<open>SECURITY.md\<close>) that succeeds or ends
  with a failed assertion or an exception; the suite passes if every test does. The last theorem
  shows what the audit makes of a policy that passes.
\<close>

section \<open>Assertions\<close>

datatype (plugins only: code) contract_error = AssertionFailed string | NoSuchControl string | NoDocument string | ContractPy py_error

type_synonym contract = "contract_error + unit"

definition expect :: "bool \<Rightarrow> string \<Rightarrow> contract" where
  "expect b what = eguard b (AssertionFailed what)"

definition cpy :: "py_error + 'a \<Rightarrow> contract_error + 'a" where
  "cpy m = map_err ContractPy m"

text \<open>\<open>set(v)\<close> of decoded values, compared with a set of strings: \<open>set(v) == {...}\<close>.\<close>

definition json_set :: "json list \<Rightarrow> contract_error + json list" where
  "json_set vs = ebind (eguard (list_all hashable vs) (ContractPy TypeErr)) (\<lambda>_. Inr vs)"

definition strings_in :: "string list \<Rightarrow> json list \<Rightarrow> bool" where
  "strings_in ss vs \<longleftrightarrow> list_all (\<lambda>s. JStr s \<in> set vs) ss"

definition only_strings :: "json list \<Rightarrow> string list \<Rightarrow> bool" where
  "only_strings vs ss \<longleftrightarrow> list_all (\<lambda>v. \<exists>s \<in> set ss. v = JStr s) vs"

text \<open>\<open>assertIn(v, {...})\<close>: the value must be hashable.\<close>

definition expect_member :: "json \<Rightarrow> string list \<Rightarrow> contract" where
  "expect_member v ss =
     ebind (eguard (hashable v) (ContractPy TypeErr)) (\<lambda>_. expect (only_strings [v] ss) ''membership'')"

text \<open>\<open>assertIn(s, v)\<close> for a string \<open>s\<close>.\<close>

definition expect_in :: "string \<Rightarrow> json \<Rightarrow> contract" where
  "expect_in s v =
     (case v of
        JStr t \<Rightarrow> expect (contains s t) ''substring''
      | _ \<Rightarrow> ebind (cpy (iterate v)) (\<lambda>vs. expect (JStr s \<in> set vs) ''element''))"

text \<open>\<open>assertCountEqual(v, [...])\<close> with strings: the same elements, in any order.\<close>

definition expect_count :: "json \<Rightarrow> string list \<Rightarrow> contract" where
  "expect_count v ss =
     ebind (cpy (iterate v)) (\<lambda>vs. expect (list_all is_str vs \<and> sort (strings_of vs) = sort ss) ''same elements'')"

section \<open>Controls\<close>

definition classifications :: "string list" where
  "classifications = [''required'', ''conditional'', ''advisory/hygiene'']"

definition readbacks :: "string list" where
  "readbacks = [''repository-api'', ''ruleset-api'', ''manual-readback'']"

definition critical_controls :: "string list" where
  "critical_controls =
     [''actions.default_workflow_permissions'', ''actions.can_approve_pull_request_reviews'',
      ''actions.fork_pull_request_policy'', ''actions.event_policy.label_automation'',
      ''actions.event_policy.retired_failure_triage'', ''security.dependency_graph'',
      ''security.dependabot_alerts'', ''security.dependabot_security_updates'',
      ''security.secret_scanning'', ''security.secret_scanning_push_protection'',
      ''security.private_vulnerability_reporting'']"

definition low_privilege_controls :: "string list" where
  "low_privilege_controls =
     [''repository.allow_squash_merge'', ''repository.allow_merge_commit'', ''repository.allow_rebase_merge'',
      ''repository.delete_branch_on_merge'', ''repository.allow_update_branch'',
      ''repository.squash_merge_commit_title'', ''repository.squash_merge_commit_message'']"

text \<open>\<open>self.policy["controls"]\<close> as a loop sees it, and the values of one key.\<close>

definition controls_of :: "json \<Rightarrow> contract_error + json list" where
  "controls_of policy = cpy (policy_controls policy)"

definition values_of :: "string \<Rightarrow> json list \<Rightarrow> contract_error + json list" where
  "values_of k cs = emap (\<lambda>c. cpy (getitem c k)) cs"

text \<open>\<open>next(c for c in controls if c["id"] == name)\<close>: the entries behind the first match are not looked at.\<close>

fun first_control :: "string \<Rightarrow> json list \<Rightarrow> contract_error + json" where
  "first_control name [] = Inl (NoSuchControl name)"
| "first_control name (c # cs) =
     ebind (cpy (getitem c ''id'')) (\<lambda>v. if v = JStr name then Inr c else first_control name cs)"

definition control_named :: "json \<Rightarrow> string \<Rightarrow> contract_error + json" where
  "control_named policy name = ebind (controls_of policy) (first_control name)"

text \<open>\<open>{c["id"]: c for c in controls}[name]\<close>: the last entry of an id.\<close>

definition control_map :: "json \<Rightarrow> contract_error + (json \<times> json) list" where
  "control_map policy =
     ebind (controls_of policy) (\<lambda>cs.
     ebind (values_of ''id'' cs) (\<lambda>ids.
     ebind (json_set ids) (\<lambda>_. Inr (rev (zip ids cs)))))"

definition mapped_control :: "(json \<times> json) list \<Rightarrow> string \<Rightarrow> contract_error + json" where
  "mapped_control m name = want_some (map_of m (JStr name)) (ContractPy (KeyErr name))"

text \<open>\<open>assertEqual(control[k], v)\<close>, and \<open>control.get("rationale", "")\<close>.\<close>

definition expect_field :: "json \<Rightarrow> string \<Rightarrow> json \<Rightarrow> contract" where
  "expect_field control k v = ebind (cpy (getitem control k)) (\<lambda>w. expect (py_eq w v) k)"

definition rationale_of :: "json \<Rightarrow> contract_error + json" where
  "rationale_of control = cpy (getattr_get control ''rationale'' (JStr []))"

definition expect_rationale :: "json \<Rightarrow> string list \<Rightarrow> contract" where
  "expect_rationale control ss =
     ebind (rationale_of control) (\<lambda>r. ebind (emap (\<lambda>s. expect_in s r) ss) (\<lambda>_. Inr ()))"

text \<open>The controls with a readback: \<open>[c for c in controls if c["readback"] == r]\<close>.\<close>

definition controls_read_by :: "string \<Rightarrow> json list \<Rightarrow> contract_error + json list" where
  "controls_read_by r cs =
     ebind (emap (\<lambda>c. ebind (cpy (getitem c ''readback'')) (\<lambda>v. Inr (c, v = JStr r))) cs) (\<lambda>rows.
       Inr (map fst (filter snd rows)))"

section \<open>The tests\<close>

definition test_top_level_shape :: "json \<Rightarrow> contract" where
  "test_top_level_shape policy =
     ebind (cpy (iterate policy)) (\<lambda>vs.
     ebind (json_set vs) (\<lambda>ks.
     ebind (expect (strings_in [''schema_version'', ''repository'', ''ruleset_id'', ''controls''] ks \<and>
        only_strings ks [''schema_version'', ''repository'', ''ruleset_id'', ''controls'']) ''top level keys'') (\<lambda>_.
     ebind (expect_field policy ''schema_version'' (JInt 1)) (\<lambda>_.
     ebind (expect_field policy ''repository'' (JStr ''luceat-lux-vestra/oxide-batch-workloads'')) (\<lambda>_.
     ebind (cpy (getitem policy ''ruleset_id'')) (\<lambda>rid.
       expect (is_int rid \<and> truthy rid \<and> (case rid of JInt n \<Rightarrow> 0 < n | _ \<Rightarrow> True)) ''ruleset id''))))))"

definition check_metadata :: "json \<Rightarrow> contract_error + json" where
  "check_metadata control =
     ebind (want_obj control (AssertionFailed ''a control is an object'')) (\<lambda>d.
     ebind (expect (list_all (has_key d) [''id'', ''classification'', ''readback'', ''expected''] \<and>
        list_all (\<lambda>(k, v). k \<in> {''id'', ''classification'', ''readback'', ''expected'', ''rationale''}) d) ''control keys'') (\<lambda>_.
     ebind (want_str (dget d ''id'') (AssertionFailed ''an id is a string'')) (\<lambda>i.
     ebind (expect (i \<noteq> []) ''an id is not empty'') (\<lambda>_.
     ebind (expect_member (dget d ''classification'') classifications) (\<lambda>_.
     ebind (expect_member (dget d ''readback'') readbacks) (\<lambda>_.
     ebind (if has_key d ''rationale''
            then ebind (want_str (dget d ''rationale'') (AssertionFailed ''a rationale is a string'')) (\<lambda>r.
              expect (\<not> blank r) ''a rationale is not blank'')
            else Inr ()) (\<lambda>_. Inr (JStr i))))))))"

definition test_controls_metadata :: "json \<Rightarrow> contract" where
  "test_controls_metadata policy =
     ebind (cpy (getitem policy ''controls'')) (\<lambda>v.
     ebind (want_arr v (AssertionFailed ''controls are a list'')) (\<lambda>cs.
     ebind (expect (cs \<noteq> []) ''controls are not empty'') (\<lambda>_.
     ebind (emap check_metadata cs) (\<lambda>ids. expect (distinct ids) ''ids are unique''))))"

definition test_manual_explicit :: "json \<Rightarrow> contract" where
  "test_manual_explicit policy =
     ebind (controls_of policy) (\<lambda>cs.
     ebind (controls_read_by ''manual-readback'' cs) (\<lambda>manual.
     ebind (expect (manual \<noteq> []) ''manual controls'') (\<lambda>_.
     ebind (emap (\<lambda>c. ebind (cpy (getitem c ''classification'')) (\<lambda>v. expect_member v classifications)) manual) (\<lambda>_. Inr ()))))"

definition test_low_privilege_manual :: "json \<Rightarrow> contract" where
  "test_low_privilege_manual policy =
     ebind (control_map policy) (\<lambda>m.
     ebind (emap (\<lambda>name.
        ebind (mapped_control m name) (\<lambda>c.
        ebind (expect_field c ''readback'' (JStr ''manual-readback'')) (\<lambda>_.
          expect_rationale c [''33726136040'']))) low_privilege_controls) (\<lambda>_. Inr ()))"

definition test_repository_api_safe :: "json \<Rightarrow> contract" where
  "test_repository_api_safe policy =
     ebind (controls_of policy) (\<lambda>cs.
     ebind (controls_read_by ''repository-api'' cs) (\<lambda>automated.
     ebind (values_of ''id'' automated) (\<lambda>vs.
     ebind (json_set vs) (\<lambda>ids.
     ebind (expect (list_all (\<lambda>s. JStr s \<notin> set ids) low_privilege_controls) ''low-privilege reads'') (\<lambda>_.
       expect (strings_in [''repository.visibility'', ''repository.default_branch'', ''repository.web_commit_signoff_required''] ids)
         ''automated reads'')))))"

definition test_required_contexts :: "json \<Rightarrow> contract" where
  "test_required_contexts policy =
     ebind (control_named policy ''ruleset.required_status_contexts'') (\<lambda>c.
     ebind (cpy (getitem c ''expected'')) (\<lambda>v. expect_count v [''Merge Gate'']))"

definition expect_truth :: "json \<Rightarrow> bool \<Rightarrow> contract" where
  "expect_truth control b = ebind (cpy (getitem control ''expected'')) (\<lambda>v. expect (truthy v = b) ''expected'')"

definition test_zero_approval :: "json \<Rightarrow> contract" where
  "test_zero_approval policy =
     ebind (control_named policy ''ruleset.required_approving_review_count'') (\<lambda>approvals.
     ebind (control_named policy ''ruleset.require_extra_approval_for_unattributed_changes'') (\<lambda>unattributed.
     ebind (expect_field approvals ''expected'' (JInt 0)) (\<lambda>_.
     ebind (expect_field approvals ''classification'' (JStr ''conditional'')) (\<lambda>_.
     ebind (expect_truth unattributed False) (\<lambda>_.
       expect_field unattributed ''classification'' (JStr ''conditional''))))))"

definition test_signed_commits :: "json \<Rightarrow> contract" where
  "test_signed_commits policy =
     ebind (control_named policy ''security.signed_commits'') (\<lambda>c.
     ebind (expect_field c ''classification'' (JStr ''conditional'')) (\<lambda>_.
     ebind (expect_truth c False) (\<lambda>_. expect_field c ''readback'' (JStr ''ruleset-api''))))"

definition test_critical_present :: "json \<Rightarrow> contract" where
  "test_critical_present policy =
     ebind (controls_of policy) (\<lambda>cs.
     ebind (values_of ''id'' cs) (\<lambda>vs.
     ebind (json_set vs) (\<lambda>ids. expect (strings_in critical_controls ids) ''critical controls'')))"

definition expect_event_policy :: "(json \<times> json) list \<Rightarrow> string \<Rightarrow> json \<Rightarrow> string list \<Rightarrow> contract" where
  "expect_event_policy m name expected texts =
     ebind (mapped_control m name) (\<lambda>c.
     ebind (expect_field c ''readback'' (JStr ''manual-readback'')) (\<lambda>_.
     ebind (expect_field c ''classification'' (JStr ''required'')) (\<lambda>_.
     ebind (expect_field c ''expected'' expected) (\<lambda>_. expect_rationale c texts))))"

definition test_event_policies :: "json \<Rightarrow> contract" where
  "test_event_policies policy =
     ebind (control_map policy) (\<lambda>m.
     ebind (expect_event_policy m ''actions.event_policy.label_automation''
        (JObj [(''policy_id'', JInt 5161), (''enforcement'', JStr ''active''),
               (''workflow_path'', JStr ''.github/workflows/label-automation.yml''),
               (''allowed_events'', JArr [JStr ''issues'', JStr ''pull_request_target'', JStr ''workflow_dispatch''])])
        [''#126'', ''Administration: write'']) (\<lambda>_.
       expect_event_policy m ''actions.event_policy.retired_failure_triage''
         (JObj [(''policy_id'', JInt 5160), (''state'', JStr ''absent'')]) [''#147'', ''must be absent'']))"

definition test_codeql_evidence :: "json \<Rightarrow> contract" where
  "test_codeql_evidence policy =
     ebind (control_named policy ''security.code_scanning'') (\<lambda>c.
     ebind (expect_truth c True) (\<lambda>_.
       expect_rationale c [''code-scanning/default-setup'', ''configured'']))"

definition test_codeql_languages :: "json \<Rightarrow> contract" where
  "test_codeql_languages policy =
     ebind (control_named policy ''security.code_scanning_languages'') (\<lambda>c.
     ebind (expect_field c ''readback'' (JStr ''manual-readback'')) (\<lambda>_.
     ebind (expect_field c ''classification'' (JStr ''conditional'')) (\<lambda>_.
     ebind (cpy (getitem c ''expected'')) (\<lambda>v.
     ebind (expect_count v [''actions'', ''python'', ''java-kotlin'', ''rust'']) (\<lambda>_.
       expect_rationale c
         [''Desired live default-setup coverage'', ''5/5 Java files'',
          ''Hardening Reassessment #104/#123 later closed the Rust residual'', ''Analyze (rust)'', ''manual-readback control''])))))"

definition test_private_reporting :: "json \<Rightarrow> string option \<Rightarrow> contract" where
  "test_private_reporting policy security_md =
     ebind (control_named policy ''security.private_vulnerability_reporting'') (\<lambda>c.
     ebind (want_some security_md (NoDocument ''SECURITY.md'')) (\<lambda>text.
     ebind (cpy (getitem c ''expected'')) (\<lambda>v.
       if v = JBool True then
         expect (contains ''Private Vulnerability Reporting'' text \<and> \<not> contains ''when it is enabled'' (lower text)) ''SECURITY.md''
       else Inr ())))"

section \<open>The suite\<close>

definition contract_tests :: "json \<Rightarrow> string option \<Rightarrow> (string \<times> contract) list" where
  "contract_tests policy security_md =
     [(''top_level_shape'', test_top_level_shape policy),
      (''controls_metadata'', test_controls_metadata policy),
      (''manual_explicit'', test_manual_explicit policy),
      (''low_privilege_manual'', test_low_privilege_manual policy),
      (''repository_api_safe'', test_repository_api_safe policy),
      (''required_contexts'', test_required_contexts policy),
      (''zero_approval'', test_zero_approval policy),
      (''signed_commits'', test_signed_commits policy),
      (''critical_present'', test_critical_present policy),
      (''event_policies'', test_event_policies policy),
      (''codeql_evidence'', test_codeql_evidence policy),
      (''codeql_languages'', test_codeql_languages policy),
      (''private_reporting'', test_private_reporting policy security_md)]"

text \<open>The names of the tests that do not pass; a policy that cannot be read fails the set-up of the class.\<close>

definition settings_policy :: "node \<Rightarrow> json option" where
  "settings_policy repo = Option.bind (get_file repo [''.github'', ''repository-settings-policy.json'']) json_doc"

definition contract_failures :: "node \<Rightarrow> string list" where
  "contract_failures repo =
     (case settings_policy repo of
        None \<Rightarrow> [''setUpClass'']
      | Some policy \<Rightarrow>
          map fst (filter (\<lambda>(name, r). \<not> isOK r) (contract_tests policy (map_option raw (get_file repo [''SECURITY.md''])))))"

section \<open>What a passing policy gives the audit\<close>

definition control_id :: "json \<Rightarrow> json" where
  "control_id c = get_in c ''id''"

definition is_manual :: "json \<Rightarrow> bool" where
  "is_manual c \<longleftrightarrow> get_in c ''readback'' = JStr ''manual-readback''"

definition control_row :: "json \<Rightarrow> json" where
  "control_row c = JObj [(''id'', control_id c), (''classification'', get_in c ''classification''), (''expected'', get_in c ''expected'')]"

lemma control_row_id [simp]: "control_id (control_row c) = control_id c"
  by (simp add: control_row_def control_id_def)

text \<open>The fields every control of a passing policy has.\<close>

definition proper_control :: "json \<Rightarrow> bool" where
  "proper_control c \<longleftrightarrow>
     (\<forall>k \<in> {''id'', ''classification'', ''readback'', ''expected''}. getitem c k = Inr (get_in c k)) \<and>
     (\<exists>s. control_id c = JStr s \<and> s \<noteq> [])"

lemma map_of_has_key: "has_key d k \<Longrightarrow> map_of d k = Some (dget d k)"
  by (cases "map_of d k") (auto simp: has_key_def dget_def)

lemma check_metadata_Inr:
  assumes "check_metadata c = Inr i"
  shows "proper_control c \<and> i = control_id c"
proof -
  obtain d s where "c = JObj d" "list_all (has_key d) [''id'', ''classification'', ''readback'', ''expected'']"
    "dget d ''id'' = JStr s" "s \<noteq> []" "i = JStr s"
    using assms by (auto simp: check_metadata_def monad_simps expect_def)
  then show ?thesis by (simp add: proper_control_def control_id_def map_of_has_key)
qed

lemma test_controls_metadata_Inr:
  assumes "test_controls_metadata policy = Inr u"
  shows "\<exists>cs. policy_controls policy = Inr cs \<and> (\<forall>c \<in> set cs. proper_control c) \<and> distinct (map control_id cs)"
proof -
  obtain cs ids where c: "getitem policy ''controls'' = Inr (JArr cs)" "emap check_metadata cs = Inr ids" "distinct ids"
    using assms by (auto simp: test_controls_metadata_def cpy_def expect_def monad_simps)
  from c(2) have "list_all2 (\<lambda>c i. check_metadata c = Inr i) cs ids" by (simp add: emap_Inr_iff)
  then have "\<forall>c \<in> set cs. proper_control c" "ids = map control_id cs"
    by (induction rule: list_all2_induct) (auto dest: check_metadata_Inr)
  with c show ?thesis by (auto simp: policy_controls_def)
qed

lemma manual_row_proper: "proper_control c \<Longrightarrow> manual_row c = Inr (control_row c)"
  by (simp add: proper_control_def manual_row_def control_row_def control_id_def)

lemma manual_controls_proper:
  assumes "policy_controls policy = Inr cs" "\<forall>c \<in> set cs. proper_control c"
  shows "manual_controls policy = Inr (map control_row (filter is_manual cs))"
proof -
  have "emap (\<lambda>c. ebind (getitem c ''readback'') (\<lambda>r. Inr (c, r = JStr ''manual-readback''))) cs = Inr (map (\<lambda>c. (c, is_manual c)) cs)"
    using assms(2) by (intro emap_pure) (simp add: proper_control_def is_manual_def)
  moreover have "filter snd (map (\<lambda>c. (c, is_manual c)) cs) = map (\<lambda>c. (c, is_manual c)) (filter is_manual cs)"
    by (simp add: filter_map o_def)
  moreover have "emap (manual_row \<circ> fst) (map (\<lambda>c. (c, is_manual c)) xs) = Inr (map control_row xs)"
    if "\<forall>c \<in> set xs. proper_control c" for xs
    using that by (induction xs) (simp_all add: manual_row_proper)
  ultimately show ?thesis using assms by (simp add: manual_controls_def)
qed

lemma check_control_manual:
  assumes "check_control client repository ruleset c = Inr (fs, rows)" "proper_control c"
  shows "rows = (if is_manual c then [control_row c] else []) \<and>
    (\<forall>f \<in> set fs. \<not> is_manual c \<and> f_control f = control_id c)"
proof -
  have g: "getitem c ''id'' = Inr (control_id c)" "getitem c ''readback'' = Inr (get_in c ''readback'')"
    using assms(2) by (auto simp: proper_control_def control_id_def)
  show ?thesis
  proof (cases "is_manual c")
    case True
    then have "check_control client repository ruleset c = Inr ([], [control_row c])"
      using g assms(2) by (simp add: check_control_def dpy_def is_manual_def manual_row_proper)
    with True assms(1) show ?thesis by simp
  next
    case False
    then have "rows = []" "\<exists>a e same. fs = (if same then [] else [mk_finding (control_id c) (ExpectedLive e a)])"
      using assms(1) g unfolding check_control_def dpy_def is_manual_def Let_def
      by (simp_all only: map_err_simps ebind_simps if_False ebind_Inr_iff sum.inject prod.inject) blast+
    with False show ?thesis by (auto simp: mk_finding_def split: if_splits)
  qed
qed

lemma live_checks_manual:
  assumes "policy_controls policy = Inr cs" "\<forall>c \<in> set cs. proper_control c"
    "run_live_policy_checks client policy = Inr (fs, rows)"
  shows "rows = map control_row (filter is_manual cs) \<and> (\<forall>f \<in> set fs. \<exists>c \<in> set cs. \<not> is_manual c \<and> f_control f = control_id c)"
proof -
  obtain repository ruleset rs where e: "emap (check_control client repository ruleset) cs = Inr rs"
    "fs = concat (map fst rs)" "rows = concat (map snd rs)"
    using assms(1,3) by (auto simp: run_live_policy_checks_def dpy_def monad_simps)
  from e(1) have "list_all2 (\<lambda>c r. check_control client repository ruleset c = Inr r) cs rs" by (simp add: emap_Inr_iff)
  then have "concat (map snd rs) = map control_row (filter is_manual cs) \<and>
      (\<forall>f \<in> set (concat (map fst rs)). \<exists>c \<in> set cs. \<not> is_manual c \<and> f_control f = control_id c)"
    using assms(2)
  proof (induction rule: list_all2_induct)
    case Nil
    then show ?case by simp
  next
    case (Cons c cs r rs)
    obtain gs ms where r: "r = (gs, ms)" by fastforce
    then have "check_control client repository ruleset c = Inr (gs, ms)" "proper_control c" using Cons by simp_all
    from check_control_manual [OF this] Cons r show ?case by auto
  qed
  with e show ?thesis by simp
qed

lemma contract_test: "contract_failures repo = [] \<Longrightarrow>
    \<exists>policy. settings_policy repo = Some policy \<and>
      (\<forall>(name, r) \<in> set (contract_tests policy (map_option raw (get_file repo [''SECURITY.md'']))). isOK r)"
  by (auto simp: contract_failures_def filter_empty_conv split: option.splits)

lemma values_of_proper: "\<forall>c \<in> set cs. proper_control c \<Longrightarrow> values_of ''id'' cs = Inr (map control_id cs)"
  by (simp add: values_of_def cpy_def emap_pure proper_control_def control_id_def)

lemma critical_present:
  assumes "test_critical_present policy = Inr u" "policy_controls policy = Inr cs" "\<forall>c \<in> set cs. proper_control c" "name \<in> set critical_controls"
  shows "JStr name \<in> control_id ` set cs"
  using assms by (auto simp: test_critical_present_def controls_of_def cpy_def values_of_proper json_set_def expect_def
    strings_in_def list_all_iff monad_simps)

lemma low_privilege_manual:
  assumes "test_low_privilege_manual policy = Inr u" "policy_controls policy = Inr cs" "\<forall>c \<in> set cs. proper_control c"
    "name \<in> set low_privilege_controls"
  shows "\<exists>c \<in> set cs. is_manual c \<and> control_id c = JStr name"
proof -
  have "\<exists>c. map_of (rev (zip (map control_id cs) cs)) (JStr name) = Some c \<and> getitem c ''readback'' = Inr (JStr ''manual-readback'')"
    using assms by (auto simp: test_low_privilege_manual_def control_map_def controls_of_def cpy_def values_of_proper json_set_def
      mapped_control_def expect_field_def expect_def monad_simps list_all2_conv_all_nth in_set_conv_nth)
  then obtain c where c: "(JStr name, c) \<in> set (zip (map control_id cs) cs)" "getitem c ''readback'' = Inr (JStr ''manual-readback'')"
    by (auto dest: map_of_SomeD)
  then have "c \<in> set cs" "control_id c = JStr name" by (auto simp: set_zip)
  with c(2) assms(3) show ?thesis by (auto simp: proper_control_def is_manual_def)
qed

section \<open>A policy that passes\<close>

definition plain_control :: "string \<Rightarrow> string \<Rightarrow> string \<Rightarrow> json \<Rightarrow> json" where
  "plain_control i c r v = JObj [(''id'', JStr i), (''classification'', JStr c), (''readback'', JStr r), (''expected'', v)]"

definition reasoned_control :: "string \<Rightarrow> string \<Rightarrow> string \<Rightarrow> json \<Rightarrow> string \<Rightarrow> json" where
  "reasoned_control i c r v why =
     JObj [(''id'', JStr i), (''classification'', JStr c), (''readback'', JStr r), (''expected'', v), (''rationale'', JStr why)]"

definition sample_controls :: "json list" where
  "sample_controls =
     [plain_control ''repository.visibility'' ''required'' ''repository-api'' (JStr ''public''),
      plain_control ''repository.default_branch'' ''required'' ''repository-api'' (JStr ''main''),
      plain_control ''repository.web_commit_signoff_required'' ''conditional'' ''repository-api'' (JBool False)] @
     map (\<lambda>i. reasoned_control i ''required'' ''manual-readback'' (JBool True) ''omitted from low-privilege reads, run 33726136040'')
       low_privilege_controls @
     [plain_control ''ruleset.required_status_contexts'' ''required'' ''ruleset-api'' (JArr [JStr ''Merge Gate'']),
      plain_control ''ruleset.required_approving_review_count'' ''conditional'' ''ruleset-api'' (JInt 0),
      plain_control ''ruleset.require_extra_approval_for_unattributed_changes'' ''conditional'' ''ruleset-api'' (JBool False),
      plain_control ''security.signed_commits'' ''conditional'' ''ruleset-api'' (JBool False),
      plain_control ''actions.default_workflow_permissions'' ''required'' ''manual-readback'' (JStr ''read''),
      plain_control ''actions.can_approve_pull_request_reviews'' ''required'' ''manual-readback'' (JBool False),
      plain_control ''actions.fork_pull_request_policy'' ''required'' ''manual-readback'' (JStr ''read-only''),
      reasoned_control ''actions.event_policy.label_automation'' ''required'' ''manual-readback''
        (JObj [(''policy_id'', JInt 5161), (''enforcement'', JStr ''active''),
               (''workflow_path'', JStr ''.github/workflows/label-automation.yml''),
               (''allowed_events'', JArr [JStr ''issues'', JStr ''pull_request_target'', JStr ''workflow_dispatch''])])
        ''#126: needs Administration: write'',
      reasoned_control ''actions.event_policy.retired_failure_triage'' ''required'' ''manual-readback''
        (JObj [(''policy_id'', JInt 5160), (''state'', JStr ''absent'')]) ''#147: must be absent'',
      plain_control ''security.dependency_graph'' ''required'' ''repository-api'' (JBool True),
      plain_control ''security.dependabot_alerts'' ''required'' ''manual-readback'' (JBool True),
      plain_control ''security.dependabot_security_updates'' ''required'' ''manual-readback'' (JBool True),
      plain_control ''security.secret_scanning'' ''required'' ''manual-readback'' (JBool True),
      plain_control ''security.secret_scanning_push_protection'' ''required'' ''manual-readback'' (JBool True),
      plain_control ''security.private_vulnerability_reporting'' ''required'' ''repository-api'' (JBool True),
      reasoned_control ''security.code_scanning'' ''conditional'' ''manual-readback'' (JBool True)
        ''code-scanning/default-setup is configured'',
      reasoned_control ''security.code_scanning_languages'' ''conditional'' ''manual-readback''
        (JArr [JStr ''actions'', JStr ''python'', JStr ''java-kotlin'', JStr ''rust''])
        ''Desired live default-setup coverage; 5/5 Java files; Hardening Reassessment #104/#123 later closed the Rust residual; Analyze (rust); a manual-readback control'']"

definition sample_settings :: json where
  "sample_settings =
     JObj [(''schema_version'', JInt 1), (''repository'', JStr ''luceat-lux-vestra/oxide-batch-workloads''), (''ruleset_id'', JInt 1),
           (''controls'', JArr sample_controls)]"

definition sample_security_md :: string where
  "sample_security_md = ''Use Private Vulnerability Reporting.''"

definition sample_settings_repo :: node where
  "sample_settings_repo =
     NDir [(''.github'', NDir [(''repository-settings-policy.json'', NFile (json_file sample_settings))]),
           (''SECURITY.md'', NFile (text_file sample_security_md))]"

lemma sample_contract: "list_all (\<lambda>(name, r). isOK r) (contract_tests sample_settings (Some sample_security_md))"
  by code_simp

lemma sample_contract_passes: "contract_failures sample_settings_repo = []"
proof -
  have "settings_policy sample_settings_repo = Some sample_settings"
    "get_file sample_settings_repo [''SECURITY.md''] = Some (text_file sample_security_md)" "raw (text_file sample_security_md) = sample_security_md"
    by (simp_all add: settings_policy_def sample_settings_repo_def json_file_def text_file_def)
  with sample_contract show ?thesis by (auto simp: contract_failures_def list_all_iff filter_empty_conv)
qed

text \<open>
  C39. What the hardening audit makes of a policy that passes its contract: the ids are unique and include
  every acceptance-critical one; whatever the service answers and whether or not the readback
  succeeds, an audit that ends with a result lists exactly the manual controls, each once and in
  order, among them all settings a low-privilege token cannot read; and a live finding is always
  about a control that is read back automatically.
\<close>

theorem settings_contract_audited:
  assumes "contract_failures repo = []"
  shows "\<exists>policy cs. settings_policy repo = Some policy \<and> policy_controls policy = Inr cs \<and> distinct (map control_id cs) \<and>
    set (map JStr critical_controls) \<subseteq> control_id ` set cs \<and>
    set (map JStr low_privilege_controls) \<subseteq> control_id ` set (filter is_manual cs) \<and>
    (\<forall>env a. env_repo env = repo \<longrightarrow> run_audit env = Inr a \<longrightarrow> da_manual a = map control_row (filter is_manual cs)) \<and>
    (\<forall>client fs rows. run_live_policy_checks client policy = Inr (fs, rows) \<longrightarrow>
       f_control ` set fs \<subseteq> control_id ` set (filter (\<lambda>c. \<not> is_manual c) cs))"
proof -
  obtain policy where p: "settings_policy repo = Some policy"
    "\<forall>(name, r) \<in> set (contract_tests policy (map_option raw (get_file repo [''SECURITY.md'']))). isOK r"
    using contract_test [OF assms] by blast
  then have tests: "isOK (test_controls_metadata policy)" "isOK (test_critical_present policy)" "isOK (test_low_privilege_manual policy)"
    by (simp_all add: contract_tests_def)
  then obtain cs where cs: "policy_controls policy = Inr cs" "\<forall>c \<in> set cs. proper_control c" "distinct (map control_id cs)"
    using test_controls_metadata_Inr by (metis isOK_iff)
  have live: "rows = map control_row (filter is_manual cs) \<and> (\<forall>f \<in> set fs. \<exists>c \<in> set cs. \<not> is_manual c \<and> f_control f = control_id c)"
    if "run_live_policy_checks client policy = Inr (fs, rows)" for client fs rows
    using live_checks_manual [OF cs(1,2) that] .
  have audit: "da_manual a = map control_row (filter is_manual cs)" if run: "env_repo env = repo" "run_audit env = Inr a" for env a
  proof -
    obtain f q found manual where f: "get_file repo [''.github'', ''repository-settings-policy.json''] = Some f" "json_doc f = Some q"
      "manual_controls q = Inr manual" "conclude env q manual found = Inr a"
      using run by (auto simp: run_audit_def dpy_def monad_simps)
    then have "q = policy" using p(1) by (simp add: settings_policy_def)
    with f manual_controls_proper [OF cs(1,2)] have c: "conclude env policy (map control_row (filter is_manual cs)) found = Inr a" by simp
    show ?thesis
    proof (cases "run_live_policy_checks (env_service env) policy")
      case (Inl e)
      with c show ?thesis by (auto simp: conclude_def live_checks_def drift_result_def split: prod.splits if_splits)
    next
      case (Inr r)
      with live [of "env_service env" "fst r" "snd r"] have "snd r = map control_row (filter is_manual cs)" by simp
      with Inr c show ?thesis
        by (cases r) (auto simp: conclude_def live_checks_def drift_result_def split: prod.splits if_splits sum.splits)
    qed
  qed
  have "JStr name \<in> control_id ` set cs" if "name \<in> set critical_controls" for name
    using critical_present [OF _ cs(1,2) that] tests(2) by (metis isOK_iff)
  moreover have "\<exists>c \<in> set cs. is_manual c \<and> control_id c = JStr name" if "name \<in> set low_privilege_controls" for name
    using low_privilege_manual [OF _ cs(1,2) that] tests(3) by (metis isOK_iff)
  ultimately show ?thesis
    using p(1) cs audit live by (intro exI [of _ policy] exI [of _ cs]) (auto simp: image_iff Bex_def, metis+)
qed

theorem settings_contract_audited_witness:
  "\<exists>policy cs. settings_policy sample_settings_repo = Some policy \<and> policy_controls policy = Inr cs \<and> distinct (map control_id cs) \<and>
    set (map JStr critical_controls) \<subseteq> control_id ` set cs"
  using settings_contract_audited [OF sample_contract_passes] by blast

end
