(* ===== verification/Cache_Guards.thy ===== *)
theory Cache_Guards
  imports Release_Policy
begin

text \<open>
  Model of \<open>.github/scripts/test-cache-producer-guards.py\<close>, the contract of the compiler caches that
  protected-main workflows write: a producer runs for a push to main that changes a dependency input
  and for nothing else, and the consumers only read. The regular expressions are scanners over the
  text; a failed assertion names the workflow it is about.
\<close>

datatype (plugins only: code) guard_error = Unreadable string | PathsMissing string | NoManualRun string | WrongPaths string | RunsForPulls string
  | NotSelected string string | WronglySelected string string | MissingText string string | ForbiddenText string string

section \<open>The inputs of a producer\<close>

definition producers :: "string list" where
  "producers = [''sccache-main-producer.yml'', ''sccache-final-main-producer.yml'']"

definition common_paths :: "string list" where
  "common_paths =
     [''csv-postgres/Cargo.toml'', ''csv-postgres/Cargo.lock'', ''csv-postgres/.cargo/**'', ''csv-postgres/rust-toolchain'',
      ''csv-postgres/rust-toolchain.toml'', ''.cargo/**'', ''rust-toolchain'', ''rust-toolchain.toml'']"

definition expected_paths :: "string \<Rightarrow> string list" where
  "expected_paths workflow =
     common_paths @
     (if workflow = ''sccache-main-producer.yml'' then [''.github/workflows/sccache-main-producer.yml'']
      else [''.github/workflows/sccache-final-main-producer.yml'', ''csv-postgres/ci/validate''])"

section \<open>Scanning\<close>

text \<open>\<open>text.split(sep, 1)[0]\<close>.\<close>

fun before_text :: "string \<Rightarrow> string \<Rightarrow> string" where
  "before_text sep [] = []"
| "before_text sep (c # s) = (if startswith (c # s) sep then [] else c # before_text sep s)"

text \<open>\<open>(?:    #[^\n]*\n)*\<close>: the text behind the comment lines at its start.\<close>

definition comment_line :: "string \<Rightarrow> string option" where
  "comment_line s =
     (if startswith s ''    #'' then
        (case dropWhile (\<lambda>c. c \<noteq> line_feed) s of [] \<Rightarrow> None | _ # r \<Rightarrow> Some r)
      else None)"

lemma comment_line_shorter: "comment_line s = Some r \<Longrightarrow> length r < length s"
proof -
  assume "comment_line s = Some r"
  then have "Suc (length r) = length (dropWhile (\<lambda>c. c \<noteq> line_feed) s)"
    by (auto simp: comment_line_def split: if_splits list.splits)
  then show ?thesis using length_dropWhile_le [of "\<lambda>c. c \<noteq> line_feed" s] by linarith
qed

function skip_comments :: "string \<Rightarrow> string" where
  "skip_comments s = (case comment_line s of None \<Rightarrow> s | Some r \<Rightarrow> skip_comments r)"
  by pat_completeness auto
termination by (relation "measure length") (auto dest: comment_line_shorter)

declare skip_comments.simps [simp del]

text \<open>\<open>      - '([^']+)'\n\<close>: the path of an item and the text behind its line.\<close>

definition path_item :: "string \<Rightarrow> (string \<times> string) option" where
  "path_item s =
     (let open_item = ''      - '' @ [quote_char] in
      if startswith s open_item then
        (let r = drop (length open_item) s; path = takeWhile (\<lambda>c. c \<noteq> quote_char) r
         in case dropWhile (\<lambda>c. c \<noteq> quote_char) r of
              _ # c # t \<Rightarrow> if path \<noteq> [] \<and> c = line_feed then Some (path, t) else None
            | _ \<Rightarrow> None)
      else None)"

lemma path_item_shorter: "path_item s = Some (path, r) \<Longrightarrow> length r < length s"
proof -
  assume "path_item s = Some (path, r)"
  then obtain c d t where t: "dropWhile (\<lambda>c. c \<noteq> quote_char) (drop 9 s) = c # d # t" "r = t"
    by (auto simp: path_item_def Let_def eval_nat_numeral split: if_splits list.splits)
  have "length (dropWhile (\<lambda>c. c \<noteq> quote_char) (drop 9 s)) \<le> length s"
    using length_dropWhile_le [of "\<lambda>c. c \<noteq> quote_char" "drop 9 s"] by simp
  with t show ?thesis by simp
qed

function path_items :: "string \<Rightarrow> string list" where
  "path_items s = (case path_item s of None \<Rightarrow> [] | Some (path, r) \<Rightarrow> path # path_items r)"
  by pat_completeness auto
termination by (relation "measure length") (auto dest: path_item_shorter)

declare path_items.simps [simp del]

text \<open>The paths of a trusted push trigger that starts here.\<close>

definition push_trigger :: "string \<Rightarrow> string list option" where
  "push_trigger s =
     (let start = unlines [''  push:'', ''    branches: [main]''] in
      if startswith s start then
        (let r = skip_comments (drop (length start) s); paths_line = unlines [''    paths:'']
         in if startswith r paths_line \<and> path_items (drop (length paths_line) r) \<noteq> []
            then Some (path_items (drop (length paths_line) r)) else None)
      else None)"

text \<open>\<open>re.search\<close> with \<open>(?m)^\<close>: the first line at which the trigger starts.\<close>

fun find_trigger :: "bool \<Rightarrow> string \<Rightarrow> string list option" where
  "find_trigger at_line [] = (if at_line then push_trigger [] else None)"
| "find_trigger at_line (c # s) =
     (case (if at_line then push_trigger (c # s) else None) of
        Some paths \<Rightarrow> Some paths
      | None \<Rightarrow> find_trigger (c = line_feed) s)"

text \<open>\<open>fnmatchcase\<close> of a pattern whose only special character is \<open>*\<close>, which matches any text.\<close>

fun fnmatch_star :: "string \<Rightarrow> string \<Rightarrow> bool" where
  "fnmatch_star [] s \<longleftrightarrow> s = []"
| "fnmatch_star (c # p) [] \<longleftrightarrow> c = CHR ''*'' \<and> fnmatch_star p []"
| "fnmatch_star (c # p) (d # s) \<longleftrightarrow>
     (if c = CHR ''*'' then fnmatch_star p (d # s) \<or> fnmatch_star (c # p) s else c = d \<and> fnmatch_star p s)"

definition selected_path :: "string \<Rightarrow> string list \<Rightarrow> bool" where
  "selected_path path patterns \<longleftrightarrow> list_ex (\<lambda>p. fnmatch_star p path) patterns"

section \<open>The producers\<close>

definition read_workflow :: "node \<Rightarrow> string \<Rightarrow> guard_error + string" where
  "read_workflow repo name =
     ebind (want_some (get_file repo (workflows_dir @ [name])) (Unreadable name)) (\<lambda>f. Inr (universal_newlines (raw f)))"

definition push_paths :: "node \<Rightarrow> string \<Rightarrow> guard_error + string list" where
  "push_paths repo workflow =
     ebind (read_workflow repo workflow) (\<lambda>text.
     let header = before_text (line_feed # ''jobs:'') text in
     ebind (want_some (find_trigger True header) (PathsMissing workflow)) (\<lambda>paths.
     ebind (eguard (contains ''  workflow_dispatch:'' header) (NoManualRun workflow)) (\<lambda>_.
     ebind (eguard (set paths = set (expected_paths workflow)) (WrongPaths workflow)) (\<lambda>_.
     ebind (eguard (\<not> contains ''  pull_request:'' header) (RunsForPulls workflow)) (\<lambda>_. Inr paths)))))"

definition selected_samples :: "string \<Rightarrow> string list" where
  "selected_samples workflow =
     [''csv-postgres/Cargo.toml'', ''csv-postgres/Cargo.lock'', ''.cargo/config.toml'', ''csv-postgres/.cargo/config.toml'', ''rust-toolchain.toml''] @
     (if workflow = ''sccache-main-producer.yml'' then [''.github/workflows/sccache-main-producer.yml'']
      else [''.github/workflows/sccache-final-main-producer.yml'', ''csv-postgres/ci/validate''])"

definition unselected_samples :: "string \<Rightarrow> string list" where
  "unselected_samples workflow =
     (if workflow = ''sccache-main-producer.yml'' then [''.github/workflows/sccache-final-main-producer.yml'', ''csv-postgres/ci/validate'']
      else [''.github/workflows/sccache-main-producer.yml'']) @
     [''csv-postgres/src/main.rs'', ''csv-postgres/tests/restart.rs'', ''postgres-postgres/Cargo.lock'', ''README.md'', ''docs/benchmark.md'',
      ''.github/workflows/hardening-drift-audit.yml'', ''.github/scripts/validate-workflow-security.py'']"

definition require_texts :: "string \<Rightarrow> string list \<Rightarrow> string \<Rightarrow> guard_error + unit" where
  "require_texts name needles text =
     ebind (emap (\<lambda>s. eguard (contains s text) (MissingText name s)) needles) (\<lambda>_. Inr ())"

definition producer_texts :: "string list" where
  "producer_texts =
     [''Verify protected-main authority'', ''actions/cache/save@'',
      ''steps.restore-sccache.outputs.cache-hit != '' @ [quote_char] @ ''true'' @ [quote_char]]"

definition check_producer :: "node \<Rightarrow> string \<Rightarrow> guard_error + unit" where
  "check_producer repo workflow =
     ebind (push_paths repo workflow) (\<lambda>paths.
     ebind (emap (\<lambda>p. eguard (selected_path p paths) (NotSelected workflow p)) (selected_samples workflow)) (\<lambda>_.
     ebind (emap (\<lambda>p. eguard (\<not> selected_path p paths) (WronglySelected workflow p)) (unselected_samples workflow)) (\<lambda>_.
     ebind (read_workflow repo workflow) (\<lambda>source. require_texts workflow producer_texts source))))"

section \<open>The consumers\<close>

definition consumers :: "(string \<times> string \<times> string) list" where
  "consumers =
     [(''fast-branch.yml'', ''workloads-fast-sccache-v1-linux-arm64-'', ''restore-sccache''),
      (''ci.yml'', ''workloads-final-csv-postgres-sccache-v1-linux-arm64-'', ''restore-final-sccache'')]"

definition key_test :: "string \<Rightarrow> string \<Rightarrow> string" where
  "key_test step operator = ''steps.'' @ step @ ''.outputs.cache-matched-key '' @ operator @ '' '' @ [quote_char, quote_char]"

definition hit_test :: string where
  "hit_test = ''cache-hit == '' @ [quote_char] @ ''true'' @ [quote_char]"

definition check_consumer :: "node \<Rightarrow> string \<times> string \<times> string \<Rightarrow> guard_error + unit" where
  "check_consumer repo consumer =
     (case consumer of (name, key, step) \<Rightarrow>
        ebind (read_workflow repo name) (\<lambda>source.
        ebind (require_texts name
          [''lock_prefix='' @ key, ''restore-keys: |'', ''outputs.lock_prefix'', key_test step ''!='', key_test step ''=='',
           ''SCCACHE_LOCAL_RW_MODE=READ_ONLY'', ''RUSTC_WRAPPER=sccache''] source) (\<lambda>_.
        ebind (eguard (\<not> contains hit_test source) (ForbiddenText name hit_test)) (\<lambda>_.
          require_texts name [''No compatible protected-main'', ''if read_errors != 0:'', ''if write_errors != rust_misses:'',
            ''if successful_writes != 0:''] source))))"

definition cache_guards :: "node \<Rightarrow> guard_error + unit" where
  "cache_guards repo =
     ebind (emap (check_producer repo) producers) (\<lambda>_. ebind (emap (check_consumer repo) consumers) (\<lambda>_. Inr ()))"

section \<open>What a producer runs for\<close>

lemma fnmatch_literal: "CHR ''*'' \<notin> set p \<Longrightarrow> fnmatch_star p s \<longleftrightarrow> s = p"
  by (induction p s rule: fnmatch_star.induct) auto

lemma fnmatch_stars: "fnmatch_star ''**'' s"
  by (induction s) auto

lemma fnmatch_tree: "CHR ''*'' \<notin> set p \<Longrightarrow> fnmatch_star (p @ ''**'') s \<longleftrightarrow> startswith s p"
proof (induction p arbitrary: s)
  case Nil
  then show ?case using fnmatch_stars [of s] by (simp add: startswith_def)
next
  case (Cons c p)
  then show ?case by (cases s) (auto simp: startswith_def)
qed

text \<open>The dependency inputs of a producer.\<close>

definition seed_input :: "string \<Rightarrow> string \<Rightarrow> bool" where
  "seed_input workflow path \<longleftrightarrow>
     startswith path ''.cargo/'' \<or> startswith path ''csv-postgres/.cargo/'' \<or>
     path \<in> {''csv-postgres/Cargo.toml'', ''csv-postgres/Cargo.lock'', ''csv-postgres/rust-toolchain'',
       ''csv-postgres/rust-toolchain.toml'', ''rust-toolchain'', ''rust-toolchain.toml''} \<or>
     path = ''.github/workflows/'' @ workflow \<or>
     (workflow = ''sccache-final-main-producer.yml'' \<and> path = ''csv-postgres/ci/validate'')"

lemma selected_expected:
  assumes "workflow \<in> set producers" "set paths = set (expected_paths workflow)"
  shows "selected_path path paths \<longleftrightarrow> seed_input workflow path"
proof -
  have tree: "fnmatch_star ''.cargo/**'' path \<longleftrightarrow> startswith path ''.cargo/''"
    "fnmatch_star ''csv-postgres/.cargo/**'' path \<longleftrightarrow> startswith path ''csv-postgres/.cargo/''"
    using fnmatch_tree [of "''.cargo/''" path] fnmatch_tree [of "''csv-postgres/.cargo/''" path] by simp_all
  have "selected_path path paths \<longleftrightarrow> (\<exists>p \<in> set (expected_paths workflow). fnmatch_star p path)"
    using assms(2) by (simp add: selected_path_def list_ex_iff)
  then show ?thesis
    using assms(1) by (auto simp: expected_paths_def common_paths_def producers_def tree fnmatch_literal seed_input_def)
qed

lemma push_paths_Inr:
  assumes "push_paths repo workflow = Inr paths" "workflow \<in> set producers"
  shows "(\<forall>path. selected_path path paths \<longleftrightarrow> seed_input workflow path) \<and>
    (\<exists>f. get_file repo (workflows_dir @ [workflow]) = Some f \<and>
       (let header = before_text (line_feed # ''jobs:'') (universal_newlines (raw f)) in
        find_trigger True header = Some paths \<and> contains ''  workflow_dispatch:'' header \<and> \<not> contains ''  pull_request:'' header))"
  using assms selected_expected [OF assms(2)]
  by (auto simp: push_paths_def read_workflow_def monad_simps Let_def)

section \<open>Workflows that pass\<close>

definition item_line :: "string \<Rightarrow> string" where
  "item_line path = ''      - '' @ [quote_char] @ path @ [quote_char]"

definition sample_producer :: "string \<Rightarrow> string list" where
  "sample_producer workflow =
     [''name: producer'', ''on:'', ''  workflow_dispatch:'', ''  push:'', ''    branches: [main]'', ''    # dependency inputs'', ''    paths:''] @
     map item_line (expected_paths workflow) @
     [''permissions: {}'', ''jobs:''] @ producer_texts"

definition sample_consumer :: "string \<times> string \<times> string \<Rightarrow> string list" where
  "sample_consumer consumer =
     (case consumer of (name, key, step) \<Rightarrow>
        [''lock_prefix='' @ key, ''restore-keys: |'', ''outputs.lock_prefix'', key_test step ''!='', key_test step ''=='',
         ''SCCACHE_LOCAL_RW_MODE=READ_ONLY'', ''RUSTC_WRAPPER=sccache'', ''No compatible protected-main'', ''if read_errors != 0:'',
         ''if write_errors != rust_misses:'', ''if successful_writes != 0:''])"

definition sample_cache_repo :: node where
  "sample_cache_repo =
     NDir [(''.github'', NDir [(''workflows'', NDir
       (map (\<lambda>w. (w, NFile (text_file (unlines (sample_producer w))))) producers @
        map (\<lambda>c. (fst c, NFile (text_file (unlines (sample_consumer c))))) consumers))])]"

lemma contains_unlines: "p \<in> set ls \<Longrightarrow> contains p (unlines ls)"
proof -
  assume "p \<in> set ls"
  then obtain xs ys where "ls = xs @ p # ys" by (auto dest: split_list)
  then have "unlines ls = unlines xs @ p @ (line_feed # unlines ys)" by (simp add: unlines_def)
  then show ?thesis by (auto simp: contains_iff)
qed

lemma require_texts_Inr: "require_texts name needles text = Inr () \<longleftrightarrow> list_all (\<lambda>s. contains s text) needles"
proof -
  have "isOK (require_texts name needles text) \<longleftrightarrow> list_all (\<lambda>s. contains s text) needles"
    by (simp add: require_texts_def list_all_iff isOK_emap [unfolded isOK_iff])
  then show ?thesis by (simp add: isOK_iff)
qed

lemma emap_guards: "(\<forall>x \<in> set xs. P x) \<Longrightarrow> emap (\<lambda>x. eguard (P x) (e x)) xs = Inr (map (\<lambda>_. ()) xs)"
  by (induction xs) simp_all

lemma no_carriage_return: "carriage_return \<notin> set s \<Longrightarrow> universal_newlines s = s"
  by (induction s rule: universal_newlines.induct) auto

lemma sample_push_1: "push_paths sample_cache_repo ''sccache-main-producer.yml'' = Inr (expected_paths ''sccache-main-producer.yml'')"
  by code_simp

lemma sample_push_2: "push_paths sample_cache_repo ''sccache-final-main-producer.yml'' = Inr (expected_paths ''sccache-final-main-producer.yml'')"
  by code_simp

lemma sample_hit: "list_all (\<lambda>c. \<not> contains hit_test (unlines (sample_consumer c))) consumers"
  by code_simp

lemma sample_clean:
  "list_all (\<lambda>w. carriage_return \<notin> set (unlines (sample_producer w))) producers"
  "list_all (\<lambda>c. carriage_return \<notin> set (unlines (sample_consumer c))) consumers"
  by code_simp+

lemma sample_read:
  "w \<in> set producers \<Longrightarrow> read_workflow sample_cache_repo w = Inr (unlines (sample_producer w))"
  "c \<in> set consumers \<Longrightarrow> read_workflow sample_cache_repo (fst c) = Inr (unlines (sample_consumer c))"
  using sample_clean
  by (auto simp: read_workflow_def sample_cache_repo_def workflows_dir_def producers_def consumers_def text_file_def no_carriage_return)

lemma sample_inputs:
  "list_all (\<lambda>w. list_all (seed_input w) (selected_samples w) \<and> list_all (\<lambda>p. \<not> seed_input w p) (unselected_samples w)) producers"
  by code_simp

lemma sample_producer_passes:
  assumes "w \<in> set producers"
  shows "check_producer sample_cache_repo w = Inr ()"
proof -
  have push: "push_paths sample_cache_repo w = Inr (expected_paths w)"
    using assms sample_push_1 sample_push_2 by (auto simp: producers_def)
  have sel: "selected_path p (expected_paths w) \<longleftrightarrow> seed_input w p" for p
    by (rule selected_expected [OF assms refl])
  have "list_all (\<lambda>s. contains s (unlines (sample_producer w))) producer_texts"
    by (auto simp: list_all_iff sample_producer_def intro!: contains_unlines)
  then show ?thesis
    using sample_inputs assms
    by (simp add: check_producer_def push sample_read require_texts_Inr emap_guards sel list_all_iff)
qed

lemma sample_consumer_passes:
  assumes "c \<in> set consumers"
  shows "check_consumer sample_cache_repo c = Inr ()"
proof -
  obtain name key step where c: "c = (name, key, step)" by (cases c) auto
  have r: "read_workflow sample_cache_repo name = Inr (unlines (sample_consumer c))"
    using sample_read(2) [OF assms] by (simp only: c fst_conv)
  have hit: "\<not> contains hit_test (unlines (sample_consumer c))"
    using bspec [OF sample_hit [unfolded list_all_iff] assms] .
  have req: "list_all (\<lambda>s. contains s (unlines (sample_consumer c)))
      [''lock_prefix='' @ key, ''restore-keys: |'', ''outputs.lock_prefix'', key_test step ''!='', key_test step ''=='',
       ''SCCACHE_LOCAL_RW_MODE=READ_ONLY'', ''RUSTC_WRAPPER=sccache'']"
    "list_all (\<lambda>s. contains s (unlines (sample_consumer c)))
      [''No compatible protected-main'', ''if read_errors != 0:'', ''if write_errors != rust_misses:'', ''if successful_writes != 0:'']"
    by (simp_all add: c sample_consumer_def contains_unlines)
  show ?thesis
    unfolding check_consumer_def c prod.case r [unfolded c] ebind_simps
    using hit req unfolding c require_texts_Inr [symmetric, where name = name] by simp
qed

lemma sample_guards: "cache_guards sample_cache_repo = Inr ()"
proof -
  have "emap (check_producer sample_cache_repo) producers = Inr (map (\<lambda>_. ()) producers)"
    "emap (check_consumer sample_cache_repo) consumers = Inr (map (\<lambda>_. ()) consumers)"
    using sample_producer_passes sample_consumer_passes by (auto intro: emap_pure)
  then show ?thesis by (simp add: cache_guards_def)
qed

text \<open>
  C40. In a repository that passes the cache contract a producer can be started by hand, does not run for
  pull requests, and runs for a push to main exactly if it changes one of its dependency inputs: a
  file below a \<open>.cargo\<close> directory, the manifest, the lock file or a toolchain file, the producer
  itself or, for the final producer, the script it caches for.
\<close>

theorem producers_run_for_dependencies:
  assumes "cache_guards repo = Inr ()" "workflow \<in> set producers"
  shows "\<exists>paths f. push_paths repo workflow = Inr paths \<and> (\<forall>path. selected_path path paths \<longleftrightarrow> seed_input workflow path) \<and>
    get_file repo (workflows_dir @ [workflow]) = Some f \<and>
    (let header = before_text (line_feed # ''jobs:'') (universal_newlines (raw f)) in
     find_trigger True header = Some paths \<and> contains ''  workflow_dispatch:'' header \<and> \<not> contains ''  pull_request:'' header)"
proof -
  have "\<forall>w \<in> set producers. isOK (check_producer repo w)"
    using assms(1) unfolding cache_guards_def by (metis ebind_Inr_iff isOK_emap isOK_iff)
  then obtain paths where "push_paths repo workflow = Inr paths"
    using assms(2) by (auto simp: check_producer_def isOK_iff monad_simps)
  with push_paths_Inr [OF this assms(2)] show ?thesis by blast
qed

theorem producers_run_for_dependencies_witness:
  "\<exists>paths. push_paths sample_cache_repo ''sccache-main-producer.yml'' = Inr paths \<and>
    (\<forall>path. selected_path path paths \<longleftrightarrow> seed_input ''sccache-main-producer.yml'' path)"
  using producers_run_for_dependencies [OF sample_guards, of "''sccache-main-producer.yml''"] by (auto simp: producers_def)

end
