(* ===== verification/Spec2Isabelle.thy ===== *)
theory Spec2Isabelle
  imports Shards Audit_Issue Release_Policy Preflight Track_F Recovery Paired_Run Partition_Evidence Settings_Contract Cache_Guards
begin

text \<open>
  Verification library of the repository's Python programs: the continuous-integration authority that
  decides whether a workload, its evidence, its supply chain and a release are accepted, and the
  qualification and benchmark harnesses that produce the evidence. File names are relative to \<open>src/\<close>;
  \<open>scripts/\<close> stands for \<open>.github/scripts/\<close>.

  \<^bold>\<open>Conventions.\<close> A raised exception is \<open>Inl e\<close> of the component's error type, with one constructor
  (or one short text) for every \<open>raise\<close>; an early return or exit code is the value it returns. JSON, TOML
  and SARIF documents are values of \<open>json\<close>, whose operations raise where Python's do (\<open>d[k]\<close>, \<open>v.get\<close>,
  iteration, truth, \<open>==\<close> across numbers). A repository is a tree (\<open>node\<close>) whose files carry their text
  and what the decoders of the standard library make of it. Whatever talks to a service, a process or
  a clock is a function of the history of its requests, so that the world may answer the same request
  differently each time. A definition bears the name of its function in the source unless that name
  clashes.

  \<^bold>\<open>Foundations.\<close>
  \<^item> \<open>Base\<close>: the error monad and its inversion rules (\<open>monad_simps\<close>), \<open>emap\<close>, guards, string
    functions (\<open>strip\<close>, \<open>splitlines\<close>, \<open>split_on\<close>, \<open>contains\<close>), association lists.
  \<^item> \<open>Json\<close>, \<open>Filesystem\<close>: decoded values, and checked-out trees with symbolic links, globbing and writing.
  \<^item> \<open>Floats\<close>, \<open>Rounding\<close>, \<open>Statistics\<close>: IEEE doubles as rationals with rounding to nearest even, the
    linear order of floats, Python's operators, \<open>statistics.median\<close>, percentiles and distributions. The
    rounding lemmas show monotonicity, exactness on doubles and the relative error.
  \<^item> \<open>Actions\<close>, \<open>Programs\<close>: programs over a history of requests, without and with waiting loops.
    \<open>grows\<close> and \<open>requests\<close> bound what a program asks for, \<open>returns\<close> states that it ends, \<open>triple\<close> and
    \<open>ends\<close> (in \<open>Harness\<close>) are Hoare rules over histories.
  \<^item> \<open>Verifiers\<close>: what the retained-evidence verifiers share, with the locale \<open>violations_verifier\<close>.

  \<^bold>\<open>Inventory and results.\<close>
  \<^item> \<open>Registry\<close>: \<open>scripts/validate-workload-registry.py\<close> and the three \<open>discover\<close> scripts. The
    validator is shown equivalent to a declarative specification; the locale \<open>registry_contract\<close> states
    what its clients rely on.
  \<^item> \<open>Shards\<close>: \<open>scripts/write-shard-result.py\<close>, \<open>scripts/synthesize-msrv-not-applicable.py\<close> and
    \<open>scripts/aggregate_verdict.py\<close>, and the whole path from discovery to the aggregate's exit code.
  \<^item> \<open>Scope\<close>: \<open>scripts/detect-pr-qualification-scope.py\<close>.

  \<^bold>\<open>Supply chain and issues.\<close>
  \<^item> \<open>Supply\<close>: \<open>scripts/validate-supply-chain.py\<close>, \<open>scripts/run-supply-chain-authority.py\<close>,
    \<open>scripts/run-scheduled-supply-chain-audit.py\<close>.
  \<^item> \<open>Paging\<close>, \<open>Labels\<close>, \<open>Audit_Issue\<close>: the paged GitHub listings, \<open>scripts/validate-label-taxonomy.py\<close>,
    \<open>scripts/reconcile-labels.py\<close>, \<open>scripts/audit_issue.py\<close> and the two reporters; the locale
    \<open>audit_contract\<close> is interpreted for both reporters.
  \<^item> \<open>Drift\<close>, \<open>Settings_Contract\<close>: \<open>scripts/run-hardening-drift-audit.py\<close>, and the contract of the
    settings policy it reads, \<open>scripts/test-repository-settings-policy.py\<close>.

  \<^bold>\<open>Provenance, evidence, workflows and release.\<close>
  \<^item> \<open>Provenance\<close>: \<open>scripts/validate-oxidebatch-provenance.py\<close>.
  \<^item> \<open>Closure\<close>, \<open>Evidence\<close>: \<open>scripts/validate-evidence.py\<close>, its semantic closure over a Git tree, and
    its records, retention and subjects.
  \<^item> \<open>Workflow_Security\<close>, \<open>Cache_Guards\<close>: \<open>scripts/validate-workflow-security.py\<close> and
    \<open>scripts/test-cache-producer-guards.py\<close>. Regular expressions are scanners over the text.
  \<^item> \<open>Codeql_Verdict\<close>, \<open>Preflight\<close>, \<open>Release_Policy\<close>: \<open>scripts/release-codeql-verdict.py\<close>,
    \<open>tools/ci/release_codeql_preflight.py\<close>, \<open>tools/ci/verify_release_codeql_policy.py\<close>.

  \<^bold>\<open>Retained evidence, qualification and benchmarks.\<close>
  \<^item> \<open>Csv_Evidence\<close>, \<open>Pg_Evidence\<close>, \<open>Track_F\<close>, \<open>Partition_Evidence\<close>: the four verifiers of retained
    evidence under \<open>csv-postgres/validation/\<close>, \<open>postgres-postgres/validation/\<close> and
    \<open>postgres-local-partition/validation/\<close>, each an interpretation of \<open>violations_verifier\<close>.
  \<^item> \<open>Recovery\<close>: \<open>postgres-local-partition/ci/validate-recovery.py\<close>, the kill-and-resume qualification.
  \<^item> \<open>Harness\<close>, \<open>Paired\<close>, \<open>Paired_Run\<close>: \<open>postgres-postgres/benchmark/paired.py\<close>: the host and its
    primitives, parsers and arithmetic, and the runs, samples, pairs and campaign.
  \<^item> \<open>Scale\<close>: the decisions of \<open>postgres-local-partition/benchmark/scale.py\<close>.

  \<^bold>\<open>How the parts interact.\<close> The registry feeds discovery, and discovery the shards, the supply-chain
  authority, provenance and evidence; \<open>Shards\<close> composes registry, discovery, synthesis and aggregate;
  \<open>Supply\<close> composes scan, authority and scheduled audit, whose findings \<open>Audit_Issue\<close> turns into the one
  owned issue; \<open>Drift\<close> runs the label reconciliation of \<open>Labels\<close> on live items and reads the policy that
  \<open>Settings_Contract\<close> checks; \<open>Release_Policy\<close> requires that a publisher is gated by the job \<open>Preflight\<close>
  models, which downloads the verdicts that \<open>Codeql_Verdict\<close> issues; the workloads' verifiers are what
  \<open>Evidence\<close> requires to be pinned.

  \<^bold>\<open>Loops and termination.\<close> Every recursive definition is total, by structural recursion or a measure,
  except the waiting loops \<open>poll\<close> (\<open>Programs\<close>) and \<open>poll_loop\<close> (\<open>Preflight\<close>), which are
  \<open>partial_function (option)\<close>: \<open>None\<close> is a loop that never ends. They return whenever the clock advances by
  a fixed amount with every nap (\<open>napping_clock\<close>), which the theorems that need it assume; no fuel is
  used. The pagination loops end because a listing is finite.

  \<^bold>\<open>Parameters.\<close> Code outside the repository is a parameter: SHA-256, Git's objects and history,
  cargo, cargo-deny, the GitHub API, PostgreSQL, the measured binaries, clocks and the runner. A theorem
  that relies on a documented behaviour of one of them names it as an assumption and is applied to a
  concrete instance by its witness.

  \<^bold>\<open>Limits of the model.\<close> Texts are ASCII for \<open>upper\<close>, \<open>lower\<close>, \<open>isdigit\<close> and white space. Messages
  are shortened: a violation or an exception is a constructor or a short text, without the values it
  quotes. Paths that leave the repository through \<open>..\<close> lead nowhere. Environment variables of started
  programs and purely cosmetic output are left out.

  \<^bold>\<open>Not modelled.\<close> The unit tests and self-tests, which are examples of the programs under test; tests of
  shell scripts and of cargo-deny policies; the input and output of \<open>scale.py\<close> (docker, psql, the session
  observer); and everything that is no Python: the Rust and Java workloads, shell scripts, workflows.
\<close>

end
